(* ===== verification/VMOp_Prelude.thy ===== *)
theory VMOp_Prelude
  imports Main "HOL-Library.Multiset" "HOL-Library.Code_Target_Nat" "HOL-Library.Char_ord" "HOL-Library.List_Lexorder"
begin

text \<open>
  Shared vocabulary of the development: the Go values every component uses (errors, object
  keys, times, \<^verbatim>\<open>int32\<close>), decimal formatting of integers, Go's sorting routines and the
  generic facts on lists and options that the component proofs rest on.

  Go's \<^verbatim>\<open>sort.Slice\<close> and \<^verbatim>\<open>sort.Sort\<close> promise a permutation of the input that is sorted with
  respect to the comparison; \<open>go_sort\<close> is the insertion sort they run on short slices. The locale
  \<open>strict_weak_order\<close> states what a comparison must satisfy for the promise to hold, and its
  lemma \<open>sorted_unique\<close> shows that on elements with distinct keys every algorithm with that
  promise computes the same list, so that nothing proved here depends on the choice.
\<close>

section \<open>Theorem collections\<close>

named_theorems cond_simps \<open>equations of the conditions package\<close>
named_theorems hw_simps \<open>equations of the hardware model\<close>
named_theorems hw_consts \<open>the string constants of the hardware API\<close>

section \<open>Go values\<close>

type_synonym goerror = string

text \<open>A time is the number of nanoseconds since Go's zero time, so that 0 is the zero value.\<close>

type_synonym gotime = nat

definition time_IsZero :: "gotime \<Rightarrow> bool" where
  "time_IsZero t \<longleftrightarrow> t = 0"

text \<open>\<^verbatim>\<open>t.Truncate(time.Second)\<close> rounds down to a multiple of a second since the zero time.\<close>

definition time_TruncateSecond :: "gotime \<Rightarrow> gotime" where
  "time_TruncateSecond t = t - t mod 1000000000"

lemma time_TruncateSecond_le: "time_TruncateSecond t \<le> t"
  by (simp add: time_TruncateSecond_def)

text \<open>The value an \<^verbatim>\<open>int32\<close> variable holds after an arithmetic operation whose exact result is n.\<close>

definition int32_of :: "int \<Rightarrow> int" where
  "int32_of n = (n + 2147483648) mod 4294967296 - 2147483648"

definition is_int32 :: "int \<Rightarrow> bool" where
  "is_int32 n \<longleftrightarrow> - 2147483648 \<le> n \<and> n < 2147483648"

lemma int32_of_id: "is_int32 n \<Longrightarrow> int32_of n = n"
  by (simp add: int32_of_def is_int32_def)

lemma is_int32_int32_of: "is_int32 (int32_of n)"
  by (simp add: int32_of_def is_int32_def)

section \<open>Strings and maps of strings\<close>

type_synonym labels = "string \<rightharpoonup> string"

text \<open>The verb \<^verbatim>\<open>%q\<close> on a name, which has no character to escape.\<close>

definition go_quote :: "string \<Rightarrow> string" where
  "go_quote s = [CHR 0x22] @ s @ [CHR 0x22]"

text \<open>Reading a nil Go map gives no entry.\<close>

definition labels_of :: "labels option \<Rightarrow> labels" where
  "labels_of l = (case l of None \<Rightarrow> Map.empty | Some m \<Rightarrow> m)"

fun go_join :: "string \<Rightarrow> string list \<Rightarrow> string" where
  "go_join sep [] = []"
| "go_join sep [s] = s"
| "go_join sep (s # ss) = s @ sep @ go_join sep ss"

definition ToLower :: "string \<Rightarrow> string" where
  "ToLower s = map (\<lambda>c. if CHR ''A'' \<le> c \<and> c \<le> CHR ''Z'' then char_of (of_char c + (32 :: nat)) else c) s"

section \<open>Decimal formatting\<close>

definition digit_char :: "nat \<Rightarrow> char" where
  "digit_char d = char_of (48 + d)"

fun show_nat :: "nat \<Rightarrow> string" where
  "show_nat n = (if n < 10 then [digit_char n] else show_nat (n div 10) @ [digit_char (n mod 10)])"

declare show_nat.simps [simp del]

definition show_int :: "int \<Rightarrow> string" where
  "show_int i = (if i < 0 then ''-'' @ show_nat (nat (- i)) else show_nat (nat i))"

definition digit_val :: "char \<Rightarrow> nat" where
  "digit_val c = of_char c - 48"

fun read_digits :: "nat \<Rightarrow> string \<Rightarrow> nat" where
  "read_digits acc [] = acc"
| "read_digits acc (c # cs) = read_digits (10 * acc + digit_val c) cs"

lemma digit_val_char: "d < 10 \<Longrightarrow> digit_val (digit_char d) = d"
  by (simp add: digit_val_def digit_char_def)

lemma read_digits_append: "read_digits acc (s @ t) = read_digits (read_digits acc s) t"
  by (induction s arbitrary: acc) auto

lemma read_show_nat: "read_digits 0 (show_nat n) = n"
proof (induction n rule: show_nat.induct)
  case (1 n)
  show ?case
  proof (cases "n < 10")
    case True
    then show ?thesis by (simp add: show_nat.simps [of n] digit_val_char)
  next
    case False
    with 1 have "read_digits 0 (show_nat (n div 10)) = n div 10" by simp
    with False show ?thesis
      by (simp add: show_nat.simps [of n] read_digits_append digit_val_char)
  qed
qed

lemma show_nat_digits: "show_nat n \<noteq> [] \<and> list_all (\<lambda>c. c \<in> set ''0123456789'') (show_nat n)"
proof (induction n rule: show_nat.induct)
  case (1 n)
  have "list_all (\<lambda>d. digit_char d \<in> set ''0123456789'') [0..<10]" by code_simp
  then have "digit_char d \<in> set ''0123456789''" if "d < 10" for d
    using that unfolding list_all_iff set_upt by simp
  with 1 show ?case by (cases "n < 10") (simp_all add: show_nat.simps [of n])
qed

lemma show_nat_inject: "show_nat m = show_nat n \<longleftrightarrow> m = n"
  by (metis read_show_nat)

section \<open>Sorting\<close>

fun insert_by :: "('a \<Rightarrow> 'a \<Rightarrow> bool) \<Rightarrow> 'a \<Rightarrow> 'a list \<Rightarrow> 'a list" where
  "insert_by lt x [] = [x]"
| "insert_by lt x (y # ys) = (if lt y x then y # insert_by lt x ys else x # y # ys)"

fun go_sort :: "('a \<Rightarrow> 'a \<Rightarrow> bool) \<Rightarrow> 'a list \<Rightarrow> 'a list" where
  "go_sort lt [] = []"
| "go_sort lt (x # xs) = insert_by lt x (go_sort lt xs)"

abbreviation sorted_by :: "('a \<Rightarrow> 'a \<Rightarrow> bool) \<Rightarrow> 'a list \<Rightarrow> bool" where
  "sorted_by lt xs \<equiv> sorted_wrt (\<lambda>x y. \<not> lt y x) xs"

lemma mset_insert_by: "mset (insert_by lt x xs) = add_mset x (mset xs)"
  by (induction xs) auto

lemma mset_go_sort [simp]: "mset (go_sort lt xs) = mset xs"
  by (induction xs) (auto simp: mset_insert_by)

lemma set_insert_by: "set (insert_by lt x xs) = insert x (set xs)"
  by (induction xs) auto

lemma set_go_sort [simp]: "set (go_sort lt xs) = set xs"
  by (induction xs) (auto simp: set_insert_by)

lemma length_go_sort [simp]: "length (go_sort lt xs) = length xs"
  using mset_go_sort mset_eq_length by blast

lemma distinct_map_mset_eq: "mset xs = mset ys \<Longrightarrow> distinct (map f xs) \<longleftrightarrow> distinct (map f ys)"
  by (metis mset_eq_imp_distinct_iff mset_map)

lemma distinct_map_go_sort [simp]: "distinct (map f (go_sort lt xs)) \<longleftrightarrow> distinct (map f xs)"
  by (rule distinct_map_mset_eq) simp

lemma go_sort_sorted_id: "sorted_by lt xs \<Longrightarrow> go_sort lt xs = xs"
proof (induction xs)
  case Nil
  then show ?case by simp
next
  case (Cons x xs)
  then have "go_sort lt xs = xs" by simp
  with Cons.prems show ?case by (cases xs) auto
qed

locale strict_weak_order =
  fixes lt :: "'a \<Rightarrow> 'a \<Rightarrow> bool"
    and key :: "'a \<Rightarrow> 'k"
  assumes less_asym: "lt x y \<Longrightarrow> \<not> lt y x"
    and less_negtrans: "\<not> lt x y \<Longrightarrow> \<not> lt y z \<Longrightarrow> \<not> lt x z"
    and less_total: "key x \<noteq> key y \<Longrightarrow> lt x y \<or> lt y x"
begin

lemma less_irrefl: "\<not> lt x x"
  using less_asym by blast

lemma insert_by_sorted: "sorted_by lt xs \<Longrightarrow> sorted_by lt (insert_by lt x xs)"
proof (induction xs)
  case Nil
  then show ?case by simp
next
  case (Cons y ys)
  have "\<not> lt z x" if "\<not> lt y x" and "z \<in> set ys" for z
    using that Cons.prems less_negtrans [of z y x] by auto
  with Cons show ?case
    by (auto simp: set_insert_by dest: less_asym)
qed

lemma go_sort_sorted: "sorted_by lt (go_sort lt xs)"
  by (induction xs) (auto simp: insert_by_sorted)

lemma sorted_unique:
  assumes "mset xs = mset ys" and "sorted_by lt xs" and "sorted_by lt ys"
    and "distinct (map key xs)"
  shows "xs = ys"
  using assms
proof (induction xs arbitrary: ys)
  case Nil
  then show ?case by simp
next
  case (Cons x xs)
  from Cons.prems(1) obtain y ys' where ys: "ys = y # ys'"
    by (cases ys) auto
  have sets: "set (x # xs) = set (y # ys')"
    using Cons.prems(1) ys by (metis set_mset_mset)
  have "x = y"
  proof (rule ccontr)
    assume ne: "x \<noteq> y"
    with sets have "y \<in> set xs" and "x \<in> set ys'" by auto
    with Cons.prems(2,3) ys have "\<not> lt y x" and "\<not> lt x y" by auto
    then have "key x = key y" using less_total by blast
    with \<open>y \<in> set xs\<close> Cons.prems(4) show False by auto
  qed
  with Cons ys show ?case by auto
qed

lemma go_sort_unique:
  assumes "mset ys = mset xs" and "sorted_by lt ys" and "distinct (map key xs)"
  shows "go_sort lt xs = ys"
  using assms by (intro sorted_unique [OF _ go_sort_sorted]) auto

lemma go_sort_perm:
  assumes "mset xs = mset ys" and "distinct (map key xs)"
  shows "go_sort lt xs = go_sort lt ys"
  using assms by (intro go_sort_unique go_sort_sorted) auto

end

section \<open>Lookup by key in a list of records\<close>

text \<open>
  The pattern of every getter over a Go slice: the first element whose key is the wanted one.
\<close>

fun find_by :: "('a \<Rightarrow> 'k) \<Rightarrow> 'a list \<Rightarrow> 'k \<Rightarrow> 'a option" where
  "find_by f [] k = None"
| "find_by f (x # xs) k = (if f x = k then Some x else find_by f xs k)"

lemma find_by_None: "find_by f xs k = None \<longleftrightarrow> k \<notin> f ` set xs"
  by (induction xs) auto

lemma find_by_SomeD: "find_by f xs k = Some x \<Longrightarrow> x \<in> set xs \<and> f x = k"
  by (induction xs) (auto split: if_splits)

lemma find_by_distinct: "distinct (map f xs) \<Longrightarrow> find_by f xs k = Some x \<longleftrightarrow> x \<in> set xs \<and> f x = k"
  by (induction xs) (auto simp: image_iff)

lemma find_by_cong_set:
  assumes "distinct (map f xs)" and "distinct (map f ys)" and "set xs = set ys"
  shows "find_by f xs k = find_by f ys k"
proof (cases "find_by f ys k")
  case None
  with assms(3) have "find_by f xs k = None" by (simp add: find_by_None)
  with None show ?thesis by simp
next
  case (Some y)
  with assms have "find_by f xs k = Some y" by (simp add: find_by_distinct)
  with Some show ?thesis by simp
qed

lemma find_by_mset:
  assumes "distinct (map f xs)" and "mset xs = mset ys"
  shows "find_by f ys k = find_by f xs k"
proof (rule find_by_cong_set)
  show "distinct (map f ys)" using assms distinct_map_mset_eq by blast
  show "set ys = set xs" using assms(2) by (metis set_mset_mset)
qed (fact assms(1))

lemma find_by_append: "find_by f (xs @ ys) k =
    (case find_by f xs k of Some x \<Rightarrow> Some x | None \<Rightarrow> find_by f ys k)"
  by (induction xs) auto

lemma find_by_append_left: "find_by f ys k = None \<Longrightarrow> find_by f (xs @ ys) k = find_by f xs k"
  by (induction xs) auto

lemma find_by_append_right: "find_by f xs k = None \<Longrightarrow> find_by f (xs @ ys) k = find_by f ys k"
  by (induction xs) (auto split: if_splits)

lemma find_by_filter_other: "k \<noteq> t \<Longrightarrow> find_by f (filter (\<lambda>x. f x \<noteq> t) xs) k = find_by f xs k"
  by (induction xs) auto

lemma find_by_filter_same: "find_by f (filter (\<lambda>x. f x \<noteq> t) xs) t = None"
  by (induction xs) auto

end
