(* ===== verification/Conditions.thy ===== *)
theory Conditions
  imports VMOp_Prelude
begin

text \<open>
  The package \<^verbatim>\<open>pkg/conditions\<close>, its slice type and its accessors: \<^verbatim>\<open>conditions.go\<close>,
  \<^verbatim>\<open>setter.go\<close> and the getters of \<^verbatim>\<open>getter.go\<close>. A condition is the record of
  \<^verbatim>\<open>metav1.Condition\<close>; its status is a string type, so statuses other than the three constants
  are representable. The clock \<^verbatim>\<open>time.Now()\<close> is the argument \<open>now\<close>. Operations of the
  slice type \<^verbatim>\<open>Conditions\<close> carry the prefix \<open>Conditions_\<close>, the functions of the package on an
  object (\<^verbatim>\<open>Getter\<close>, \<^verbatim>\<open>Setter\<close>) have their plain names. The format arguments of
  \<^verbatim>\<open>FalseCondition\<close> and its kin are passed as the formatted message.

  The invariant \<open>wf_conditions\<close> (one condition per type, Ready first, the others by type) is kept
  by every operation, and lookups after an update return what the contract says; the locale
  \<open>condition_store\<close> states that contract for the components that write conditions.
\<close>

section \<open>Data\<close>

record condition =
  ctype :: string
  cstatus :: string
  observedGeneration :: int
  lastTransitionTime :: gotime
  reason :: string
  message :: string

definition ConditionTrue :: string where "ConditionTrue = ''True''"

definition ConditionFalse :: string where "ConditionFalse = ''False''"

definition ConditionUnknown :: string where "ConditionUnknown = ''Unknown''"

definition ReadyConditionType :: string where "ReadyConditionType = ''Ready''"

type_synonym conditions = "condition list"

text \<open>
  An object that carries conditions. \<open>objName\<close> is its name when it implements
  \<^verbatim>\<open>metav1.Object\<close>, \<open>objKind\<close> its kind when it implements \<^verbatim>\<open>runtime.Object\<close>.
\<close>

record getter =
  conds :: conditions
  objName :: "string option"
  objKind :: "string option"

definition GetConditions :: "getter \<Rightarrow> conditions" where
  "GetConditions g = conds g"

definition SetConditions :: "getter \<Rightarrow> conditions \<Rightarrow> getter" where
  "SetConditions g l = g\<lparr>conds := l\<rparr>"

definition c4g :: "getter \<Rightarrow> conditions" where
  "c4g g = GetConditions g"

section \<open>Reading\<close>

fun Conditions_Get :: "conditions \<Rightarrow> string \<Rightarrow> condition option" where
  "Conditions_Get [] t = None"
| "Conditions_Get (c # l) t = (if ctype c = t then Some c else Conditions_Get l t)"

definition Conditions_Has :: "conditions \<Rightarrow> string \<Rightarrow> bool" where
  "Conditions_Has l t \<longleftrightarrow> Conditions_Get l t \<noteq> None"

definition Conditions_IsTrue :: "conditions \<Rightarrow> string \<Rightarrow> bool" where
  "Conditions_IsTrue l t =
     (case Conditions_Get l t of Some c \<Rightarrow> cstatus c = ConditionTrue | None \<Rightarrow> False)"

definition Conditions_IsFalse :: "conditions \<Rightarrow> string \<Rightarrow> bool" where
  "Conditions_IsFalse l t =
     (case Conditions_Get l t of Some c \<Rightarrow> cstatus c = ConditionFalse | None \<Rightarrow> False)"

definition Conditions_IsUnknown :: "conditions \<Rightarrow> string \<Rightarrow> bool" where
  "Conditions_IsUnknown l t =
     (case Conditions_Get l t of Some c \<Rightarrow> cstatus c = ConditionUnknown | None \<Rightarrow> True)"

definition Conditions_GetReason :: "conditions \<Rightarrow> string \<Rightarrow> string" where
  "Conditions_GetReason l t = (case Conditions_Get l t of Some c \<Rightarrow> reason c | None \<Rightarrow> [])"

definition Conditions_GetMessage :: "conditions \<Rightarrow> string \<Rightarrow> string" where
  "Conditions_GetMessage l t = (case Conditions_Get l t of Some c \<Rightarrow> message c | None \<Rightarrow> [])"

definition Conditions_GetLastTransitionTime :: "conditions \<Rightarrow> string \<Rightarrow> gotime option" where
  "Conditions_GetLastTransitionTime l t = map_option lastTransitionTime (Conditions_Get l t)"

definition Get :: "getter \<Rightarrow> string \<Rightarrow> condition option" where
  "Get from t = Conditions_Get (c4g from) t"

definition Has :: "getter \<Rightarrow> string \<Rightarrow> bool" where
  "Has from t = Conditions_Has (c4g from) t"

definition IsTrue :: "getter \<Rightarrow> string \<Rightarrow> bool" where
  "IsTrue from t = Conditions_IsTrue (c4g from) t"

definition IsFalse :: "getter \<Rightarrow> string \<Rightarrow> bool" where
  "IsFalse from t = Conditions_IsFalse (c4g from) t"

definition IsUnknown :: "getter \<Rightarrow> string \<Rightarrow> bool" where
  "IsUnknown from t = Conditions_IsUnknown (c4g from) t"

definition GetReason :: "getter \<Rightarrow> string \<Rightarrow> string" where
  "GetReason from t = Conditions_GetReason (c4g from) t"

definition GetMessage :: "getter \<Rightarrow> string \<Rightarrow> string" where
  "GetMessage from t = Conditions_GetMessage (c4g from) t"

definition GetLastTransitionTime :: "getter \<Rightarrow> string \<Rightarrow> gotime option" where
  "GetLastTransitionTime from t = Conditions_GetLastTransitionTime (c4g from) t"

section \<open>Writing\<close>

definition hasSameState :: "condition \<Rightarrow> condition \<Rightarrow> bool" where
  "hasSameState a b \<longleftrightarrow>
     ctype a = ctype b \<and> cstatus a = cstatus b \<and> reason a = reason b \<and> message a = message b"

definition lexicographicLess :: "condition \<Rightarrow> condition \<Rightarrow> bool" where
  "lexicographicLess a b \<longleftrightarrow>
     (ctype a = ReadyConditionType \<or> ctype a < ctype b) \<and> ctype b \<noteq> ReadyConditionType"

text \<open>
  The loop of \<^verbatim>\<open>Set\<close> that looks for a condition of the same type. The result is the slice and,
  when the type exists, the argument with the transition time the loop gives it.
\<close>

fun set_existing :: "gotime \<Rightarrow> condition \<Rightarrow> conditions \<Rightarrow> conditions \<times> condition option" where
  "set_existing now c [] = ([], None)"
| "set_existing now c (e # l) =
     (if ctype e = ctype c then
        (if \<not> hasSameState e c then
           (let c' = c\<lparr>lastTransitionTime := time_TruncateSecond now\<rparr> in (c' # l, Some c'))
         else (e # l, Some (c\<lparr>lastTransitionTime := lastTransitionTime e\<rparr>)))
      else (let (l', r) = set_existing now c l in (e # l', r)))"

text \<open>
  \<^verbatim>\<open>Set\<close> also writes the transition time into the condition its argument points to; the second
  component of the result is that condition.
\<close>

definition Conditions_Set_ptr ::
    "gotime \<Rightarrow> conditions \<Rightarrow> condition \<Rightarrow> conditions \<times> condition" where
  "Conditions_Set_ptr now l c =
     (let (l1, r) = set_existing now c l;
          (l2, c2) =
            (case r of
               Some c' \<Rightarrow> (l1, c')
             | None \<Rightarrow>
                 let c' = (if time_IsZero (lastTransitionTime c)
                           then c\<lparr>lastTransitionTime := time_TruncateSecond now\<rparr> else c)
                 in (l1 @ [c'], c'))
      in (go_sort lexicographicLess l2, c2))"

definition Conditions_Set :: "gotime \<Rightarrow> conditions \<Rightarrow> condition option \<Rightarrow> conditions" where
  "Conditions_Set now l c =
     (case c of None \<Rightarrow> l | Some c' \<Rightarrow> fst (Conditions_Set_ptr now l c'))"

definition TrueCondition :: "string \<Rightarrow> condition" where
  "TrueCondition t =
     \<lparr>ctype = t, cstatus = ConditionTrue, observedGeneration = 0, lastTransitionTime = 0,
      reason = ConditionTrue, message = []\<rparr>"

definition FalseCondition :: "string \<Rightarrow> string \<Rightarrow> string \<Rightarrow> condition" where
  "FalseCondition t r msg =
     \<lparr>ctype = t, cstatus = ConditionFalse, observedGeneration = 0, lastTransitionTime = 0,
      reason = (if r = [] then ConditionFalse else r), message = msg\<rparr>"

definition UnknownCondition :: "string \<Rightarrow> string \<Rightarrow> string \<Rightarrow> condition" where
  "UnknownCondition t r msg =
     \<lparr>ctype = t, cstatus = ConditionUnknown, observedGeneration = 0, lastTransitionTime = 0,
      reason = (if r = [] then ConditionUnknown else r), message = msg\<rparr>"

definition Conditions_MarkTrue :: "gotime \<Rightarrow> conditions \<Rightarrow> string \<Rightarrow> conditions" where
  "Conditions_MarkTrue now l t = Conditions_Set now l (Some (TrueCondition t))"

definition Conditions_MarkUnknown ::
    "gotime \<Rightarrow> conditions \<Rightarrow> string \<Rightarrow> string \<Rightarrow> string \<Rightarrow> conditions" where
  "Conditions_MarkUnknown now l t r msg = Conditions_Set now l (Some (UnknownCondition t r msg))"

definition Conditions_MarkFalse ::
    "gotime \<Rightarrow> conditions \<Rightarrow> string \<Rightarrow> string \<Rightarrow> string \<Rightarrow> conditions" where
  "Conditions_MarkFalse now l t r msg = Conditions_Set now l (Some (FalseCondition t r msg))"

definition Conditions_MarkError ::
    "gotime \<Rightarrow> conditions \<Rightarrow> string \<Rightarrow> string \<Rightarrow> goerror \<Rightarrow> conditions" where
  "Conditions_MarkError now l t r err = Conditions_Set now l (Some (FalseCondition t r err))"

definition Conditions_Delete :: "conditions \<Rightarrow> string \<Rightarrow> conditions" where
  "Conditions_Delete l t = (if l = [] then l else filter (\<lambda>c. ctype c \<noteq> t) l)"

definition Set :: "gotime \<Rightarrow> getter \<Rightarrow> condition option \<Rightarrow> getter" where
  "Set now to c = SetConditions to (Conditions_Set now (c4g to) c)"

definition MarkTrue :: "gotime \<Rightarrow> getter \<Rightarrow> string \<Rightarrow> getter" where
  "MarkTrue now to t = SetConditions to (Conditions_MarkTrue now (c4g to) t)"

definition MarkUnknown :: "gotime \<Rightarrow> getter \<Rightarrow> string \<Rightarrow> string \<Rightarrow> string \<Rightarrow> getter" where
  "MarkUnknown now to t r msg = SetConditions to (Conditions_MarkUnknown now (c4g to) t r msg)"

definition MarkFalse :: "gotime \<Rightarrow> getter \<Rightarrow> string \<Rightarrow> string \<Rightarrow> string \<Rightarrow> getter" where
  "MarkFalse now to t r msg = SetConditions to (Conditions_MarkFalse now (c4g to) t r msg)"

definition MarkError :: "gotime \<Rightarrow> getter \<Rightarrow> string \<Rightarrow> string \<Rightarrow> goerror \<Rightarrow> getter" where
  "MarkError now to t r err = SetConditions to (Conditions_MarkFalse now (c4g to) t r err)"

definition Delete :: "getter \<Rightarrow> string \<Rightarrow> getter" where
  "Delete to t = SetConditions to (Conditions_Delete (c4g to) t)"

section \<open>The invariant and the contract\<close>

definition wf_conditions :: "conditions \<Rightarrow> bool" where
  "wf_conditions l \<longleftrightarrow> distinct (map ctype l) \<and> sorted_by lexicographicLess l"

lemma wf_conditions_distinct: "wf_conditions l \<Longrightarrow> distinct (map ctype l)"
  by (simp add: wf_conditions_def)

text \<open>
  What a lookup returns after \<^verbatim>\<open>Set\<close>, as a function of what it returned before: an existing
  condition in the same state wins, a changed one is stamped with the current second, a new one
  keeps a transition time of its own.
\<close>

definition updated :: "gotime \<Rightarrow> condition option \<Rightarrow> condition \<Rightarrow> condition" where
  "updated now old c =
     (case old of
        None \<Rightarrow> if time_IsZero (lastTransitionTime c)
                then c\<lparr>lastTransitionTime := time_TruncateSecond now\<rparr> else c
      | Some e \<Rightarrow> if hasSameState e c then e
                  else c\<lparr>lastTransitionTime := time_TruncateSecond now\<rparr>)"

lemma hasSameState_refl [simp]: "hasSameState c c"
  by (simp add: hasSameState_def)

lemma hasSameState_sym: "hasSameState a b \<Longrightarrow> hasSameState b a"
  by (simp add: hasSameState_def)

lemma hasSameState_trans: "hasSameState a b \<Longrightarrow> hasSameState b c \<Longrightarrow> hasSameState a c"
  by (simp add: hasSameState_def)

lemma hasSameState_time [simp]: "hasSameState (c\<lparr>lastTransitionTime := t\<rparr>) c"
  by (simp add: hasSameState_def)

lemma ctype_updated [simp]: "ctype (updated now old c) = ctype c"
  by (cases old) (simp_all add: updated_def hasSameState_def)

lemma updated_state: "hasSameState (updated now old c) c"
  by (auto simp: updated_def split: option.splits)

lemma updated_idem: "updated now' (Some (updated now old c)) c = updated now old c"
  by (simp add: updated_def [of now' "Some _"] updated_state)

interpretation cond_order: strict_weak_order lexicographicLess ctype
proof unfold_locales
  fix x y :: condition
  show "lexicographicLess x y \<Longrightarrow> \<not> lexicographicLess y x"
    by (simp add: lexicographicLess_def) (metis order.asym)
next
  fix x y z :: condition
  assume xy: "\<not> lexicographicLess x y" and yz: "\<not> lexicographicLess y z"
  show "\<not> lexicographicLess x z"
  proof (cases "ctype z = ReadyConditionType")
    case True
    then show ?thesis by (simp add: lexicographicLess_def)
  next
    case False
    with yz have "ctype y \<noteq> ReadyConditionType" and "ctype z \<le> ctype y"
      by (simp_all add: lexicographicLess_def not_less)
    with xy have "ctype x \<noteq> ReadyConditionType" and "ctype y \<le> ctype x"
      by (simp_all add: lexicographicLess_def not_less)
    with \<open>ctype z \<le> ctype y\<close> show ?thesis
      by (simp add: lexicographicLess_def not_less order_trans)
  qed
next
  fix x y :: condition
  show "ctype x \<noteq> ctype y \<Longrightarrow> lexicographicLess x y \<or> lexicographicLess y x"
    using linorder_less_linear [of "ctype x" "ctype y"]
    by (cases "ctype x = ReadyConditionType"; cases "ctype y = ReadyConditionType")
      (auto simp: lexicographicLess_def)
qed

locale condition_store =
  fixes getc :: "'s \<Rightarrow> string \<Rightarrow> condition option"
    and setc :: "gotime \<Rightarrow> 's \<Rightarrow> condition \<Rightarrow> 's"
    and delc :: "'s \<Rightarrow> string \<Rightarrow> 's"
    and inv :: "'s \<Rightarrow> bool"
  assumes getc_type: "getc s t = Some c \<Longrightarrow> ctype c = t"
    and getc_setc: "inv s \<Longrightarrow> getc (setc now s c) t =
          (if t = ctype c then Some (updated now (getc s t) c) else getc s t)"
    and getc_delc: "inv s \<Longrightarrow> getc (delc s t') t = (if t = t' then None else getc s t)"
    and inv_setc: "inv s \<Longrightarrow> inv (setc now s c)"
    and inv_delc: "inv s \<Longrightarrow> inv (delc s t')"
begin

lemma getc_setc_same: "inv s \<Longrightarrow> \<exists>d. getc (setc now s c) (ctype c) = Some d \<and> hasSameState d c"
  by (simp add: getc_setc updated_state)

lemma getc_setc_other: "inv s \<Longrightarrow> t \<noteq> ctype c \<Longrightarrow> getc (setc now s c) t = getc s t"
  by (simp add: getc_setc)

lemma setc_repeat: "inv s \<Longrightarrow> getc (setc now' (setc now s c) c) t = getc (setc now s c) t"
  by (simp add: getc_setc inv_setc updated_idem)

lemma setc_commute:
  assumes "inv s" and "ctype c \<noteq> ctype d"
  shows "getc (setc now (setc now' s c) d) t = getc (setc now' (setc now s d) c) t"
  using assms by (auto simp: getc_setc inv_setc)

lemma delc_setc: "inv s \<Longrightarrow> getc (delc (setc now s c) (ctype c)) t = (if t = ctype c then None else getc s t)"
  by (simp add: getc_delc getc_setc inv_setc)

lemma inv_fold_setc: "inv s \<Longrightarrow> inv (fold (\<lambda>c s. setc now s c) cs s)"
  by (induction cs arbitrary: s) (auto simp: inv_setc)

lemma getc_fold_setc_other:
  assumes "inv s" and "t \<notin> ctype ` set cs"
  shows "getc (fold (\<lambda>c s. setc now s c) cs s) t = getc s t"
  using assms by (induction cs arbitrary: s) (auto simp: inv_setc getc_setc)

end

section \<open>The slice implements the contract\<close>

lemma Conditions_Get_find_by: "Conditions_Get l t = find_by ctype l t"
  by (induction l) auto

lemma Conditions_Get_type: "Conditions_Get l t = Some c \<Longrightarrow> ctype c = t"
  by (auto simp: Conditions_Get_find_by dest: find_by_SomeD)

lemma Conditions_Get_None: "Conditions_Get l t = None \<longleftrightarrow> t \<notin> ctype ` set l"
  by (simp add: Conditions_Get_find_by find_by_None)

lemma Conditions_Get_sort:
  "distinct (map ctype l) \<Longrightarrow> Conditions_Get (go_sort lt l) t = Conditions_Get l t"
  unfolding Conditions_Get_find_by by (rule find_by_mset) simp_all

lemma set_existing_types: "map ctype (fst (set_existing now c l)) = map ctype l"
  by (induction l) (auto simp: Let_def split: prod.splits)

lemma set_existing_None: "snd (set_existing now c l) = None \<longleftrightarrow> Conditions_Get l (ctype c) = None"
  by (induction l) (auto simp: Let_def split: prod.splits)

lemma set_existing_absent:
  "Conditions_Get l (ctype c) = None \<Longrightarrow> set_existing now c l = (l, None)"
  by (induction l) (auto split: if_splits)

lemma set_existing_present:
  "Conditions_Get l (ctype c) = Some e \<Longrightarrow>
   Conditions_Get (fst (set_existing now c l)) t =
     (if t = ctype c then Some (updated now (Some e) c) else Conditions_Get l t)"
  by (induction l) (auto simp: updated_def Let_def hasSameState_def split: prod.splits if_splits)

lemma set_existing_arg:
  "Conditions_Get l (ctype c) = Some e \<Longrightarrow> \<exists>c'. snd (set_existing now c l) = Some c'"
  by (induction l) (auto simp: Let_def split: prod.splits if_splits)

text \<open>The two ways \<^verbatim>\<open>Set\<close> ends, as equations on the slice.\<close>

lemma Conditions_Set_absent:
  assumes "Conditions_Get l (ctype c) = None"
  shows "Conditions_Set now l (Some c) = go_sort lexicographicLess (l @ [updated now None c])"
  using assms
  by (simp add: Conditions_Set_def Conditions_Set_ptr_def set_existing_absent updated_def Let_def)

lemma Conditions_Set_present:
  assumes "Conditions_Get l (ctype c) = Some e"
  shows "Conditions_Set now l (Some c) = go_sort lexicographicLess (fst (set_existing now c l))"
  using set_existing_arg [OF assms, of now]
  by (auto simp: Conditions_Set_def Conditions_Set_ptr_def split: prod.splits)

lemma Conditions_Set_distinct:
  assumes "distinct (map ctype l)"
  shows "distinct (map ctype (Conditions_Set now l c))"
proof (cases c)
  case None
  with assms show ?thesis by (simp add: Conditions_Set_def)
next
  case (Some d)
  show ?thesis
  proof (cases "Conditions_Get l (ctype d)")
    case None
    with assms Some show ?thesis
      by (auto simp: Conditions_Set_absent Conditions_Get_None)
  next
    case (Some e)
    with assms \<open>c = Some d\<close> show ?thesis
      by (simp add: Conditions_Set_present set_existing_types)
  qed
qed

lemma Conditions_Set_sorted: "sorted_by lexicographicLess (Conditions_Set now l (Some c))"
  by (simp add: Conditions_Set_def Conditions_Set_ptr_def cond_order.go_sort_sorted Let_def split: prod.split)

lemma Conditions_Set_wf: "wf_conditions l \<Longrightarrow> wf_conditions (Conditions_Set now l c)"
  by (cases c) (auto simp: wf_conditions_def Conditions_Set_distinct Conditions_Set_sorted,
      auto simp: Conditions_Set_def)

lemma Conditions_Get_Set:
  assumes "distinct (map ctype l)"
  shows "Conditions_Get (Conditions_Set now l (Some c)) t =
     (if t = ctype c then Some (updated now (Conditions_Get l t) c) else Conditions_Get l t)"
proof (cases "Conditions_Get l (ctype c)")
  case None
  with assms have "distinct (map ctype (l @ [updated now None c]))"
    by (auto simp: Conditions_Get_None)
  with None have "Conditions_Get (Conditions_Set now l (Some c)) t =
      Conditions_Get (l @ [updated now None c]) t"
    by (simp only: Conditions_Set_absent Conditions_Get_sort)
  with None show ?thesis
    by (auto simp: Conditions_Get_find_by find_by_append split: option.splits)
next
  case (Some e)
  from assms have "distinct (map ctype (fst (set_existing now c l)))"
    by (simp add: set_existing_types)
  then have "Conditions_Get (Conditions_Set now l (Some c)) t =
      Conditions_Get (fst (set_existing now c l)) t"
    by (simp only: Conditions_Set_present [OF Some] Conditions_Get_sort)
  also have "\<dots> = (if t = ctype c then Some (updated now (Some e) c) else Conditions_Get l t)"
    using Some by (rule set_existing_present)
  finally show ?thesis using Some by simp
qed

lemma Conditions_Delete_filter: "Conditions_Delete l t = filter (\<lambda>c. ctype c \<noteq> t) l"
  by (simp add: Conditions_Delete_def)

lemma distinct_map_filter_types: "distinct (map ctype l) \<Longrightarrow> distinct (map ctype (filter P l))"
  by (rule distinct_map_filter)

lemma Conditions_Delete_wf: "wf_conditions l \<Longrightarrow> wf_conditions (Conditions_Delete l t)"
  by (simp add: wf_conditions_def Conditions_Delete_filter distinct_map_filter sorted_wrt_filter)

lemma Conditions_Get_Delete:
  "Conditions_Get (Conditions_Delete l t') t = (if t = t' then None else Conditions_Get l t)"
  by (simp add: Conditions_Get_find_by Conditions_Delete_filter find_by_filter_same find_by_filter_other)

interpretation slice: condition_store Conditions_Get
    "\<lambda>now l c. Conditions_Set now l (Some c)" Conditions_Delete wf_conditions
proof unfold_locales
  fix s :: conditions and t t' :: string and c :: condition and now :: gotime
  show "Conditions_Get s t = Some c \<Longrightarrow> ctype c = t"
    by (rule Conditions_Get_type)
  assume "wf_conditions s"
  then show "Conditions_Get (Conditions_Set now s (Some c)) t =
      (if t = ctype c then Some (updated now (Conditions_Get s t) c) else Conditions_Get s t)"
    by (intro Conditions_Get_Set wf_conditions_distinct)
  show "Conditions_Get (Conditions_Delete s t') t = (if t = t' then None else Conditions_Get s t)"
    by (rule Conditions_Get_Delete)
  from \<open>wf_conditions s\<close> show "wf_conditions (Conditions_Set now s (Some c))"
    by (rule Conditions_Set_wf)
  from \<open>wf_conditions s\<close> show "wf_conditions (Conditions_Delete s t')"
    by (rule Conditions_Delete_wf)
qed

section \<open>Properties\<close>

text \<open>
  Setting a condition keeps the conditions well-formed (one per type, Ready first, then by
  type); a lookup of its type returns it, except that a condition already in the same state is
  kept as it is, and lookups of every other type are unchanged.
\<close>

theorem Set_contract:
  assumes "wf_conditions l"
  shows "wf_conditions (Conditions_Set now l (Some c)) \<and>
    Conditions_Get (Conditions_Set now l (Some c)) t =
      (if t = ctype c then Some (updated now (Conditions_Get l t) c) else Conditions_Get l t)"
  using assms by (simp add: slice.inv_setc slice.getc_setc)

theorem Set_contract_witness:
  "Conditions_Get (Conditions_Set 5 [TrueCondition ''A''] (Some (TrueCondition ''Ready''))) ''A'' =
     Some (TrueCondition ''A'')"
proof -
  have wf: "wf_conditions [TrueCondition ''A'']" by code_simp
  show ?thesis
    using Set_contract [OF wf, of 5 "TrueCondition ''Ready''" "''A''"] by (simp add: TrueCondition_def)
qed

text \<open>
  The transition time of an existing condition moves, to the current second, exactly when the
  status, the reason or the message changes.
\<close>

theorem Set_transition_time:
  assumes "wf_conditions l" and "Conditions_Get l (ctype c) = Some e"
  shows "Conditions_GetLastTransitionTime (Conditions_Set now l (Some c)) (ctype c) =
    Some (if cstatus e = cstatus c \<and> reason e = reason c \<and> message e = message c
          then lastTransitionTime e else time_TruncateSecond now)"
proof -
  have "ctype e = ctype c" using assms(2) by (rule Conditions_Get_type)
  then show ?thesis
    using slice.getc_setc [OF assms(1), of now c "ctype c"] assms(2)
    by (simp add: Conditions_GetLastTransitionTime_def updated_def hasSameState_def)
qed

theorem Set_transition_time_witness:
  "Conditions_GetLastTransitionTime
     (Conditions_Set 7000000003 [TrueCondition ''A''] (Some (FalseCondition ''A'' ''Down'' []))) ''A'' =
     Some 7000000000"
proof -
  have wf: "wf_conditions [TrueCondition ''A'']" by code_simp
  have get: "Conditions_Get [TrueCondition ''A''] (ctype (FalseCondition ''A'' ''Down'' [])) =
      Some (TrueCondition ''A'')" by code_simp
  show ?thesis
    using Set_transition_time [OF wf get, of 7000000003]
    by (simp add: TrueCondition_def FalseCondition_def ConditionTrue_def ConditionFalse_def
        time_TruncateSecond_def)
qed

text \<open>In a well-formed list the Ready condition, when there is one, comes first.\<close>

theorem Ready_first:
  assumes "wf_conditions l" and "Conditions_Has l ReadyConditionType"
  shows "l \<noteq> [] \<and> ctype (hd l) = ReadyConditionType"
proof (cases l)
  case Nil
  with assms(2) show ?thesis by (simp add: Conditions_Has_def)
next
  case (Cons c cs)
  have "ctype c = ReadyConditionType"
  proof (rule ccontr)
    assume ne: "ctype c \<noteq> ReadyConditionType"
    with assms(2) Cons obtain d where "d \<in> set cs" and d: "ctype d = ReadyConditionType"
      by (auto simp: Conditions_Has_def Conditions_Get_find_by dest: find_by_SomeD)
    with assms(1) Cons have "\<not> lexicographicLess d c" by (auto simp: wf_conditions_def)
    with ne d show False by (simp add: lexicographicLess_def)
  qed
  with Cons show ?thesis by simp
qed

theorem Ready_first_witness:
  "let l = Conditions_MarkTrue 5 (Conditions_MarkTrue 4 [] ''A'') ''Ready''
   in l \<noteq> [] \<and> ctype (hd l) = ReadyConditionType"
proof -
  have h: "wf_conditions (Conditions_MarkTrue 5 (Conditions_MarkTrue 4 [] ''A'') ''Ready'')"
    "Conditions_Has (Conditions_MarkTrue 5 (Conditions_MarkTrue 4 [] ''A'') ''Ready'') ReadyConditionType"
    by code_simp+
  show ?thesis using Ready_first [OF h] by (simp add: Let_def)
qed

text \<open>The status of a condition after it is marked or deleted.\<close>

lemma updated_status: "cstatus (updated now old c) = cstatus c"
  using updated_state [of now old c] by (simp add: hasSameState_def)

lemma Mark_status:
  assumes "wf_conditions l"
  shows "Conditions_IsTrue (Conditions_MarkTrue now l t) t' \<longleftrightarrow> t' = t \<or> Conditions_IsTrue l t'"
    and "Conditions_IsTrue (Conditions_MarkFalse now l t r msg) t' \<longleftrightarrow> t' \<noteq> t \<and> Conditions_IsTrue l t'"
    and "Conditions_IsFalse (Conditions_MarkTrue now l t) t' \<longleftrightarrow> t' \<noteq> t \<and> Conditions_IsFalse l t'"
    and "Conditions_IsFalse (Conditions_MarkFalse now l t r msg) t' \<longleftrightarrow> t' = t \<or> Conditions_IsFalse l t'"
    and "wf_conditions (Conditions_MarkTrue now l t)" and "wf_conditions (Conditions_MarkFalse now l t r msg)"
  using assms slice.getc_setc [OF assms] slice.inv_setc [OF assms]
  by (auto simp: Conditions_IsTrue_def Conditions_IsFalse_def Conditions_MarkTrue_def Conditions_MarkFalse_def
      TrueCondition_def FalseCondition_def updated_status ConditionTrue_def ConditionFalse_def)

lemma MarkError_status:
  "wf_conditions l \<Longrightarrow>
   Conditions_IsTrue (Conditions_MarkError now l t r msg) t' \<longleftrightarrow> t' \<noteq> t \<and> Conditions_IsTrue l t'"
  using slice.getc_setc [of l now "FalseCondition t r msg"]
  by (auto simp: Conditions_IsTrue_def Conditions_MarkError_def Conditions_MarkFalse_def FalseCondition_def updated_status
      ConditionTrue_def ConditionFalse_def)

lemma Delete_status:
  "wf_conditions l \<Longrightarrow> Conditions_IsTrue (Conditions_Delete l t) t' \<longleftrightarrow> t' \<noteq> t \<and> Conditions_IsTrue l t'"
  by (auto simp: Conditions_IsTrue_def slice.getc_delc)

text \<open>A type the object does not have counts as unknown, contrary to the doc comment of
  \<^verbatim>\<open>IsUnknown\<close>, which says the function then returns false.\<close>

lemma IsUnknown_absent: "\<not> Conditions_Has l t \<Longrightarrow> Conditions_IsUnknown l t"
  by (simp add: Conditions_IsUnknown_def Conditions_Has_def)

end
