(* ===== verification/Condition_Patch.thy ===== *)
theory Condition_Patch
  imports Conditions
begin

text \<open>
  The three-way merge of conditions, \<^verbatim>\<open>pkg/conditions/patch.go\<close>: \<open>NewPatch\<close> computes the
  operations that lead from one list of conditions to another and \<open>Patch_Apply\<close> replays them on
  the latest object, detecting conflicting changes. The pointers of a \<^verbatim>\<open>PatchOperation\<close> that its
  \<^verbatim>\<open>Op\<close> leaves nil are left out of the constructors. The error texts carry a diff computed by
  \<^verbatim>\<open>go-cmp\<close>; the model keeps the kind of the conflict and the condition type. The clock is a
  sequence of readings, one per operation.
\<close>

section \<open>Patches\<close>

datatype PatchOperation =
    AddConditionPatch (After: condition)
  | ChangeConditionPatch (Before: condition) (After: condition)
  | RemoveConditionPatch (Before: condition)

fun new_patch_targets :: "getter \<Rightarrow> conditions \<Rightarrow> PatchOperation list" where
  "new_patch_targets before [] = []"
| "new_patch_targets before (c # cs) =
     (case Get before (ctype c) of
        None \<Rightarrow> AddConditionPatch c # new_patch_targets before cs
      | Some current \<Rightarrow>
          if c \<noteq> current then ChangeConditionPatch current c # new_patch_targets before cs
          else new_patch_targets before cs)"

fun new_patch_removals :: "getter \<Rightarrow> conditions \<Rightarrow> PatchOperation list" where
  "new_patch_removals after [] = []"
| "new_patch_removals after (c # cs) =
     (case Get after (ctype c) of
        None \<Rightarrow> RemoveConditionPatch c # new_patch_removals after cs
      | Some _ \<Rightarrow> new_patch_removals after cs)"

definition NewPatch :: "getter \<Rightarrow> getter \<Rightarrow> PatchOperation list" where
  "NewPatch before after =
     new_patch_targets before (GetConditions after) @ new_patch_removals after (GetConditions before)"

definition Patch_IsZero :: "PatchOperation list \<Rightarrow> bool" where
  "Patch_IsZero p \<longleftrightarrow> length p = 0"

section \<open>Applying a patch\<close>

record applyOptions =
  ownedConditions :: "string list"
  forceOverwrite :: bool

type_synonym ApplyOption = "applyOptions \<Rightarrow> applyOptions"

definition isOwnedCondition :: "applyOptions \<Rightarrow> string \<Rightarrow> bool" where
  "isOwnedCondition opts t \<longleftrightarrow> (\<exists>i \<in> set (ownedConditions opts). i = t)"

definition WithOwnedConditions :: "string list \<Rightarrow> ApplyOption" where
  "WithOwnedConditions t c = c\<lparr>ownedConditions := t\<rparr>"

definition WithForceOverwrite :: "bool \<Rightarrow> ApplyOption" where
  "WithForceOverwrite v c = c\<lparr>forceOverwrite := v\<rparr>"

datatype patch_error =
    AddConflict string
  | ChangeDeletedConflict string
  | ChangeConflict string
  | RemoveConflict string

fun apply_operation ::
    "gotime \<Rightarrow> applyOptions \<Rightarrow> getter \<Rightarrow> PatchOperation \<Rightarrow> patch_error + getter" where
  "apply_operation now opts latest (AddConditionPatch a) =
     (if forceOverwrite opts \<or> isOwnedCondition opts (ctype a) then Inr (Set now latest (Some a))
      else case Get latest (ctype a) of
             Some l \<Rightarrow> if \<not> hasSameState l a then Inl (AddConflict (ctype a)) else Inr latest
           | None \<Rightarrow> Inr (Set now latest (Some a)))"
| "apply_operation now opts latest (ChangeConditionPatch b a) =
     (if forceOverwrite opts \<or> isOwnedCondition opts (ctype a) then Inr (Set now latest (Some a))
      else case Get latest (ctype a) of
             None \<Rightarrow> Inl (ChangeDeletedConflict (ctype a))
           | Some l \<Rightarrow>
               if l \<noteq> b then
                 (if \<not> hasSameState l a then Inl (ChangeConflict (ctype a)) else Inr latest)
               else Inr (Set now latest (Some a)))"
| "apply_operation now opts latest (RemoveConditionPatch b) =
     (if forceOverwrite opts \<or> isOwnedCondition opts (ctype b) then Inr (Delete latest (ctype b))
      else case Get latest (ctype b) of
             Some l \<Rightarrow> if \<not> hasSameState l b then Inl (RemoveConflict (ctype b))
                       else Inr (Delete latest (ctype b))
           | None \<Rightarrow> Inr (Delete latest (ctype b)))"

text \<open>The loop stops at the first conflict; what was written before it stays written.\<close>

fun apply_loop ::
    "(nat \<Rightarrow> gotime) \<Rightarrow> applyOptions \<Rightarrow> getter \<Rightarrow> PatchOperation list \<Rightarrow> getter \<times> patch_error option"
where
  "apply_loop clock opts latest [] = (latest, None)"
| "apply_loop clock opts latest (p # ps) =
     (case apply_operation (clock (length ps)) opts latest p of
        Inl e \<Rightarrow> (latest, Some e)
      | Inr latest' \<Rightarrow> apply_loop clock opts latest' ps)"

definition Patch_Apply ::
    "(nat \<Rightarrow> gotime) \<Rightarrow> PatchOperation list \<Rightarrow> getter \<Rightarrow> ApplyOption list
      \<Rightarrow> getter \<times> patch_error option" where
  "Patch_Apply clock p latest options =
     (if length p = 0 then (latest, None)
      else apply_loop clock
             (fold (\<lambda>f x. f x) options \<lparr>ownedConditions = [], forceOverwrite = False\<rparr>) latest p)"

section \<open>The object implements the contract of a condition store\<close>

definition wf_object :: "getter \<Rightarrow> bool" where
  "wf_object g \<longleftrightarrow> wf_conditions (conds g)"

lemmas object_defs = Get_def Set_def Delete_def c4g_def GetConditions_def SetConditions_def

interpretation obj: condition_store Get "\<lambda>now g c. Set now g (Some c)" Delete wf_object
proof unfold_locales
  fix g :: getter and t t' :: string and c :: condition and now :: gotime
  show "Get g t = Some c \<Longrightarrow> ctype c = t"
    unfolding object_defs by (rule Conditions_Get_type)
  assume g: "wf_object g"
  then show "Get (Set now g (Some c)) t =
      (if t = ctype c then Some (updated now (Get g t) c) else Get g t)"
    using slice.getc_setc [of "conds g" now c t] by (simp add: object_defs wf_object_def)
  from g show "Get (Delete g t') t = (if t = t' then None else Get g t)"
    by (simp add: object_defs Conditions_Get_Delete)
  from g show "wf_object (Set now g (Some c))"
    by (simp add: object_defs wf_object_def Conditions_Set_wf)
  from g show "wf_object (Delete g t')"
    by (simp add: object_defs wf_object_def Conditions_Delete_wf)
qed

section \<open>One operation\<close>

fun op_type :: "PatchOperation \<Rightarrow> string" where
  "op_type (AddConditionPatch a) = ctype a"
| "op_type (ChangeConditionPatch b a) = ctype a"
| "op_type (RemoveConditionPatch b) = ctype b"

text \<open>What a successful operation leaves at its type.\<close>

fun op_target :: "PatchOperation \<Rightarrow> condition option" where
  "op_target (AddConditionPatch a) = Some a"
| "op_target (ChangeConditionPatch b a) = Some a"
| "op_target (RemoveConditionPatch b) = None"

fun same_state_opt :: "condition option \<Rightarrow> condition option \<Rightarrow> bool" where
  "same_state_opt None None = True"
| "same_state_opt (Some a) (Some b) = hasSameState a b"
| "same_state_opt _ _ = False"

text \<open>When an operation conflicts with what the latest object has at its type.\<close>

fun op_conflicts :: "applyOptions \<Rightarrow> condition option \<Rightarrow> PatchOperation \<Rightarrow> bool" where
  "op_conflicts opts l p =
     (\<not> forceOverwrite opts \<and> \<not> isOwnedCondition opts (op_type p) \<and>
      (case p of
         AddConditionPatch a \<Rightarrow> (case l of None \<Rightarrow> False | Some c \<Rightarrow> \<not> hasSameState c a)
       | ChangeConditionPatch b a \<Rightarrow>
           (case l of None \<Rightarrow> True | Some c \<Rightarrow> c \<noteq> b \<and> \<not> hasSameState c a)
       | RemoveConditionPatch b \<Rightarrow> (case l of None \<Rightarrow> False | Some c \<Rightarrow> \<not> hasSameState c b)))"

lemma apply_operation_conflict:
  "(\<exists>e. apply_operation now opts g p = Inl e) \<longleftrightarrow> op_conflicts opts (Get g (op_type p)) p"
  by (cases p) (auto split: option.splits)

lemma apply_operation_wf: "wf_object g \<Longrightarrow> apply_operation now opts g p = Inr g' \<Longrightarrow> wf_object g'"
  by (cases p) (auto simp: obj.inv_setc obj.inv_delc split: if_splits option.splits)

lemma apply_operation_frame:
  assumes "wf_object g" and "apply_operation now opts g p = Inr g'" and "t \<noteq> op_type p"
  shows "Get g' t = Get g t"
  using assms
  by (cases p) (auto simp: obj.getc_setc obj.getc_delc split: if_splits option.splits)

lemma apply_operation_target:
  assumes "wf_object g" and "apply_operation now opts g p = Inr g'"
  shows "same_state_opt (Get g' (op_type p)) (op_target p)"
  using assms
  by (cases p) (auto simp: obj.getc_setc obj.getc_delc updated_state split: if_splits option.splits)

section \<open>The loop\<close>

lemma apply_loop_frame:
  assumes "wf_object g" and "apply_loop clock opts g ps = (g', r)" and "t \<notin> op_type ` set ps"
  shows "Get g' t = Get g t"
  using assms
proof (induction ps arbitrary: g)
  case Nil
  then show ?case by simp
next
  case (Cons p ps)
  show ?case
  proof (cases "apply_operation (clock (length ps)) opts g p")
    case (Inl e)
    with Cons.prems show ?thesis by simp
  next
    case (Inr h)
    with Cons.prems have "Get g' t = Get h t"
      by (intro Cons.IH) (auto intro: apply_operation_wf)
    also have "\<dots> = Get g t"
      using Cons.prems Inr by (intro apply_operation_frame) auto
    finally show ?thesis .
  qed
qed

lemma apply_loop_wf: "wf_object g \<Longrightarrow> apply_loop clock opts g ps = (g', r) \<Longrightarrow> wf_object g'"
  by (induction ps arbitrary: g) (auto split: sum.splits dest: apply_operation_wf)

lemma apply_loop_target:
  assumes "wf_object g" and "apply_loop clock opts g ps = (g', None)"
    and "distinct (map op_type ps)" and "p \<in> set ps"
  shows "same_state_opt (Get g' (op_type p)) (op_target p)"
  using assms
proof (induction ps arbitrary: g)
  case Nil
  then show ?case by simp
next
  case (Cons q ps)
  from Cons.prems(2) obtain h where h: "apply_operation (clock (length ps)) opts g q = Inr h"
      "apply_loop clock opts h ps = (g', None)"
    by (auto split: sum.splits)
  with Cons.prems(1) have wf: "wf_object h" by (blast intro: apply_operation_wf)
  show ?case
  proof (cases "p = q")
    case True
    with wf h(2) Cons.prems(3) have "Get g' (op_type p) = Get h (op_type p)"
      by (intro apply_loop_frame) auto
    with True show ?thesis
      using apply_operation_target [OF Cons.prems(1) h(1)] by simp
  next
    case False
    with Cons.prems wf h(2) show ?thesis by (intro Cons.IH) auto
  qed
qed

lemma apply_loop_error:
  assumes "wf_object g" and "distinct (map op_type ps)"
  shows "snd (apply_loop clock opts g ps) \<noteq> None \<longleftrightarrow>
    (\<exists>p \<in> set ps. op_conflicts opts (Get g (op_type p)) p)"
  using assms
proof (induction ps arbitrary: g)
  case Nil
  then show ?case by simp
next
  case (Cons q ps)
  show ?case
  proof (cases "apply_operation (clock (length ps)) opts g q")
    case (Inl e)
    then have "op_conflicts opts (Get g (op_type q)) q"
      using apply_operation_conflict by blast
    with Inl show ?thesis by simp
  next
    case (Inr h)
    then have no: "\<not> op_conflicts opts (Get g (op_type q)) q"
      by (metis apply_operation_conflict sum.distinct(1))
    have "Get h (op_type p) = Get g (op_type p)" if "p \<in> set ps" for p
      using that Cons.prems Inr by (intro apply_operation_frame) (auto simp: image_iff)
    with Cons.IH [of h] Cons.prems apply_operation_wf [OF _ Inr] no Inr show ?thesis by auto
  qed
qed

section \<open>The operations of a new patch\<close>

lemma new_patch_targets_types: "map op_type (new_patch_targets b cs) =
    map ctype (filter (\<lambda>c. Get b (ctype c) \<noteq> Some c) cs)"
  by (induction cs) (auto split: option.splits)

lemma new_patch_removals_types: "map op_type (new_patch_removals a cs) =
    map ctype (filter (\<lambda>c. Get a (ctype c) = None) cs)"
  by (induction cs) (auto split: option.splits)

lemma new_patch_targets_op:
  "p \<in> set (new_patch_targets b cs) \<Longrightarrow> \<exists>c \<in> set cs. op_type p = ctype c \<and> op_target p = Some c \<and>
     p = (case Get b (ctype c) of None \<Rightarrow> AddConditionPatch c | Some d \<Rightarrow> ChangeConditionPatch d c)"
  by (induction cs) (auto split: option.splits if_splits)

lemma new_patch_removals_op:
  "p \<in> set (new_patch_removals a cs) \<Longrightarrow>
     \<exists>c \<in> set cs. p = RemoveConditionPatch c \<and> Get a (ctype c) = None"
  by (induction cs) (auto split: option.splits)

lemma Get_Some_iff:
  "wf_object g \<Longrightarrow> Get g t = Some c \<longleftrightarrow> c \<in> set (conds g) \<and> ctype c = t"
  by (simp add: object_defs wf_object_def Conditions_Get_find_by find_by_distinct wf_conditions_distinct)

lemma Get_None_iff: "Get g t = None \<longleftrightarrow> t \<notin> ctype ` set (conds g)"
  by (simp add: object_defs Conditions_Get_None)

lemma NewPatch_distinct:
  assumes "wf_object b" and "wf_object a"
  shows "distinct (map op_type (NewPatch b a))"
proof -
  have "distinct (map ctype (conds a))" and "distinct (map ctype (conds b))"
    using assms by (simp_all add: wf_object_def wf_conditions_distinct)
  then show ?thesis
    by (auto simp: NewPatch_def GetConditions_def new_patch_targets_types new_patch_removals_types
        distinct_map_filter Get_None_iff image_iff)
qed

lemma NewPatch_op:
  assumes "wf_object b" and "wf_object a" and "p \<in> set (NewPatch b a)"
  shows "op_target p = Get a (op_type p)"
    and "p = (case (Get b (op_type p), Get a (op_type p)) of
                (None, Some c) \<Rightarrow> AddConditionPatch c
              | (Some d, Some c) \<Rightarrow> ChangeConditionPatch d c
              | (Some d, None) \<Rightarrow> RemoveConditionPatch d
              | (None, None) \<Rightarrow> p)"
proof -
  consider (target) "p \<in> set (new_patch_targets b (conds a))"
    | (removal) "p \<in> set (new_patch_removals a (conds b))"
    using assms(3) by (auto simp: NewPatch_def GetConditions_def)
  then have "op_target p = Get a (op_type p) \<and>
      p = (case (Get b (op_type p), Get a (op_type p)) of
                (None, Some c) \<Rightarrow> AddConditionPatch c
              | (Some d, Some c) \<Rightarrow> ChangeConditionPatch d c
              | (Some d, None) \<Rightarrow> RemoveConditionPatch d
              | (None, None) \<Rightarrow> p)"
  proof cases
    case target
    then obtain c where c: "c \<in> set (conds a)" "op_type p = ctype c" "op_target p = Some c"
        "p = (case Get b (ctype c) of None \<Rightarrow> AddConditionPatch c | Some d \<Rightarrow> ChangeConditionPatch d c)"
      using new_patch_targets_op by blast
    then have "Get a (ctype c) = Some c" using assms(2) by (simp add: Get_Some_iff)
    with c show ?thesis by (cases "Get b (ctype c)") auto
  next
    case removal
    then obtain c where c: "c \<in> set (conds b)" "p = RemoveConditionPatch c" "Get a (ctype c) = None"
      using new_patch_removals_op by blast
    then have "Get b (ctype c) = Some c" using assms(1) by (simp add: Get_Some_iff)
    with c show ?thesis by auto
  qed
  then show "op_target p = Get a (op_type p)"
    and "p = (case (Get b (op_type p), Get a (op_type p)) of
                (None, Some c) \<Rightarrow> AddConditionPatch c
              | (Some d, Some c) \<Rightarrow> ChangeConditionPatch d c
              | (Some d, None) \<Rightarrow> RemoveConditionPatch d
              | (None, None) \<Rightarrow> p)"
    by blast+
qed

text \<open>A patch has an operation for exactly the types on which the two objects differ.\<close>

lemma NewPatch_types:
  assumes "wf_object b" and "wf_object a"
  shows "t \<in> op_type ` set (NewPatch b a) \<longleftrightarrow> Get b t \<noteq> Get a t"
proof -
  have "op_type ` set (NewPatch b a) = set (map op_type (NewPatch b a))" by simp
  also have "\<dots> = ctype ` {c \<in> set (conds a). Get b (ctype c) \<noteq> Some c} \<union>
      ctype ` {c \<in> set (conds b). Get a (ctype c) = None}"
    by (simp add: NewPatch_def GetConditions_def new_patch_targets_types new_patch_removals_types
        del: set_map) auto
  finally have types: "op_type ` set (NewPatch b a) = \<dots>" .
  show ?thesis
  proof (cases "Get a t")
    case None
    then have "t \<in> op_type ` set (NewPatch b a) \<longleftrightarrow> t \<in> ctype ` set (conds b)"
      unfolding types by (auto simp: Get_None_iff)
    with None show ?thesis using Get_None_iff [of b t] by auto
  next
    case (Some c)
    with assms(2) have c: "c \<in> set (conds a)" "ctype c = t" by (simp_all add: Get_Some_iff)
    have only: "d = c" if "d \<in> set (conds a)" and "ctype d = t" for d
      using that Some assms(2) by (metis Get_Some_iff option.inject)
    have "t \<in> op_type ` set (NewPatch b a) \<longleftrightarrow>
        (\<exists>d \<in> set (conds a). ctype d = t \<and> Get b t \<noteq> Some d)"
      unfolding types using Some by auto
    also have "\<dots> \<longleftrightarrow> Get b t \<noteq> Some c"
      using c only by blast
    finally show ?thesis using Some by simp
  qed
qed

section \<open>Properties\<close>

lemma Patch_Apply_loop: "Patch_Apply clock p latest options =
    apply_loop clock (fold (\<lambda>f x. f x) options \<lparr>ownedConditions = [], forceOverwrite = False\<rparr>) latest p"
  by (simp add: Patch_Apply_def)

text \<open>
  C2. Three-way merge. When a patch computed from two versions of an object is applied to a third
  one without a conflict, every condition type on which the two versions differ has the state of
  the newer version, and every other condition of the third object is untouched.
\<close>

theorem patch_three_way:
  assumes "wf_object before" and "wf_object after" and "wf_object latest"
    and "Patch_Apply clock (NewPatch before after) latest options = (latest', None)"
  shows "wf_object latest' \<and> (if Get before t = Get after t then Get latest' t = Get latest t
         else same_state_opt (Get latest' t) (Get after t))"
proof -
  have wf: "wf_object latest'"
    using apply_loop_wf [OF assms(3)] assms(4) by (simp add: Patch_Apply_loop)
  show ?thesis
  proof (cases "Get before t = Get after t")
    case True
    then have "t \<notin> op_type ` set (NewPatch before after)"
      using NewPatch_types [OF assms(1,2)] by blast
    then show ?thesis
      using True wf apply_loop_frame [OF assms(3)] assms(4) by (simp add: Patch_Apply_loop)
  next
    case False
    then obtain p where p: "p \<in> set (NewPatch before after)" "op_type p = t"
      using NewPatch_types [OF assms(1,2), of t] by auto
    then have "same_state_opt (Get latest' t) (op_target p)"
      using apply_loop_target [OF assms(3) _ NewPatch_distinct [OF assms(1,2)] p(1)] assms(4)
      by (simp add: Patch_Apply_loop)
    with False p wf show ?thesis
      using NewPatch_op(1) [OF assms(1,2) p(1)] by simp
  qed
qed

text \<open>A patch that adds one condition, applied to an object another writer has changed.\<close>

theorem patch_three_way_witness:
  "let before = \<lparr>conds = [TrueCondition ''A''], objName = None, objKind = None\<rparr>;
       after = \<lparr>conds = [TrueCondition ''A'', TrueCondition ''B''], objName = None, objKind = None\<rparr>;
       latest = \<lparr>conds = [FalseCondition ''A'' ''Down'' []], objName = None, objKind = None\<rparr>;
       latest' = fst (Patch_Apply (\<lambda>_. 3000000007) (NewPatch before after) latest [])
   in Get latest' ''A'' = Get latest ''A'' \<and> same_state_opt (Get latest' ''B'') (Get after ''B'')"
proof -
  let ?b = "\<lparr>conds = [TrueCondition ''A''], objName = None, objKind = None\<rparr>"
  let ?a = "\<lparr>conds = [TrueCondition ''A'', TrueCondition ''B''], objName = None, objKind = None\<rparr>"
  let ?l = "\<lparr>conds = [FalseCondition ''A'' ''Down'' []], objName = None, objKind = None\<rparr>"
  let ?r = "Patch_Apply (\<lambda>_. 3000000007) (NewPatch ?b ?a) ?l []"
  have wf: "wf_object ?b" "wf_object ?a" "wf_object ?l" by code_simp+
  have ok: "?r = (fst ?r, None)" by code_simp
  have diff: "Get ?b ''A'' = Get ?a ''A''" "Get ?b ''B'' \<noteq> Get ?a ''B''" by code_simp+
  show ?thesis
    using patch_three_way [OF wf ok, of "''A''"] patch_three_way [OF wf ok, of "''B''"] diff
    by (simp add: Let_def)
qed

text \<open>
  C15. A patch is refused exactly when, for a condition type that is neither owned nor forced and on
  which the two versions differ, the latest object has moved away from the old version without
  reaching the new one: an addition or a removal meets a different state, or a changed condition
  was deleted or differs from both versions.
\<close>

theorem patch_conflict_iff:
  assumes "wf_object before" and "wf_object after" and "wf_object latest"
    and "opts = fold (\<lambda>f x. f x) options \<lparr>ownedConditions = [], forceOverwrite = False\<rparr>"
  shows "snd (Patch_Apply clock (NewPatch before after) latest options) \<noteq> None \<longleftrightarrow>
    \<not> forceOverwrite opts \<and>
    (\<exists>t. t \<notin> set (ownedConditions opts) \<and> Get before t \<noteq> Get after t \<and>
       (case (Get before t, Get after t, Get latest t) of
          (Some b, Some a, None) \<Rightarrow> True
        | (Some b, Some a, Some l) \<Rightarrow> l \<noteq> b \<and> \<not> hasSameState l a
        | (None, Some a, Some l) \<Rightarrow> \<not> hasSameState l a
        | (Some b, None, Some l) \<Rightarrow> \<not> hasSameState l b
        | _ \<Rightarrow> False))"
    (is "_ \<longleftrightarrow> \<not> forceOverwrite opts \<and> (\<exists>t. ?conflict t)")
proof -
  have conf: "op_conflicts opts (Get latest (op_type p)) p \<longleftrightarrow>
      \<not> forceOverwrite opts \<and> ?conflict (op_type p)"
    if "p \<in> set (NewPatch before after)" for p
  proof -
    have "Get before (op_type p) \<noteq> Get after (op_type p)"
      using that NewPatch_types [OF assms(1,2), of "op_type p"] by auto
    with NewPatch_op(2) [OF assms(1,2) that] show ?thesis
      by (cases "Get before (op_type p)"; cases "Get after (op_type p)")
        (auto simp: isOwnedCondition_def split: option.splits PatchOperation.splits)
  qed
  have "snd (Patch_Apply clock (NewPatch before after) latest options) \<noteq> None \<longleftrightarrow>
      (\<exists>p \<in> set (NewPatch before after). op_conflicts opts (Get latest (op_type p)) p)"
    unfolding Patch_Apply_loop assms(4) [symmetric]
    by (rule apply_loop_error [OF assms(3) NewPatch_distinct [OF assms(1,2)]])
  also have "\<dots> \<longleftrightarrow> \<not> forceOverwrite opts \<and>
      (\<exists>t \<in> op_type ` set (NewPatch before after). ?conflict t)"
    using conf by auto
  also have "\<dots> \<longleftrightarrow> \<not> forceOverwrite opts \<and> (\<exists>t. ?conflict t)"
    using NewPatch_types [OF assms(1,2)] by blast
  finally show ?thesis .
qed

text \<open>The same object with an unowned condition another writer has set differently.\<close>

theorem patch_conflict_iff_witness:
  "snd (Patch_Apply (\<lambda>_. 3000000007)
      (NewPatch \<lparr>conds = [], objName = None, objKind = None\<rparr>
         \<lparr>conds = [TrueCondition ''A''], objName = None, objKind = None\<rparr>)
      \<lparr>conds = [FalseCondition ''A'' ''Down'' []], objName = None, objKind = None\<rparr> []) \<noteq> None"
proof -
  let ?b = "\<lparr>conds = [], objName = None, objKind = None\<rparr>"
  let ?a = "\<lparr>conds = [TrueCondition ''A''], objName = None, objKind = None\<rparr>"
  let ?l = "\<lparr>conds = [FalseCondition ''A'' ''Down'' []], objName = None, objKind = None\<rparr>"
  let ?o = "\<lparr>ownedConditions = [], forceOverwrite = False\<rparr>"
  have wf: "wf_object ?b" "wf_object ?a" "wf_object ?l" by code_simp+
  have o: "?o = fold (\<lambda>f x. f x) [] ?o" by simp
  have "Get ?b ''A'' = None" "Get ?a ''A'' = Some (TrueCondition ''A'')"
    "Get ?l ''A'' = Some (FalseCondition ''A'' ''Down'' [])"
    "\<not> hasSameState (FalseCondition ''A'' ''Down'' []) (TrueCondition ''A'')"
    by code_simp+
  then show ?thesis
    unfolding patch_conflict_iff [OF wf o, of "\<lambda>_. 3000000007"]
    by (intro conjI exI [of _ "''A''"]) simp_all
qed

end
