(* ===== verification/VM_Types.thy ===== *)
theory VM_Types
  imports VMOp_Prelude "HOL-Library.Word"
begin

unbundle bit_operations_syntax

text \<open>
  The API types of \<^verbatim>\<open>api/v1alpha6\<close> the webhooks and reconcilers below read and write, and the
  upgrade gate of \<^verbatim>\<open>pkg/util/vmopv1/features.go\<close>. A string enumeration of the API keeps its string
  values, an optional field (a Go pointer) is an \<^typ>\<open>'a option\<close>, an \<^verbatim>\<open>int32\<close> is an \<^typ>\<open>int\<close>. A field
  that no modelled function uses is left out of its record.
\<close>

section \<open>Controllers (\<^verbatim>\<open>virtualmachine_hardware_types.go\<close>)\<close>

type_synonym VirtualControllerType = string

definition VirtualControllerTypeIDE :: VirtualControllerType where
  "VirtualControllerTypeIDE = ''IDE''"

definition VirtualControllerTypeNVME :: VirtualControllerType where
  "VirtualControllerTypeNVME = ''NVME''"

definition VirtualControllerTypeSCSI :: VirtualControllerType where
  "VirtualControllerTypeSCSI = ''SCSI''"

definition VirtualControllerTypeSATA :: VirtualControllerType where
  "VirtualControllerTypeSATA = ''SATA''"

definition VirtualControllerType_MaxCount :: "VirtualControllerType \<Rightarrow> int" where
  "VirtualControllerType_MaxCount t =
     (if t = VirtualControllerTypeIDE then 2
      else if t = VirtualControllerTypeNVME \<or> t = VirtualControllerTypeSATA \<or>
        t = VirtualControllerTypeSCSI then 4
      else 0)"

definition VirtualControllerSharingModeNone :: string where
  "VirtualControllerSharingModeNone = ''None''"

definition VirtualControllerSharingModePhysical :: string where
  "VirtualControllerSharingModePhysical = ''Physical''"

definition VirtualControllerSharingModeVirtual :: string where
  "VirtualControllerSharingModeVirtual = ''Virtual''"

definition SCSIControllerTypeParaVirtualSCSI :: string where
  "SCSIControllerTypeParaVirtualSCSI = ''ParaVirtual''"

definition SCSIControllerTypeBusLogic :: string where
  "SCSIControllerTypeBusLogic = ''BusLogic''"

definition SCSIControllerTypeLsiLogic :: string where
  "SCSIControllerTypeLsiLogic = ''LsiLogic''"

definition SCSIControllerTypeLsiLogicSAS :: string where
  "SCSIControllerTypeLsiLogicSAS = ''LsiLogicSAS''"

definition VirtualDeviceTypeCDROM :: string where "VirtualDeviceTypeCDROM = ''CDROM''"

definition VirtualDeviceTypeDisk :: string where "VirtualDeviceTypeDisk = ''Disk''"

record IDEControllerSpec =
  ide_BusNumber :: int

definition IDEControllerSpec_MaxSlots :: "IDEControllerSpec \<Rightarrow> int" where
  "IDEControllerSpec_MaxSlots c = 2"

definition IDEControllerSpec_MaxCount :: "IDEControllerSpec \<Rightarrow> int" where
  "IDEControllerSpec_MaxCount c = VirtualControllerType_MaxCount VirtualControllerTypeIDE"

definition IDEControllerSpec_ReservedUnitNumber :: "IDEControllerSpec \<Rightarrow> int" where
  "IDEControllerSpec_ReservedUnitNumber c = -1"

record NVMEControllerSpec =
  nvme_BusNumber :: int
  nvme_SharingMode :: string

definition NVMEControllerSpec_MaxSlots :: "NVMEControllerSpec \<Rightarrow> int" where
  "NVMEControllerSpec_MaxSlots c = 64"

definition NVMEControllerSpec_MaxCount :: "NVMEControllerSpec \<Rightarrow> int" where
  "NVMEControllerSpec_MaxCount c = VirtualControllerType_MaxCount VirtualControllerTypeNVME"

definition NVMEControllerSpec_ReservedUnitNumber :: "NVMEControllerSpec \<Rightarrow> int" where
  "NVMEControllerSpec_ReservedUnitNumber c = -1"

record SATAControllerSpec =
  sata_BusNumber :: int

definition SATAControllerSpec_MaxSlots :: "SATAControllerSpec \<Rightarrow> int" where
  "SATAControllerSpec_MaxSlots c = 30"

definition SATAControllerSpec_MaxCount :: "SATAControllerSpec \<Rightarrow> int" where
  "SATAControllerSpec_MaxCount c = VirtualControllerType_MaxCount VirtualControllerTypeSATA"

definition SATAControllerSpec_ReservedUnitNumber :: "SATAControllerSpec \<Rightarrow> int" where
  "SATAControllerSpec_ReservedUnitNumber c = -1"

record SCSIControllerSpec =
  scsi_BusNumber :: int
  scsi_SharingMode :: string
  scsi_Type :: string

definition SCSIControllerSpec_MaxSlots :: "SCSIControllerSpec \<Rightarrow> int" where
  "SCSIControllerSpec_MaxSlots c =
     (if scsi_Type c = SCSIControllerTypeParaVirtualSCSI then 65
      else if scsi_Type c = SCSIControllerTypeBusLogic \<or> scsi_Type c = SCSIControllerTypeLsiLogic \<or>
        scsi_Type c = SCSIControllerTypeLsiLogicSAS then 16
      else 0)"

definition SCSIControllerSpec_MaxCount :: "SCSIControllerSpec \<Rightarrow> int" where
  "SCSIControllerSpec_MaxCount c = VirtualControllerType_MaxCount VirtualControllerTypeSCSI"

definition SCSIControllerSpec_ReservedUnitNumber :: "SCSIControllerSpec \<Rightarrow> int" where
  "SCSIControllerSpec_ReservedUnitNumber c = 7"

record VirtualDeviceStatus =
  dev_Type :: string
  dev_UnitNumber :: int

record VirtualControllerStatus =
  cs_BusNumber :: int
  cs_Type :: VirtualControllerType
  cs_DeviceKey :: int
  cs_Devices :: "VirtualDeviceStatus list"

record VirtualMachineCdromSpec =
  cd_Name :: string
  cd_ControllerBusNumber :: "int option"
  cd_ControllerType :: VirtualControllerType
  cd_UnitNumber :: "int option"

record VirtualMachineHardwareSpec =
  hw_Cdrom :: "VirtualMachineCdromSpec list"
  hw_IDEControllers :: "IDEControllerSpec list"
  hw_NVMEControllers :: "NVMEControllerSpec list"
  hw_SATAControllers :: "SATAControllerSpec list"
  hw_SCSIControllers :: "SCSIControllerSpec list"

text \<open>The zero value \<^verbatim>\<open>VirtualMachineHardwareSpec{}\<close>.\<close>

definition hardware_zero :: VirtualMachineHardwareSpec where
  "hardware_zero = \<lparr>hw_Cdrom = [], hw_IDEControllers = [], hw_NVMEControllers = [],
     hw_SATAControllers = [], hw_SCSIControllers = []\<rparr>"

section \<open>Volumes, network interfaces and the VM\<close>

definition VolumeApplicationTypeOracleRAC :: string where
  "VolumeApplicationTypeOracleRAC = ''OracleRAC''"

definition VolumeApplicationTypeMicrosoftWSFC :: string where
  "VolumeApplicationTypeMicrosoftWSFC = ''MicrosoftWSFC''"

definition VolumeDiskModeIndependentPersistent :: string where
  "VolumeDiskModeIndependentPersistent = ''IndependentPersistent''"

definition VolumeDiskModePersistent :: string where
  "VolumeDiskModePersistent = ''Persistent''"

definition VolumeSharingModeMultiWriter :: string where
  "VolumeSharingModeMultiWriter = ''MultiWriter''"

definition VolumeSharingModeNone :: string where
  "VolumeSharingModeNone = ''None''"

record VirtualMachineVolume =
  vol_Name :: string
  vol_ApplicationType :: string
  vol_ControllerBusNumber :: "int option"
  vol_ControllerType :: VirtualControllerType
  vol_DiskMode :: string
  vol_SharingMode :: string
  vol_UnitNumber :: "int option"

record VirtualMachineNetworkInterfaceSpec =
  if_Name :: string
  if_Type :: string
  if_UnitNumber :: "int option"

definition VirtualMachinePowerStateOn :: string where
  "VirtualMachinePowerStateOn = ''PoweredOn''"

definition VirtualMachinePowerStateOff :: string where
  "VirtualMachinePowerStateOff = ''PoweredOff''"

definition VirtualMachinePowerStateSuspended :: string where
  "VirtualMachinePowerStateSuspended = ''Suspended''"

text \<open>
  \<^verbatim>\<open>vm_Network\<close> is the list of interfaces of \<^verbatim>\<open>spec.network\<close>, \<^verbatim>\<open>vm_StatusControllers\<close> the controllers
  of \<^verbatim>\<open>status.hardware\<close>; both are \<^verbatim>\<open>None\<close> when the enclosing struct is nil.
\<close>

record VirtualMachine =
  vm_Annotations :: "string \<rightharpoonup> string"
  vm_PowerState :: string
  vm_Volumes :: "VirtualMachineVolume list"
  vm_Hardware :: "VirtualMachineHardwareSpec option"
  vm_Network :: "VirtualMachineNetworkInterfaceSpec list option"
  vm_StatusControllers :: "VirtualControllerStatus list option"

end
