(* ===== verification/Features.thy ===== *)
theory Features
  imports VM_Types
begin

text \<open>
  The schema upgrade gate of \<^verbatim>\<open>pkg/util/vmopv1/features.go\<close>: the feature version of an object is a
  16-bit mask that is stored as a decimal annotation, and an object is upgraded when its build,
  schema and feature versions reach those of the running operator. The configuration of the operator
  (\<^verbatim>\<open>pkgcfg.FromContext\<close>) is an argument.
\<close>

section \<open>Feature versions\<close>

type_synonym FeatureVersion = "16 word"

definition FeatureVersionBase :: FeatureVersion where
  "FeatureVersionBase = push_bit 0 1"

definition FeatureVersionVMSharedDisks :: FeatureVersion where
  "FeatureVersionVMSharedDisks = push_bit 1 1"

definition FeatureVersionAllDisksArePVCs :: FeatureVersion where
  "FeatureVersionAllDisksArePVCs = push_bit 2 1"

definition FeatureVersionTelcoVMServiceAPI :: FeatureVersion where
  "FeatureVersionTelcoVMServiceAPI = push_bit 3 1"

definition FeatureVersionNICUnitNumbers :: FeatureVersion where
  "FeatureVersionNICUnitNumbers = push_bit 4 1"

definition FeatureVersionEmpty :: FeatureVersion where
  "FeatureVersionEmpty = 0"

definition FeatureVersionAll :: FeatureVersion where
  "FeatureVersionAll = FeatureVersionBase OR FeatureVersionVMSharedDisks OR
     FeatureVersionAllDisksArePVCs OR FeatureVersionTelcoVMServiceAPI OR FeatureVersionNICUnitNumbers"

definition FeatureVersions :: "FeatureVersion list" where
  "FeatureVersions = [FeatureVersionBase, FeatureVersionVMSharedDisks, FeatureVersionAllDisksArePVCs,
     FeatureVersionTelcoVMServiceAPI, FeatureVersionNICUnitNumbers]"

definition FeatureVersion_IsValid :: "FeatureVersion \<Rightarrow> bool" where
  "FeatureVersion_IsValid a \<longleftrightarrow> a \<noteq> FeatureVersionEmpty \<and> a AND NOT FeatureVersionAll = 0"

definition FeatureVersion_String :: "FeatureVersion \<Rightarrow> string" where
  "FeatureVersion_String a = (if \<not> FeatureVersion_IsValid a then [] else show_int (uint a))"

definition FeatureVersion_Has :: "FeatureVersion \<Rightarrow> FeatureVersion \<Rightarrow> bool" where
  "FeatureVersion_Has a b \<longleftrightarrow> a AND b \<noteq> 0"

definition FeatureVersion_IsOrSuperset :: "FeatureVersion \<Rightarrow> FeatureVersion \<Rightarrow> bool" where
  "FeatureVersion_IsOrSuperset a b \<longleftrightarrow>
     (if a = b then True
      else let bm = filter (FeatureVersion_Has b) FeatureVersions in list_all (FeatureVersion_Has a) bm)"

definition FeatureVersion_Set :: "FeatureVersion \<Rightarrow> FeatureVersion \<Rightarrow> FeatureVersion" where
  "FeatureVersion_Set a b = a OR b"

text \<open>\<^verbatim>\<open>strconv.ParseUint(s, 10, 16)\<close>: decimal digits only, at least one, and no overflow.\<close>

definition ParseUint16 :: "string \<Rightarrow> nat option" where
  "ParseUint16 s =
     (if s = [] \<or> \<not> list_all (\<lambda>c. c \<in> set ''0123456789'') s \<or> read_digits 0 s \<ge> 2 ^ 16 then None
      else Some (read_digits 0 s))"

definition ParseFeatureVersion :: "string \<Rightarrow> FeatureVersion" where
  "ParseFeatureVersion s =
     (case ParseUint16 s of
        None \<Rightarrow> FeatureVersionEmpty
      | Some u \<Rightarrow>
          let v = word_of_nat u
          in if \<not> FeatureVersion_IsValid v then FeatureVersionEmpty else v)"

section \<open>The gate\<close>

text \<open>The fields of \<^verbatim>\<open>pkgcfg.Config\<close> and its \<^verbatim>\<open>Features\<close> that the modelled code reads.\<close>

record FeatureStates =
  VMSharedDisks :: bool
  AllDisksArePVCs :: bool
  VMServiceClasslessVM :: bool
  VMNetworkUnitNumbers :: bool

record pkgcfg_Config =
  BuildVersion :: string
  FeatureStates :: FeatureStates

definition ActivatedFeatureVersion :: "pkgcfg_Config \<Rightarrow> FeatureVersion" where
  "ActivatedFeatureVersion cfg =
     (let f = FeatureStates cfg;
          v = FeatureVersionBase;
          v = (if VMSharedDisks f then FeatureVersion_Set v FeatureVersionVMSharedDisks else v);
          v = (if AllDisksArePVCs f \<or> VMSharedDisks f
               then FeatureVersion_Set v FeatureVersionAllDisksArePVCs else v);
          v = (if VMServiceClasslessVM f then FeatureVersion_Set v FeatureVersionTelcoVMServiceAPI else v);
          v = (if VMNetworkUnitNumbers f then FeatureVersion_Set v FeatureVersionNICUnitNumbers else v)
      in v)"

definition UpgradedToBuildVersionAnnotationKey :: string where
  "UpgradedToBuildVersionAnnotationKey = ''vmoperator.vmware.com/upgraded-to-'' @ ''build-version''"

definition UpgradedToSchemaVersionAnnotationKey :: string where
  "UpgradedToSchemaVersionAnnotationKey = ''vmoperator.vmware.com/upgraded-to-'' @ ''schema-version''"

definition UpgradedToFeatureVersionAnnotationKey :: string where
  "UpgradedToFeatureVersionAnnotationKey = ''vmoperator.vmware.com/upgraded-to-'' @ ''feature-version''"

definition GroupVersion_Version :: string where
  "GroupVersion_Version = ''v1alpha6''"

record NotUpgradedErr =
  nu_Type :: string
  nu_Object :: string
  nu_Target :: string

text \<open>\<^verbatim>\<open>a[key]\<close> on a Go string map: the empty string when the key is absent.\<close>

definition annotation :: "(string \<rightharpoonup> string) \<Rightarrow> string \<Rightarrow> string" where
  "annotation a k = (case a k of None \<Rightarrow> [] | Some v \<Rightarrow> v)"

text \<open>\<^verbatim>\<open>None\<close> is the nil error, \<^verbatim>\<open>Some errs\<close> the joined errors.\<close>

definition IsObjectUpgraded :: "pkgcfg_Config \<Rightarrow> (string \<rightharpoonup> string) \<Rightarrow> NotUpgradedErr list option" where
  "IsObjectUpgraded cfg a =
     (let objBV = annotation a UpgradedToBuildVersionAnnotationKey;
          objSV = annotation a UpgradedToSchemaVersionAnnotationKey;
          objFV = ParseFeatureVersion (annotation a UpgradedToFeatureVersionAnnotationKey);
          tgtBV = BuildVersion cfg;
          tgtSV = GroupVersion_Version;
          tgtFV = ActivatedFeatureVersion cfg;
          errs = (if objBV = [] \<or> objBV \<noteq> tgtBV
                  then [\<lparr>nu_Type = ''buildVersion'', nu_Object = objBV, nu_Target = tgtBV\<rparr>] else []);
          errs = errs @ (if objSV = [] \<or> objSV \<noteq> tgtSV
                  then [\<lparr>nu_Type = ''schemaVersion'', nu_Object = objSV, nu_Target = tgtSV\<rparr>] else []);
          errs = errs @ (if objFV = FeatureVersionEmpty \<or> \<not> FeatureVersion_IsOrSuperset objFV tgtFV
                  then [\<lparr>nu_Type = ''featureVersion'', nu_Object = FeatureVersion_String objFV,
                         nu_Target = FeatureVersion_String tgtFV\<rparr>] else [])
      in if errs = [] then None else Some errs)"

section \<open>Properties\<close>

lemma Has_push_bit: "FeatureVersion_Has a (push_bit n 1) \<longleftrightarrow> bit a n"
  by (simp add: FeatureVersion_Has_def push_bit_eq_mult and_exp_eq_0_iff_not_bit)

lemmas feature_defs = FeatureVersionBase_def FeatureVersionVMSharedDisks_def
  FeatureVersionAllDisksArePVCs_def FeatureVersionTelcoVMServiceAPI_def FeatureVersionNICUnitNumbers_def

lemma FeatureVersionAll_bit: "bit FeatureVersionAll n \<longleftrightarrow> n < 5"
proof -
  have all: "FeatureVersionAll = mask 5"
    by (simp add: FeatureVersionAll_def feature_defs mask_eq_exp_minus_1)
  show ?thesis unfolding all bit_mask_iff by auto
qed

lemma feature_bit_less: "bit (a :: FeatureVersion) n \<Longrightarrow> n < 16"
  using bit_imp_le_length [of a n] by simp

lemma FeatureVersion_IsValid_bits:
  "FeatureVersion_IsValid a \<longleftrightarrow> a \<noteq> 0 \<and> (\<forall>n. bit a n \<longrightarrow> n < 5)"
  using feature_bit_less [of a]
  by (auto simp: FeatureVersion_IsValid_def FeatureVersionEmpty_def FeatureVersionAll_bit
      bit_eq_iff [of _ 0] bit_and_iff bit_not_iff)

lemma Has_feature:
  "FeatureVersion_Has a FeatureVersionBase \<longleftrightarrow> bit a 0"
  "FeatureVersion_Has a FeatureVersionVMSharedDisks \<longleftrightarrow> bit a 1"
  "FeatureVersion_Has a FeatureVersionAllDisksArePVCs \<longleftrightarrow> bit a 2"
  "FeatureVersion_Has a FeatureVersionTelcoVMServiceAPI \<longleftrightarrow> bit a 3"
  "FeatureVersion_Has a FeatureVersionNICUnitNumbers \<longleftrightarrow> bit a 4"
  unfolding feature_defs by (rule Has_push_bit)+

lemma less_five: "(\<forall>n < 5. P n) \<longleftrightarrow> P 0 \<and> P 1 \<and> P 2 \<and> P 3 \<and> P (4::nat)"
  by (simp add: numeral_eq_Suc All_less_Suc) blast

lemma IsOrSuperset_bits:
  "FeatureVersion_IsOrSuperset a b \<longleftrightarrow> (\<forall>n < 5. bit b n \<longrightarrow> bit a n)"
proof -
  have "list_all (FeatureVersion_Has a) (filter (FeatureVersion_Has b) FeatureVersions) \<longleftrightarrow>
      (\<forall>n < 5. bit b n \<longrightarrow> bit a n)"
    unfolding less_five FeatureVersions_def by (auto simp: Has_feature)
  then show ?thesis by (cases "a = b") (simp_all add: FeatureVersion_IsOrSuperset_def Let_def)
qed

lemma bit_push_bit_1: "bit (push_bit k 1 :: FeatureVersion) n \<longleftrightarrow> n = k \<and> k < 16"
  by (auto simp: bit_exp_iff)

lemma feature_bits:
  "bit FeatureVersionBase n \<longleftrightarrow> n = 0"
  "bit FeatureVersionVMSharedDisks n \<longleftrightarrow> n = 1"
  "bit FeatureVersionAllDisksArePVCs n \<longleftrightarrow> n = 2"
  "bit FeatureVersionTelcoVMServiceAPI n \<longleftrightarrow> n = 3"
  "bit FeatureVersionNICUnitNumbers n \<longleftrightarrow> n = 4"
  unfolding feature_defs bit_push_bit_1 by simp_all

lemma ActivatedFeatureVersion_bits:
  "bit (ActivatedFeatureVersion cfg) n \<longleftrightarrow>
     n = 0 \<or> n = 1 \<and> VMSharedDisks (FeatureStates cfg) \<or>
     n = 2 \<and> (AllDisksArePVCs (FeatureStates cfg) \<or> VMSharedDisks (FeatureStates cfg)) \<or>
     n = 3 \<and> VMServiceClasslessVM (FeatureStates cfg) \<or>
     n = 4 \<and> VMNetworkUnitNumbers (FeatureStates cfg)"
proof -
  show ?thesis
    unfolding ActivatedFeatureVersion_def Let_def FeatureVersion_Set_def
    by (cases "VMSharedDisks (FeatureStates cfg)"; cases "AllDisksArePVCs (FeatureStates cfg)";
        cases "VMServiceClasslessVM (FeatureStates cfg)"; cases "VMNetworkUnitNumbers (FeatureStates cfg)")
      (simp_all add: bit_or_iff feature_bits)
qed

lemma ActivatedFeatureVersion_valid: "FeatureVersion_IsValid (ActivatedFeatureVersion cfg)"
proof -
  have "bit (ActivatedFeatureVersion cfg) 0" by (simp add: ActivatedFeatureVersion_bits)
  then have "ActivatedFeatureVersion cfg \<noteq> 0" by auto
  then show ?thesis by (auto simp: FeatureVersion_IsValid_bits ActivatedFeatureVersion_bits)
qed

lemma IsObjectUpgraded_None:
  "IsObjectUpgraded cfg a = None \<longleftrightarrow>
     annotation a UpgradedToBuildVersionAnnotationKey = BuildVersion cfg \<and> BuildVersion cfg \<noteq> [] \<and>
     annotation a UpgradedToSchemaVersionAnnotationKey = GroupVersion_Version \<and>
     ParseFeatureVersion (annotation a UpgradedToFeatureVersionAnnotationKey) \<noteq> 0 \<and>
     FeatureVersion_IsOrSuperset (ParseFeatureVersion (annotation a UpgradedToFeatureVersionAnnotationKey))
       (ActivatedFeatureVersion cfg)"
  by (auto simp: IsObjectUpgraded_def Let_def FeatureVersionEmpty_def GroupVersion_Version_def)

lemma ParseFeatureVersion_String_valid:
  assumes "FeatureVersion_IsValid v"
  shows "ParseFeatureVersion (FeatureVersion_String v) = v"
proof -
  have s: "FeatureVersion_String v = show_nat (unat v)"
    using assms by (simp add: FeatureVersion_String_def show_int_def)
  have "unat v < 2 ^ 16" using unsigned_less [of v, where 'a = nat] by simp
  then have "ParseUint16 (FeatureVersion_String v) = Some (unat v)"
    using show_nat_digits [of "unat v"] by (simp add: s ParseUint16_def read_show_nat)
  with assms show ?thesis by (simp add: ParseFeatureVersion_def)
qed

text \<open>
  C30. Writing a feature version to its annotation and parsing it back gives the same version, and the
  empty version for one with unknown bits.
\<close>

theorem feature_version_roundtrip:
  "ParseFeatureVersion (FeatureVersion_String v) = (if FeatureVersion_IsValid v then v else FeatureVersionEmpty)"
proof (cases "FeatureVersion_IsValid v")
  case True
  then show ?thesis by (simp add: ParseFeatureVersion_String_valid)
next
  case False
  then show ?thesis by (simp add: FeatureVersion_String_def ParseFeatureVersion_def ParseUint16_def)
qed

lemma stamped_upgraded:
  assumes "BuildVersion cfg \<noteq> []" and "BuildVersion cfg' = BuildVersion cfg"
    and "VMSharedDisks (FeatureStates cfg') \<le> VMSharedDisks (FeatureStates cfg)"
    and "AllDisksArePVCs (FeatureStates cfg') \<le> AllDisksArePVCs (FeatureStates cfg)"
    and "VMServiceClasslessVM (FeatureStates cfg') \<le> VMServiceClasslessVM (FeatureStates cfg)"
    and "VMNetworkUnitNumbers (FeatureStates cfg') \<le> VMNetworkUnitNumbers (FeatureStates cfg)"
  shows "IsObjectUpgraded cfg' (a(UpgradedToBuildVersionAnnotationKey \<mapsto> BuildVersion cfg,
      UpgradedToSchemaVersionAnnotationKey \<mapsto> GroupVersion_Version,
      UpgradedToFeatureVersionAnnotationKey \<mapsto> FeatureVersion_String (ActivatedFeatureVersion cfg))) = None"
proof -
  have "ActivatedFeatureVersion cfg \<noteq> 0"
    using ActivatedFeatureVersion_valid [of cfg] by (simp add: FeatureVersion_IsValid_def FeatureVersionEmpty_def)
  then show ?thesis
    using assms
    by (auto simp: IsObjectUpgraded_None annotation_def UpgradedToBuildVersionAnnotationKey_def
        UpgradedToSchemaVersionAnnotationKey_def UpgradedToFeatureVersionAnnotationKey_def
        ParseFeatureVersion_String_valid ActivatedFeatureVersion_valid IsOrSuperset_bits
        ActivatedFeatureVersion_bits)
qed

text \<open>
  Stamping an object with the versions of the running operator makes it upgraded, and it stays
  upgraded when features are switched off later.
\<close>

theorem upgraded_after_disabling_features:
  assumes "BuildVersion cfg \<noteq> []" and "BuildVersion cfg' = BuildVersion cfg"
    and "VMSharedDisks (FeatureStates cfg') \<le> VMSharedDisks (FeatureStates cfg)"
    and "AllDisksArePVCs (FeatureStates cfg') \<le> AllDisksArePVCs (FeatureStates cfg)"
    and "VMServiceClasslessVM (FeatureStates cfg') \<le> VMServiceClasslessVM (FeatureStates cfg)"
    and "VMNetworkUnitNumbers (FeatureStates cfg') \<le> VMNetworkUnitNumbers (FeatureStates cfg)"
  shows "IsObjectUpgraded cfg' (a(UpgradedToBuildVersionAnnotationKey \<mapsto> BuildVersion cfg,
      UpgradedToSchemaVersionAnnotationKey \<mapsto> GroupVersion_Version,
      UpgradedToFeatureVersionAnnotationKey \<mapsto> FeatureVersion_String (ActivatedFeatureVersion cfg))) = None"
  using assms by (rule stamped_upgraded)

theorem upgraded_after_disabling_features_witness:
  "IsObjectUpgraded \<lparr>BuildVersion = ''1.2'', FeatureStates = \<lparr>VMSharedDisks = False, AllDisksArePVCs = True,
       VMServiceClasslessVM = False, VMNetworkUnitNumbers = True\<rparr>\<rparr>
     (Map.empty(UpgradedToBuildVersionAnnotationKey \<mapsto> ''1.2'',
       UpgradedToSchemaVersionAnnotationKey \<mapsto> GroupVersion_Version,
       UpgradedToFeatureVersionAnnotationKey \<mapsto> FeatureVersion_String (ActivatedFeatureVersion
         \<lparr>BuildVersion = ''1.2'', FeatureStates = \<lparr>VMSharedDisks = True, AllDisksArePVCs = True,
           VMServiceClasslessVM = False, VMNetworkUnitNumbers = True\<rparr>\<rparr>))) = None"
  using upgraded_after_disabling_features [of
      "\<lparr>BuildVersion = ''1.2'', FeatureStates = \<lparr>VMSharedDisks = True, AllDisksArePVCs = True,
         VMServiceClasslessVM = False, VMNetworkUnitNumbers = True\<rparr>\<rparr>"
      "\<lparr>BuildVersion = ''1.2'', FeatureStates = \<lparr>VMSharedDisks = False, AllDisksArePVCs = True,
         VMServiceClasslessVM = False, VMNetworkUnitNumbers = True\<rparr>\<rparr>" Map.empty]
  by simp

text \<open>
  On feature versions whose bits are all known, the superset test is the inclusion of the bit
  masks; it ignores bits that are not features.
\<close>

theorem IsOrSuperset_mask:
  "FeatureVersion_IsOrSuperset a b \<longleftrightarrow> b AND FeatureVersionAll AND NOT a = 0"
  using feature_bit_less [of b]
  by (auto simp: IsOrSuperset_bits bit_eq_iff [of _ 0] bit_and_iff bit_not_iff FeatureVersionAll_bit)

end
