(* ===== verification/Hardware.thy ===== *)
theory Hardware
  imports Features "HOL-Library.Finite_Map"
begin

text \<open>
  Controller specifications and unit numbers: \<^verbatim>\<open>pkg/util/vmopv1/hardware.go\<close>, \<^verbatim>\<open>ControllerID\<close> of
  \<^verbatim>\<open>pkg/util/devices.go\<close> and \<^verbatim>\<open>IsFSRSupported\<close> of \<^verbatim>\<open>pkg/util/vmopv1/vm.go\<close>. The Go interface
  \<^verbatim>\<open>ControllerSpec\<close> is the sum of the structs that implement it, its nil value is \<^verbatim>\<open>None\<close>. The locale
  \<^verbatim>\<open>unit_allocator\<close> is what the webhooks rely on when they ask for the next unit number.
\<close>

section \<open>Controller specifications\<close>

definition NICUnitNumberFirst :: int where "NICUnitNumberFirst = 7"

definition NICUnitNumberMax :: int where "NICUnitNumberMax = 16"

datatype ControllerSpec =
    SCSIController SCSIControllerSpec
  | SATAController SATAControllerSpec
  | NVMEController NVMEControllerSpec
  | IDEController IDEControllerSpec
  | NICBusSpec

definition NICBusSpec_MaxSlots :: int where
  "NICBusSpec_MaxSlots = NICUnitNumberMax - NICUnitNumberFirst + 1"

fun MaxSlots :: "ControllerSpec \<Rightarrow> int" where
  "MaxSlots (SCSIController c) = SCSIControllerSpec_MaxSlots c"
| "MaxSlots (SATAController c) = SATAControllerSpec_MaxSlots c"
| "MaxSlots (NVMEController c) = NVMEControllerSpec_MaxSlots c"
| "MaxSlots (IDEController c) = IDEControllerSpec_MaxSlots c"
| "MaxSlots NICBusSpec = NICBusSpec_MaxSlots"

fun MaxCount :: "ControllerSpec \<Rightarrow> int" where
  "MaxCount (SCSIController c) = SCSIControllerSpec_MaxCount c"
| "MaxCount (SATAController c) = SATAControllerSpec_MaxCount c"
| "MaxCount (NVMEController c) = NVMEControllerSpec_MaxCount c"
| "MaxCount (IDEController c) = IDEControllerSpec_MaxCount c"
| "MaxCount NICBusSpec = 1"

fun ReservedUnitNumber :: "ControllerSpec \<Rightarrow> int" where
  "ReservedUnitNumber (SCSIController c) = SCSIControllerSpec_ReservedUnitNumber c"
| "ReservedUnitNumber (SATAController c) = SATAControllerSpec_ReservedUnitNumber c"
| "ReservedUnitNumber (NVMEController c) = NVMEControllerSpec_ReservedUnitNumber c"
| "ReservedUnitNumber (IDEController c) = IDEControllerSpec_ReservedUnitNumber c"
| "ReservedUnitNumber NICBusSpec = -1"

text \<open>The optional interface \<^verbatim>\<open>firstUnitNumberer\<close>: only the NIC bus implements it.\<close>

fun FirstUnitNumber :: "ControllerSpec \<Rightarrow> int option" where
  "FirstUnitNumber NICBusSpec = Some NICUnitNumberFirst"
| "FirstUnitNumber _ = None"

text \<open>The unit numbers stay far below the \<^verbatim>\<open>int32\<close> bounds, the loop counter cannot wrap.\<close>

definition NextAvailableUnitNumber :: "ControllerSpec option \<Rightarrow> int set \<Rightarrow> int" where
  "NextAvailableUnitNumber controller occupiedSlots =
     (case controller of
        None \<Rightarrow> -1
      | Some c \<Rightarrow>
          let first = (case FirstUnitNumber c of None \<Rightarrow> 0 | Some f \<Rightarrow> f)
          in case List.find (\<lambda>unitNumber. unitNumber \<notin> occupiedSlots \<and> unitNumber \<noteq> ReservedUnitNumber c)
                 [first..first + MaxSlots c - 1] of
               None \<Rightarrow> -1
             | Some unitNumber \<Rightarrow> unitNumber)"

record ControllerID =
  ControllerType :: VirtualControllerType
  BusNumber :: int

lemma ControllerID_eta [simp]: "\<lparr>ControllerType = ControllerType i, BusNumber = BusNumber i\<rparr> = i"
  by (cases i) simp

fun GenerateControllerID :: "ControllerSpec option \<Rightarrow> ControllerID" where
  "GenerateControllerID (Some (SCSIController c)) =
     \<lparr>ControllerType = VirtualControllerTypeSCSI, BusNumber = scsi_BusNumber c\<rparr>"
| "GenerateControllerID (Some (SATAController c)) =
     \<lparr>ControllerType = VirtualControllerTypeSATA, BusNumber = sata_BusNumber c\<rparr>"
| "GenerateControllerID (Some (NVMEController c)) =
     \<lparr>ControllerType = VirtualControllerTypeNVME, BusNumber = nvme_BusNumber c\<rparr>"
| "GenerateControllerID (Some (IDEController c)) =
     \<lparr>ControllerType = VirtualControllerTypeIDE, BusNumber = ide_BusNumber c\<rparr>"
| "GenerateControllerID _ = \<lparr>ControllerType = [], BusNumber = -1\<rparr>"

fun GetControllerSharingMode :: "ControllerSpec \<Rightarrow> string" where
  "GetControllerSharingMode (SCSIController c) = scsi_SharingMode c"
| "GetControllerSharingMode (NVMEController c) = nvme_SharingMode c"
| "GetControllerSharingMode _ = VirtualControllerSharingModeNone"

definition CreateNewController ::
    "VirtualControllerType \<Rightarrow> int \<Rightarrow> string \<Rightarrow> ControllerSpec option" where
  "CreateNewController controllerType busNumber sharingMode =
     (if controllerType = VirtualControllerTypeSCSI then
        Some (SCSIController \<lparr>scsi_BusNumber = busNumber, scsi_SharingMode = sharingMode,
          scsi_Type = SCSIControllerTypeParaVirtualSCSI\<rparr>)
      else if controllerType = VirtualControllerTypeSATA then
        Some (SATAController \<lparr>sata_BusNumber = busNumber\<rparr>)
      else if controllerType = VirtualControllerTypeNVME then
        Some (NVMEController \<lparr>nvme_BusNumber = busNumber, nvme_SharingMode = sharingMode\<rparr>)
      else if controllerType = VirtualControllerTypeIDE then
        Some (IDEController \<lparr>ide_BusNumber = busNumber\<rparr>)
      else None)"

definition DefaultControllerSharingMode :: "VirtualMachineVolume \<Rightarrow> string" where
  "DefaultControllerSharingMode vol =
     (if vol_ApplicationType vol = VolumeApplicationTypeMicrosoftWSFC
      then VirtualControllerSharingModePhysical else VirtualControllerSharingModeNone)"

section \<open>The collection of controllers of a VM\<close>

text \<open>
  A Go map of maps: the inner maps are finite, as \<^verbatim>\<open>CountControllers\<close> takes their size.
\<close>

type_synonym ControllerSpecs = "VirtualControllerType \<rightharpoonup> (int, ControllerSpec) fmap"

definition ControllerSpecs_Get ::
    "ControllerSpecs \<Rightarrow> VirtualControllerType \<Rightarrow> int \<Rightarrow> ControllerSpec option" where
  "ControllerSpecs_Get c controllerType busNumber =
     (case c controllerType of None \<Rightarrow> None | Some controllers \<Rightarrow> fmlookup controllers busNumber)"

definition ControllerSpecs_Set ::
    "ControllerSpecs \<Rightarrow> VirtualControllerType \<Rightarrow> int \<Rightarrow> ControllerSpec \<Rightarrow> ControllerSpecs" where
  "ControllerSpecs_Set c controllerType busNumber controller =
     (let inner = (case c controllerType of None \<Rightarrow> fmempty | Some controllers \<Rightarrow> controllers)
      in c(controllerType \<mapsto> fmupd busNumber controller inner))"

definition CountControllers :: "ControllerSpecs \<Rightarrow> VirtualControllerType \<Rightarrow> int" where
  "CountControllers c controllerType =
     (case c controllerType of None \<Rightarrow> 0 | Some controllers \<Rightarrow> int (fcard (fmdom controllers)))"

text \<open>The four loops over the controller lists, in the order of the code.\<close>

definition hardware_controllers :: "VirtualMachineHardwareSpec \<Rightarrow> ControllerSpec list" where
  "hardware_controllers hw =
     map SCSIController (hw_SCSIControllers hw) @ map SATAController (hw_SATAControllers hw) @
     map NVMEController (hw_NVMEControllers hw) @ map IDEController (hw_IDEControllers hw)"

definition set_controller :: "ControllerSpec \<Rightarrow> ControllerSpecs \<Rightarrow> ControllerSpecs" where
  "set_controller c specs =
     (let i = GenerateControllerID (Some c) in ControllerSpecs_Set specs (ControllerType i) (BusNumber i) c)"

definition NewControllerSpecs :: "VirtualMachine \<Rightarrow> ControllerSpecs" where
  "NewControllerSpecs vm =
     (case vm_Hardware vm of
        None \<Rightarrow> Map.empty
      | Some hw \<Rightarrow> fold set_controller (hardware_controllers hw) Map.empty)"

section \<open>Fast suspend and resume\<close>

definition IsFSRSupported :: "VirtualMachine \<Rightarrow> bool" where
  "IsFSRSupported vm =
     (case vm_Hardware vm of
        None \<Rightarrow> True
      | Some hw \<Rightarrow>
          let controllersWithDisks = set (List.map_filter (\<lambda>vol.
                if vol_ControllerType vol = VirtualControllerTypeSCSI then vol_ControllerBusNumber vol
                else None) (vm_Volumes vm))
          in \<not> list_ex (\<lambda>controller. scsi_SharingMode controller = VirtualControllerSharingModePhysical \<and>
                 scsi_BusNumber controller \<in> controllersWithDisks) (hw_SCSIControllers hw))"

section \<open>Unit numbers\<close>

text \<open>
  The contract of the search for a unit number: it answers with the lowest slot that is not occupied,
  and with a negative number only when every slot is.
\<close>

locale unit_allocator =
  fixes alloc :: "int set \<Rightarrow> int" and slots :: "int set"
  assumes finite_slots: "finite slots"
    and slots_nonneg: "u \<in> slots \<Longrightarrow> 0 \<le> u"
    and next_free: "0 \<le> alloc occ \<Longrightarrow> alloc occ \<in> slots - occ"
    and next_none: "alloc occ < 0 \<Longrightarrow> slots \<subseteq> occ"
    and next_lowest: "u \<in> slots - occ \<Longrightarrow> alloc occ \<le> u"
begin

lemma next_found_iff: "0 \<le> alloc occ \<longleftrightarrow> \<not> slots \<subseteq> occ"
  using next_free [of occ] next_none [of occ] by fastforce

lemma next_negative_iff: "alloc occ < 0 \<longleftrightarrow> slots \<subseteq> occ"
  using next_found_iff [of occ] by linarith

lemma next_if_room:
  assumes "card (occ \<inter> slots) < card slots"
  shows "0 \<le> alloc occ"
proof (rule ccontr)
  assume "\<not> 0 \<le> alloc occ"
  then have "occ \<inter> slots = slots" using next_none [of occ] by auto
  with assms show False by simp
qed

lemma room_after_next:
  assumes "0 \<le> alloc occ"
  shows "card (insert (alloc occ) occ \<inter> slots) = Suc (card (occ \<inter> slots))"
proof -
  have free: "alloc occ \<in> slots" "alloc occ \<notin> occ" using next_free [OF assms] by auto
  then have "insert (alloc occ) occ \<inter> slots = insert (alloc occ) (occ \<inter> slots)" by auto
  with free show ?thesis using finite_slots by simp
qed

end

text \<open>The slots a device can take on a controller.\<close>

definition unit_slots :: "ControllerSpec \<Rightarrow> int set" where
  "unit_slots c =
     (let first = (case FirstUnitNumber c of None \<Rightarrow> 0 | Some f \<Rightarrow> f)
      in {first..<first + MaxSlots c} - {ReservedUnitNumber c})"

lemma find_upto_lowest:
  assumes "List.find P [a..b] = Some u"
  shows "a \<le> u \<and> u \<le> b \<and> P u \<and> (\<forall>v. a \<le> v \<and> v < u \<longrightarrow> \<not> P v)"
  using assms
proof (induction a b rule: upto.induct)
  case (1 i j)
  show ?case
  proof (cases "i \<le> j \<and> \<not> P i")
    case True
    with 1 have "i + 1 \<le> u \<and> u \<le> j \<and> P u \<and> (\<forall>v. i + 1 \<le> v \<and> v < u \<longrightarrow> \<not> P v)"
      by (simp add: upto.simps [of i j])
    moreover have "v = i \<or> i + 1 \<le> v" if "i \<le> v" for v using that by linarith
    ultimately show ?thesis using True by fastforce
  next
    case False
    with 1 show ?thesis by (cases "i \<le> j") (auto simp: upto.simps [of i j])
  qed
qed

lemma NextAvailableUnitNumber_cases:
  obtains (none) "NextAvailableUnitNumber (Some c) occ = -1" and "unit_slots c \<subseteq> occ"
  | (some) "NextAvailableUnitNumber (Some c) occ \<in> unit_slots c - occ"
    and "\<And>u. u \<in> unit_slots c - occ \<Longrightarrow> NextAvailableUnitNumber (Some c) occ \<le> u"
proof -
  define first where "first = (case FirstUnitNumber c of None \<Rightarrow> 0 | Some f \<Rightarrow> f)"
  let ?P = "\<lambda>u. u \<notin> occ \<and> u \<noteq> ReservedUnitNumber c"
  have slots: "unit_slots c = {first..<first + MaxSlots c} - {ReservedUnitNumber c}"
    by (simp add: unit_slots_def first_def Let_def)
  show thesis
  proof (cases "List.find ?P [first..first + MaxSlots c - 1]")
    case None
    then have "unit_slots c \<subseteq> occ" by (auto simp: find_None_iff slots)
    with None show thesis by (intro none) (simp_all add: NextAvailableUnitNumber_def first_def [symmetric])
  next
    case (Some u)
    then have eq: "NextAvailableUnitNumber (Some c) occ = u"
      by (simp add: NextAvailableUnitNumber_def first_def [symmetric])
    from find_upto_lowest [OF Some] show thesis
      by (intro some) (unfold eq slots, auto simp: not_less [symmetric])
  qed
qed

lemma unit_slots_nonneg: "u \<in> unit_slots c \<Longrightarrow> 0 \<le> u"
  by (cases c) (auto simp: unit_slots_def NICUnitNumberFirst_def)

interpretation units: unit_allocator "NextAvailableUnitNumber (Some c)" "unit_slots c" for c
proof
  show "finite (unit_slots c)" by (simp add: unit_slots_def Let_def)
  show "0 \<le> u" if "u \<in> unit_slots c" for u using that by (rule unit_slots_nonneg)
  show "NextAvailableUnitNumber (Some c) occ \<in> unit_slots c - occ"
    if "0 \<le> NextAvailableUnitNumber (Some c) occ" for occ
    using that by (cases rule: NextAvailableUnitNumber_cases [of c occ]) simp_all
  show "unit_slots c \<subseteq> occ" if "NextAvailableUnitNumber (Some c) occ < 0" for occ
    using that unit_slots_nonneg [of "NextAvailableUnitNumber (Some c) occ" c]
    by (cases rule: NextAvailableUnitNumber_cases [of c occ]) auto
  show "NextAvailableUnitNumber (Some c) occ \<le> u" if "u \<in> unit_slots c - occ" for u occ
    using that unit_slots_nonneg [of u c]
    by (cases rule: NextAvailableUnitNumber_cases [of c occ]) auto
qed

lemma NextAvailableUnitNumber_ge: "-1 \<le> NextAvailableUnitNumber (Some c) occ"
  using unit_slots_nonneg [of "NextAvailableUnitNumber (Some c) occ" c]
  by (cases rule: NextAvailableUnitNumber_cases [of c occ]) auto

lemma NextAvailableUnitNumber_minus_one:
  "NextAvailableUnitNumber (Some c) occ = -1 \<longleftrightarrow> NextAvailableUnitNumber (Some c) occ < 0"
  using NextAvailableUnitNumber_ge [of c occ] by auto

section \<open>Lookups in the collection of controllers\<close>

text \<open>
  The contract of the collection: a two-level map that knows the size of each inner map. Adding a
  missing entry only below the limit keeps the sizes within the limit.
\<close>

locale counted_map =
  fixes lookup :: "'m \<Rightarrow> 't \<Rightarrow> 'b \<Rightarrow> 'c option"
    and update :: "'m \<Rightarrow> 't \<Rightarrow> 'b \<Rightarrow> 'c \<Rightarrow> 'm"
    and count :: "'m \<Rightarrow> 't \<Rightarrow> int"
  assumes lookup_update: "lookup (update m t b c) t' b' = (if t' = t \<and> b' = b then Some c else lookup m t' b')"
    and count_update: "count (update m t b c) t' =
      (if t' = t \<and> lookup m t b = None then count m t' + 1 else count m t')"
begin

lemma guarded_update_bounded:
  assumes "\<And>t. count m t \<le> limit t" and "lookup m t b = None \<Longrightarrow> count m t < limit t"
  shows "count (update m t b c) t' \<le> limit t'"
  using assms(1) [of t'] assms(2) by (auto simp: count_update)

lemma lookup_update_mono: "lookup m t' b' \<noteq> None \<Longrightarrow> lookup (update m t b c) t' b' \<noteq> None"
  by (simp add: lookup_update)

end

interpretation specs: counted_map ControllerSpecs_Get ControllerSpecs_Set CountControllers
proof
  fix m :: ControllerSpecs and t b c t' b'
  show "ControllerSpecs_Get (ControllerSpecs_Set m t b c) t' b' =
      (if t' = t \<and> b' = b then Some c else ControllerSpecs_Get m t' b')"
    by (auto simp: ControllerSpecs_Get_def ControllerSpecs_Set_def split: option.splits)
  show "CountControllers (ControllerSpecs_Set m t b c) t' =
      (if t' = t \<and> ControllerSpecs_Get m t b = None then CountControllers m t' + 1 else CountControllers m t')"
    by (auto simp: CountControllers_def ControllerSpecs_Get_def ControllerSpecs_Set_def fcard_finsert_if
        fmlookup_dom_iff split: option.splits dest: fmdom_notD)
qed

declare specs.lookup_update [hw_simps] specs.count_update [hw_simps]

lemma ControllerSpecs_Get_empty [hw_simps]: "ControllerSpecs_Get Map.empty t b = None"
  by (simp add: ControllerSpecs_Get_def)

abbreviation controller_id :: "ControllerSpec \<Rightarrow> ControllerID" where
  "controller_id c \<equiv> GenerateControllerID (Some c)"

text \<open>A collection files every controller under its own type and bus number.\<close>

definition wf_specs :: "ControllerSpecs \<Rightarrow> bool" where
  "wf_specs specs \<longleftrightarrow>
     (\<forall>t b c. ControllerSpecs_Get specs t b = Some c \<longrightarrow> controller_id c = \<lparr>ControllerType = t, BusNumber = b\<rparr>)"

lemma set_controller_lookup:
  "ControllerSpecs_Get (set_controller c specs) t b =
     (if controller_id c = \<lparr>ControllerType = t, BusNumber = b\<rparr> then Some c else ControllerSpecs_Get specs t b)"
  by (cases "controller_id c") (auto simp: set_controller_def hw_simps Let_def)

lemma fold_set_controller_lookup:
  "ControllerSpecs_Get (fold set_controller cs specs) t b =
     (case find_by controller_id (rev cs) \<lparr>ControllerType = t, BusNumber = b\<rparr> of
        None \<Rightarrow> ControllerSpecs_Get specs t b
      | Some c \<Rightarrow> Some c)"
  by (induction cs arbitrary: specs) (auto simp: set_controller_lookup find_by_append split: option.splits)

lemma NewControllerSpecs_lookup:
  "ControllerSpecs_Get (NewControllerSpecs vm) t b =
     (case vm_Hardware vm of None \<Rightarrow> None
      | Some hw \<Rightarrow> find_by controller_id (rev (hardware_controllers hw)) \<lparr>ControllerType = t, BusNumber = b\<rparr>)"
  by (simp add: NewControllerSpecs_def fold_set_controller_lookup hw_simps split: option.split)

lemma NewControllerSpecs_wf: "wf_specs (NewControllerSpecs vm)"
  by (auto simp: wf_specs_def NewControllerSpecs_lookup split: option.splits dest: find_by_SomeD)

lemma NewControllerSpecs_Some_iff:
  assumes "vm_Hardware vm = Some hw"
  shows "ControllerSpecs_Get (NewControllerSpecs vm) t b \<noteq> None \<longleftrightarrow>
    \<lparr>ControllerType = t, BusNumber = b\<rparr> \<in> controller_id ` set (hardware_controllers hw)"
  using assms by (simp add: NewControllerSpecs_lookup find_by_None del: not_None_eq)

lemma controller_types:
  "controller_id c = i \<Longrightarrow> ControllerType i \<noteq> [] \<Longrightarrow>
     MaxCount c = VirtualControllerType_MaxCount (ControllerType i)"
  by (cases c) (auto simp: IDEControllerSpec_MaxCount_def NVMEControllerSpec_MaxCount_def
      SATAControllerSpec_MaxCount_def SCSIControllerSpec_MaxCount_def)

lemma CreateNewController_id:
  "CreateNewController t b m = Some c \<Longrightarrow> controller_id c = \<lparr>ControllerType = t, BusNumber = b\<rparr>"
  by (auto simp: CreateNewController_def split: if_splits)

lemma CreateNewController_None_iff:
  "CreateNewController t b m = None \<longleftrightarrow> VirtualControllerType_MaxCount t = 0"
  by (auto simp: CreateNewController_def VirtualControllerType_MaxCount_def)

lemma CountControllers_card:
  "CountControllers specs t = int (card {b. ControllerSpecs_Get specs t b \<noteq> None})"
proof (cases "specs t")
  case None
  then show ?thesis by (simp add: CountControllers_def ControllerSpecs_Get_def)
next
  case (Some m)
  then have "{b. ControllerSpecs_Get specs t b \<noteq> None} = fset (fmdom m)"
    by (auto simp: ControllerSpecs_Get_def fmlookup_dom_iff)
  with Some show ?thesis by (simp add: CountControllers_def fcard.rep_eq)
qed

lemma finite_controllers: "finite {b. ControllerSpecs_Get specs t b \<noteq> None}"
  by (cases "specs t") (auto simp: ControllerSpecs_Get_def fmlookup_dom_iff [symmetric] elim: finite_subset [rotated])

lemma CountControllers_mono:
  assumes "\<And>b. ControllerSpecs_Get specs t b \<noteq> None \<Longrightarrow> ControllerSpecs_Get specs' t b \<noteq> None"
  shows "CountControllers specs t \<le> CountControllers specs' t"
proof -
  have "{b. ControllerSpecs_Get specs t b \<noteq> None} \<subseteq> {b. ControllerSpecs_Get specs' t b \<noteq> None}"
    using assms by auto
  with finite_controllers show ?thesis unfolding CountControllers_card by (simp only: of_nat_le_iff card_mono)
qed

lemma CountControllers_full:
  assumes "\<And>b. 0 \<le> b \<Longrightarrow> b < n \<Longrightarrow> ControllerSpecs_Get specs t b \<noteq> None"
  shows "n \<le> CountControllers specs t"
proof -
  have "{0..<n} \<subseteq> {b. ControllerSpecs_Get specs t b \<noteq> None}" using assms by auto
  with finite_controllers have "card {0..<n} \<le> card {b. ControllerSpecs_Get specs t b \<noteq> None}" by (rule card_mono)
  then show ?thesis by (simp add: CountControllers_card)
qed

lemma CreateNewController_unit: "CreateNewController t b m = Some c \<Longrightarrow> 0 \<in> unit_slots c"
  by (auto simp: CreateNewController_def unit_slots_def SCSIControllerSpec_MaxSlots_def
      SCSIControllerSpec_ReservedUnitNumber_def SATAControllerSpec_MaxSlots_def
      SATAControllerSpec_ReservedUnitNumber_def NVMEControllerSpec_MaxSlots_def
      NVMEControllerSpec_ReservedUnitNumber_def IDEControllerSpec_MaxSlots_def
      IDEControllerSpec_ReservedUnitNumber_def split: if_splits)

lemma controller_id_MaxCount:
  "controller_id c = i \<Longrightarrow> ControllerType i \<noteq> [] \<Longrightarrow> 0 < VirtualControllerType_MaxCount (ControllerType i)"
  by (cases c) (auto simp: VirtualControllerType_MaxCount_def)

end
