(* ===== verification/Slots.thy ===== *)
theory Slots
  imports Hardware
begin

text \<open>
  The map of occupied slots that the webhooks build, and the slots that CD-ROMs and volumes name. The
  mutation webhook (\<^verbatim>\<open>AddControllersForVolumes\<close>) and the validation webhook
  (\<^verbatim>\<open>validateControllerSlots\<close>) record the CD-ROMs with the same loop.
\<close>

section \<open>Occupied slots\<close>

type_synonym occupied = "ControllerID \<rightharpoonup> int set"

text \<open>Reading \<^verbatim>\<open>occupiedSlots[id]\<close>: a missing (nil) set is empty.\<close>

definition slots_of :: "occupied \<Rightarrow> ControllerID \<Rightarrow> int set" where
  "slots_of occ i = (case occ i of None \<Rightarrow> {} | Some s \<Rightarrow> s)"

text \<open>\<^verbatim>\<open>if occupiedSlots[id] == nil { occupiedSlots[id] = sets.New() }\<close>\<close>

definition init_slots :: "ControllerID \<Rightarrow> occupied \<Rightarrow> occupied" where
  "init_slots i occ = (case occ i of None \<Rightarrow> occ(i \<mapsto> {}) | Some s \<Rightarrow> occ)"

definition insert_slot :: "ControllerID \<Rightarrow> int \<Rightarrow> occupied \<Rightarrow> occupied" where
  "insert_slot i u occ = occ(i \<mapsto> insert u (slots_of occ i))"

definition add_cdrom_slot :: "VirtualMachineCdromSpec \<Rightarrow> occupied \<Rightarrow> occupied" where
  "add_cdrom_slot cdrom occ =
     (case (cd_ControllerBusNumber cdrom, cd_UnitNumber cdrom) of
        (Some b, Some u) \<Rightarrow>
          if cd_ControllerType cdrom \<noteq> [] \<and> u \<ge> 0
          then insert_slot \<lparr>ControllerType = cd_ControllerType cdrom, BusNumber = b\<rparr> u occ
          else occ
      | _ \<Rightarrow> occ)"

definition cdrom_slots :: "VirtualMachine \<Rightarrow> occupied" where
  "cdrom_slots vm =
     (case vm_Hardware vm of None \<Rightarrow> Map.empty | Some hw \<Rightarrow> fold add_cdrom_slot (hw_Cdrom hw) Map.empty)"

section \<open>Reading the slots\<close>

text \<open>The slot of a device whose controller type, bus and unit number are all known.\<close>

definition vol_slot :: "VirtualMachineVolume \<Rightarrow> (ControllerID \<times> int) option" where
  "vol_slot vol =
     (case (vol_ControllerBusNumber vol, vol_UnitNumber vol) of
        (Some b, Some u) \<Rightarrow>
          if vol_ControllerType vol = [] then None
          else Some (\<lparr>ControllerType = vol_ControllerType vol, BusNumber = b\<rparr>, u)
      | _ \<Rightarrow> None)"

lemma slots_of_empty [hw_simps]: "slots_of Map.empty i = {}"
  by (simp add: slots_of_def)

lemma slots_of_init [hw_simps]: "slots_of (init_slots j occ) i = slots_of occ i"
  by (simp add: slots_of_def init_slots_def split: option.split)

lemma slots_of_insert [hw_simps]:
  "slots_of (insert_slot j u occ) i = (if i = j then insert u (slots_of occ j) else slots_of occ i)"
  by (simp add: slots_of_def insert_slot_def)

text \<open>The CD-ROMs of a VM; their slots depend on nothing else.\<close>

definition vm_cdroms :: "VirtualMachine \<Rightarrow> VirtualMachineCdromSpec list" where
  "vm_cdroms vm = (case vm_Hardware vm of None \<Rightarrow> [] | Some hw \<Rightarrow> hw_Cdrom hw)"

lemma cdrom_slots_vm_cdroms: "cdrom_slots vm = fold add_cdrom_slot (vm_cdroms vm) Map.empty"
  by (simp add: cdrom_slots_def vm_cdroms_def split: option.split)

lemma fold_cdrom_other_type:
  assumes "\<forall>cdrom \<in> set cds. cd_ControllerType cdrom \<noteq> t" and "ControllerType i = t"
  shows "slots_of (fold add_cdrom_slot cds Map.empty) i = {}"
proof -
  have "slots_of (fold add_cdrom_slot cds occ) i = slots_of occ i" for occ
    using assms
    by (induction cds arbitrary: occ) (auto simp: add_cdrom_slot_def hw_simps split: option.splits)
  then show ?thesis by (simp add: hw_simps)
qed

end
