(* ===== verification/Controller_Mutation.thy ===== *)
theory Controller_Mutation
  imports Slots
begin

text \<open>
  The mutation webhook that gives volumes a controller and a unit number:
  \<^verbatim>\<open>webhooks/virtualmachine/mutation/virtualmachine_mutator_hardware_controllers.go\<close>. The Go code keeps
  pointers into \<^verbatim>\<open>vm.Spec.Volumes\<close>; here they are indices, and the VM, the collection of controllers
  and the map of occupied slots that the calls update in place are the fields of \<^verbatim>\<open>placement\<close>.
\<close>

section \<open>The target controller of a volume\<close>

text \<open>The first loop of \<^verbatim>\<open>determineTargetController\<close>, over the remaining bus numbers.\<close>

fun find_available ::
    "VirtualControllerType \<Rightarrow> string \<Rightarrow> ControllerSpecs \<Rightarrow> occupied \<Rightarrow> int list \<Rightarrow> ControllerSpec option \<times> occupied" where
  "find_available controllerType sharingMode specs occ [] = (None, occ)"
| "find_available controllerType sharingMode specs occ (busNum # bs) =
     (let controllerID = \<lparr>ControllerType = controllerType, BusNumber = busNum\<rparr>
      in case ControllerSpecs_Get specs controllerType busNum of
           None \<Rightarrow> find_available controllerType sharingMode specs occ bs
         | Some controller \<Rightarrow>
             let occ = init_slots controllerID occ;
                 hasAvailableSlots = NextAvailableUnitNumber (Some controller) (slots_of occ controllerID) \<ge> 0;
                 sharingModeMatches = GetControllerSharingMode controller = sharingMode
             in if sharingModeMatches \<and> hasAvailableSlots then (Some controller, occ)
                else find_available controllerType sharingMode specs occ bs)"

definition target_type :: "VirtualMachineVolume \<Rightarrow> VirtualControllerType" where
  "target_type vol =
     (if vol_ControllerType vol = [] then VirtualControllerTypeSCSI else vol_ControllerType vol)"

definition determineTargetController ::
    "VirtualMachineVolume \<Rightarrow> ControllerSpecs \<Rightarrow> occupied \<Rightarrow> ControllerSpec option \<times> occupied" where
  "determineTargetController vol specs occ =
     (let controllerType = target_type vol;
          sharingMode = DefaultControllerSharingMode vol;
          busNumbers = [0..VirtualControllerType_MaxCount controllerType - 1]
      in case vol_ControllerBusNumber vol of
           Some b \<Rightarrow>
             (case ControllerSpecs_Get specs controllerType b of
                Some controller \<Rightarrow> (Some controller, occ)
              | None \<Rightarrow> (CreateNewController controllerType b sharingMode, occ))
         | None \<Rightarrow>
             (case find_available controllerType sharingMode specs occ busNumbers of
                (Some controller, occ) \<Rightarrow> (Some controller, occ)
              | (None, occ) \<Rightarrow>
                  (case List.find (\<lambda>b. ControllerSpecs_Get specs controllerType b = None) busNumbers of
                     Some b \<Rightarrow> (CreateNewController controllerType b sharingMode, occ)
                   | None \<Rightarrow> (None, occ))))"

section \<open>Placing volumes\<close>

record placement =
  pl_vm :: VirtualMachine
  pl_specs :: ControllerSpecs
  pl_occupied :: occupied
  pl_mutated :: bool

text \<open>The type switch that appends a new controller to the spec; \<^verbatim>\<open>None\<close> is its default branch.\<close>

fun append_controller ::
    "ControllerSpec \<Rightarrow> VirtualMachineHardwareSpec \<Rightarrow> VirtualMachineHardwareSpec option" where
  "append_controller (SCSIController c) hw =
     Some (hw\<lparr>hw_SCSIControllers := hw_SCSIControllers hw @ [c]\<rparr>)"
| "append_controller (SATAController c) hw =
     Some (hw\<lparr>hw_SATAControllers := hw_SATAControllers hw @ [c]\<rparr>)"
| "append_controller (NVMEController c) hw =
     Some (hw\<lparr>hw_NVMEControllers := hw_NVMEControllers hw @ [c]\<rparr>)"
| "append_controller (IDEController c) hw =
     Some (hw\<lparr>hw_IDEControllers := hw_IDEControllers hw @ [c]\<rparr>)"
| "append_controller NICBusSpec hw = None"

text \<open>
  The block that adds a missing controller. The flag of the result is false when the volume is
  skipped (\<^verbatim>\<open>continue\<close>).
\<close>

definition ensure_controller :: "ControllerSpec \<Rightarrow> placement \<Rightarrow> bool \<times> placement" where
  "ensure_controller controller st =
     (let i = GenerateControllerID (Some controller)
      in case ControllerSpecs_Get (pl_specs st) (ControllerType i) (BusNumber i) of
           Some _ \<Rightarrow> (True, st)
         | None \<Rightarrow>
             if CountControllers (pl_specs st) (ControllerType i) \<ge> MaxCount controller then (False, st)
             else
               let hw = (case vm_Hardware (pl_vm st) of None \<Rightarrow> hardware_zero | Some hw \<Rightarrow> hw)
               in case append_controller controller hw of
                    None \<Rightarrow> (False, st\<lparr>pl_vm := (pl_vm st)\<lparr>vm_Hardware := Some hw\<rparr>\<rparr>)
                  | Some hw' \<Rightarrow>
                      (True, st\<lparr>pl_vm := (pl_vm st)\<lparr>vm_Hardware := Some hw'\<rparr>,
                               pl_specs := ControllerSpecs_Set (pl_specs st) (ControllerType i) (BusNumber i) controller,
                               pl_mutated := True\<rparr>))"

definition update_volume :: "nat \<Rightarrow> VirtualMachineVolume \<Rightarrow> placement \<Rightarrow> placement" where
  "update_volume k vol st = st\<lparr>pl_vm := (pl_vm st)\<lparr>vm_Volumes := (vm_Volumes (pl_vm st))[k := vol]\<rparr>\<rparr>"

text \<open>The part of the loop body after the controller exists: the volume's fields and its slot.\<close>

definition assign_volume :: "nat \<Rightarrow> ControllerSpec \<Rightarrow> placement \<Rightarrow> placement" where
  "assign_volume k controller st =
     (let i = GenerateControllerID (Some controller);
          vol = vm_Volumes (pl_vm st) ! k;
          mutated = (vol_ControllerType vol = [] \<or> vol_ControllerBusNumber vol = None);
          vol = (if vol_ControllerType vol = [] then vol\<lparr>vol_ControllerType := ControllerType i\<rparr> else vol);
          vol = (if vol_ControllerBusNumber vol = None
                 then vol\<lparr>vol_ControllerBusNumber := Some (BusNumber i)\<rparr> else vol);
          occ = init_slots i (pl_occupied st)
      in case vol_UnitNumber vol of
           Some u \<Rightarrow>
             update_volume k vol (st\<lparr>pl_occupied := insert_slot i u occ, pl_mutated := pl_mutated st \<or> mutated\<rparr>)
         | None \<Rightarrow>
             let nextUnit = NextAvailableUnitNumber (Some controller) (slots_of occ i)
             in if nextUnit \<ge> 0
                then update_volume k (vol\<lparr>vol_UnitNumber := Some nextUnit\<rparr>)
                       (st\<lparr>pl_occupied := insert_slot i nextUnit occ, pl_mutated := True\<rparr>)
                else update_volume k vol (st\<lparr>pl_occupied := occ, pl_mutated := pl_mutated st \<or> mutated\<rparr>))"

text \<open>The body of the loop of \<^verbatim>\<open>processVolumes\<close>, for the volume at index \<^verbatim>\<open>k\<close>.\<close>

definition process_volume :: "nat \<Rightarrow> placement \<Rightarrow> placement" where
  "process_volume k st =
     (case determineTargetController (vm_Volumes (pl_vm st) ! k) (pl_specs st) (pl_occupied st) of
        (None, occ) \<Rightarrow> st\<lparr>pl_occupied := occ\<rparr>
      | (Some controller, occ) \<Rightarrow>
          let st = st\<lparr>pl_occupied := occ\<rparr>
          in if BusNumber (GenerateControllerID (Some controller)) \<ge> 0
             then (case ensure_controller controller st of
                     (False, st) \<Rightarrow> st
                   | (True, st) \<Rightarrow> assign_volume k controller st)
             else st)"

definition processVolumes :: "nat list \<Rightarrow> placement \<Rightarrow> bool \<times> placement" where
  "processVolumes volumes st =
     (let st = fold process_volume volumes (st\<lparr>pl_mutated := False\<rparr>) in (pl_mutated st, st))"

definition explicit_placement :: "VirtualMachineVolume \<Rightarrow> bool" where
  "explicit_placement vol \<longleftrightarrow>
     vol_ControllerBusNumber vol \<noteq> None \<and> vol_ControllerType vol \<noteq> [] \<and>
     (case vol_UnitNumber vol of None \<Rightarrow> False | Some u \<Rightarrow> u \<ge> 0)"

definition AddControllersForVolumes :: "VirtualMachine \<Rightarrow> bool \<times> VirtualMachine" where
  "AddControllersForVolumes vm =
     (if vm_Volumes vm = [] then (False, vm)
      else
        let st = \<lparr>pl_vm = vm, pl_specs = NewControllerSpecs vm, pl_occupied = cdrom_slots vm,
                  pl_mutated = False\<rparr>;
            indices = [0..<length (vm_Volumes vm)];
            explicitPlacementVolumes = filter (\<lambda>k. explicit_placement (vm_Volumes vm ! k)) indices;
            implicitPlacementVolumes = filter (\<lambda>k. \<not> explicit_placement (vm_Volumes vm ! k)) indices;
            (wasMutated, st) = processVolumes explicitPlacementVolumes st;
            (wasMutated', st) = processVolumes implicitPlacementVolumes st
        in (wasMutated' \<or> wasMutated, pl_vm st))"

section \<open>Volume defaults\<close>

definition set_defaults :: "string \<Rightarrow> string \<Rightarrow> VirtualMachineVolume \<Rightarrow> bool \<times> VirtualMachineVolume" where
  "set_defaults diskMode sharingMode v =
     (let m = (vol_DiskMode v = []);
          v = (if vol_DiskMode v = [] then v\<lparr>vol_DiskMode := diskMode\<rparr> else v);
          m' = (vol_SharingMode v = []);
          v = (if vol_SharingMode v = [] then v\<lparr>vol_SharingMode := sharingMode\<rparr> else v)
      in (m \<or> m', v))"

definition volume_defaults :: "VirtualMachineVolume \<Rightarrow> bool \<times> VirtualMachineVolume" where
  "volume_defaults v =
     (if vol_ApplicationType v = VolumeApplicationTypeOracleRAC
      then set_defaults VolumeDiskModeIndependentPersistent VolumeSharingModeMultiWriter v
      else if vol_ApplicationType v = VolumeApplicationTypeMicrosoftWSFC
      then set_defaults VolumeDiskModeIndependentPersistent VolumeSharingModeNone v
      else set_defaults VolumeDiskModePersistent VolumeSharingModeNone v)"

definition SetPVCVolumeDefaults :: "VirtualMachine \<Rightarrow> bool \<times> VirtualMachine" where
  "SetPVCVolumeDefaults vm =
     (let rs = map volume_defaults (vm_Volumes vm)
      in (list_ex fst rs, vm\<lparr>vm_Volumes := map snd rs\<rparr>))"

section \<open>The target controller\<close>

lemma find_available_slots: "slots_of (snd (find_available t m specs occ bs)) = slots_of occ"
proof (induction bs arbitrary: occ)
  case (Cons b bs)
  then show ?case by (auto simp: Let_def hw_simps fun_eq_iff split: option.split)
qed simp

lemma find_available_Some:
  assumes "find_available t m specs occ bs = (Some c, occ')"
  shows "\<exists>b \<in> set bs. ControllerSpecs_Get specs t b = Some c \<and> GetControllerSharingMode c = m \<and>
    0 \<le> NextAvailableUnitNumber (Some c) (slots_of occ \<lparr>ControllerType = t, BusNumber = b\<rparr>)"
  using assms
proof (induction bs arbitrary: occ)
  case (Cons b bs)
  then show ?case by (fastforce simp: Let_def hw_simps split: option.splits if_splits)
qed simp

lemma find_available_None:
  assumes "find_available t m specs occ bs = (None, occ')" and "b \<in> set bs"
    and "ControllerSpecs_Get specs t b = Some c" and "GetControllerSharingMode c = m"
  shows "NextAvailableUnitNumber (Some c) (slots_of occ \<lparr>ControllerType = t, BusNumber = b\<rparr>) < 0"
  using assms
proof (induction bs arbitrary: occ)
  case (Cons b' bs)
  from Cons.prems Cons.IH [of occ]
    Cons.IH [of "init_slots \<lparr>ControllerType = t, BusNumber = b'\<rparr> occ"]
  show ?case by (auto simp: Let_def hw_simps split: option.splits if_splits)
qed simp

lemma determineTargetController_slots:
  "determineTargetController vol specs occ = (tgt, occ') \<Longrightarrow> slots_of occ' = slots_of occ"
  using find_available_slots [of "target_type vol" "DefaultControllerSharingMode vol" specs occ
      "[0..VirtualControllerType_MaxCount (target_type vol) - 1]"]
  by (auto simp: determineTargetController_def Let_def split: option.splits prod.splits)

lemma target_type_nonempty: "target_type vol \<noteq> []"
  by (simp add: target_type_def VirtualControllerTypeSCSI_def)

text \<open>
  The controller found for a volume has the type of the volume, the requested bus number when there is
  one, and is either one of the collection or a new one.
\<close>

lemma determineTargetController_Some:
  assumes "determineTargetController vol specs occ = (Some c, occ')" and "wf_specs specs"
  obtains b where "controller_id c = \<lparr>ControllerType = target_type vol, BusNumber = b\<rparr>"
    and "\<And>b'. vol_ControllerBusNumber vol = Some b' \<Longrightarrow> b' = b"
    and "ControllerSpecs_Get specs (target_type vol) b \<in> {None, Some c}"
    and "ControllerSpecs_Get specs (target_type vol) b = None \<Longrightarrow> 0 \<in> unit_slots c"
    and "vol_ControllerBusNumber vol = None \<Longrightarrow> 0 \<le> b \<and> b < VirtualControllerType_MaxCount (target_type vol)"
    and "vol_ControllerBusNumber vol = None \<Longrightarrow> ControllerSpecs_Get specs (target_type vol) b = Some c \<Longrightarrow>
      0 \<le> NextAvailableUnitNumber (Some c) (slots_of occ \<lparr>ControllerType = target_type vol, BusNumber = b\<rparr>)"
proof (cases "vol_ControllerBusNumber vol")
  case (Some b)
  with assms have found: "controller_id c = \<lparr>ControllerType = target_type vol, BusNumber = b\<rparr>"
    "ControllerSpecs_Get specs (target_type vol) b \<in> {None, Some c}"
    "ControllerSpecs_Get specs (target_type vol) b = None \<Longrightarrow> 0 \<in> unit_slots c"
    by (auto simp: determineTargetController_def Let_def wf_specs_def split: option.splits
        dest: CreateNewController_id CreateNewController_unit)
  show thesis by (rule that [of b]) (use found Some in \<open>simp_all\<close>)
next
  case None
  let ?bs = "[0..VirtualControllerType_MaxCount (target_type vol) - 1]"
  let ?find = "find_available (target_type vol) (DefaultControllerSharingMode vol) specs occ ?bs"
  obtain t occ1 where find: "?find = (t, occ1)" by fastforce
  show thesis
  proof (cases t)
    case (Some c')
    with None find assms(1) have "?find = (Some c, occ')"
      by (simp add: determineTargetController_def Let_def)
    from find_available_Some [OF this] obtain b where b: "b \<in> set ?bs"
      "ControllerSpecs_Get specs (target_type vol) b = Some c"
      "0 \<le> NextAvailableUnitNumber (Some c) (slots_of occ \<lparr>ControllerType = target_type vol, BusNumber = b\<rparr>)"
      by blast
    then have "controller_id c = \<lparr>ControllerType = target_type vol, BusNumber = b\<rparr>"
      using assms(2) by (simp add: wf_specs_def)
    then show thesis by (rule that [of b]) (use b None in \<open>simp_all\<close>)
  next
    case t: None
    with None find assms(1) obtain b where
      b: "List.find (\<lambda>b. ControllerSpecs_Get specs (target_type vol) b = None) ?bs = Some b"
      and new: "CreateNewController (target_type vol) b (DefaultControllerSharingMode vol) = Some c"
      by (auto simp: determineTargetController_def Let_def split: option.splits)
    from b have free: "ControllerSpecs_Get specs (target_type vol) b = None" "b \<in> set ?bs"
      by (auto simp: find_Some_iff)
    show thesis
      by (rule that [of b, OF CreateNewController_id [OF new]]) (use free None CreateNewController_unit [OF new] in \<open>simp_all\<close>)
  qed
qed

text \<open>A controller that the webhook will never create: its slots are out of reach.\<close>

definition blocked :: "ControllerSpecs \<Rightarrow> ControllerID \<Rightarrow> bool" where
  "blocked specs i \<longleftrightarrow>
     BusNumber i < 0 \<or> VirtualControllerType_MaxCount (ControllerType i) = 0 \<or>
     ControllerSpecs_Get specs (ControllerType i) (BusNumber i) = None \<and>
     VirtualControllerType_MaxCount (ControllerType i) \<le> CountControllers specs (ControllerType i)"

lemma determineTargetController_None:
  assumes "determineTargetController vol specs occ = (None, occ')"
  shows "(\<forall>b. vol_ControllerBusNumber vol = Some b \<longrightarrow>
      blocked specs \<lparr>ControllerType = target_type vol, BusNumber = b\<rparr>) \<and>
    VirtualControllerType_MaxCount (target_type vol) \<le> CountControllers specs (target_type vol) \<or>
    VirtualControllerType_MaxCount (target_type vol) = 0"
proof (cases "VirtualControllerType_MaxCount (target_type vol) = 0")
  case False
  let ?n = "VirtualControllerType_MaxCount (target_type vol)"
  have new: "CreateNewController (target_type vol) b m = None \<longleftrightarrow> False" for b m
    using False by (simp add: CreateNewController_None_iff)
  from assms have unpinned: "vol_ControllerBusNumber vol = None"
    by (auto simp: determineTargetController_def Let_def new split: option.splits)
  with assms have "List.find (\<lambda>b. ControllerSpecs_Get specs (target_type vol) b = None) [0..?n - 1] = None"
    by (auto simp: determineTargetController_def Let_def new split: option.splits prod.splits)
  then have "?n \<le> CountControllers specs (target_type vol)"
    by (intro CountControllers_full) (auto simp: find_None_iff)
  with unpinned show ?thesis by simp
qed simp

text \<open>
  The controllers that a volume without a bus number may use, those in the range of bus numbers with the sharing mode
  of the volume, have no free unit number. This is the case when no such controller was found.
\<close>

definition full_controllers :: "ControllerSpecs \<Rightarrow> occupied \<Rightarrow> VirtualMachineVolume \<Rightarrow> bool" where
  "full_controllers specs occ vol \<longleftrightarrow>
     (\<forall>b c. 0 \<le> b \<and> b < VirtualControllerType_MaxCount (target_type vol) \<and>
        ControllerSpecs_Get specs (target_type vol) b = Some c \<and>
        GetControllerSharingMode c = DefaultControllerSharingMode vol \<longrightarrow>
        unit_slots c \<subseteq> slots_of occ \<lparr>ControllerType = target_type vol, BusNumber = b\<rparr>)"

lemma determineTargetController_full:
  assumes "determineTargetController vol specs occ = (tgt, occ')" and "vol_ControllerBusNumber vol = None" and "wf_specs specs"
    and "\<And>c. tgt = Some c \<Longrightarrow> ControllerSpecs_Get specs (ControllerType (controller_id c)) (BusNumber (controller_id c)) = None"
  shows "full_controllers specs occ vol"
proof -
  let ?bs = "[0..VirtualControllerType_MaxCount (target_type vol) - 1]"
  obtain found occ1 where find: "find_available (target_type vol) (DefaultControllerSharingMode vol) specs occ ?bs = (found, occ1)"
    by fastforce
  have "found = None"
  proof (rule ccontr)
    assume "found \<noteq> None"
    then obtain c where c: "found = Some c" by blast
    then have "tgt = Some c" using assms(1,2) find by (simp add: determineTargetController_def Let_def)
    moreover obtain b where "ControllerSpecs_Get specs (target_type vol) b = Some c"
      using find_available_Some [OF find [unfolded c]] by blast
    ultimately show False using assms(3,4) by (fastforce simp: wf_specs_def)
  qed
  from find_available_None [OF find [unfolded this]] show ?thesis
    by (auto simp: full_controllers_def units.next_negative_iff)
qed

section \<open>Adding a controller\<close>

lemma find_by_other_type:
  "ControllerType i \<noteq> VirtualControllerTypeSCSI \<Longrightarrow> find_by controller_id (rev (map SCSIController xs)) i = None"
  "ControllerType i \<noteq> VirtualControllerTypeSATA \<Longrightarrow> find_by controller_id (rev (map SATAController ys)) i = None"
  "ControllerType i \<noteq> VirtualControllerTypeNVME \<Longrightarrow> find_by controller_id (rev (map NVMEController zs)) i = None"
  "ControllerType i \<noteq> VirtualControllerTypeIDE \<Longrightarrow> find_by controller_id (rev (map IDEController ws)) i = None"
  by (auto simp: find_by_None)

lemmas controller_type_defs = VirtualControllerTypeSCSI_def VirtualControllerTypeSATA_def
  VirtualControllerTypeNVME_def VirtualControllerTypeIDE_def

lemma hardware_controllers_lookup:
  "find_by controller_id (rev (hardware_controllers hw)) i =
     (if ControllerType i = VirtualControllerTypeSCSI then find_by controller_id (rev (map SCSIController (hw_SCSIControllers hw))) i
      else if ControllerType i = VirtualControllerTypeSATA then find_by controller_id (rev (map SATAController (hw_SATAControllers hw))) i
      else if ControllerType i = VirtualControllerTypeNVME then find_by controller_id (rev (map NVMEController (hw_NVMEControllers hw))) i
      else find_by controller_id (rev (map IDEController (hw_IDEControllers hw))) i)"
proof -
  have distinct: "VirtualControllerTypeSCSI \<noteq> VirtualControllerTypeSATA" "VirtualControllerTypeSCSI \<noteq> VirtualControllerTypeNVME"
    "VirtualControllerTypeSCSI \<noteq> VirtualControllerTypeIDE" "VirtualControllerTypeSATA \<noteq> VirtualControllerTypeNVME"
    "VirtualControllerTypeSATA \<noteq> VirtualControllerTypeIDE" "VirtualControllerTypeNVME \<noteq> VirtualControllerTypeIDE"
    by (simp_all add: controller_type_defs)
  consider "ControllerType i = VirtualControllerTypeSCSI" | "ControllerType i = VirtualControllerTypeSATA"
    | "ControllerType i = VirtualControllerTypeNVME"
    | "ControllerType i \<noteq> VirtualControllerTypeSCSI" "ControllerType i \<noteq> VirtualControllerTypeSATA"
      "ControllerType i \<noteq> VirtualControllerTypeNVME"
    by blast
  then show ?thesis
    unfolding hardware_controllers_def rev_append
    by cases (use distinct in \<open>simp_all add: find_by_other_type find_by_append_left find_by_append_right\<close>)
qed

lemma append_controller_lookup:
  assumes "append_controller c hw = Some hw'"
  shows "find_by controller_id (rev (hardware_controllers hw')) i =
    (if i = controller_id c then Some c else find_by controller_id (rev (hardware_controllers hw)) i)"
  using assms unfolding hardware_controllers_lookup
  by (cases c) (auto simp: controller_type_defs)

lemma append_controller_cdrom:
  "append_controller c hw = Some hw' \<Longrightarrow> hw_Cdrom hw' = hw_Cdrom hw"
  by (cases c) auto

lemma append_controller_None: "append_controller c hw = None \<longleftrightarrow> c = NICBusSpec"
  by (cases c) auto

text \<open>The collection always mirrors the controllers of the VM that is being changed.\<close>

definition specs_match :: "placement \<Rightarrow> bool" where
  "specs_match st \<longleftrightarrow>
     (\<forall>t b. ControllerSpecs_Get (pl_specs st) t b = ControllerSpecs_Get (NewControllerSpecs (pl_vm st)) t b)"

text \<open>What a step keeps of the VM and the collection, when it makes sure of the controller \<^verbatim>\<open>c\<close>.\<close>

definition adds_controller :: "ControllerSpec \<Rightarrow> placement \<Rightarrow> placement \<Rightarrow> bool" where
  "adds_controller c st st' \<longleftrightarrow>
     (\<forall>t b. ControllerSpecs_Get (pl_specs st') t b =
        (if controller_id c = \<lparr>ControllerType = t, BusNumber = b\<rparr> then Some c
         else ControllerSpecs_Get (pl_specs st) t b)) \<and>
     (\<forall>j. blocked (pl_specs st) j \<longrightarrow> j \<noteq> controller_id c \<and> blocked (pl_specs st') j) \<and>
     (\<forall>t. CountControllers (pl_specs st') t \<le>
        max (CountControllers (pl_specs st) t) (VirtualControllerType_MaxCount t)) \<and>
     vm_cdroms (pl_vm st') = vm_cdroms (pl_vm st) \<and>
     (\<exists>h vs. pl_vm st' = (pl_vm st)\<lparr>vm_Hardware := h, vm_Volumes := vs\<rparr>) \<and>
     (specs_match st \<longrightarrow> specs_match st')"

lemma NewControllerSpecs_volumes: "NewControllerSpecs (vm\<lparr>vm_Volumes := vs\<rparr>) = NewControllerSpecs vm"
  by (simp add: NewControllerSpecs_def)

lemma vm_cdroms_volumes: "vm_cdroms (vm\<lparr>vm_Volumes := vs\<rparr>) = vm_cdroms vm"
  by (simp add: vm_cdroms_def)

lemma ensure_controller_new:
  assumes "ControllerSpecs_Get (pl_specs st) t b = None" and "controller_id c = \<lparr>ControllerType = t, BusNumber = b\<rparr>"
    and "t \<noteq> []" and "ensure_controller c st = (True, st')"
  obtains hw hw' where "CountControllers (pl_specs st) t < VirtualControllerType_MaxCount t"
    and "hw = (case vm_Hardware (pl_vm st) of None \<Rightarrow> hardware_zero | Some hw \<Rightarrow> hw)"
    and "append_controller c hw = Some hw'"
    and "st' = st\<lparr>pl_vm := (pl_vm st)\<lparr>vm_Hardware := Some hw'\<rparr>,
      pl_specs := ControllerSpecs_Set (pl_specs st) t b c, pl_mutated := True\<rparr>"
  using assms controller_types [OF assms(2)]
  by (auto simp: ensure_controller_def Let_def split: if_splits option.splits)

lemma hardware_zero_lookup: "hardware_controllers hardware_zero = []"
  by (simp add: hardware_controllers_def hardware_zero_def)

lemma ensure_controller_adds:
  assumes "ensure_controller c st = (True, st')" and id: "controller_id c = \<lparr>ControllerType = t, BusNumber = b\<rparr>"
    and "t \<noteq> []" and "0 \<le> b" and known: "ControllerSpecs_Get (pl_specs st) t b \<in> {None, Some c}"
  shows "adds_controller c st st'"
proof (cases "ControllerSpecs_Get (pl_specs st) t b")
  case (Some c')
  then have "c' = c" and "st' = st"
    using assms by (auto simp: ensure_controller_def)
  with Some show ?thesis
    using id assms(3,4) controller_id_MaxCount [OF id]
    by (fastforce simp: adds_controller_def blocked_def intro: exI [of _ "vm_Hardware (pl_vm st)"] exI [of _ "vm_Volumes (pl_vm st)"])
next
  case None
  from ensure_controller_new [OF None id assms(3,1)] obtain hw hw' where
    count: "CountControllers (pl_specs st) t < VirtualControllerType_MaxCount t"
    and hw: "hw = (case vm_Hardware (pl_vm st) of None \<Rightarrow> hardware_zero | Some hw \<Rightarrow> hw)"
    and hw': "append_controller c hw = Some hw'"
    and st': "st' = st\<lparr>pl_vm := (pl_vm st)\<lparr>vm_Hardware := Some hw'\<rparr>,
      pl_specs := ControllerSpecs_Set (pl_specs st) t b c, pl_mutated := True\<rparr>" .
  have "vm_cdroms (pl_vm st') = vm_cdroms (pl_vm st)"
    using hw append_controller_cdrom [OF hw']
    by (simp add: vm_cdroms_def st' hardware_zero_def split: option.splits)
  moreover have "specs_match st \<longrightarrow> specs_match st'"
    using hw id
    by (simp add: specs_match_def NewControllerSpecs_lookup st' append_controller_lookup [OF hw'] hw_simps
        hardware_zero_lookup split: option.splits)
  moreover have "blocked (pl_specs st) j \<longrightarrow> j \<noteq> controller_id c \<and> blocked (pl_specs st') j" for j
    using count id assms(4) controller_id_MaxCount [OF id] assms(3)
    by (cases j) (auto simp: blocked_def st' hw_simps)
  moreover have "\<exists>h vs. pl_vm st' = (pl_vm st)\<lparr>vm_Hardware := h, vm_Volumes := vs\<rparr>"
    by (rule exI [of _ "Some hw'"], rule exI [of _ "vm_Volumes (pl_vm st)"]) (simp add: st')
  ultimately show ?thesis
    using count id by (auto simp: adds_controller_def st' hw_simps None)
qed

section \<open>One step\<close>

text \<open>
  The volume after a step that found it a controller: the type and the bus are set, the unit number is
  the given one or the next free one.
\<close>

definition placed :: "ControllerSpec \<Rightarrow> occupied \<Rightarrow> VirtualMachineVolume \<Rightarrow> VirtualMachineVolume" where
  "placed c occ vol =
     vol\<lparr>vol_ControllerType := ControllerType (controller_id c),
         vol_ControllerBusNumber := Some (BusNumber (controller_id c)),
         vol_UnitNumber :=
           (case vol_UnitNumber vol of
              Some u \<Rightarrow> Some u
            | None \<Rightarrow>
                let u = NextAvailableUnitNumber (Some c) (slots_of occ (controller_id c))
                in if 0 \<le> u then Some u else None)\<rparr>"

lemma assign_volume_result:
  assumes "vol = vm_Volumes (pl_vm st) ! k"
    and "controller_id c = \<lparr>ControllerType = target_type vol, BusNumber = b\<rparr>"
    and "\<And>b'. vol_ControllerBusNumber vol = Some b' \<Longrightarrow> b' = b"
  shows "pl_vm (assign_volume k c st) =
      (pl_vm st)\<lparr>vm_Volumes := (vm_Volumes (pl_vm st))[k := placed c (pl_occupied st) vol]\<rparr>"
    and "pl_specs (assign_volume k c st) = pl_specs st"
    and "slots_of (pl_occupied (assign_volume k c st)) j =
      slots_of (pl_occupied st) j \<union>
        (if j = controller_id c then set_option (vol_UnitNumber (placed c (pl_occupied st) vol)) else {})"
proof -
  have fields: "(if vol_ControllerBusNumber (if vol_ControllerType vol = [] then vol\<lparr>vol_ControllerType := target_type vol\<rparr> else vol) = None
       then (if vol_ControllerType vol = [] then vol\<lparr>vol_ControllerType := target_type vol\<rparr> else vol)\<lparr>vol_ControllerBusNumber := Some b\<rparr>
       else (if vol_ControllerType vol = [] then vol\<lparr>vol_ControllerType := target_type vol\<rparr> else vol)) =
      vol\<lparr>vol_ControllerType := target_type vol, vol_ControllerBusNumber := Some b\<rparr>"
    using assms(3) by (cases vol) (auto simp: target_type_def)
  show "pl_vm (assign_volume k c st) =
      (pl_vm st)\<lparr>vm_Volumes := (vm_Volumes (pl_vm st))[k := placed c (pl_occupied st) vol]\<rparr>"
    unfolding assign_volume_def Let_def assms(1) [symmetric] assms(2) ControllerID.simps fields
    by (cases vol) (simp add: update_volume_def placed_def assms(2) hw_simps Let_def split: option.split)
  show "pl_specs (assign_volume k c st) = pl_specs st"
    by (simp add: assign_volume_def Let_def update_volume_def split: option.split)
  show "slots_of (pl_occupied (assign_volume k c st)) j =
      slots_of (pl_occupied st) j \<union>
        (if j = controller_id c then set_option (vol_UnitNumber (placed c (pl_occupied st) vol)) else {})"
    unfolding assign_volume_def Let_def assms(1) [symmetric] assms(2) ControllerID.simps fields
    by (auto simp: update_volume_def placed_def assms(2) hw_simps Let_def split: option.split)
qed

lemma ensure_controller_False:
  assumes "ensure_controller c st = (False, st')" and "controller_id c = \<lparr>ControllerType = t, BusNumber = b\<rparr>"
    and "t \<noteq> []"
  shows "st' = st \<and> ControllerSpecs_Get (pl_specs st) t b = None \<and>
    VirtualControllerType_MaxCount t \<le> CountControllers (pl_specs st) t"
  using assms controller_types [OF assms(2)]
  by (auto simp: ensure_controller_def Let_def append_controller_None split: if_splits option.splits)

lemma ensure_controller_rest:
  "ensure_controller c st = (r, st') \<Longrightarrow>
     vm_Volumes (pl_vm st') = vm_Volumes (pl_vm st) \<and> pl_occupied st' = pl_occupied st"
  by (auto simp: ensure_controller_def Let_def split: if_splits option.splits)

lemma adds_controller_assign:
  assumes "adds_controller c (st\<lparr>pl_occupied := occ\<rparr>) st1"
    and "pl_vm st2 = (pl_vm st1)\<lparr>vm_Volumes := vs\<rparr>" and "pl_specs st2 = pl_specs st1"
  shows "adds_controller c st st2"
proof -
  from assms(1) obtain h vs' where "pl_vm st1 = (pl_vm st)\<lparr>vm_Hardware := h, vm_Volumes := vs'\<rparr>"
    by (auto simp: adds_controller_def)
  with assms(2) have "pl_vm st2 = (pl_vm st)\<lparr>vm_Hardware := h, vm_Volumes := vs\<rparr>" by simp
  then have "\<exists>h vs. pl_vm st2 = (pl_vm st)\<lparr>vm_Hardware := h, vm_Volumes := vs\<rparr>" by blast
  moreover have "specs_match st1 \<longrightarrow> specs_match st2" "specs_match (st\<lparr>pl_occupied := occ\<rparr>) = specs_match st"
    using assms(2,3) by (simp_all add: specs_match_def NewControllerSpecs_volumes)
  ultimately show ?thesis
    using assms by (simp add: adds_controller_def vm_cdroms_volumes)
qed

text \<open>A step either leaves the VM alone, or adds the controller it needs and places the volume.\<close>

lemma process_volume_cases:
  assumes wf: "wf_specs (pl_specs st)" and vol: "vol = vm_Volumes (pl_vm st) ! k"
  obtains
    (skip) "pl_vm (process_volume k st) = pl_vm st" and "pl_specs (process_volume k st) = pl_specs st"
      and "slots_of (pl_occupied (process_volume k st)) = slots_of (pl_occupied st)"
      and "pl_mutated (process_volume k st) = pl_mutated st"
      and "\<forall>b. vol_ControllerBusNumber vol = Some b \<longrightarrow>
        blocked (pl_specs st) \<lparr>ControllerType = target_type vol, BusNumber = b\<rparr>"
      and "vol_ControllerBusNumber vol = None \<longrightarrow>
        VirtualControllerType_MaxCount (target_type vol) \<le> CountControllers (pl_specs st) (target_type vol) \<and>
        full_controllers (pl_specs st) (pl_occupied st) vol"
  | (place) c b where "controller_id c = \<lparr>ControllerType = target_type vol, BusNumber = b\<rparr>" and "0 \<le> b"
      and "\<forall>b'. vol_ControllerBusNumber vol = Some b' \<longrightarrow> b' = b"
      and "vol_ControllerBusNumber vol = None \<longrightarrow> b < VirtualControllerType_MaxCount (target_type vol) \<and>
        (ControllerSpecs_Get (pl_specs st) (target_type vol) b \<noteq> None \<longrightarrow>
          0 \<le> NextAvailableUnitNumber (Some c) (slots_of (pl_occupied st) (controller_id c)))"
      and "ControllerSpecs_Get (pl_specs st) (target_type vol) b \<in> {None, Some c}"
      and "ControllerSpecs_Get (pl_specs st) (target_type vol) b = None \<longrightarrow> 0 \<in> unit_slots c"
      and "adds_controller c st (process_volume k st)"
      and "vm_Volumes (pl_vm (process_volume k st)) =
        (vm_Volumes (pl_vm st))[k := placed c (pl_occupied st) vol]"
      and "\<And>j. slots_of (pl_occupied (process_volume k st)) j = slots_of (pl_occupied st) j \<union>
        (if j = controller_id c then set_option (vol_UnitNumber (placed c (pl_occupied st) vol)) else {})"
proof -
  obtain tgt occ where tgt: "determineTargetController vol (pl_specs st) (pl_occupied st) = (tgt, occ)"
    by fastforce
  then have occ: "slots_of occ = slots_of (pl_occupied st)" by (rule determineTargetController_slots)
  show thesis
  proof (cases tgt)
    case None
    have "process_volume k st = st\<lparr>pl_occupied := occ\<rparr>"
      using tgt None vol by (simp add: process_volume_def)
    moreover have "0 \<le> CountControllers (pl_specs st) (target_type vol)" by (simp add: CountControllers_card)
    ultimately show thesis
      using determineTargetController_None [OF tgt [unfolded None]] determineTargetController_full [OF tgt _ wf] None occ
      by (intro skip) (auto simp: blocked_def)
  next
    case (Some c)
    from determineTargetController_Some [OF tgt [unfolded Some] wf] obtain b
      where b: "controller_id c = \<lparr>ControllerType = target_type vol, BusNumber = b\<rparr>"
        and pinned: "\<And>b'. vol_ControllerBusNumber vol = Some b' \<Longrightarrow> b' = b"
        and known: "ControllerSpecs_Get (pl_specs st) (target_type vol) b \<in> {None, Some c}"
        and new: "ControllerSpecs_Get (pl_specs st) (target_type vol) b = None \<Longrightarrow> 0 \<in> unit_slots c"
        and unpinned: "vol_ControllerBusNumber vol = None \<Longrightarrow> 0 \<le> b \<and> b < VirtualControllerType_MaxCount (target_type vol)"
        and room: "vol_ControllerBusNumber vol = None \<Longrightarrow> ControllerSpecs_Get (pl_specs st) (target_type vol) b = Some c \<Longrightarrow>
          0 \<le> NextAvailableUnitNumber (Some c) (slots_of (pl_occupied st) \<lparr>ControllerType = target_type vol, BusNumber = b\<rparr>)"
      by blast
    let ?st = "st\<lparr>pl_occupied := occ\<rparr>"
    have step: "process_volume k st = (if 0 \<le> b
        then (case ensure_controller c ?st of (False, st) \<Rightarrow> st | (True, st) \<Rightarrow> assign_volume k c st) else ?st)"
      using tgt Some vol b by (simp add: process_volume_def Let_def)
    obtain ok st1 where ens: "ensure_controller c ?st = (ok, st1)" by fastforce
    consider "b < 0" | "0 \<le> b" "\<not> ok" | "0 \<le> b" ok by linarith
    then show thesis
    proof cases
      case 1
      with unpinned have "vol_ControllerBusNumber vol \<noteq> None" by auto
      with 1 step occ pinned show thesis by (intro skip) (auto simp: blocked_def)
    next
      case 2
      with ensure_controller_False [OF _ b target_type_nonempty] ens
      have "st1 = ?st" "ControllerSpecs_Get (pl_specs st) (target_type vol) b = None"
        "VirtualControllerType_MaxCount (target_type vol) \<le> CountControllers (pl_specs st) (target_type vol)"
        by fastforce+
      moreover have "full_controllers (pl_specs st) (pl_occupied st) vol" if "vol_ControllerBusNumber vol = None"
        using determineTargetController_full [OF tgt that wf] Some b calculation(2) by simp
      ultimately show thesis using 2 ens step occ pinned by (intro skip) (auto simp: blocked_def)
    next
      case 3
      with ens have ens: "ensure_controller c ?st = (True, st1)" by simp
      with step 3 have st2: "process_volume k st = assign_volume k c st1" by simp
      have adds: "adds_controller c ?st st1"
        by (rule ensure_controller_adds [OF ens b target_type_nonempty 3(1)]) (use known in simp)
      from ensure_controller_rest [OF ens] have st1: "vm_Volumes (pl_vm st1) = vm_Volumes (pl_vm st)"
        "pl_occupied st1 = occ" by simp_all
      with vol have vol1: "vol = vm_Volumes (pl_vm st1) ! k" by simp
      note res = assign_volume_result [OF vol1 b pinned]
      have "placed c (pl_occupied st1) vol = placed c (pl_occupied st) vol"
        unfolding placed_def st1 occ ..
      with st1 occ res have
        "vm_Volumes (pl_vm (process_volume k st)) = (vm_Volumes (pl_vm st))[k := placed c (pl_occupied st) vol]"
        "slots_of (pl_occupied (process_volume k st)) j = slots_of (pl_occupied st) j \<union>
          (if j = controller_id c then set_option (vol_UnitNumber (placed c (pl_occupied st) vol)) else {})" for j
        unfolding st2 by simp_all
      moreover have "adds_controller c st (process_volume k st)"
        unfolding st2 using adds_controller_assign [OF adds res(1,2)] by simp
      ultimately show thesis
        using place [OF b 3(1)] pinned known new unpinned room b by auto
    qed
  qed
qed

section \<open>The invariant of the loops\<close>

abbreviation volumes :: "placement \<Rightarrow> VirtualMachineVolume list" where
  "volumes st \<equiv> vm_Volumes (pl_vm st)"

text \<open>The webhook fills in what is missing and changes nothing else of a volume.\<close>

definition fills_in :: "VirtualMachineVolume \<Rightarrow> VirtualMachineVolume \<Rightarrow> bool" where
  "fills_in v v' \<longleftrightarrow>
     v' = v\<lparr>vol_ControllerType := vol_ControllerType v',
            vol_ControllerBusNumber := vol_ControllerBusNumber v', vol_UnitNumber := vol_UnitNumber v'\<rparr> \<and>
     vol_ControllerType v \<in> {[], vol_ControllerType v'} \<and>
     vol_ControllerBusNumber v \<in> {None, vol_ControllerBusNumber v'} \<and>
     vol_UnitNumber v \<in> {None, vol_UnitNumber v'}"

text \<open>
  After the volumes at the indices \<^verbatim>\<open>D\<close> have been processed: the collection mirrors the VM, the other
  volumes are untouched, the slots of the CD-ROMs are occupied, the slot of a processed volume is
  occupied unless its controller is out of reach, and nothing else is occupied.
\<close>

definition placement_inv :: "VirtualMachine \<Rightarrow> nat set \<Rightarrow> placement \<Rightarrow> bool" where
  "placement_inv vm D st \<longleftrightarrow>
     wf_specs (pl_specs st) \<and> specs_match st \<and> vm_cdroms (pl_vm st) = vm_cdroms vm \<and>
     (\<forall>t b c. ControllerSpecs_Get (NewControllerSpecs vm) t b = Some c \<longrightarrow>
        ControllerSpecs_Get (pl_specs st) t b = Some c) \<and>
     (\<forall>t. CountControllers (pl_specs st) t \<le>
        max (CountControllers (NewControllerSpecs vm) t) (VirtualControllerType_MaxCount t)) \<and>
     (\<exists>h vs. pl_vm st = vm\<lparr>vm_Hardware := h, vm_Volumes := vs\<rparr>) \<and>
     length (volumes st) = length (vm_Volumes vm) \<and>
     (\<forall>k. k \<notin> D \<longrightarrow> volumes st ! k = vm_Volumes vm ! k) \<and>
     (\<forall>k. fills_in (vm_Volumes vm ! k) (volumes st ! k)) \<and>
     (\<forall>i. slots_of (cdrom_slots vm) i \<subseteq> slots_of (pl_occupied st) i) \<and>
     (\<forall>k \<in> D. \<forall>i u. vol_slot (volumes st ! k) = Some (i, u) \<longrightarrow>
        u \<in> slots_of (pl_occupied st) i \<and>
          ControllerSpecs_Get (pl_specs st) (ControllerType i) (BusNumber i) \<noteq> None \<or>
        blocked (pl_specs st) i) \<and>
     (\<forall>i. \<forall>u \<in> slots_of (pl_occupied st) i. u \<in> slots_of (cdrom_slots vm) i \<or>
        (\<exists>k \<in> D. vol_slot (volumes st ! k) = Some (i, u)) \<and>
        ControllerSpecs_Get (pl_specs st) (ControllerType i) (BusNumber i) \<noteq> None)"

lemma placed_slot:
  assumes "controller_id c = \<lparr>ControllerType = target_type vol, BusNumber = b\<rparr>"
  shows "vol_slot (placed c occ vol) = map_option (Pair (controller_id c)) (vol_UnitNumber (placed c occ vol))"
  using assms target_type_nonempty [of vol]
  by (cases "vol_UnitNumber (placed c occ vol)") (simp_all add: vol_slot_def placed_def)

lemma placed_fills_in:
  assumes "controller_id c = \<lparr>ControllerType = target_type vol, BusNumber = b\<rparr>"
    and "\<forall>b'. vol_ControllerBusNumber vol = Some b' \<longrightarrow> b' = b"
  shows "fills_in vol (placed c occ vol)"
proof -
  have "vol_ControllerBusNumber vol \<in> {None, Some b}" using assms(2) by (cases "vol_ControllerBusNumber vol") auto
  then show ?thesis
    using assms(1) by (cases vol) (auto simp: fills_in_def placed_def target_type_def split: option.split)
qed

lemma fills_in_refl: "fills_in v v"
  by (simp add: fills_in_def)

lemma fills_in_trans: "fills_in u v \<Longrightarrow> fills_in v w \<Longrightarrow> fills_in u w"
  by (cases u; cases v; cases w) (auto simp: fills_in_def)

lemma vol_slot_SomeD:
  "vol_slot vol = Some (i, u) \<Longrightarrow>
     vol_ControllerBusNumber vol = Some (BusNumber i) \<and> target_type vol = ControllerType i \<and>
     vol_ControllerType vol = ControllerType i \<and> vol_UnitNumber vol = Some u"
  by (auto simp: vol_slot_def target_type_def split: option.splits if_splits)

lemma wf_specs_adds:
  "adds_controller c st st' \<Longrightarrow> wf_specs (pl_specs st) \<Longrightarrow> wf_specs (pl_specs st')"
  by (auto simp: adds_controller_def wf_specs_def)

lemma placement_inv_place:
  assumes inv: "placement_inv vm D st" and k: "k < length (volumes st)" "k \<notin> D"
    and id: "controller_id c = \<lparr>ControllerType = target_type (volumes st ! k), BusNumber = b\<rparr>"
    and pinned: "\<forall>b'. vol_ControllerBusNumber (volumes st ! k) = Some b' \<longrightarrow> b' = b"
    and known: "ControllerSpecs_Get (pl_specs st) (target_type (volumes st ! k)) b \<in> {None, Some c}"
    and adds: "adds_controller c st st'"
    and vols: "volumes st' = (volumes st)[k := placed c occ (volumes st ! k)]"
    and occ: "\<And>j. slots_of (pl_occupied st') j = slots_of (pl_occupied st) j \<union>
      (if j = controller_id c then set_option (vol_UnitNumber (placed c occ (volumes st ! k))) else {})"
  shows "placement_inv vm (insert k D) st'"
proof -
  let ?vol' = "placed c occ (volumes st ! k)"
  from k vols have nth: "volumes st' ! j = (if j = k then ?vol' else volumes st ! j)" for j by simp
  from adds obtain h vs where vm': "pl_vm st' = (pl_vm st)\<lparr>vm_Hardware := h, vm_Volumes := vs\<rparr>"
    by (auto simp: adds_controller_def)
  from inv obtain h0 vs0 where "pl_vm st = vm\<lparr>vm_Hardware := h0, vm_Volumes := vs0\<rparr>"
    by (auto simp: placement_inv_def)
  with vm' have "pl_vm st' = vm\<lparr>vm_Hardware := h, vm_Volumes := vs\<rparr>" by simp
  moreover have "fills_in (vm_Volumes vm ! j) (volumes st' ! j)" for j
    using inv fills_in_trans [OF _ placed_fills_in [OF id pinned]] by (auto simp: placement_inv_def nth)
  moreover have "u \<in> slots_of (pl_occupied st') i \<and>
      ControllerSpecs_Get (pl_specs st') (ControllerType i) (BusNumber i) \<noteq> None \<or> blocked (pl_specs st') i"
    if "j \<in> insert k D" and "vol_slot (volumes st' ! j) = Some (i, u)" for j i u
  proof (cases "j = k")
    case True
    with that placed_slot [OF id, of occ] adds show ?thesis by (auto simp: nth occ adds_controller_def)
  next
    case False
    with that inv have "u \<in> slots_of (pl_occupied st) i \<and>
        ControllerSpecs_Get (pl_specs st) (ControllerType i) (BusNumber i) \<noteq> None \<or> blocked (pl_specs st) i"
      by (auto simp: placement_inv_def nth)
    with adds show ?thesis by (cases i) (auto simp: adds_controller_def occ)
  qed
  moreover have "u \<in> slots_of (cdrom_slots vm) i \<or> (\<exists>j \<in> insert k D. vol_slot (volumes st' ! j) = Some (i, u)) \<and>
      ControllerSpecs_Get (pl_specs st') (ControllerType i) (BusNumber i) \<noteq> None"
    if u: "u \<in> slots_of (pl_occupied st') i" for i u
  proof (cases "u \<in> slots_of (pl_occupied st) i")
    case True
    with inv have "u \<in> slots_of (cdrom_slots vm) i \<or> (\<exists>j \<in> D. vol_slot (volumes st ! j) = Some (i, u)) \<and>
      ControllerSpecs_Get (pl_specs st) (ControllerType i) (BusNumber i) \<noteq> None"
      unfolding placement_inv_def by blast
    moreover have "volumes st' ! j = volumes st ! j" if "j \<in> D" for j using that k(2) by (auto simp: nth)
    ultimately show ?thesis using adds by (fastforce simp: adds_controller_def)
  next
    case False
    with u have "i = controller_id c" "vol_UnitNumber ?vol' = Some u"
      by (auto simp: occ split: if_splits)
    with adds placed_slot [OF id, of occ] show ?thesis
      by (auto simp: nth adds_controller_def)
  qed
  moreover have "wf_specs (pl_specs st')" "specs_match st'" "vm_cdroms (pl_vm st') = vm_cdroms vm"
    using inv adds wf_specs_adds [OF adds] by (auto simp: placement_inv_def adds_controller_def)
  moreover have "ControllerSpecs_Get (pl_specs st') t b' = Some c'"
    if "ControllerSpecs_Get (NewControllerSpecs vm) t b' = Some c'" for t b' c'
  proof -
    from inv that have "ControllerSpecs_Get (pl_specs st) t b' = Some c'" by (simp add: placement_inv_def)
    with adds known id show ?thesis by (auto simp: adds_controller_def)
  qed
  moreover have "CountControllers (pl_specs st') t \<le>
      max (CountControllers (NewControllerSpecs vm) t) (VirtualControllerType_MaxCount t)" for t
  proof -
    have "CountControllers (pl_specs st') t \<le>
        max (CountControllers (pl_specs st) t) (VirtualControllerType_MaxCount t)"
      using adds by (simp add: adds_controller_def)
    also have "\<dots> \<le> max (CountControllers (NewControllerSpecs vm) t) (VirtualControllerType_MaxCount t)"
      using inv by (simp add: placement_inv_def)
    finally show ?thesis .
  qed
  moreover have "volumes st' ! j = vm_Volumes vm ! j" if "j \<notin> insert k D" for j
    using inv that by (auto simp: placement_inv_def nth vols)
  moreover have "length (volumes st') = length (vm_Volumes vm)"
    using inv by (auto simp: placement_inv_def vols)
  moreover have "slots_of (cdrom_slots vm) i \<subseteq> slots_of (pl_occupied st') i" for i
    using inv by (auto simp: placement_inv_def occ)
  ultimately show ?thesis unfolding placement_inv_def by blast
qed

lemma placement_inv_step:
  assumes inv: "placement_inv vm D st" and k: "k < length (volumes st)" "k \<notin> D"
  shows "placement_inv vm (insert k D) (process_volume k st)"
proof -
  from inv have wf: "wf_specs (pl_specs st)" by (simp add: placement_inv_def)
  show ?thesis
  proof (cases rule: process_volume_cases [OF wf refl, of k, case_names skip place])
    case skip
    have "blocked (pl_specs st) i" if "vol_slot (volumes st ! k) = Some (i, u)" for i u
      using skip(5) vol_slot_SomeD [OF that] by (cases i) auto
    moreover have "specs_match (process_volume k st) = specs_match st" by (simp add: specs_match_def skip)
    ultimately show ?thesis
      using inv unfolding placement_inv_def skip by blast
  next
    case (place c b)
    then show ?thesis using placement_inv_place [OF inv k place(1,3,5,7,8,9)] by blast
  qed
qed

lemma placement_inv_slotD:
  "placement_inv vm D st \<Longrightarrow> k \<in> D \<Longrightarrow> vol_slot (volumes st ! k) = Some (i, u) \<Longrightarrow>
     u \<in> slots_of (pl_occupied st) i \<and>
       ControllerSpecs_Get (pl_specs st) (ControllerType i) (BusNumber i) \<noteq> None \<or> blocked (pl_specs st) i"
  unfolding placement_inv_def by blast

lemma placement_inv_length: "placement_inv vm D st \<Longrightarrow> length (volumes st) = length (vm_Volumes vm)"
  by (simp add: placement_inv_def)

lemma placement_inv_fold:
  assumes "placement_inv vm D st" and "distinct ks" and "set ks \<inter> D = {}"
    and "\<And>k. k \<in> set ks \<Longrightarrow> k < length (vm_Volumes vm)"
  shows "placement_inv vm (D \<union> set ks) (fold process_volume ks st)"
  using assms
proof (induction ks arbitrary: D st)
  case (Cons k ks)
  then have "placement_inv vm (insert k D) (process_volume k st)"
    by (intro placement_inv_step) (auto simp: placement_inv_length)
  then show ?case using Cons.IH [of "insert k D"] Cons.prems by auto
qed simp

text \<open>The slots the webhook chooses are valid, and used by no CD-ROM and no other volume.\<close>

definition fresh_slots :: "VirtualMachine \<Rightarrow> nat set \<Rightarrow> placement \<Rightarrow> bool" where
  "fresh_slots vm D st \<longleftrightarrow>
     (\<forall>k \<in> D. \<forall>i u. vol_UnitNumber (vm_Volumes vm ! k) = None \<longrightarrow> vol_slot (volumes st ! k) = Some (i, u) \<longrightarrow>
        (\<exists>c. ControllerSpecs_Get (pl_specs st) (ControllerType i) (BusNumber i) = Some c \<and> u \<in> unit_slots c) \<and>
        0 \<le> BusNumber i \<and> (vol_ControllerBusNumber (vm_Volumes vm ! k) = None \<longrightarrow>
          BusNumber i < VirtualControllerType_MaxCount (ControllerType i)) \<and>
        u \<notin> slots_of (cdrom_slots vm) i \<and> u \<in> slots_of (pl_occupied st) i \<and>
        (\<forall>j \<in> D. j \<noteq> k \<longrightarrow> vol_slot (volumes st ! j) \<noteq> Some (i, u)))"

lemma fresh_slots_place:
  assumes inv: "placement_inv vm D st" and fresh: "fresh_slots vm D st"
    and k: "k < length (volumes st)" "k \<notin> D" and unit: "vol_UnitNumber (vm_Volumes vm ! k) = None"
    and id: "controller_id c = \<lparr>ControllerType = target_type (volumes st ! k), BusNumber = b\<rparr>"
    and bus: "0 \<le> b" "vol_ControllerBusNumber (volumes st ! k) = None \<longrightarrow>
      b < VirtualControllerType_MaxCount (target_type (volumes st ! k))"
    and known: "ControllerSpecs_Get (pl_specs st) (target_type (volumes st ! k)) b \<in> {None, Some c}"
    and adds: "adds_controller c st st'"
    and vols: "volumes st' = (volumes st)[k := placed c (pl_occupied st) (volumes st ! k)]"
    and occ: "\<And>j. slots_of (pl_occupied st') j = slots_of (pl_occupied st) j \<union>
      (if j = controller_id c then set_option (vol_UnitNumber (placed c (pl_occupied st) (volumes st ! k))) else {})"
  shows "fresh_slots vm (insert k D) st'"
proof -
  let ?vol' = "placed c (pl_occupied st) (volumes st ! k)"
  from k vols have nth: "volumes st' ! j = (if j = k then ?vol' else volumes st ! j)" for j by simp
  from inv k unit have same: "volumes st ! k = vm_Volumes vm ! k"
    and unit': "vol_UnitNumber (volumes st ! k) = None" by (simp_all add: placement_inv_def)
  have new: "i = controller_id c \<and> u \<in> unit_slots c - slots_of (pl_occupied st) (controller_id c)"
    if "vol_slot ?vol' = Some (i, u)" for i u
    using that placed_slot [OF id, of "pl_occupied st"] units.next_free [of c]
    by (auto simp: placed_def unit' Let_def split: if_splits)
  have old: "vol_slot (volumes st ! j) \<noteq> Some (i, u)" if "vol_slot ?vol' = Some (i, u)" and "j \<in> D" for i u j
  proof
    assume "vol_slot (volumes st ! j) = Some (i, u)"
    with inv \<open>j \<in> D\<close> have "u \<in> slots_of (pl_occupied st) i \<or> blocked (pl_specs st) i"
      by (auto simp: placement_inv_def)
    with new [OF that(1)] adds show False by (auto simp: adds_controller_def)
  qed
  have cd: "slots_of (cdrom_slots vm) i \<subseteq> slots_of (pl_occupied st) i" for i
    using inv by (simp add: placement_inv_def)
  show ?thesis
    unfolding fresh_slots_def
  proof (intro ballI allI impI)
    fix j i u
    assume j: "j \<in> insert k D" "vol_UnitNumber (vm_Volumes vm ! j) = None" "vol_slot (volumes st' ! j) = Some (i, u)"
    let ?fresh = "(\<exists>c. ControllerSpecs_Get (pl_specs st') (ControllerType i) (BusNumber i) = Some c \<and> u \<in> unit_slots c) \<and>
      0 \<le> BusNumber i \<and> (vol_ControllerBusNumber (vm_Volumes vm ! j) = None \<longrightarrow>
        BusNumber i < VirtualControllerType_MaxCount (ControllerType i)) \<and>
      u \<notin> slots_of (cdrom_slots vm) i \<and> u \<in> slots_of (pl_occupied st') i \<and>
      (\<forall>l \<in> insert k D. l \<noteq> j \<longrightarrow> vol_slot (volumes st' ! l) \<noteq> Some (i, u))"
    show ?fresh
    proof (cases "j = k")
      case True
      with j(3) have slot: "vol_slot ?vol' = Some (i, u)" by (simp add: nth)
      moreover have "vol_UnitNumber ?vol' = Some u" using slot by (auto dest: vol_slot_SomeD)
      ultimately show ?thesis
        using new [OF slot] old [OF slot] cd True adds bus id same by (auto simp: adds_controller_def nth occ)
    next
      case False
      with j have "j \<in> D" and slot: "vol_slot (volumes st ! j) = Some (i, u)" by (simp_all add: nth)
      with fresh j(2) obtain c' where
        c': "ControllerSpecs_Get (pl_specs st) (ControllerType i) (BusNumber i) = Some c'" "u \<in> unit_slots c'"
        and rest: "0 \<le> BusNumber i" "vol_ControllerBusNumber (vm_Volumes vm ! j) = None \<longrightarrow>
            BusNumber i < VirtualControllerType_MaxCount (ControllerType i)"
          "u \<notin> slots_of (cdrom_slots vm) i" "u \<in> slots_of (pl_occupied st) i"
          "\<forall>l \<in> D. l \<noteq> j \<longrightarrow> vol_slot (volumes st ! l) \<noteq> Some (i, u)"
        unfolding fresh_slots_def by blast
      have "ControllerSpecs_Get (pl_specs st') (ControllerType i) (BusNumber i) = Some c'"
        using c' adds known id by (auto simp: adds_controller_def)
      with c' rest old [OF _ \<open>j \<in> D\<close>] slot show ?thesis by (auto simp: occ nth)
    qed
  qed
qed

lemma fresh_slots_step:
  assumes inv: "placement_inv vm D st" and fresh: "fresh_slots vm D st"
    and k: "k < length (volumes st)" "k \<notin> D" and unit: "vol_UnitNumber (vm_Volumes vm ! k) = None"
  shows "fresh_slots vm (insert k D) (process_volume k st)"
proof -
  from inv have wf: "wf_specs (pl_specs st)" by (simp add: placement_inv_def)
  show ?thesis
  proof (cases rule: process_volume_cases [OF wf refl, of k, case_names skip place])
    case skip
    from inv k unit have "vol_slot (volumes st ! k) = None"
      by (simp add: placement_inv_def vol_slot_def split: option.split)
    with fresh show ?thesis unfolding fresh_slots_def skip by auto
  next
    case (place c b)
    from place(4) have "vol_ControllerBusNumber (volumes st ! k) = None \<longrightarrow>
        b < VirtualControllerType_MaxCount (target_type (volumes st ! k))" by blast
    from fresh_slots_place [OF inv fresh k unit place(1,2) this place(5,7,8,9)] show ?thesis .
  qed
qed

lemma fresh_slots_fold:
  assumes "placement_inv vm D st" and "fresh_slots vm D st" and "distinct ks" and "set ks \<inter> D = {}"
    and "\<And>k. k \<in> set ks \<Longrightarrow> k < length (vm_Volumes vm) \<and> vol_UnitNumber (vm_Volumes vm ! k) = None"
  shows "fresh_slots vm (D \<union> set ks) (fold process_volume ks st)"
  using assms
proof (induction ks arbitrary: D st)
  case (Cons k ks)
  then have "placement_inv vm (insert k D) (process_volume k st)" "fresh_slots vm (insert k D) (process_volume k st)"
    by (auto intro!: placement_inv_step fresh_slots_step simp: placement_inv_length)
  then show ?case using Cons.IH [of "insert k D"] Cons.prems by auto
qed simp

section \<open>Volumes that stay without a slot\<close>

text \<open>
  A volume that pins nothing is left without a slot only when its controller type is exhausted: no further controller
  may be added, and those that the volume may use are full. CD-ROMs are kept out by the hypothesis that none
  sits on a controller of that type.
\<close>

definition served :: "VirtualMachine \<Rightarrow> nat set \<Rightarrow> placement \<Rightarrow> bool" where
  "served vm D st \<longleftrightarrow>
     (\<forall>k \<in> D. vol_ControllerBusNumber (vm_Volumes vm ! k) = None \<longrightarrow>
        (\<forall>i. ControllerType i = target_type (vm_Volumes vm ! k) \<longrightarrow> slots_of (cdrom_slots vm) i = {}) \<longrightarrow>
        vol_slot (volumes st ! k) \<noteq> None \<or>
        VirtualControllerType_MaxCount (target_type (vm_Volumes vm ! k)) \<le>
          CountControllers (pl_specs st) (target_type (vm_Volumes vm ! k)) \<and>
        full_controllers (pl_specs st) (pl_occupied st) (vm_Volumes vm ! k))"

lemma full_controllers_place:
  assumes "full_controllers (pl_specs st) (pl_occupied st) vol" and "adds_controller c st st'"
    and "VirtualControllerType_MaxCount (target_type vol) \<le> CountControllers (pl_specs st) (target_type vol)"
    and known: "ControllerSpecs_Get (pl_specs st) (ControllerType (controller_id c)) (BusNumber (controller_id c)) \<in> {None, Some c}"
    and grows: "\<And>i. slots_of (pl_occupied st) i \<subseteq> slots_of (pl_occupied st') i"
  shows "full_controllers (pl_specs st') (pl_occupied st') vol"
  unfolding full_controllers_def
proof (intro allI impI)
  fix b c' assume b: "0 \<le> b \<and> b < VirtualControllerType_MaxCount (target_type vol) \<and>
    ControllerSpecs_Get (pl_specs st') (target_type vol) b = Some c' \<and>
    GetControllerSharingMode c' = DefaultControllerSharingMode vol"
  let ?i = "\<lparr>ControllerType = target_type vol, BusNumber = b\<rparr>"
  have "ControllerSpecs_Get (pl_specs st) (target_type vol) b = Some c'"
  proof (cases "controller_id c = ?i")
    case True
    with assms(2) have "\<not> blocked (pl_specs st) ?i" by (auto simp: adds_controller_def)
    with assms(3) have "ControllerSpecs_Get (pl_specs st) (target_type vol) b \<noteq> None" by (auto simp: blocked_def)
    moreover have "c' = c" using True b assms(2) by (auto simp: adds_controller_def)
    ultimately show ?thesis using known True by auto
  next
    case False
    with b assms(2) show ?thesis by (auto simp: adds_controller_def)
  qed
  with b assms(1) have "unit_slots c' \<subseteq> slots_of (pl_occupied st) ?i" by (simp add: full_controllers_def)
  with grows [of ?i] show "unit_slots c' \<subseteq> slots_of (pl_occupied st') ?i" by blast
qed

lemma adds_controller_count:
  "adds_controller c st st' \<Longrightarrow> CountControllers (pl_specs st) t \<le> CountControllers (pl_specs st') t"
  by (intro CountControllers_mono) (simp add: adds_controller_def)

lemma served_place:
  assumes inv: "placement_inv vm D st" and k: "k \<notin> D"
    and id: "controller_id c = \<lparr>ControllerType = target_type (volumes st ! k), BusNumber = b\<rparr>"
    and room: "ControllerSpecs_Get (pl_specs st) (target_type (volumes st ! k)) b \<noteq> None \<longrightarrow>
      0 \<le> NextAvailableUnitNumber (Some c) (slots_of (pl_occupied st) (controller_id c))"
    and new: "ControllerSpecs_Get (pl_specs st) (target_type (volumes st ! k)) b = None \<longrightarrow> 0 \<in> unit_slots c"
    and free: "\<forall>i. ControllerType i = target_type (vm_Volumes vm ! k) \<longrightarrow> slots_of (cdrom_slots vm) i = {}"
  shows "vol_slot (placed c (pl_occupied st) (volumes st ! k)) \<noteq> None"
proof -
  from inv k have vol: "volumes st ! k = vm_Volumes vm ! k" by (simp add: placement_inv_def)
  have "0 \<le> NextAvailableUnitNumber (Some c) (slots_of (pl_occupied st) (controller_id c))"
  proof (cases "ControllerSpecs_Get (pl_specs st) (target_type (volumes st ! k)) b")
    case None
    have "u \<in> slots_of (cdrom_slots vm) (controller_id c) \<or>
        ControllerSpecs_Get (pl_specs st) (ControllerType (controller_id c)) (BusNumber (controller_id c)) \<noteq> None"
      if "u \<in> slots_of (pl_occupied st) (controller_id c)" for u
      using inv that unfolding placement_inv_def by blast
    with None free id vol have "slots_of (pl_occupied st) (controller_id c) = {}" by auto
    with new None show ?thesis by (auto simp: units.next_found_iff)
  next
    case (Some c')
    with room show ?thesis by simp
  qed
  then show ?thesis
    using placed_slot [OF id, of "pl_occupied st"]
    by (cases "vol_UnitNumber (volumes st ! k)") (simp_all add: placed_def)
qed

lemma served_step:
  assumes inv: "placement_inv vm D st" and served: "served vm D st" and k: "k < length (volumes st)" "k \<notin> D"
  shows "served vm (insert k D) (process_volume k st)"
proof -
  from inv have wf: "wf_specs (pl_specs st)" by (simp add: placement_inv_def)
  from inv k have vol: "volumes st ! k = vm_Volumes vm ! k" by (simp add: placement_inv_def)
  show ?thesis
  proof (cases rule: process_volume_cases [OF wf refl, of k, case_names skip place])
    case skip
    with served vol show ?thesis by (auto simp: served_def full_controllers_def)
  next
    case (place c b)
    have nth: "volumes (process_volume k st) ! j =
        (if j = k then placed c (pl_occupied st) (volumes st ! k) else volumes st ! j)" for j
      using k by (simp add: place)
    show ?thesis
      unfolding served_def
    proof (intro ballI impI)
      fix j
      assume j: "j \<in> insert k D" "vol_ControllerBusNumber (vm_Volumes vm ! j) = None"
        "\<forall>i. ControllerType i = target_type (vm_Volumes vm ! j) \<longrightarrow> slots_of (cdrom_slots vm) i = {}"
      let ?t = "target_type (vm_Volumes vm ! j)"
      show "vol_slot (volumes (process_volume k st) ! j) \<noteq> None \<or>
          VirtualControllerType_MaxCount ?t \<le> CountControllers (pl_specs (process_volume k st)) ?t \<and>
          full_controllers (pl_specs (process_volume k st)) (pl_occupied (process_volume k st)) (vm_Volumes vm ! j)"
      proof (cases "j = k")
        case True
        with j served_place [OF inv k(2) place(1) _ place(6)] place(4) vol show ?thesis by (simp add: nth)
      next
        case False
        with j served have "vol_slot (volumes st ! j) \<noteq> None \<or>
            VirtualControllerType_MaxCount ?t \<le> CountControllers (pl_specs st) ?t \<and>
            full_controllers (pl_specs st) (pl_occupied st) (vm_Volumes vm ! j)"
          by (simp add: served_def)
        moreover have "full_controllers (pl_specs (process_volume k st)) (pl_occupied (process_volume k st)) (vm_Volumes vm ! j)"
          if "VirtualControllerType_MaxCount ?t \<le> CountControllers (pl_specs st) ?t"
            "full_controllers (pl_specs st) (pl_occupied st) (vm_Volumes vm ! j)"
          by (rule full_controllers_place [OF that(2) place(7) that(1)]) (use place(1,5,9) in auto)
        ultimately show ?thesis using False adds_controller_count [OF place(7), of ?t] by (auto simp: nth)
      qed
    qed
  qed
qed

lemma served_fold:
  assumes "placement_inv vm D st" and "served vm D st" and "distinct ks" and "set ks \<inter> D = {}"
    and "\<And>k. k \<in> set ks \<Longrightarrow> k < length (vm_Volumes vm)"
  shows "served vm (D \<union> set ks) (fold process_volume ks st)"
  using assms
proof (induction ks arbitrary: D st)
  case (Cons k ks)
  then have "placement_inv vm (insert k D) (process_volume k st)" "served vm (insert k D) (process_volume k st)"
    by (auto intro!: placement_inv_step served_step simp: placement_inv_length)
  then show ?case using Cons.IH [of "insert k D"] Cons.prems by auto
qed simp

section \<open>Placed volumes are stable\<close>

lemma process_volume_stable:
  assumes vol: "vol = volumes st ! k" "explicit_placement vol" and wf: "wf_specs (pl_specs st)"
    and reach: "\<And>i u. vol_slot vol = Some (i, u) \<Longrightarrow> blocked (pl_specs st) i \<or>
      ControllerSpecs_Get (pl_specs st) (ControllerType i) (BusNumber i) \<noteq> None"
  shows "pl_vm (process_volume k st) = pl_vm st \<and> pl_specs (process_volume k st) = pl_specs st \<and>
    pl_mutated (process_volume k st) = pl_mutated st"
proof -
  let ?t = "vol_ControllerType vol"
  from vol(2) obtain b u where bus: "vol_ControllerBusNumber vol = Some b" and unit: "vol_UnitNumber vol = Some u"
    and type: "?t \<noteq> []" by (auto simp: explicit_placement_def split: option.splits)
  then have t: "target_type vol = ?t" by (simp add: target_type_def)
  from reach bus unit type have r: "blocked (pl_specs st) \<lparr>ControllerType = ?t, BusNumber = b\<rparr> \<or>
      ControllerSpecs_Get (pl_specs st) ?t b \<noteq> None" by (simp add: vol_slot_def)
  show ?thesis
  proof (cases "ControllerSpecs_Get (pl_specs st) ?t b")
    case (Some c)
    with wf have "controller_id c = \<lparr>ControllerType = ?t, BusNumber = b\<rparr>" by (simp add: wf_specs_def)
    with Some vol(1) bus unit type t show ?thesis
      by (simp add: process_volume_def determineTargetController_def Let_def ensure_controller_def
          assign_volume_def update_volume_def)
  next
    case None
    show ?thesis
    proof (cases "CreateNewController ?t b (DefaultControllerSharingMode vol)")
      case None': None
      with None vol(1) bus t show ?thesis
        by (simp add: process_volume_def determineTargetController_def Let_def)
    next
      case (Some c)
      note id = CreateNewController_id [OF Some]
      from Some have "VirtualControllerType_MaxCount ?t \<noteq> 0"
        using CreateNewController_None_iff [of ?t b "DefaultControllerSharingMode vol"] by simp
      with r None have "b < 0 \<or> VirtualControllerType_MaxCount ?t \<le> CountControllers (pl_specs st) ?t"
        by (auto simp: blocked_def)
      with None Some vol(1) bus t id controller_types [OF id] type show ?thesis
        by (auto simp: process_volume_def determineTargetController_def Let_def ensure_controller_def)
    qed
  qed
qed

lemma fold_process_volume_stable:
  assumes "wf_specs (pl_specs st)"
    and "\<forall>k \<in> set ks. explicit_placement (volumes st ! k) \<and>
      (\<forall>i u. vol_slot (volumes st ! k) = Some (i, u) \<longrightarrow> blocked (pl_specs st) i \<or>
        ControllerSpecs_Get (pl_specs st) (ControllerType i) (BusNumber i) \<noteq> None)"
  shows "pl_vm (fold process_volume ks st) = pl_vm st \<and> pl_mutated (fold process_volume ks st) = pl_mutated st"
  using assms
proof (induction ks arbitrary: st)
  case (Cons k ks)
  have same: "pl_vm (process_volume k st) = pl_vm st \<and> pl_specs (process_volume k st) = pl_specs st \<and>
      pl_mutated (process_volume k st) = pl_mutated st"
    by (rule process_volume_stable [OF refl]) (use Cons.prems in simp_all)
  with Cons.prems Cons.IH [of "process_volume k st"] show ?case by simp
qed simp

section \<open>The whole webhook\<close>

abbreviation initial_placement :: "VirtualMachine \<Rightarrow> placement" where
  "initial_placement vm \<equiv>
     \<lparr>pl_vm = vm, pl_specs = NewControllerSpecs vm, pl_occupied = cdrom_slots vm, pl_mutated = False\<rparr>"

lemma placement_inv_initial: "placement_inv vm {} (initial_placement vm)"
proof -
  have "vm = vm\<lparr>vm_Hardware := vm_Hardware vm, vm_Volumes := vm_Volumes vm\<rparr>" by simp
  then have "\<exists>h vs. vm = vm\<lparr>vm_Hardware := h, vm_Volumes := vs\<rparr>" by blast
  then show ?thesis
    by (simp add: placement_inv_def specs_match_def NewControllerSpecs_wf fills_in_refl)
qed

lemma mutated_irrelevant [simp]:
  "placement_inv vm D (st\<lparr>pl_mutated := m\<rparr>) = placement_inv vm D st"
  "fresh_slots vm D (st\<lparr>pl_mutated := m\<rparr>) = fresh_slots vm D st"
  "served vm D (st\<lparr>pl_mutated := m\<rparr>) = served vm D st"
  by (simp_all add: placement_inv_def fresh_slots_def specs_match_def served_def)

lemma AddControllersForVolumes_phases:
  assumes "AddControllersForVolumes vm = (m, vm')"
  obtains st where "pl_vm st = vm'" and "placement_inv vm {..<length (vm_Volumes vm)} st"
    and "(\<forall>vol \<in> set (vm_Volumes vm). vol_UnitNumber vol \<noteq> None \<longrightarrow> explicit_placement vol) \<longrightarrow>
      fresh_slots vm {..<length (vm_Volumes vm)} st"
    and "served vm {..<length (vm_Volumes vm)} st"
proof (cases "vm_Volumes vm = []")
  case True
  with assms show thesis
    using that [of "initial_placement vm"] placement_inv_initial [of vm]
    by (auto simp: AddControllersForVolumes_def fresh_slots_def served_def)
next
  case False
  let ?ks = "filter (\<lambda>k. explicit_placement (vm_Volumes vm ! k)) [0..<length (vm_Volumes vm)]"
  let ?js = "filter (\<lambda>k. \<not> explicit_placement (vm_Volumes vm ! k)) [0..<length (vm_Volumes vm)]"
  define st1 where "st1 = fold process_volume ?ks (initial_placement vm)"
  define st2 where "st2 = fold process_volume ?js (st1\<lparr>pl_mutated := False\<rparr>)"
  have all: "set ?ks \<union> set ?js = {..<length (vm_Volumes vm)}" by auto
  have inv1: "placement_inv vm (set ?ks) st1"
    using placement_inv_fold [OF placement_inv_initial, of ?ks] by (simp add: st1_def)
  have "placement_inv vm (set ?ks \<union> set ?js) st2"
    unfolding st2_def by (rule placement_inv_fold) (use inv1 in auto)
  then have inv2: "placement_inv vm {..<length (vm_Volumes vm)} st2" unfolding all .
  have "fresh_slots vm {..<length (vm_Volumes vm)} st2"
    if hyp: "\<forall>vol \<in> set (vm_Volumes vm). vol_UnitNumber vol \<noteq> None \<longrightarrow> explicit_placement vol"
  proof -
    have "fresh_slots vm (set ?ks) st1"
      by (auto simp: fresh_slots_def explicit_placement_def)
    then have "fresh_slots vm (set ?ks \<union> set ?js) st2"
      unfolding st2_def using inv1 hyp by (intro fresh_slots_fold) auto
    then show ?thesis unfolding all .
  qed
  moreover have "served vm {..<length (vm_Volumes vm)} st2"
  proof -
    have "served vm ({} \<union> set ?ks) st1"
      unfolding st1_def by (rule served_fold [OF placement_inv_initial]) (simp_all add: served_def)
    then have "served vm (set ?ks \<union> set ?js) st2"
      unfolding st2_def by (intro served_fold) (use inv1 in auto)
    then show ?thesis unfolding all .
  qed
  moreover have "pl_vm st2 = vm'"
    using assms False by (auto simp: AddControllersForVolumes_def processVolumes_def Let_def st1_def st2_def)
  ultimately show thesis using that [of st2] inv2 by blast
qed

lemma AddControllersForVolumes_cdroms: "vm_cdroms (snd (AddControllersForVolumes vm)) = vm_cdroms vm"
proof -
  from AddControllersForVolumes_phases [OF surjective_pairing, of vm] obtain st where
    "pl_vm st = snd (AddControllersForVolumes vm)" "placement_inv vm {..<length (vm_Volumes vm)} st" by blast
  then show ?thesis by (simp add: placement_inv_def)
qed

section \<open>Properties\<close>

lemmas volume_default_consts = VolumeApplicationTypeOracleRAC_def VolumeApplicationTypeMicrosoftWSFC_def
  VolumeDiskModeIndependentPersistent_def VolumeDiskModePersistent_def VolumeSharingModeMultiWriter_def
  VolumeSharingModeNone_def

text \<open>A VM with a CD-ROM, one volume that names its slot and two that leave everything open.\<close>

definition sample_volume :: "string \<Rightarrow> VirtualMachineVolume" where
  "sample_volume name = \<lparr>vol_Name = name, vol_ApplicationType = [], vol_ControllerBusNumber = None,
     vol_ControllerType = [], vol_DiskMode = [], vol_SharingMode = [], vol_UnitNumber = None\<rparr>"

definition sample_vm :: VirtualMachine where
  "sample_vm = \<lparr>vm_Annotations = Map.empty, vm_PowerState = VirtualMachinePowerStateOff,
     vm_Volumes = [sample_volume ''a'',
       (sample_volume ''b'')\<lparr>vol_ControllerType := ''SCSI'', vol_ControllerBusNumber := Some 0, vol_UnitNumber := Some 0\<rparr>,
       sample_volume ''c''],
     vm_Hardware = Some (hardware_zero\<lparr>hw_Cdrom := [\<lparr>cd_Name = ''cd'', cd_ControllerBusNumber = Some 0,
       cd_ControllerType = ''IDE'', cd_UnitNumber = Some 0\<rparr>]\<rparr>),
     vm_Network = None, vm_StatusControllers = None\<rparr>"

abbreviation sample_result :: VirtualMachine where
  "sample_result \<equiv> snd (AddControllersForVolumes sample_vm)"

lemma sample_result_volumes:
  "vm_Volumes sample_result = map (\<lambda>(n, u). (sample_volume n)\<lparr>vol_ControllerType := ''SCSI'',
     vol_ControllerBusNumber := Some 0, vol_UnitNumber := Some u\<rparr>) [(''a'', 1), (''b'', 0), (''c'', 2)]"
  by code_simp

lemma sample_result_hardware:
  "vm_Hardware sample_result = Some (hardware_zero\<lparr>hw_Cdrom := vm_cdroms sample_vm,
     hw_SCSIControllers := [\<lparr>scsi_BusNumber = 0, scsi_SharingMode = ''None'', scsi_Type = ''ParaVirtual''\<rparr>]\<rparr>)"
  by code_simp

lemma sample_slots:
  "vol_slot (vm_Volumes sample_result ! 0) = Some (\<lparr>ControllerType = ''SCSI'', BusNumber = 0\<rparr>, 1)"
  unfolding sample_result_volumes by code_simp

text \<open>
  C4. Assume that every volume with a unit number names its whole slot: a controller type, a bus and a number that is
  not negative. Then a unit number that the webhook assigns is a valid slot of a controller of the mutated VM, and no
  CD-ROM and no other volume of the mutated VM has that slot.
\<close>

theorem AddControllersForVolumes_fresh:
  assumes "AddControllersForVolumes vm = (m, vm')"
    and "\<forall>vol \<in> set (vm_Volumes vm). vol_UnitNumber vol \<noteq> None \<longrightarrow> explicit_placement vol"
    and "k < length (vm_Volumes vm)" and "vol_UnitNumber (vm_Volumes vm ! k) = None"
    and "vol_slot (vm_Volumes vm' ! k) = Some (i, u)"
  shows "(\<exists>c. ControllerSpecs_Get (NewControllerSpecs vm') (ControllerType i) (BusNumber i) = Some c \<and>
      u \<in> unit_slots c) \<and>
    u \<notin> slots_of (cdrom_slots vm') i \<and>
    (\<forall>j < length (vm_Volumes vm'). j \<noteq> k \<longrightarrow> vol_slot (vm_Volumes vm' ! j) \<noteq> Some (i, u))"
proof -
  from AddControllersForVolumes_phases [OF assms(1)] assms(2) obtain st where
    st: "pl_vm st = vm'" "placement_inv vm {..<length (vm_Volumes vm)} st"
    "fresh_slots vm {..<length (vm_Volumes vm)} st" by blast
  then have "specs_match st" "vm_cdroms vm' = vm_cdroms vm" "length (vm_Volumes vm') = length (vm_Volumes vm)"
    by (auto simp: placement_inv_def)
  with st(1,3) assms(3-) show ?thesis
    by (fastforce simp: fresh_slots_def specs_match_def cdrom_slots_vm_cdroms)
qed

theorem AddControllersForVolumes_fresh_witness:
  "vol_slot (vm_Volumes sample_result ! 0) = Some (\<lparr>ControllerType = ''SCSI'', BusNumber = 0\<rparr>, 1) \<and>
   vol_slot (vm_Volumes sample_result ! 2) \<noteq> Some (\<lparr>ControllerType = ''SCSI'', BusNumber = 0\<rparr>, 1)"
proof -
  have h: "\<forall>vol \<in> set (vm_Volumes sample_vm). vol_UnitNumber vol \<noteq> None \<longrightarrow> explicit_placement vol"
    "0 < length (vm_Volumes sample_vm)" "vol_UnitNumber (vm_Volumes sample_vm ! 0) = None"
    by code_simp+
  have "2 < length (vm_Volumes sample_result)" unfolding sample_result_volumes by simp
  then show ?thesis
    using AddControllersForVolumes_fresh [OF surjective_pairing h sample_slots] sample_slots by simp
qed

text \<open>
  C27. The webhook only fills in missing controller types, bus numbers and unit numbers of volumes and
  adds controllers: every field a user set, and every CD-ROM, stays as it is.
\<close>

theorem AddControllersForVolumes_frame:
  assumes "AddControllersForVolumes vm = (m, vm')"
  shows "list_all2 fills_in (vm_Volumes vm) (vm_Volumes vm') \<and> vm_cdroms vm' = vm_cdroms vm \<and>
    vm' = vm\<lparr>vm_Volumes := vm_Volumes vm', vm_Hardware := vm_Hardware vm'\<rparr> \<and>
    (\<forall>t b c. ControllerSpecs_Get (NewControllerSpecs vm) t b = Some c \<longrightarrow>
      ControllerSpecs_Get (NewControllerSpecs vm') t b = Some c)"
proof -
  from AddControllersForVolumes_phases [OF assms] obtain st where
    st: "pl_vm st = vm'" "placement_inv vm {..<length (vm_Volumes vm)} st" by blast
  then obtain h vs where vm': "vm' = vm\<lparr>vm_Hardware := h, vm_Volumes := vs\<rparr>" by (auto simp: placement_inv_def)
  from st show ?thesis
    by (auto simp: placement_inv_def specs_match_def list_all2_conv_all_nth vm')
qed

theorem AddControllersForVolumes_frame_witness: "vm_cdroms sample_result = vm_cdroms sample_vm"
  using AddControllersForVolumes_frame [OF surjective_pairing, of sample_vm] by simp

text \<open>
  C28. The webhook never takes the number of controllers of a type over the maximum of the type: a type
  that ends above it was above it before, with the same controllers.
\<close>

theorem AddControllersForVolumes_max_count:
  assumes "AddControllersForVolumes vm = (m, vm')"
  shows "CountControllers (NewControllerSpecs vm') t \<le>
    max (CountControllers (NewControllerSpecs vm) t) (VirtualControllerType_MaxCount t)"
proof -
  from AddControllersForVolumes_phases [OF assms] obtain st where
    st: "pl_vm st = vm'" "placement_inv vm {..<length (vm_Volumes vm)} st" by blast
  then have "CountControllers (NewControllerSpecs vm') t = CountControllers (pl_specs st) t"
    by (auto simp: placement_inv_def specs_match_def CountControllers_card)
  with st(2) show ?thesis by (simp add: placement_inv_def)
qed

theorem AddControllersForVolumes_max_count_witness:
  "CountControllers (NewControllerSpecs sample_result) ''SCSI'' \<le> 4"
proof -
  have "CountControllers (NewControllerSpecs sample_vm) ''SCSI'' = 0" "VirtualControllerType_MaxCount ''SCSI'' = 4"
    by code_simp+
  then show ?thesis
    using AddControllersForVolumes_max_count [OF surjective_pairing, of sample_vm "''SCSI''"] by simp
qed

text \<open>
  C29. Assume that no CD-ROM sits on a controller of the type of a volume (SCSI by default) that asks for no bus. The
  volume is left without a slot only when the mutated VM has as many controllers of that type as it allows, and every
  slot of those the volume may use, in the range of bus numbers and with its sharing mode, belongs to a volume.
\<close>

theorem AddControllersForVolumes_serves:
  assumes "AddControllersForVolumes vm = (m, vm')" and "k < length (vm_Volumes vm)"
    and "vol_ControllerBusNumber (vm_Volumes vm ! k) = None"
    and "t = target_type (vm_Volumes vm ! k)"
    and "\<forall>cdrom \<in> set (vm_cdroms vm). cd_ControllerType cdrom \<noteq> t"
  shows "vol_slot (vm_Volumes vm' ! k) \<noteq> None \<or>
    VirtualControllerType_MaxCount t \<le> CountControllers (NewControllerSpecs vm') t \<and>
    (\<forall>b c u. 0 \<le> b \<and> b < VirtualControllerType_MaxCount t \<and> ControllerSpecs_Get (NewControllerSpecs vm') t b = Some c \<and>
       GetControllerSharingMode c = DefaultControllerSharingMode (vm_Volumes vm ! k) \<and> u \<in> unit_slots c \<longrightarrow>
       (\<exists>j < length (vm_Volumes vm'). vol_slot (vm_Volumes vm' ! j) = Some (\<lparr>ControllerType = t, BusNumber = b\<rparr>, u)))"
proof -
  from AddControllersForVolumes_phases [OF assms(1)] obtain st where
    st: "pl_vm st = vm'" "placement_inv vm {..<length (vm_Volumes vm)} st"
    "served vm {..<length (vm_Volumes vm)} st" by blast
  then have count: "CountControllers (NewControllerSpecs vm') t = CountControllers (pl_specs st) t"
    and get: "ControllerSpecs_Get (NewControllerSpecs vm') t b = ControllerSpecs_Get (pl_specs st) t b" for b
    by (auto simp: placement_inv_def specs_match_def CountControllers_card)
  have cd: "slots_of (cdrom_slots vm) i = {}" if "ControllerType i = t" for i
    using assms(5) that unfolding cdrom_slots_vm_cdroms by (rule fold_cdrom_other_type)
  have taken: "\<exists>j < length (vm_Volumes vm'). vol_slot (vm_Volumes vm' ! j) = Some (\<lparr>ControllerType = t, BusNumber = b\<rparr>, u)"
    if "u \<in> slots_of (pl_occupied st) \<lparr>ControllerType = t, BusNumber = b\<rparr>" for b u
    using st(1,2) that cd [of "\<lparr>ControllerType = t, BusNumber = b\<rparr>"] unfolding placement_inv_def by fastforce
  from st(3) assms(2-4) cd have "vol_slot (vm_Volumes vm' ! k) \<noteq> None \<or>
      VirtualControllerType_MaxCount t \<le> CountControllers (pl_specs st) t \<and>
      full_controllers (pl_specs st) (pl_occupied st) (vm_Volumes vm ! k)"
    using st(1) by (auto simp: served_def)
  then show ?thesis
  proof (elim disjE conjE)
    assume full: "full_controllers (pl_specs st) (pl_occupied st) (vm_Volumes vm ! k)"
      and "VirtualControllerType_MaxCount t \<le> CountControllers (pl_specs st) t"
    moreover have "u \<in> slots_of (pl_occupied st) \<lparr>ControllerType = t, BusNumber = b\<rparr>"
      if "0 \<le> b \<and> b < VirtualControllerType_MaxCount t \<and> ControllerSpecs_Get (NewControllerSpecs vm') t b = Some c \<and>
        GetControllerSharingMode c = DefaultControllerSharingMode (vm_Volumes vm ! k) \<and> u \<in> unit_slots c" for b c u
      using full that assms(4) unfolding full_controllers_def get by blast
    ultimately show ?thesis using taken count by metis
  qed simp
qed

theorem AddControllersForVolumes_serves_witness: "\<exists>s. vol_slot (vm_Volumes sample_result ! 2) = Some s"
proof -
  have h: "2 < length (vm_Volumes sample_vm)" "vol_ControllerBusNumber (vm_Volumes sample_vm ! 2) = None"
    "''SCSI'' = target_type (vm_Volumes sample_vm ! 2)"
    "\<forall>cdrom \<in> set (vm_cdroms sample_vm). cd_ControllerType cdrom \<noteq> ''SCSI''"
    by code_simp+
  have "\<not> VirtualControllerType_MaxCount ''SCSI'' \<le> CountControllers (NewControllerSpecs sample_result) ''SCSI''"
    unfolding NewControllerSpecs_def sample_result_hardware by code_simp
  then show ?thesis
    using AddControllersForVolumes_serves [OF surjective_pairing h] by (simp only: simp_thms not_None_eq)
qed

text \<open>
  Once every volume has its slot the webhook has nothing left to do: running it on its own result
  changes nothing and reports no mutation.
\<close>

theorem AddControllersForVolumes_idempotent:
  assumes "AddControllersForVolumes vm = (m, vm')" and "\<forall>vol \<in> set (vm_Volumes vm'). explicit_placement vol"
  shows "AddControllersForVolumes vm' = (False, vm')"
proof -
  from AddControllersForVolumes_phases [OF assms(1)] obtain st where
    st: "pl_vm st = vm'" "placement_inv vm {..<length (vm_Volumes vm)} st" by blast
  have ks: "filter (\<lambda>k. explicit_placement (vm_Volumes vm' ! k)) [0..<length (vm_Volumes vm')] =
      [0..<length (vm_Volumes vm')]"
    "filter (\<lambda>k. \<not> explicit_placement (vm_Volumes vm' ! k)) [0..<length (vm_Volumes vm')] = []"
    using assms(2) by (auto simp: filter_empty_conv intro: filter_True)
  have same: "ControllerSpecs_Get (NewControllerSpecs vm') t b = ControllerSpecs_Get (pl_specs st) t b"
    "CountControllers (NewControllerSpecs vm') t = CountControllers (pl_specs st) t" for t b
    using st by (auto simp: placement_inv_def specs_match_def CountControllers_card)
  let ?st = "fold process_volume [0..<length (vm_Volumes vm')] (initial_placement vm')"
  have "pl_vm ?st = pl_vm (initial_placement vm') \<and> pl_mutated ?st = pl_mutated (initial_placement vm')"
  proof (rule fold_process_volume_stable)
    have "blocked (NewControllerSpecs vm') i \<or> ControllerSpecs_Get (NewControllerSpecs vm') (ControllerType i) (BusNumber i) \<noteq> None"
      if k: "k < length (vm_Volumes vm')" "vol_slot (vm_Volumes vm' ! k) = Some (i, u)" for k i u
    proof -
      have "blocked (pl_specs st) i \<or> ControllerSpecs_Get (pl_specs st) (ControllerType i) (BusNumber i) \<noteq> None"
        using placement_inv_slotD [OF st(2), of k i u] placement_inv_length [OF st(2)] st(1) k by auto
      then show ?thesis by (simp add: blocked_def same)
    qed
    with assms(2) show "\<forall>k \<in> set [0..<length (vm_Volumes vm')]. explicit_placement (volumes (initial_placement vm') ! k) \<and>
      (\<forall>i u. vol_slot (volumes (initial_placement vm') ! k) = Some (i, u) \<longrightarrow>
        blocked (pl_specs (initial_placement vm')) i \<or>
        ControllerSpecs_Get (pl_specs (initial_placement vm')) (ControllerType i) (BusNumber i) \<noteq> None)"
      by (simp del: not_None_eq)
  qed (simp add: NewControllerSpecs_wf)
  then show ?thesis
    using ks by (auto simp: AddControllersForVolumes_def processVolumes_def Let_def)
qed

theorem AddControllersForVolumes_idempotent_witness:
  "AddControllersForVolumes sample_result = (False, sample_result)"
proof -
  have "\<forall>vol \<in> set (vm_Volumes sample_result). explicit_placement vol"
    unfolding sample_result_volumes by code_simp
  then show ?thesis by (rule AddControllersForVolumes_idempotent [OF surjective_pairing])
qed

text \<open>
  The volume defaults fill in only empty disk and sharing modes, by application type, and leave
  nothing empty; a VM whose modes are all set is not mutated.
\<close>

theorem SetPVCVolumeDefaults_result:
  "SetPVCVolumeDefaults vm =
     (\<not> list_all (\<lambda>v. vol_DiskMode v \<noteq> [] \<and> vol_SharingMode v \<noteq> []) (vm_Volumes vm),
      vm\<lparr>vm_Volumes := map (\<lambda>v.
        v\<lparr>vol_DiskMode := (if vol_DiskMode v \<noteq> [] then vol_DiskMode v
             else if vol_ApplicationType v \<in> {''OracleRAC'', ''MicrosoftWSFC''} then ''IndependentPersistent''
             else ''Persistent''),
          vol_SharingMode := (if vol_SharingMode v \<noteq> [] then vol_SharingMode v
             else if vol_ApplicationType v = ''OracleRAC'' then ''MultiWriter'' else ''None'')\<rparr>) (vm_Volumes vm)\<rparr>)"
proof -
  have "volume_defaults v = (vol_DiskMode v = [] \<or> vol_SharingMode v = [],
      v\<lparr>vol_DiskMode := (if vol_DiskMode v \<noteq> [] then vol_DiskMode v
             else if vol_ApplicationType v \<in> {''OracleRAC'', ''MicrosoftWSFC''} then ''IndependentPersistent''
             else ''Persistent''),
          vol_SharingMode := (if vol_SharingMode v \<noteq> [] then vol_SharingMode v
             else if vol_ApplicationType v = ''OracleRAC'' then ''MultiWriter'' else ''None'')\<rparr>)" for v
    by (cases v) (auto simp: volume_defaults_def set_defaults_def Let_def volume_default_consts)
  then show ?thesis
    by (auto simp: SetPVCVolumeDefaults_def list_ex_iff list_all_iff Let_def)
qed

end
