(* ===== verification/Field_Errors.thy ===== *)
theory Field_Errors
  imports VMOp_Prelude
begin

text \<open>
  The field errors of the Kubernetes library that the admission webhooks report. A \<^verbatim>\<open>field.ErrorList\<close> is a
  list of errors with their kind, field path, offending value (printed) and detail; a webhook admits the object
  when the list is empty.
\<close>

datatype ErrorType = ErrorTypeInvalid | ErrorTypeForbidden | ErrorTypeRequired | ErrorTypeDuplicate
  | ErrorTypeNotSupported

record field_Error =
  err_Type :: ErrorType
  err_Field :: string
  err_BadValue :: string
  err_Detail :: string

definition field_Child :: "string \<Rightarrow> string \<Rightarrow> string" where
  "field_Child p name = p @ ''.'' @ name"

definition field_Index :: "string \<Rightarrow> nat \<Rightarrow> string" where
  "field_Index p i = p @ ''['' @ show_nat i @ '']''"

definition field_Key :: "string \<Rightarrow> string \<Rightarrow> string" where
  "field_Key p k = p @ ''['' @ k @ '']''"

definition field_Invalid :: "string \<Rightarrow> string \<Rightarrow> string \<Rightarrow> field_Error" where
  "field_Invalid p v detail = \<lparr>err_Type = ErrorTypeInvalid, err_Field = p, err_BadValue = v, err_Detail = detail\<rparr>"

definition field_Forbidden :: "string \<Rightarrow> string \<Rightarrow> field_Error" where
  "field_Forbidden p detail = \<lparr>err_Type = ErrorTypeForbidden, err_Field = p, err_BadValue = [], err_Detail = detail\<rparr>"

definition field_Required :: "string \<Rightarrow> string \<Rightarrow> field_Error" where
  "field_Required p detail = \<lparr>err_Type = ErrorTypeRequired, err_Field = p, err_BadValue = [], err_Detail = detail\<rparr>"

definition field_Duplicate :: "string \<Rightarrow> string \<Rightarrow> field_Error" where
  "field_Duplicate p v = \<lparr>err_Type = ErrorTypeDuplicate, err_Field = p, err_BadValue = v, err_Detail = []\<rparr>"

definition field_NotSupported :: "string \<Rightarrow> string \<Rightarrow> string list \<Rightarrow> field_Error" where
  "field_NotSupported p v validValues =
     \<lparr>err_Type = ErrorTypeNotSupported, err_Field = p, err_BadValue = v, err_Detail = concat validValues\<rparr>"

end
