(* ===== verification/Controller_Validation.thy ===== *)
theory Controller_Validation
  imports Slots Field_Errors
begin

text \<open>
  The validation webhook for controllers and the slots of volumes:
  \<^verbatim>\<open>webhooks/virtualmachine/validation/virtualmachine_validator_hardware_controllers.go\<close>.
\<close>

definition updatesNotAllowedWhenPowerOn :: string where
  "updatesNotAllowedWhenPowerOn = ''updates to this field are not allowed when VM power is on''"

section \<open>Slots\<close>

text \<open>The body of the loop over \<^verbatim>\<open>vm.Spec.Volumes\<close>; each early \<^verbatim>\<open>continue\<close> returns its errors.\<close>

definition validate_slot ::
    "ControllerSpecs \<Rightarrow> nat \<times> VirtualMachineVolume \<Rightarrow> occupied \<times> field_Error list \<Rightarrow> occupied \<times> field_Error list" where
  "validate_slot controllerSpecs iv acc =
     (case (iv, acc) of ((i, vol), (occupiedSlots, allErrs)) \<Rightarrow>
      let volPath = field_Index ''spec.volumes'' i
      in case (vol_ControllerBusNumber vol, vol_UnitNumber vol) of
        (Some busNumber, Some unitNum) \<Rightarrow>
          if vol_ControllerType vol = [] then (occupiedSlots, allErrs)
          else
            let controllerKey = \<lparr>ControllerType = vol_ControllerType vol, BusNumber = busNumber\<rparr>;
                maxBusNumber = VirtualControllerType_MaxCount (vol_ControllerType vol)
            in if busNumber < 0 \<or> busNumber \<ge> maxBusNumber
               then (occupiedSlots, allErrs @ [field_Invalid (field_Child volPath ''controllerBusNumber'')
                 (show_int busNumber) (''must be between 0 and '' @ show_int (maxBusNumber - 1))])
               else case ControllerSpecs_Get controllerSpecs (vol_ControllerType vol) busNumber of
                 None \<Rightarrow> (occupiedSlots, allErrs @ [field_Invalid (field_Child volPath ''controllerBusNumber'')
                   (show_int busNumber)
                   (''controller '' @ vol_ControllerType vol @ '':'' @ show_int busNumber @ '' does not exist'')])
               | Some targetController \<Rightarrow>
                   let reservedUnit = ReservedUnitNumber targetController;
                       maxSlots = MaxSlots targetController
                   in if unitNum < 0 \<or> unitNum \<ge> maxSlots
                      then (occupiedSlots, allErrs @ [field_Invalid (field_Child volPath ''unitNumber'')
                        (show_int unitNum) (''unit number must be between 0 and '' @ show_int (maxSlots - 1) @
                          '' for '' @ vol_ControllerType vol @ '' controller'')])
                      else if unitNum = reservedUnit
                      then (occupiedSlots, allErrs @ [field_Invalid (field_Child volPath ''unitNumber'')
                        (show_int unitNum) (''unit number '' @ show_int reservedUnit @ '' is reserved for the '' @
                          vol_ControllerType vol @ '' controller itself'')])
                      else
                        let occupiedSlots = init_slots controllerKey occupiedSlots
                        in if unitNum \<in> slots_of occupiedSlots controllerKey
                           then (occupiedSlots, allErrs @ [field_Invalid (field_Child volPath ''unitNumber'')
                             (show_int unitNum) (''controller unit number '' @ vol_ControllerType vol @ '':'' @
                               show_int busNumber @ '':'' @ show_int unitNum @ '' is already in use'')])
                           else
                             let allErrs = (if int (card (slots_of occupiedSlots controllerKey)) \<ge> MaxSlots targetController
                               then allErrs @ [field_Invalid (field_Child volPath ''unitNumber'')
                                 (show_int unitNum) (''controller '' @ vol_ControllerType vol @ '':'' @
                                   show_int busNumber @ '' full, maxDevices: '' @ show_int (MaxSlots targetController))]
                               else allErrs)
                             in (insert_slot controllerKey unitNum occupiedSlots, allErrs)
      | _ \<Rightarrow> (occupiedSlots, allErrs))"

definition validateControllerSlots :: "VirtualMachine \<Rightarrow> field_Error list" where
  "validateControllerSlots vm =
     (if vm_Volumes vm = [] then []
      else snd (fold (validate_slot (NewControllerSpecs vm)) (enumerate 0 (vm_Volumes vm)) (cdrom_slots vm, [])))"

section \<open>Controllers of a powered on VM\<close>

text \<open>\<^verbatim>\<open>IsObjectUpgraded\<close> reads the annotations and the configuration of the operator.\<close>

definition validateHotAddedControllers ::
    "pkgcfg_Config \<Rightarrow> VirtualMachine \<Rightarrow> VirtualMachine option \<Rightarrow> string \<Rightarrow> field_Error list" where
  "validateHotAddedControllers cfg vm oldVM hwPath =
     (case oldVM of
        None \<Rightarrow> []
      | Some old \<Rightarrow>
          (case (vm_Hardware old, vm_Hardware vm) of
             (Some oldHw, Some hw) \<Rightarrow>
               if IsObjectUpgraded cfg (vm_Annotations old) \<noteq> None then []
               else if IsFSRSupported old then []
               else
                 let existingControllers = set (map scsi_BusNumber (hw_SCSIControllers oldHw))
                 in concat (map (\<lambda>(i, newC).
                      if scsi_BusNumber newC \<notin> existingControllers
                      then [field_Forbidden (field_Index (field_Child hwPath ''scsiControllers'') i)
                        ''Hot-adding a new SCSI controller is not allowed when FSR is not supported'']
                      else []) (enumerate 0 (hw_SCSIControllers hw)))
           | _ \<Rightarrow> []))"

text \<open>A Go map filled in list order: the last controller with a bus number wins.\<close>

definition by_bus :: "('c \<Rightarrow> int) \<Rightarrow> 'c list \<Rightarrow> int \<rightharpoonup> 'c" where
  "by_bus bus cs = map_of (rev (map (\<lambda>c. (bus c, c)) cs))"

definition validateControllerWhenPoweredOn ::
    "pkgcfg_Config \<Rightarrow> VirtualMachine \<Rightarrow> VirtualMachine option \<Rightarrow> string \<Rightarrow> field_Error list" where
  "validateControllerWhenPoweredOn cfg vm oldVM hwPath =
     (case oldVM of
        None \<Rightarrow> []
      | Some old \<Rightarrow>
          if vm_PowerState old \<noteq> VirtualMachinePowerStateOn then []
          else
            let oldSCSI = (case vm_Hardware old of None \<Rightarrow> Map.empty
                           | Some hw \<Rightarrow> by_bus scsi_BusNumber (hw_SCSIControllers hw));
                oldNVME = (case vm_Hardware old of None \<Rightarrow> Map.empty
                           | Some hw \<Rightarrow> by_bus nvme_BusNumber (hw_NVMEControllers hw))
            in case vm_Hardware vm of
                 None \<Rightarrow> []
               | Some hw \<Rightarrow>
                   let scsiPath = field_Child hwPath ''scsiControllers'';
                       nvmePath = field_Child hwPath ''nvmeControllers''
                   in concat (map (\<lambda>(i, newC).
                        case oldSCSI (scsi_BusNumber newC) of
                          None \<Rightarrow> []
                        | Some oldC \<Rightarrow>
                            (if scsi_SharingMode newC \<noteq> scsi_SharingMode oldC
                             then [field_Forbidden (field_Child (field_Index scsiPath i) ''sharingMode'') updatesNotAllowedWhenPowerOn]
                             else []) @
                            (if scsi_Type newC \<noteq> scsi_Type oldC
                             then [field_Forbidden (field_Child (field_Index scsiPath i) ''type'') updatesNotAllowedWhenPowerOn]
                             else [])) (enumerate 0 (hw_SCSIControllers hw))) @
                      concat (map (\<lambda>(i, newC).
                        case oldNVME (nvme_BusNumber newC) of
                          None \<Rightarrow> []
                        | Some oldC \<Rightarrow>
                            if nvme_SharingMode newC \<noteq> nvme_SharingMode oldC
                            then [field_Forbidden (field_Child (field_Index nvmePath i) ''sharingMode'') updatesNotAllowedWhenPowerOn]
                            else []) (enumerate 0 (hw_NVMEControllers hw))) @
                      validateHotAddedControllers cfg vm oldVM hwPath)"

definition validateControllers ::
    "pkgcfg_Config \<Rightarrow> VirtualMachine \<Rightarrow> VirtualMachine option \<Rightarrow> field_Error list" where
  "validateControllers cfg vm oldVM =
     (if \<not> VMSharedDisks (FeatureStates cfg) then []
      else if IsObjectUpgraded cfg (vm_Annotations vm) \<noteq> None then []
      else case vm_Hardware vm of
        None \<Rightarrow> []
      | Some hw \<Rightarrow>
          let hwPath = ''spec.hardware'';
              maxIDEControllers = VirtualControllerType_MaxCount VirtualControllerTypeIDE;
              numIDEControllers = int (length (hw_IDEControllers hw))
          in validateControllerWhenPoweredOn cfg vm oldVM hwPath @
             (if numIDEControllers \<noteq> maxIDEControllers
              then [field_Invalid (field_Child hwPath ''ideControllers'') (show_int numIDEControllers @ '' controllers'')
                (''must have exactly '' @ show_int maxIDEControllers @ '' controllers'')]
              else []) @
             validateControllerSlots vm)"

section \<open>What the slot validation decides\<close>

text \<open>A slot on an existing controller, with bus and unit number in range and not reserved.\<close>

definition valid_slot :: "ControllerSpecs \<Rightarrow> ControllerID \<times> int \<Rightarrow> bool" where
  "valid_slot specs s \<longleftrightarrow>
     (case s of (i, u) \<Rightarrow>
       0 \<le> BusNumber i \<and> BusNumber i < VirtualControllerType_MaxCount (ControllerType i) \<and>
       (\<exists>c. ControllerSpecs_Get specs (ControllerType i) (BusNumber i) = Some c \<and>
          0 \<le> u \<and> u < MaxSlots c \<and> u \<noteq> ReservedUnitNumber c))"

definition volume_slots :: "VirtualMachineVolume list \<Rightarrow> (ControllerID \<times> int) list" where
  "volume_slots vols = List.map_filter vol_slot vols"

lemma volume_slots_simps [simp]:
  "volume_slots [] = []"
  "volume_slots (v # vs) = (case vol_slot v of None \<Rightarrow> volume_slots vs | Some s \<Rightarrow> s # volume_slots vs)"
  by (simp_all add: volume_slots_def map_filter_simps split: option.split)

lemma validate_slot_none: "vol_slot vol = None \<Longrightarrow> validate_slot specs (n, vol) (occ, errs) = (occ, errs)"
  by (simp add: validate_slot_def vol_slot_def Let_def split: option.splits if_splits)

lemma slots_of_insert_fun:
  "slots_of (insert_slot i u (init_slots i occ)) = (slots_of occ)(i := insert u (slots_of occ i))"
  by (rule ext) (simp add: hw_simps)

lemma validate_slot_some:
  assumes "vol_slot vol = Some (i, u)"
  shows "\<exists>occ' e. validate_slot specs (n, vol) (occ, errs) = (occ', errs @ e) \<and>
    (e = [] \<longleftrightarrow> valid_slot specs (i, u) \<and> u \<notin> slots_of occ i \<and>
       (\<forall>c. ControllerSpecs_Get specs (ControllerType i) (BusNumber i) = Some c \<longrightarrow>
         int (card (slots_of occ i)) < MaxSlots c)) \<and>
    (e = [] \<longrightarrow> slots_of occ' = (slots_of occ)(i := insert u (slots_of occ i)))"
proof -
  from assms obtain t b where vol: "vol_ControllerBusNumber vol = Some b" "vol_UnitNumber vol = Some u"
    "vol_ControllerType vol = t" "t \<noteq> []" and i: "i = \<lparr>ControllerType = t, BusNumber = b\<rparr>"
    by (auto simp: vol_slot_def split: option.splits if_splits)
  show ?thesis
  proof (cases "ControllerSpecs_Get specs t b")
    case None
    with vol i show ?thesis by (simp add: validate_slot_def Let_def valid_slot_def)
  next
    case (Some c)
    with vol i show ?thesis
      by (simp add: validate_slot_def Let_def valid_slot_def slots_of_init slots_of_insert_fun not_le)
  qed
qed

text \<open>The loop as a recursion over the volumes, from the occupied slots \<^verbatim>\<open>f\<close>.\<close>

fun slots_ok :: "ControllerSpecs \<Rightarrow> (ControllerID \<Rightarrow> int set) \<Rightarrow> (ControllerID \<times> int) list \<Rightarrow> bool" where
  "slots_ok specs f [] \<longleftrightarrow> True"
| "slots_ok specs f ((i, u) # ss) \<longleftrightarrow>
     valid_slot specs (i, u) \<and> u \<notin> f i \<and>
     (\<forall>c. ControllerSpecs_Get specs (ControllerType i) (BusNumber i) = Some c \<longrightarrow> int (card (f i)) < MaxSlots c) \<and>
     slots_ok specs (f(i := insert u (f i))) ss"

lemma validate_slot_prefix: "\<exists>e. snd (validate_slot specs iv (occ, errs)) = errs @ e"
proof (cases iv)
  case (Pair n vol)
  show ?thesis
  proof (cases "vol_slot vol")
    case None
    then show ?thesis by (simp add: Pair validate_slot_none)
  next
    case (Some s)
    then show ?thesis using validate_slot_some [of vol "fst s" "snd s" specs n occ errs] Pair by auto
  qed
qed

lemma fold_validate_prefix: "\<exists>e. snd (fold (validate_slot specs) ivs acc) = snd acc @ e"
proof (induction ivs arbitrary: acc)
  case (Cons iv ivs)
  obtain e where "snd (validate_slot specs iv acc) = snd acc @ e"
    using validate_slot_prefix [of specs iv "fst acc" "snd acc"] by auto
  moreover obtain e' where
    "snd (fold (validate_slot specs) ivs (validate_slot specs iv acc)) = snd (validate_slot specs iv acc) @ e'"
    using Cons.IH by blast
  ultimately show ?case by simp
qed simp

lemma fold_validate_ok:
  "snd (fold (validate_slot specs) (enumerate n vols) (occ, [])) = [] \<longleftrightarrow>
     slots_ok specs (slots_of occ) (volume_slots vols)"
proof (induction vols arbitrary: n occ)
  case (Cons v vs)
  show ?case
  proof (cases "vol_slot v")
    case None
    with Cons show ?thesis by (simp add: validate_slot_none)
  next
    case (Some s)
    obtain i u where s: "s = (i, u)" by fastforce
    from validate_slot_some [OF Some [unfolded s], of specs n occ "[]"] obtain occ' e where
      step: "validate_slot specs (n, v) (occ, []) = (occ', e)"
      and ok: "e = [] \<longleftrightarrow> valid_slot specs (i, u) \<and> u \<notin> slots_of occ i \<and>
       (\<forall>c. ControllerSpecs_Get specs (ControllerType i) (BusNumber i) = Some c \<longrightarrow> int (card (slots_of occ i)) < MaxSlots c)"
      and occ': "e = [] \<longrightarrow> slots_of occ' = (slots_of occ)(i := insert u (slots_of occ i))"
      by auto
    show ?thesis
    proof (cases "e = []")
      case True
      with Cons [of "Suc n" occ'] step occ' ok Some s show ?thesis by (simp add: fun_upd_def)
    next
      case False
      with fold_validate_prefix [of specs "enumerate (Suc n) vs" "(occ', e)"] step Some s ok show ?thesis by auto
    qed
  qed
qed simp

text \<open>When the occupied slots are in range the capacity check never fails on its own.\<close>

lemma slots_ok_iff:
  assumes "\<And>t b c. ControllerSpecs_Get specs t b = Some c \<Longrightarrow>
    f \<lparr>ControllerType = t, BusNumber = b\<rparr> \<subseteq> {0..<MaxSlots c}"
  shows "slots_ok specs f ss \<longleftrightarrow>
    distinct ss \<and> (\<forall>s \<in> set ss. valid_slot specs s \<and> snd s \<notin> f (fst s))"
  using assms
proof (induction ss arbitrary: f)
  case (Cons s ss)
  obtain i u where s: "s = (i, u)" by fastforce
  show ?case
  proof (cases "valid_slot specs (i, u) \<and> u \<notin> f i")
    case True
    then obtain c where c: "ControllerSpecs_Get specs (ControllerType i) (BusNumber i) = Some c" "0 \<le> u" "u < MaxSlots c"
      by (auto simp: valid_slot_def)
    have "f i \<subseteq> {0..<MaxSlots c}" using Cons.prems [OF c(1)] by simp
    with c True have "f i \<subset> {0..<MaxSlots c}" by auto
    then have "card (f i) < card {0..<MaxSlots c}" by (intro psubset_card_mono) simp_all
    then have "int (card (f i)) < MaxSlots c" by simp
    moreover have "slots_ok specs (f(i := insert u (f i))) ss \<longleftrightarrow> distinct ss \<and>
        (\<forall>s \<in> set ss. valid_slot specs s \<and> snd s \<notin> (f(i := insert u (f i))) (fst s))"
      by (rule Cons.IH) (use Cons.prems c in auto)
    moreover have "(\<forall>s \<in> set ss. valid_slot specs s \<and> snd s \<notin> (f(i := insert u (f i))) (fst s)) \<longleftrightarrow>
        (i, u) \<notin> set ss \<and> (\<forall>s \<in> set ss. valid_slot specs s \<and> snd s \<notin> f (fst s))"
      by (auto split: if_splits)
    ultimately show ?thesis
      using True c(1) by (simp add: s del: fun_upd_apply) blast
  next
    case False
    then show ?thesis using s by auto
  qed
qed simp

section \<open>Properties\<close>

lemma validateControllerSlots_Nil:
  assumes "\<forall>t b c. ControllerSpecs_Get (NewControllerSpecs vm) t b = Some c \<longrightarrow>
    slots_of (cdrom_slots vm) \<lparr>ControllerType = t, BusNumber = b\<rparr> \<subseteq> {0..<MaxSlots c}"
  shows "validateControllerSlots vm = [] \<longleftrightarrow>
    distinct (volume_slots (vm_Volumes vm)) \<and>
    (\<forall>s \<in> set (volume_slots (vm_Volumes vm)).
       valid_slot (NewControllerSpecs vm) s \<and> snd s \<notin> slots_of (cdrom_slots vm) (fst s))"
proof -
  have "validateControllerSlots vm = [] \<longleftrightarrow>
      slots_ok (NewControllerSpecs vm) (slots_of (cdrom_slots vm)) (volume_slots (vm_Volumes vm))"
    using fold_validate_ok [of "NewControllerSpecs vm" 0 "vm_Volumes vm" "cdrom_slots vm"]
    by (simp add: validateControllerSlots_def)
  also have "\<dots> \<longleftrightarrow> distinct (volume_slots (vm_Volumes vm)) \<and>
    (\<forall>s \<in> set (volume_slots (vm_Volumes vm)).
       valid_slot (NewControllerSpecs vm) s \<and> snd s \<notin> slots_of (cdrom_slots vm) (fst s))"
    by (rule slots_ok_iff) (use assms in blast)
  finally show ?thesis .
qed

text \<open>
  C16. When the CD-ROMs sit on slots their controllers have, the slot validation accepts exactly the VMs
  whose volumes name distinct slots, each on an existing controller, in range, not reserved and not
  taken by a CD-ROM.
\<close>

theorem validateControllerSlots_iff:
  assumes "\<forall>t b c. ControllerSpecs_Get (NewControllerSpecs vm) t b = Some c \<longrightarrow>
    slots_of (cdrom_slots vm) \<lparr>ControllerType = t, BusNumber = b\<rparr> \<subseteq> {0..<MaxSlots c}"
  shows "validateControllerSlots vm = [] \<longleftrightarrow>
    distinct (volume_slots (vm_Volumes vm)) \<and>
    (\<forall>s \<in> set (volume_slots (vm_Volumes vm)).
       valid_slot (NewControllerSpecs vm) s \<and> snd s \<notin> slots_of (cdrom_slots vm) (fst s))"
  using assms by (rule validateControllerSlots_Nil)

theorem validateControllerSlots_iff_witness:
  "let vol = \<lparr>vol_Name = ''a'', vol_ApplicationType = [], vol_ControllerBusNumber = Some 0,
       vol_ControllerType = ''SCSI'', vol_DiskMode = [], vol_SharingMode = [], vol_UnitNumber = Some 3\<rparr>;
     vm = \<lparr>vm_Annotations = Map.empty, vm_PowerState = [], vm_Volumes = [vol, vol],
       vm_Hardware = Some (hardware_zero\<lparr>hw_SCSIControllers := [\<lparr>scsi_BusNumber = 0, scsi_SharingMode = ''None'',
         scsi_Type = ''ParaVirtual''\<rparr>]\<rparr>), vm_Network = None, vm_StatusControllers = None\<rparr>
   in validateControllerSlots vm \<noteq> []"
proof -
  let ?vol = "\<lparr>vol_Name = ''a'', vol_ApplicationType = [], vol_ControllerBusNumber = Some 0,
       vol_ControllerType = ''SCSI'', vol_DiskMode = [], vol_SharingMode = [], vol_UnitNumber = Some 3\<rparr>"
  let ?vm = "\<lparr>vm_Annotations = Map.empty, vm_PowerState = [], vm_Volumes = [?vol, ?vol],
       vm_Hardware = Some (hardware_zero\<lparr>hw_SCSIControllers := [\<lparr>scsi_BusNumber = 0, scsi_SharingMode = ''None'',
         scsi_Type = ''ParaVirtual''\<rparr>]\<rparr>), vm_Network = None, vm_StatusControllers = None\<rparr>"
  have h: "\<forall>t b c. ControllerSpecs_Get (NewControllerSpecs ?vm) t b = Some c \<longrightarrow>
      slots_of (cdrom_slots ?vm) \<lparr>ControllerType = t, BusNumber = b\<rparr> \<subseteq> {0..<MaxSlots c}"
    by (simp add: cdrom_slots_def hardware_zero_def hw_simps)
  have "\<not> distinct (volume_slots (vm_Volumes ?vm))" by (simp add: vol_slot_def)
  then show ?thesis using validateControllerSlots_iff [OF h] by (simp add: Let_def)
qed

lemma concat_map_enumerate_Nil:
  assumes "\<And>i x. f i x = [] \<longleftrightarrow> P x"
  shows "concat (map (\<lambda>(i, x). f i x) (enumerate n xs)) = [] \<longleftrightarrow> (\<forall>x \<in> set xs. P x)"
  by (induction xs arbitrary: n) (simp_all add: assms)

lemma by_bus_Some:
  assumes "distinct (map bus cs)"
  shows "by_bus bus cs b = Some c \<longleftrightarrow> c \<in> set cs \<and> bus c = b"
proof -
  have "distinct (map fst (rev (map (\<lambda>c. (bus c, c)) cs)))"
    using assms by (simp add: rev_map [symmetric] comp_def)
  then show ?thesis by (auto simp: by_bus_def)
qed

lemma by_bus_None: "by_bus bus cs b = None \<longleftrightarrow> b \<notin> bus ` set cs"
  by (simp add: by_bus_def map_of_eq_None_iff image_image)

lemma by_bus_case_Nil:
  assumes "distinct (map bus olds)" and "\<And>c'. bus c' = bus c \<Longrightarrow> g c' = [] \<longleftrightarrow> c = c'"
  shows "(case by_bus bus olds (bus c) of None \<Rightarrow> [] | Some c' \<Rightarrow> g c') = [] \<longleftrightarrow>
    (\<forall>c' \<in> set olds. bus c = bus c' \<longrightarrow> c = c')"
proof (cases "by_bus bus olds (bus c)")
  case None
  then have "bus c \<notin> bus ` set olds" unfolding by_bus_None .
  with None show ?thesis by auto
next
  case (Some c')
  then have c': "c' \<in> set olds" "bus c' = bus c" using by_bus_Some [OF assms(1)] by blast+
  have "d = c'" if "d \<in> set olds" "bus c = bus d" for d
    using that c' assms(1) by (auto simp: distinct_map inj_on_def)
  with c' have "(\<forall>d \<in> set olds. bus c = bus d \<longrightarrow> c = d) \<longleftrightarrow> c = c'" by metis
  with Some assms(2) [OF c'(2)] show ?thesis by simp
qed

text \<open>
  While a VM is powered on the validation accepts an update of its controllers exactly when every
  SCSI controller keeps its type and sharing mode, every NVMe controller its sharing mode, and, once
  the VM is upgraded, no SCSI controller is added to a VM with a disk on a physically shared one.
\<close>

theorem validateControllerWhenPoweredOn_iff:
  assumes "vm_PowerState old = VirtualMachinePowerStateOn" and "vm_Hardware old = Some oldHw"
    and "vm_Hardware vm = Some hw"
    and "distinct (map scsi_BusNumber (hw_SCSIControllers oldHw))"
    and "distinct (map nvme_BusNumber (hw_NVMEControllers oldHw))"
  shows "validateControllerWhenPoweredOn cfg vm (Some old) p = [] \<longleftrightarrow>
    (\<forall>c \<in> set (hw_SCSIControllers hw). \<forall>c' \<in> set (hw_SCSIControllers oldHw).
       scsi_BusNumber c = scsi_BusNumber c' \<longrightarrow> c = c') \<and>
    (\<forall>c \<in> set (hw_NVMEControllers hw). \<forall>c' \<in> set (hw_NVMEControllers oldHw).
       nvme_BusNumber c = nvme_BusNumber c' \<longrightarrow> c = c') \<and>
    (IsObjectUpgraded cfg (vm_Annotations old) = None \<and> \<not> IsFSRSupported old \<longrightarrow>
       scsi_BusNumber ` set (hw_SCSIControllers hw) \<subseteq> scsi_BusNumber ` set (hw_SCSIControllers oldHw))"
proof -
  have scsi: "(case by_bus scsi_BusNumber (hw_SCSIControllers oldHw) (scsi_BusNumber c) of
       None \<Rightarrow> [] | Some c' \<Rightarrow> (if scsi_SharingMode c \<noteq> scsi_SharingMode c' then [e] else []) @
         (if scsi_Type c \<noteq> scsi_Type c' then [e'] else [])) = [] \<longleftrightarrow>
     (\<forall>c' \<in> set (hw_SCSIControllers oldHw). scsi_BusNumber c = scsi_BusNumber c' \<longrightarrow> c = c')"
    for c and e e' :: field_Error
    by (rule by_bus_case_Nil [OF assms(4)]) (rename_tac c'; case_tac c; case_tac c'; auto)
  have nvme: "(case by_bus nvme_BusNumber (hw_NVMEControllers oldHw) (nvme_BusNumber c) of
       None \<Rightarrow> [] | Some c' \<Rightarrow> if nvme_SharingMode c \<noteq> nvme_SharingMode c' then [e] else []) = [] \<longleftrightarrow>
     (\<forall>c' \<in> set (hw_NVMEControllers oldHw). nvme_BusNumber c = nvme_BusNumber c' \<longrightarrow> c = c')"
    for c and e :: field_Error
    by (rule by_bus_case_Nil [OF assms(5)]) (rename_tac c'; case_tac c; case_tac c'; auto)
  have added: "(if scsi_BusNumber c \<notin> scsi_BusNumber ` set (hw_SCSIControllers oldHw) then [e] else []) = [] \<longleftrightarrow>
      scsi_BusNumber c \<in> scsi_BusNumber ` set (hw_SCSIControllers oldHw)" for c and e :: field_Error
    by simp
  have hot: "validateHotAddedControllers cfg vm (Some old) p = [] \<longleftrightarrow>
      (IsObjectUpgraded cfg (vm_Annotations old) = None \<and> \<not> IsFSRSupported old \<longrightarrow>
       scsi_BusNumber ` set (hw_SCSIControllers hw) \<subseteq> scsi_BusNumber ` set (hw_SCSIControllers oldHw))"
    using assms(2,3)
    by (cases "IsObjectUpgraded cfg (vm_Annotations old)")
      (simp_all add: validateHotAddedControllers_def Let_def concat_map_enumerate_Nil [OF added] image_subset_iff
        del: concat_eq_Nil_conv)
  show ?thesis
    using assms(1-3)
    by (simp add: validateControllerWhenPoweredOn_def Let_def hot concat_map_enumerate_Nil [OF scsi]
        concat_map_enumerate_Nil [OF nvme] del: concat_eq_Nil_conv)
qed

theorem validateControllerWhenPoweredOn_iff_witness:
  "let scsi = \<lambda>t. hardware_zero\<lparr>hw_SCSIControllers := [\<lparr>scsi_BusNumber = 0, scsi_SharingMode = ''None'', scsi_Type = t\<rparr>]\<rparr>;
     vm = \<lambda>t. \<lparr>vm_Annotations = Map.empty, vm_PowerState = VirtualMachinePowerStateOn, vm_Volumes = [],
       vm_Hardware = Some (scsi t), vm_Network = None, vm_StatusControllers = None\<rparr>
   in validateControllerWhenPoweredOn 
     \<lparr>BuildVersion = ''1'', FeatureStates = \<lparr>VMSharedDisks = True, AllDisksArePVCs = True, VMServiceClasslessVM = True,
       VMNetworkUnitNumbers = True\<rparr>\<rparr> (vm ''BusLogic'') (Some (vm ''ParaVirtual'')) ''spec.hardware'' \<noteq> []"
proof -
  let ?hw = "\<lambda>t. hardware_zero\<lparr>hw_SCSIControllers := [\<lparr>scsi_BusNumber = 0, scsi_SharingMode = ''None'', scsi_Type = t\<rparr>]\<rparr>"
  let ?vm = "\<lambda>t. \<lparr>vm_Annotations = Map.empty, vm_PowerState = VirtualMachinePowerStateOn, vm_Volumes = [],
       vm_Hardware = Some (?hw t), vm_Network = None, vm_StatusControllers = None\<rparr>"
  have h: "vm_PowerState (?vm ''ParaVirtual'') = VirtualMachinePowerStateOn"
    "vm_Hardware (?vm ''ParaVirtual'') = Some (?hw ''ParaVirtual'')" "vm_Hardware (?vm ''BusLogic'') = Some (?hw ''BusLogic'')"
    "distinct (map scsi_BusNumber (hw_SCSIControllers (?hw ''ParaVirtual'')))"
    "distinct (map nvme_BusNumber (hw_NVMEControllers (?hw ''ParaVirtual'')))"
    by (simp_all add: hardware_zero_def)
  show ?thesis
    using validateControllerWhenPoweredOn_iff [OF h] by (simp add: Let_def)
qed

end
