(* ===== verification/Webhook_Slots.thy ===== *)
theory Webhook_Slots
  imports Controller_Mutation Controller_Validation
begin

text \<open>
  The mutation and the validation webhook together: a VM whose explicit placements are valid is
  admitted after the mutation webhook has placed the remaining volumes.
\<close>

lemma volume_slots_mem:
  "s \<in> set (volume_slots (filter P vols)) \<longleftrightarrow> (\<exists>k < length vols. P (vols ! k) \<and> vol_slot (vols ! k) = Some s)"
  by (induction vols) (auto simp: less_Suc_eq_0_disj split: option.splits)

lemma distinct_volume_slots:
  "distinct (volume_slots (filter P vols)) \<longleftrightarrow>
     (\<forall>j < length vols. \<forall>i < j. P (vols ! i) \<longrightarrow> P (vols ! j) \<longrightarrow>
        vol_slot (vols ! i) \<noteq> None \<longrightarrow> vol_slot (vols ! i) \<noteq> vol_slot (vols ! j))"
proof (induction vols)
  case (Cons v vs)
  have "(\<forall>j < length (v # vs). \<forall>i < j. Q ((v # vs) ! i) ((v # vs) ! j)) \<longleftrightarrow>
      (\<forall>j < length vs. Q v (vs ! j)) \<and> (\<forall>j < length vs. \<forall>i < j. Q (vs ! i) (vs ! j))" for Q
    by (auto simp: All_less_Suc2)
  from this [of "\<lambda>v w. P v \<longrightarrow> P w \<longrightarrow> vol_slot v \<noteq> None \<longrightarrow> vol_slot v \<noteq> vol_slot w"] Cons
  show ?case by (cases "P v"; cases "vol_slot v") (auto simp: volume_slots_mem)
qed simp

lemma fills_in_explicit: "fills_in v v' \<Longrightarrow> explicit_placement v \<Longrightarrow> v' = v"
  by (cases v; cases v') (auto simp: fills_in_def explicit_placement_def)

text \<open>A slot that holds no CD-ROM on a controller of the VM.\<close>

definition open_slot :: "VirtualMachine \<Rightarrow> ControllerID \<times> int \<Rightarrow> bool" where
  "open_slot vm s \<longleftrightarrow> valid_slot (NewControllerSpecs vm) s \<and> snd s \<notin> slots_of (cdrom_slots vm) (fst s)"

text \<open>The slots of the volumes that satisfy \<open>P\<close> are kept, the others are open and of no other volume.\<close>

lemma slots_combine:
  assumes "length vols' = length vols" "\<And>k. P (vols ! k) \<Longrightarrow> vols' ! k = vols ! k"
    and new: "\<And>k s. k < length vols \<Longrightarrow> \<not> P (vols ! k) \<Longrightarrow> vol_slot (vols' ! k) = Some s \<Longrightarrow>
      Q s \<and> (\<forall>j < length vols. j \<noteq> k \<longrightarrow> vol_slot (vols' ! j) \<noteq> Some s)"
    and old: "distinct (volume_slots (filter P vols))" "\<forall>s \<in> set (volume_slots (filter P vols)). Q s"
  shows "distinct (volume_slots vols') \<and> (\<forall>s \<in> set (volume_slots vols'). Q s)"
proof
  have "vol_slot (vols' ! i) \<noteq> vol_slot (vols' ! j)"
    if "j < length vols" "i < j" "vol_slot (vols' ! i) \<noteq> None" for i j
  proof (cases "P (vols ! i) \<and> P (vols ! j)")
    case True
    with old(1) that assms(2) show ?thesis by (simp add: distinct_volume_slots)
  next
    case False
    with new [of i] new [of j] that show ?thesis by fastforce
  qed
  then show "distinct (volume_slots vols')"
    using distinct_volume_slots [of "\<lambda>_. True" vols'] assms(1) by simp
next
  show "\<forall>s \<in> set (volume_slots vols'). Q s"
  proof
    fix s assume "s \<in> set (volume_slots vols')"
    with volume_slots_mem [of s "\<lambda>_. True" vols'] assms(1) obtain k where
      k: "k < length vols" "vol_slot (vols' ! k) = Some s" by auto
    show "Q s"
    proof (cases "P (vols ! k)")
      case True
      with k assms(2) have "s \<in> set (volume_slots (filter P vols))" by (auto simp: volume_slots_mem)
      with old(2) show ?thesis by blast
    qed (use new k in blast)
  qed
qed

text \<open>A slot the mutation webhook has chosen is open and of no other volume.\<close>

lemma chosen_slot_open:
  assumes "placement_inv vm {..<length (vm_Volumes vm)} st" "fresh_slots vm {..<length (vm_Volumes vm)} st" "pl_vm st = vm'"
    and k: "k < length (vm_Volumes vm)" "vol_UnitNumber (vm_Volumes vm ! k) = None"
      "vol_ControllerBusNumber (vm_Volumes vm ! k) = None" "vol_slot (vm_Volumes vm' ! k) = Some (i, u)"
  shows "open_slot vm' (i, u) \<and> (\<forall>j < length (vm_Volumes vm). j \<noteq> k \<longrightarrow> vol_slot (vm_Volumes vm' ! j) \<noteq> Some (i, u))"
proof -
  from assms(1,3) have specs: "ControllerSpecs_Get (pl_specs st) t b = ControllerSpecs_Get (NewControllerSpecs vm') t b"
    and cd: "cdrom_slots vm' = cdrom_slots vm" for t b
    by (auto simp: placement_inv_def specs_match_def cdrom_slots_vm_cdroms)
  from assms(2,3) k obtain c where
    c: "ControllerSpecs_Get (NewControllerSpecs vm') (ControllerType i) (BusNumber i) = Some c" "u \<in> unit_slots c"
    and rest: "0 \<le> BusNumber i" "BusNumber i < VirtualControllerType_MaxCount (ControllerType i)"
      "u \<notin> slots_of (cdrom_slots vm) i"
      "\<forall>j < length (vm_Volumes vm). j \<noteq> k \<longrightarrow> vol_slot (vm_Volumes vm' ! j) \<noteq> Some (i, u)"
    unfolding fresh_slots_def specs [symmetric] by blast
  have "controller_id c = i" using NewControllerSpecs_wf [of vm'] c(1) by (auto simp: wf_specs_def)
  with rest(1) have "FirstUnitNumber c = None" by (cases c) auto
  with c rest cd show ?thesis by (auto simp: open_slot_def valid_slot_def unit_slots_def)
qed

text \<open>
  A volume that names a unit number and no controller is placed with the volumes that name nothing, and its number is
  not reserved for it: a volume before it may get the same slot. Such volumes are outside the next theorem.
\<close>

lemma partial_placement_collides:
  "map vol_slot (vm_Volumes (snd (AddControllersForVolumes
     (sample_vm\<lparr>vm_Volumes := [sample_volume ''a'', (sample_volume ''b'')\<lparr>vol_UnitNumber := Some 0\<rparr>]\<rparr>)))) =
   [Some (\<lparr>ControllerType = ''SCSI'', BusNumber = 0\<rparr>, 0), Some (\<lparr>ControllerType = ''SCSI'', BusNumber = 0\<rparr>, 0)]"
  by code_simp

text \<open>
  C1. Assume that every volume either names its whole slot or neither a bus nor a unit number, that the unit numbers
  of placed CD-ROMs are in the range of their controllers, and that the slots the user named pass the validation on
  the mutated VM. Then the whole mutated VM passes it: the slots the mutation webhook chooses never cause a rejection.
\<close>

theorem mutation_passes_validation:
  assumes "AddControllersForVolumes vm = (m, vm')"
    and "\<forall>vol \<in> set (vm_Volumes vm). explicit_placement vol \<or>
      vol_UnitNumber vol = None \<and> vol_ControllerBusNumber vol = None"
    and "\<forall>t b c. ControllerSpecs_Get (NewControllerSpecs vm') t b = Some c \<longrightarrow>
      slots_of (cdrom_slots vm') \<lparr>ControllerType = t, BusNumber = b\<rparr> \<subseteq> {0..<MaxSlots c}"
    and "validateControllerSlots (vm'\<lparr>vm_Volumes := filter explicit_placement (vm_Volumes vm)\<rparr>) = []"
  shows "validateControllerSlots vm' = []"
proof -
  let ?n = "length (vm_Volumes vm)"
  have "\<forall>vol \<in> set (vm_Volumes vm). vol_UnitNumber vol \<noteq> None \<longrightarrow> explicit_placement vol" using assms(2) by auto
  with AddControllersForVolumes_phases [OF assms(1)] obtain st where
    st: "pl_vm st = vm'" "placement_inv vm {..<?n} st" "fresh_slots vm {..<?n} st" by blast
  then have len: "length (vm_Volumes vm') = ?n" and fill: "fills_in (vm_Volumes vm ! k) (vm_Volumes vm' ! k)" for k
    by (auto simp: placement_inv_def)
  have "open_slot vm' s \<and> (\<forall>j < ?n. j \<noteq> k \<longrightarrow> vol_slot (vm_Volumes vm' ! j) \<noteq> Some s)"
    if "k < ?n" "\<not> explicit_placement (vm_Volumes vm ! k)" "vol_slot (vm_Volumes vm' ! k) = Some s" for k s
    using chosen_slot_open [OF st(2,3,1) that(1), of "fst s" "snd s"] assms(2) that nth_mem [OF that(1)] by auto
  moreover have "distinct (volume_slots (filter explicit_placement (vm_Volumes vm)))"
    "\<forall>s \<in> set (volume_slots (filter explicit_placement (vm_Volumes vm))). open_slot vm' s"
    using assms(3,4) validateControllerSlots_Nil [of "vm'\<lparr>vm_Volumes := filter explicit_placement (vm_Volumes vm)\<rparr>"]
    by (simp_all add: NewControllerSpecs_volumes cdrom_slots_def open_slot_def)
  ultimately have "distinct (volume_slots (vm_Volumes vm')) \<and> (\<forall>s \<in> set (volume_slots (vm_Volumes vm')). open_slot vm' s)"
    using fills_in_explicit [OF fill] by (intro slots_combine [OF len])
  then show ?thesis using validateControllerSlots_Nil [OF assms(3)] by (simp add: open_slot_def)
qed

theorem mutation_passes_validation_witness: "validateControllerSlots sample_result = []"
proof -
  have "cdrom_slots sample_result = cdrom_slots sample_vm"
    using AddControllersForVolumes_cdroms [of sample_vm] by (simp add: cdrom_slots_vm_cdroms)
  moreover have "cdrom_slots sample_vm = [\<lparr>ControllerType = ''IDE'', BusNumber = 0\<rparr> \<mapsto> {0}]"
    by (simp add: cdrom_slots_def sample_vm_def add_cdrom_slot_def insert_slot_def hw_simps)
  ultimately have cd: "slots_of (cdrom_slots sample_result) i \<subseteq> {0}" for i
    by (simp add: slots_of_def)
  have "0 < MaxSlots c" if "ControllerSpecs_Get (NewControllerSpecs sample_result) t b = Some c" for t b c
  proof -
    from that have "c \<in> set (hardware_controllers (the (vm_Hardware sample_result)))"
      by (auto simp: NewControllerSpecs_lookup sample_result_hardware dest!: find_by_SomeD)
    then show ?thesis
      by (simp add: sample_result_hardware hardware_controllers_def hardware_zero_def
          SCSIControllerSpec_MaxSlots_def SCSIControllerTypeParaVirtualSCSI_def)
  qed
  with cd have cd': "\<forall>t b c. ControllerSpecs_Get (NewControllerSpecs sample_result) t b = Some c \<longrightarrow>
      slots_of (cdrom_slots sample_result) \<lparr>ControllerType = t, BusNumber = b\<rparr> \<subseteq> {0..<MaxSlots c}" by fastforce
  have h: "\<forall>vol \<in> set (vm_Volumes sample_vm). explicit_placement vol \<or>
      vol_UnitNumber vol = None \<and> vol_ControllerBusNumber vol = None"
    "validateControllerSlots (sample_result\<lparr>vm_Volumes := filter explicit_placement (vm_Volumes sample_vm)\<rparr>) = []"
    by code_simp+
  show ?thesis by (rule mutation_passes_validation [OF surjective_pairing h(1) cd' h(2)])
qed

end
