(* ===== verification/Nic_Mutation.thy ===== *)
theory Nic_Mutation
  imports Hardware
begin

text \<open>
  The mutation webhooks for network interfaces:
  \<^verbatim>\<open>webhooks/virtualmachine/mutation/virtualmachine_mutator_network_unit_numbers.go\<close> and
  \<^verbatim>\<open>virtualmachine_mutator_network_interface_type.go\<close>. The list of pointers to unnumbered interfaces is
  walked in list order, so one pass over the interfaces models the second phase.
\<close>

section \<open>Unit numbers\<close>

text \<open>The first phase: the slots of the interfaces that carry a unit number.\<close>

definition numbered_units :: "VirtualMachineNetworkInterfaceSpec list \<Rightarrow> int set" where
  "numbered_units ifaces = set (List.map_filter if_UnitNumber ifaces)"

text \<open>The second phase: the flag is the one the code accumulates in \<^verbatim>\<open>wasMutated\<close>.\<close>

fun assign_unit_numbers ::
    "int set \<Rightarrow> VirtualMachineNetworkInterfaceSpec list \<Rightarrow> bool \<times> VirtualMachineNetworkInterfaceSpec list" where
  "assign_unit_numbers occupiedSlots [] = (False, [])"
| "assign_unit_numbers occupiedSlots (iface # ifaces) =
     (if if_UnitNumber iface \<noteq> None
      then let (m, rest) = assign_unit_numbers occupiedSlots ifaces in (m, iface # rest)
      else
        let nextUnit = NextAvailableUnitNumber (Some NICBusSpec) occupiedSlots
        in if nextUnit < 0
           then let (m, rest) = assign_unit_numbers occupiedSlots ifaces in (m, iface # rest)
           else let (m, rest) = assign_unit_numbers (insert nextUnit occupiedSlots) ifaces
                in (True, iface\<lparr>if_UnitNumber := Some nextUnit\<rparr> # rest))"

definition MutateNICUnitNumbersOnUpdate ::
    "pkgcfg_Config \<Rightarrow> VirtualMachine \<Rightarrow> VirtualMachine option \<Rightarrow> bool \<times> VirtualMachine" where
  "MutateNICUnitNumbersOnUpdate cfg vm oldVM =
     (if \<not> VMNetworkUnitNumbers (FeatureStates cfg) then (False, vm)
      else if oldVM = None then (False, vm)
      else if IsObjectUpgraded cfg (vm_Annotations vm) \<noteq> None then (False, vm)
      else case vm_Network vm of
        None \<Rightarrow> (False, vm)
      | Some ifaces \<Rightarrow>
          if ifaces = [] then (False, vm)
          else let (wasMutated, ifaces') = assign_unit_numbers (numbered_units ifaces) ifaces
               in (wasMutated, vm\<lparr>vm_Network := Some ifaces'\<rparr>))"

section \<open>Interface types\<close>

definition VirtualMachineNetworkInterfaceTypeVMXNet3 :: string where
  "VirtualMachineNetworkInterfaceTypeVMXNet3 = ''VMXNet3''"

definition SetDefaultNetworkInterfaceTypesOnUpdate :: "VirtualMachine \<Rightarrow> bool \<times> VirtualMachine" where
  "SetDefaultNetworkInterfaceTypesOnUpdate vm =
     (case vm_Network vm of
        None \<Rightarrow> (False, vm)
      | Some ifaces \<Rightarrow>
          if ifaces = [] then (False, vm)
          else
            let vmFeatureVersion = ParseFeatureVersion (annotation (vm_Annotations vm) UpgradedToFeatureVersionAnnotationKey)
            in if FeatureVersion_Has vmFeatureVersion FeatureVersionTelcoVMServiceAPI
               then (list_ex (\<lambda>i. if_Type i = []) ifaces,
                     vm\<lparr>vm_Network := Some (map (\<lambda>i. if if_Type i = []
                       then i\<lparr>if_Type := VirtualMachineNetworkInterfaceTypeVMXNet3\<rparr> else i) ifaces)\<rparr>)
               else (False, vm))"

definition mutateOnUpdateDefaultNetworkInterfaceType ::
    "pkgcfg_Config \<Rightarrow> VirtualMachine \<Rightarrow> bool \<times> VirtualMachine" where
  "mutateOnUpdateDefaultNetworkInterfaceType cfg newVM =
     (if \<not> VMServiceClasslessVM (FeatureStates cfg) then (False, newVM)
      else SetDefaultNetworkInterfaceTypesOnUpdate newVM)"

section \<open>The second phase\<close>

lemma numbered_units_simps [simp]:
  "numbered_units [] = {}"
  "numbered_units (i # is) = set_option (if_UnitNumber i) \<union> numbered_units is"
  by (auto simp: numbered_units_def map_filter_simps split: option.split)

lemma numbered_units_card: "finite (numbered_units is) \<and> card (numbered_units is) \<le> length (filter (\<lambda>i. if_UnitNumber i \<noteq> None) is)"
proof (induction "is")
  case (Cons i "is")
  then show ?case
    by (cases "if_UnitNumber i") (auto simp: card_insert_if)
qed simp

lemma numbered_units_nth:
  "k < length is \<Longrightarrow> if_UnitNumber (is ! k) = Some v \<Longrightarrow> v \<in> numbered_units is"
proof (induction "is" arbitrary: k)
  case (Cons i "is")
  then show ?case by (cases k) auto
qed simp

lemma nic_slots: "unit_slots NICBusSpec = {7..16}" "card (unit_slots NICBusSpec) = 10"
proof -
  show eq: "unit_slots NICBusSpec = {7..16}"
    by (auto simp: unit_slots_def NICBusSpec_MaxSlots_def NICUnitNumberFirst_def NICUnitNumberMax_def)
  show "card (unit_slots NICBusSpec) = 10" by (simp add: eq)
qed

text \<open>What one pass does to the interfaces, in relation to the occupied slots it started from.\<close>

lemma assign_unit_numbers_frame:
  "list_all2 (\<lambda>i i'. i' = i\<lparr>if_UnitNumber := if_UnitNumber i'\<rparr> \<and> if_UnitNumber i \<in> {None, if_UnitNumber i'})
     is (snd (assign_unit_numbers occ is))"
  by (induction occ "is" rule: assign_unit_numbers.induct) (auto simp: Let_def split: prod.splits)

lemma assign_unit_numbers_fresh:
  assumes "k < length is" and "if_UnitNumber (is ! k) = None"
    and "if_UnitNumber (snd (assign_unit_numbers occ is) ! k) = Some u"
  shows "u \<in> unit_slots NICBusSpec - occ"
  using assms
proof (induction occ "is" arbitrary: k rule: assign_unit_numbers.induct)
  case (2 occ i "is")
  then show ?case
    using units.next_free [of NICBusSpec occ]
    by (cases k) (fastforce simp: Let_def not_less split: if_splits prod.splits)+
qed simp

lemma assign_unit_numbers_distinct:
  assumes "j < k" and "k < length is" and "if_UnitNumber (is ! j) = None" and "if_UnitNumber (is ! k) = None"
    and "if_UnitNumber (snd (assign_unit_numbers occ is) ! j) = Some u"
  shows "if_UnitNumber (snd (assign_unit_numbers occ is) ! k) \<noteq> Some u"
  using assms
proof (induction occ "is" arbitrary: j k rule: assign_unit_numbers.induct)
  case (2 occ i "is")
  obtain k' where k: "k = Suc k'" using 2 by (cases k) auto
  show ?case
  proof (cases j)
    case 0
    with 2 have "0 \<le> NextAvailableUnitNumber (Some NICBusSpec) occ" "u = NextAvailableUnitNumber (Some NICBusSpec) occ"
      by (auto simp: Let_def split: if_splits prod.splits)
    with 2 k 0 assign_unit_numbers_fresh [of k' "is" "insert u occ" u] show ?thesis
      by (auto simp: Let_def split: prod.splits)
  next
    case (Suc j')
    with 2 k show ?thesis by (fastforce simp: Let_def split: if_splits prod.splits)
  qed
qed simp

text \<open>There is room for every interface as long as interfaces and taken slots fit in the band.\<close>

lemma assign_unit_numbers_all:
  assumes "card (occ \<inter> unit_slots NICBusSpec) + length (filter (\<lambda>i. if_UnitNumber i = None) is) \<le> 10"
  shows "list_all (\<lambda>i. if_UnitNumber i \<noteq> None) (snd (assign_unit_numbers occ is))"
  using assms
proof (induction occ "is" rule: assign_unit_numbers.induct)
  case (2 occ i "is")
  show ?case
  proof (cases "if_UnitNumber i")
    case None
    with 2 have "0 \<le> NextAvailableUnitNumber (Some NICBusSpec) occ"
      by (intro units.next_if_room) (simp add: nic_slots)
    with None 2 units.room_after_next [of NICBusSpec occ] show ?thesis by (simp add: Let_def split_beta)
  next
    case (Some u)
    with 2 show ?thesis by (simp add: Let_def split_beta)
  qed
qed simp

lemma assign_unit_numbers_flag:
  "fst (assign_unit_numbers occ is) \<longleftrightarrow> snd (assign_unit_numbers occ is) \<noteq> is"
proof (induction occ "is" rule: assign_unit_numbers.induct)
  case (2 occ i "is")
  then show ?case by (cases i) (auto simp: Let_def split: prod.splits)
qed simp

section \<open>Properties\<close>

text \<open>An upgraded VM with three interfaces, one of them numbered by the user.\<close>

definition nic_sample_cfg :: pkgcfg_Config where
  "nic_sample_cfg = \<lparr>BuildVersion = ''1'', FeatureStates = \<lparr>VMSharedDisks = False, AllDisksArePVCs = False,
     VMServiceClasslessVM = False, VMNetworkUnitNumbers = True\<rparr>\<rparr>"

definition nic_sample_ifaces :: "int option list \<Rightarrow> VirtualMachineNetworkInterfaceSpec list" where
  "nic_sample_ifaces us = map (\<lambda>u. \<lparr>if_Name = ''eth'', if_Type = [], if_UnitNumber = u\<rparr>) us"

definition nic_sample_vm :: "int option list \<Rightarrow> VirtualMachine" where
  "nic_sample_vm us = \<lparr>vm_Annotations = Map.empty(UpgradedToBuildVersionAnnotationKey \<mapsto> BuildVersion nic_sample_cfg,
       UpgradedToSchemaVersionAnnotationKey \<mapsto> GroupVersion_Version,
       UpgradedToFeatureVersionAnnotationKey \<mapsto> FeatureVersion_String (ActivatedFeatureVersion nic_sample_cfg)),
     vm_PowerState = [], vm_Volumes = [], vm_Hardware = None, vm_Network = Some (nic_sample_ifaces us),
     vm_StatusControllers = None\<rparr>"

lemma nic_sample_upgraded: "IsObjectUpgraded nic_sample_cfg (vm_Annotations (nic_sample_vm us)) = None"
  using stamped_upgraded [of nic_sample_cfg nic_sample_cfg Map.empty]
  by (simp add: nic_sample_vm_def) (simp add: nic_sample_cfg_def)

lemma nic_sample_mutated:
  "MutateNICUnitNumbersOnUpdate nic_sample_cfg (nic_sample_vm [None, Some 7, None]) (Some vm) =
     (True, nic_sample_vm [Some 8, Some 7, Some 9])"
proof -
  have "assign_unit_numbers (numbered_units (nic_sample_ifaces [None, Some 7, None])) (nic_sample_ifaces [None, Some 7, None]) =
      (True, nic_sample_ifaces [Some 8, Some 7, Some 9])" by code_simp
  moreover have "VMNetworkUnitNumbers (FeatureStates nic_sample_cfg)" by (simp add: nic_sample_cfg_def)
  moreover have "vm_Network (nic_sample_vm us) = Some (nic_sample_ifaces us)"
    "(nic_sample_vm us)\<lparr>vm_Network := Some (nic_sample_ifaces us')\<rparr> = nic_sample_vm us'" for us us'
    by (simp_all add: nic_sample_vm_def)
  moreover have "nic_sample_ifaces [None, Some 7, None] \<noteq> []" by (simp add: nic_sample_ifaces_def)
  ultimately show ?thesis by (simp add: MutateNICUnitNumbersOnUpdate_def nic_sample_upgraded)
qed

text \<open>
  C32. A unit number the webhook gives to a network interface lies in the ethernet band 7 to 16, also when the
  interface is the only one, and no other interface of the VM has it, whether numbered by the user or by the webhook.
\<close>

theorem MutateNICUnitNumbersOnUpdate_fresh:
  assumes "MutateNICUnitNumbersOnUpdate cfg vm old = (m, vm')"
    and "vm_Network vm = Some ifaces" and "vm_Network vm' = Some ifaces'" and "k < length ifaces"
    and "if_UnitNumber (ifaces ! k) = None" and "if_UnitNumber (ifaces' ! k) = Some u"
  shows "7 \<le> u \<and> u \<le> 16 \<and> length ifaces' = length ifaces \<and>
    (\<forall>j < length ifaces. j \<noteq> k \<longrightarrow> if_UnitNumber (ifaces' ! j) \<noteq> Some u)"
proof -
  have res: "ifaces' = snd (assign_unit_numbers (numbered_units ifaces) ifaces)"
    using assms by (auto simp: MutateNICUnitNumbersOnUpdate_def split: if_splits prod.splits)
  have u: "u \<in> unit_slots NICBusSpec - numbered_units ifaces"
    using assms(4-6) assign_unit_numbers_fresh res by blast
  have "if_UnitNumber (ifaces' ! j) \<noteq> Some u" if j: "j < length ifaces" "j \<noteq> k" for j
  proof (cases "if_UnitNumber (ifaces ! j)")
    case None
    then show ?thesis
      using assms(4-6) j assign_unit_numbers_distinct [of j k ifaces "numbered_units ifaces" u]
        assign_unit_numbers_distinct [of k j ifaces "numbered_units ifaces" u] res
      by (metis nat_neq_iff)
  next
    case (Some v)
    with j(1) have "v \<in> numbered_units ifaces" by (rule numbered_units_nth)
    moreover have "if_UnitNumber (ifaces' ! j) = Some v"
      using list_all2_nthD [OF assign_unit_numbers_frame j(1), of "numbered_units ifaces"] Some res by simp
    ultimately show ?thesis using u by auto
  qed
  moreover have "length ifaces' = length ifaces"
    using list_all2_lengthD [OF assign_unit_numbers_frame] res by metis
  ultimately show ?thesis using u by (simp add: nic_slots)
qed

theorem MutateNICUnitNumbersOnUpdate_fresh_witness:
  "7 \<le> (9::int) \<and> (9::int) \<le> 16 \<and>
   length (nic_sample_ifaces [Some 8, Some 7, Some 9]) = length (nic_sample_ifaces [None, Some 7, None]) \<and>
   if_UnitNumber (nic_sample_ifaces [Some 8, Some 7, Some 9] ! 0) \<noteq> Some 9 \<and>
   if_UnitNumber (nic_sample_ifaces [Some 8, Some 7, Some 9] ! 1) \<noteq> Some 9"
proof -
  have h: "vm_Network (nic_sample_vm us) = Some (nic_sample_ifaces us)" for us by (simp add: nic_sample_vm_def)
  have k: "2 < length (nic_sample_ifaces [None, Some 7, None])"
    "if_UnitNumber (nic_sample_ifaces [None, Some 7, None] ! 2) = None"
    "if_UnitNumber (nic_sample_ifaces [Some 8, Some 7, Some 9] ! 2) = Some 9"
    by (simp_all add: nic_sample_ifaces_def)
  have j: "(0::nat) < length (nic_sample_ifaces [None, Some 7, None])" "(1::nat) < length (nic_sample_ifaces [None, Some 7, None])"
    using k(1) by linarith+
  note fresh = MutateNICUnitNumbersOnUpdate_fresh [OF nic_sample_mutated h h k]
  then have others: "j \<noteq> 2 \<Longrightarrow> j < length (nic_sample_ifaces [None, Some 7, None]) \<Longrightarrow>
      if_UnitNumber (nic_sample_ifaces [Some 8, Some 7, Some 9] ! j) \<noteq> Some 9" for j by blast
  show ?thesis using fresh others [OF _ j(1)] others [OF _ j(2)] by simp
qed

text \<open>
  A VM with at most ten network interfaces, the maximum of the API, leaves the webhook with every
  interface numbered once the feature is on and the VM is upgraded, whatever units the user chose.
\<close>

theorem MutateNICUnitNumbersOnUpdate_all:
  assumes "VMNetworkUnitNumbers (FeatureStates cfg)" and "IsObjectUpgraded cfg (vm_Annotations vm) = None"
    and "vm_Network vm = Some ifaces" and "length ifaces \<le> 10"
  shows "\<exists>ifaces'. snd (MutateNICUnitNumbersOnUpdate cfg vm (Some old)) = vm\<lparr>vm_Network := Some ifaces'\<rparr> \<and>
    length ifaces' = length ifaces \<and> list_all (\<lambda>i. if_UnitNumber i \<noteq> None) ifaces'"
proof -
  let ?r = "snd (assign_unit_numbers (numbered_units ifaces) ifaces)"
  have "card (numbered_units ifaces \<inter> unit_slots NICBusSpec) \<le> card (numbered_units ifaces)"
    using numbered_units_card [of ifaces] by (intro card_mono) auto
  also have "\<dots> \<le> length (filter (\<lambda>i. if_UnitNumber i \<noteq> None) ifaces)" using numbered_units_card by blast
  finally have "card (numbered_units ifaces \<inter> unit_slots NICBusSpec) +
      length (filter (\<lambda>i. if_UnitNumber i = None) ifaces) \<le> length ifaces"
    using sum_length_filter_compl [of "\<lambda>i. if_UnitNumber i = None" ifaces] by simp
  with assms(4) have "list_all (\<lambda>i. if_UnitNumber i \<noteq> None) ?r" by (intro assign_unit_numbers_all) simp
  moreover have "length ?r = length ifaces" using list_all2_lengthD [OF assign_unit_numbers_frame] by metis
  moreover have "snd (MutateNICUnitNumbersOnUpdate cfg vm (Some old)) = vm\<lparr>vm_Network := Some ?r\<rparr>"
    using assms(1-3) by (cases vm) (auto simp: MutateNICUnitNumbersOnUpdate_def split: prod.splits)
  ultimately show ?thesis by blast
qed

theorem MutateNICUnitNumbersOnUpdate_all_witness:
  "\<exists>ifaces'. snd (MutateNICUnitNumbersOnUpdate nic_sample_cfg (nic_sample_vm [None, Some 7, None])
       (Some (nic_sample_vm []))) = (nic_sample_vm [None, Some 7, None])\<lparr>vm_Network := Some ifaces'\<rparr> \<and>
     length ifaces' = length (nic_sample_ifaces [None, Some 7, None]) \<and> list_all (\<lambda>i. if_UnitNumber i \<noteq> None) ifaces'"
proof -
  have h: "VMNetworkUnitNumbers (FeatureStates nic_sample_cfg)"
    "vm_Network (nic_sample_vm [None, Some 7, None]) = Some (nic_sample_ifaces [None, Some 7, None])"
    "length (nic_sample_ifaces [None, Some 7, None]) \<le> 10"
    by (simp_all add: nic_sample_cfg_def nic_sample_vm_def nic_sample_ifaces_def)
  show ?thesis by (rule MutateNICUnitNumbersOnUpdate_all [OF h(1) nic_sample_upgraded h(2,3)])
qed

text \<open>The webhook reports a mutation exactly when it changed the VM, and never renumbers an interface.\<close>

theorem MutateNICUnitNumbersOnUpdate_flag:
  "fst (MutateNICUnitNumbersOnUpdate cfg vm old) \<longleftrightarrow> snd (MutateNICUnitNumbersOnUpdate cfg vm old) \<noteq> vm"
proof -
  have "vm\<lparr>vm_Network := Some is\<rparr> \<noteq> vm \<longleftrightarrow> vm_Network vm \<noteq> Some is" for "is" by (cases vm) auto
  moreover have "fst (assign_unit_numbers occ is) \<longleftrightarrow> snd (assign_unit_numbers occ is) \<noteq> is" for occ "is"
    by (rule assign_unit_numbers_flag)
  ultimately show ?thesis
    by (auto simp: MutateNICUnitNumbersOnUpdate_def split: option.splits prod.splits) (metis fst_conv snd_conv)+
qed

end
