(* ===== verification/Cdrom.thy ===== *)
theory Cdrom
  imports Controller_Validation
begin

text \<open>
  CD-ROM placement: the mutation webhook of
  \<^verbatim>\<open>webhooks/virtualmachine/mutation/virtualmachine_mutator_cdrom.go\<close> and the validation of
  \<^verbatim>\<open>webhooks/virtualmachine/validation/virtualmachine_validator_cdrom.go\<close>. Pointers into
  \<^verbatim>\<open>hwSpec.Cdrom\<close> are indices. Inserting into a set that the map of occupied slots does not hold is a
  write to a nil Go map, which panics: a step returns \<^verbatim>\<open>None\<close> there.
\<close>

section \<open>The map of occupied slots\<close>

definition device_slots :: "VirtualControllerStatus \<Rightarrow> int list" where
  "device_slots ctrl =
     map dev_UnitNumber (filter (\<lambda>dev. dev_Type dev \<noteq> VirtualDeviceTypeCDROM) (cs_Devices ctrl))"

definition mark_devices :: "VirtualControllerStatus \<Rightarrow> occupied \<Rightarrow> occupied" where
  "mark_devices ctrl occ =
     (if cs_Type ctrl \<noteq> VirtualControllerTypeIDE \<and> cs_Type ctrl \<noteq> VirtualControllerTypeSATA then occ
      else
        let ctrlID = \<lparr>ControllerType = cs_Type ctrl, BusNumber = cs_BusNumber ctrl\<rparr>
        in case occ ctrlID of
             None \<Rightarrow> occ
           | Some s \<Rightarrow> occ(ctrlID \<mapsto> s \<union> set (device_slots ctrl)))"

definition constructOccupiedSlots :: "VirtualMachine \<Rightarrow> occupied" where
  "constructOccupiedSlots vm =
     (case vm_Hardware vm of
        None \<Rightarrow> Map.empty
      | Some hw \<Rightarrow>
          let occ = fold (\<lambda>c occ. occ(\<lparr>ControllerType = VirtualControllerTypeIDE, BusNumber = ide_BusNumber c\<rparr> \<mapsto> {}))
                (hw_IDEControllers hw) Map.empty;
              occ = fold (\<lambda>c occ. occ(\<lparr>ControllerType = VirtualControllerTypeSATA, BusNumber = sata_BusNumber c\<rparr> \<mapsto> {}))
                (hw_SATAControllers hw) occ
          in case vm_StatusControllers vm of
               None \<Rightarrow> occ
             | Some ctrls \<Rightarrow> fold mark_devices ctrls occ)"

text \<open>The loop of \<^verbatim>\<open>findNextAvailableBusNumber\<close>; \<^verbatim>\<open>first\<close> is \<^verbatim>\<open>firstAvailableBusNumber\<close>.\<close>

fun find_bus :: "occupied \<Rightarrow> VirtualControllerType \<Rightarrow> int \<Rightarrow> int list \<Rightarrow> int" where
  "find_bus occ ctrlType first [] = first"
| "find_bus occ ctrlType first (busNum # bs) =
     (case occ \<lparr>ControllerType = ctrlType, BusNumber = busNum\<rparr> of
        Some s \<Rightarrow>
          if NextAvailableUnitNumber (CreateNewController ctrlType busNum []) s \<noteq> -1 then busNum
          else find_bus occ ctrlType first bs
      | None \<Rightarrow> find_bus occ ctrlType (if first = -1 then busNum else first) bs)"

definition findNextAvailableBusNumber :: "occupied \<Rightarrow> VirtualControllerType \<Rightarrow> int" where
  "findNextAvailableBusNumber occ ctrlType =
     find_bus occ ctrlType (-1) [0..VirtualControllerType_MaxCount ctrlType - 1]"

section \<open>Placing CD-ROMs\<close>

record cdrom_state =
  cr_occupied :: occupied
  cr_hw :: VirtualMachineHardwareSpec
  cr_mutated :: bool

definition addControllerAndInitSlotMap ::
    "VirtualControllerType \<Rightarrow> int option \<Rightarrow> cdrom_state \<Rightarrow> cdrom_state" where
  "addControllerAndInitSlotMap ctrlType busNumber st =
     (case busNumber of
        None \<Rightarrow> st
      | Some b \<Rightarrow>
          let ctrlID = \<lparr>ControllerType = ctrlType, BusNumber = b\<rparr>; hw = cr_hw st
          in case cr_occupied st ctrlID of
               Some _ \<Rightarrow> st
             | None \<Rightarrow>
                 if ctrlType = VirtualControllerTypeIDE
                 then st\<lparr>cr_hw := hw\<lparr>hw_IDEControllers := hw_IDEControllers hw @ [\<lparr>ide_BusNumber = b\<rparr>]\<rparr>,
                         cr_occupied := (cr_occupied st)(ctrlID \<mapsto> {}), cr_mutated := True\<rparr>
                 else if ctrlType = VirtualControllerTypeSATA
                 then st\<lparr>cr_hw := hw\<lparr>hw_SATAControllers := hw_SATAControllers hw @ [\<lparr>sata_BusNumber = b\<rparr>]\<rparr>,
                         cr_occupied := (cr_occupied st)(ctrlID \<mapsto> {}), cr_mutated := True\<rparr>
                 else st)"

text \<open>\<^verbatim>\<open>occupiedSlots[id].Insert(u)\<close>: a panic when the map has no set for the controller.\<close>

definition insert_occupied :: "ControllerID \<Rightarrow> int \<Rightarrow> cdrom_state \<Rightarrow> cdrom_state option" where
  "insert_occupied i u st =
     (case cr_occupied st i of
        None \<Rightarrow> None
      | Some s \<Rightarrow> Some (st\<lparr>cr_occupied := (cr_occupied st)(i \<mapsto> insert u s)\<rparr>))"

definition process_explicit :: "nat \<Rightarrow> cdrom_state \<Rightarrow> cdrom_state option" where
  "process_explicit k st =
     (let cdrom = hw_Cdrom (cr_hw st) ! k;
          st = addControllerAndInitSlotMap (cd_ControllerType cdrom) (cd_ControllerBusNumber cdrom) st
      in case (cd_ControllerBusNumber cdrom, cd_UnitNumber cdrom) of
           (Some b, Some u) \<Rightarrow> insert_occupied \<lparr>ControllerType = cd_ControllerType cdrom, BusNumber = b\<rparr> u st
         | _ \<Rightarrow> None)"

text \<open>The controller an implicit CD-ROM should go to; \<^verbatim>\<open>None\<close> when the loop skips it.\<close>

definition desired_controller :: "occupied \<Rightarrow> VirtualMachineCdromSpec \<Rightarrow> ControllerID option" where
  "desired_controller occ cdrom =
     (case (cd_ControllerBusNumber cdrom, cd_UnitNumber cdrom) of
        (Some b, None) \<Rightarrow>
          if cd_ControllerType cdrom \<noteq> [] then Some \<lparr>ControllerType = cd_ControllerType cdrom, BusNumber = b\<rparr>
          else None
      | (None, None) \<Rightarrow>
          if cd_ControllerType cdrom \<noteq> [] then None
          else
            let ide = findNextAvailableBusNumber occ VirtualControllerTypeIDE;
                sata = findNextAvailableBusNumber occ VirtualControllerTypeSATA
            in if ide \<noteq> -1 then Some \<lparr>ControllerType = VirtualControllerTypeIDE, BusNumber = ide\<rparr>
               else if sata \<noteq> -1 then Some \<lparr>ControllerType = VirtualControllerTypeSATA, BusNumber = sata\<rparr>
               else None
      | _ \<Rightarrow> None)"

definition process_implicit :: "nat \<Rightarrow> cdrom_state \<Rightarrow> cdrom_state option" where
  "process_implicit k st =
     (let cdrom = hw_Cdrom (cr_hw st) ! k
      in case desired_controller (cr_occupied st) cdrom of
           None \<Rightarrow> Some st
         | Some desiredCtrl \<Rightarrow>
             let st = addControllerAndInitSlotMap (ControllerType desiredCtrl) (Some (BusNumber desiredCtrl)) st;
                 desiredUnitNum = NextAvailableUnitNumber
                   (CreateNewController (ControllerType desiredCtrl) (BusNumber desiredCtrl) [])
                   (slots_of (cr_occupied st) desiredCtrl)
             in if desiredUnitNum = -1 then Some st
                else case insert_occupied desiredCtrl desiredUnitNum st of
                  None \<Rightarrow> None
                | Some st \<Rightarrow>
                    Some (st\<lparr>cr_hw := (cr_hw st)\<lparr>hw_Cdrom := (hw_Cdrom (cr_hw st))[k :=
                        cdrom\<lparr>cd_ControllerType := ControllerType desiredCtrl,
                              cd_ControllerBusNumber := Some (BusNumber desiredCtrl),
                              cd_UnitNumber := Some desiredUnitNum\<rparr>]\<rparr>, cr_mutated := True\<rparr>))"

text \<open>A loop whose body may panic.\<close>

fun fold_opt :: "('a \<Rightarrow> 's \<Rightarrow> 's option) \<Rightarrow> 'a list \<Rightarrow> 's \<Rightarrow> 's option" where
  "fold_opt f [] s = Some s"
| "fold_opt f (x # xs) s = (case f x s of None \<Rightarrow> None | Some s \<Rightarrow> fold_opt f xs s)"

definition processExplicitCdroms :: "nat list \<Rightarrow> cdrom_state \<Rightarrow> cdrom_state option" where
  "processExplicitCdroms explicitPlacementCdroms = fold_opt process_explicit explicitPlacementCdroms"

definition processImplicitCdroms :: "nat list \<Rightarrow> cdrom_state \<Rightarrow> cdrom_state option" where
  "processImplicitCdroms implicitPlacementCdroms = fold_opt process_implicit implicitPlacementCdroms"

definition supported_type :: "VirtualMachineCdromSpec \<Rightarrow> bool" where
  "supported_type cdrom \<longleftrightarrow>
     cd_ControllerType cdrom \<in> {VirtualControllerTypeIDE, VirtualControllerTypeSATA, []}"

definition explicit_cdrom :: "VirtualMachineCdromSpec \<Rightarrow> bool" where
  "explicit_cdrom cdrom \<longleftrightarrow>
     cd_ControllerBusNumber cdrom \<noteq> None \<and> cd_ControllerType cdrom \<noteq> [] \<and> cd_UnitNumber cdrom \<noteq> None"

definition MutateCdromControllerOnUpdate ::
    "pkgcfg_Config \<Rightarrow> VirtualMachine \<Rightarrow> VirtualMachine option \<Rightarrow> (bool \<times> VirtualMachine) option" where
  "MutateCdromControllerOnUpdate cfg vm oldVM =
     (if \<not> VMSharedDisks (FeatureStates cfg) then Some (False, vm)
      else if oldVM = None then Some (False, vm)
      else if IsObjectUpgraded cfg (vm_Annotations vm) \<noteq> None then Some (False, vm)
      else case vm_Hardware vm of
        None \<Rightarrow> Some (False, vm)
      | Some hwSpec \<Rightarrow>
          if hw_Cdrom hwSpec = [] then Some (False, vm)
          else
            let st = \<lparr>cr_occupied = constructOccupiedSlots vm, cr_hw = hwSpec, cr_mutated = False\<rparr>;
                indices = filter (\<lambda>k. supported_type (hw_Cdrom hwSpec ! k)) [0..<length (hw_Cdrom hwSpec)];
                explicitCdroms = filter (\<lambda>k. explicit_cdrom (hw_Cdrom hwSpec ! k)) indices;
                implicitCdroms = filter (\<lambda>k. \<not> explicit_cdrom (hw_Cdrom hwSpec ! k)) indices
            in case processExplicitCdroms explicitCdroms st of
                 None \<Rightarrow> None
               | Some st \<Rightarrow>
                   (case processImplicitCdroms implicitCdroms st of
                      None \<Rightarrow> None
                    | Some st \<Rightarrow> Some (cr_mutated st, vm\<lparr>vm_Hardware := Some (cr_hw st)\<rparr>)))"

section \<open>Steps\<close>

definition cd_types :: "VirtualControllerType set" where
  "cd_types = {VirtualControllerTypeIDE, VirtualControllerTypeSATA}"

text \<open>The unit numbers of a CD-ROM on a controller of a type, and the slot a CD-ROM names.\<close>

definition cd_units :: "VirtualControllerType \<Rightarrow> int set" where
  "cd_units t = (if t = VirtualControllerTypeIDE then {0..<2} else {0..<30})"

definition cd_slot :: "VirtualMachineCdromSpec \<Rightarrow> (ControllerID \<times> int) option" where
  "cd_slot cdrom =
     (case (cd_ControllerBusNumber cdrom, cd_UnitNumber cdrom) of
        (Some b, Some u) \<Rightarrow>
          if cd_ControllerType cdrom = [] then None
          else Some (\<lparr>ControllerType = cd_ControllerType cdrom, BusNumber = b\<rparr>, u)
      | _ \<Rightarrow> None)"

abbreviation unplaced :: "VirtualMachineCdromSpec \<Rightarrow> bool" where
  "unplaced cdrom \<equiv> cd_ControllerType cdrom = [] \<and> cd_ControllerBusNumber cdrom = None \<and> cd_UnitNumber cdrom = None"

text \<open>The controllers a CD-ROM without a unit number may go to: the one it names, or any in range.\<close>

definition cd_target :: "VirtualMachineCdromSpec \<Rightarrow> ControllerID \<Rightarrow> bool" where
  "cd_target cdrom i \<longleftrightarrow> ControllerType i \<in> cd_types \<and> cd_UnitNumber cdrom = None \<and>
     (cd_ControllerType cdrom = ControllerType i \<and> cd_ControllerBusNumber cdrom = Some (BusNumber i) \<or>
      unplaced cdrom \<and> 0 \<le> BusNumber i \<and> BusNumber i < VirtualControllerType_MaxCount (ControllerType i))"

definition cd_controllers :: "VirtualMachineHardwareSpec \<Rightarrow> ControllerID set" where
  "cd_controllers hw = controller_id ` (IDEController ` set (hw_IDEControllers hw) \<union> SATAController ` set (hw_SATAControllers hw))"

abbreviation cdroms :: "cdrom_state \<Rightarrow> VirtualMachineCdromSpec list" where
  "cdroms st \<equiv> hw_Cdrom (cr_hw st)"

text \<open>The map has a set exactly for the IDE and SATA controllers of the spec.\<close>

definition hw_match :: "cdrom_state \<Rightarrow> bool" where
  "hw_match st \<longleftrightarrow> (\<forall>i. cr_occupied st i \<noteq> None \<longleftrightarrow> i \<in> cd_controllers (cr_hw st))"

definition grows :: "cdrom_state \<Rightarrow> cdrom_state \<Rightarrow> bool" where
  "grows st st' \<longleftrightarrow>
     (\<forall>i. cr_occupied st i \<noteq> None \<longrightarrow> cr_occupied st' i \<noteq> None) \<and> (hw_match st \<longrightarrow> hw_match st') \<and>
     (\<exists>ide sata cds. cr_hw st' = (cr_hw st)\<lparr>hw_IDEControllers := hw_IDEControllers (cr_hw st) @ ide,
        hw_SATAControllers := hw_SATAControllers (cr_hw st) @ sata, hw_Cdrom := cds\<rparr>)"

lemma cd_new_controller:
  assumes "t \<in> cd_types"
  obtains c where "CreateNewController t b [] = Some c" and "unit_slots c = cd_units t"
proof (cases "t = VirtualControllerTypeIDE")
  case True
  show thesis
    by (rule that [of "IDEController \<lparr>ide_BusNumber = b\<rparr>"])
      (simp_all add: True CreateNewController_def cd_units_def unit_slots_def IDEControllerSpec_MaxSlots_def
        IDEControllerSpec_ReservedUnitNumber_def VirtualControllerTypeIDE_def VirtualControllerTypeSCSI_def
        VirtualControllerTypeSATA_def VirtualControllerTypeNVME_def)
next
  case False
  with assms have t: "t = VirtualControllerTypeSATA" by (simp add: cd_types_def)
  show thesis
    by (rule that [of "SATAController \<lparr>sata_BusNumber = b\<rparr>"])
      (simp_all add: t CreateNewController_def cd_units_def unit_slots_def SATAControllerSpec_MaxSlots_def
        SATAControllerSpec_ReservedUnitNumber_def VirtualControllerTypeIDE_def VirtualControllerTypeSCSI_def
        VirtualControllerTypeSATA_def)
qed

lemma cd_next_unit:
  assumes "t \<in> cd_types"
  shows "NextAvailableUnitNumber (CreateNewController t b []) occ = -1 \<longleftrightarrow> cd_units t \<subseteq> occ"
    and "NextAvailableUnitNumber (CreateNewController t b []) occ \<noteq> -1 \<Longrightarrow>
      NextAvailableUnitNumber (CreateNewController t b []) occ \<in> cd_units t - occ"
proof -
  from assms obtain c where c: "CreateNewController t b [] = Some c" "unit_slots c = cd_units t"
    by (rule cd_new_controller)
  show "NextAvailableUnitNumber (CreateNewController t b []) occ = -1 \<longleftrightarrow> cd_units t \<subseteq> occ"
    using c NextAvailableUnitNumber_minus_one [of c occ] units.next_negative_iff [of c occ] by simp
  show "NextAvailableUnitNumber (CreateNewController t b []) occ \<in> cd_units t - occ"
    if "NextAvailableUnitNumber (CreateNewController t b []) occ \<noteq> -1"
    using that c NextAvailableUnitNumber_minus_one [of c occ] units.next_free [of c occ] by simp
qed

lemma hw_extended:
  "\<exists>ide sata cds. hw = hw\<lparr>hw_IDEControllers := hw_IDEControllers hw @ ide,
     hw_SATAControllers := hw_SATAControllers hw @ sata, hw_Cdrom := cds\<rparr>"
  by (rule exI [of _ "[]"], rule exI [of _ "[]"], rule exI [of _ "hw_Cdrom hw"]) simp

lemma grows_refl: "grows st st"
  using hw_extended [of "cr_hw st"] by (simp add: grows_def)

lemma add_controller_result:
  fixes t :: VirtualControllerType and b :: int and st :: cdrom_state
  assumes "t \<in> cd_types"
  defines "i \<equiv> \<lparr>ControllerType = t, BusNumber = b\<rparr>"
  defines "st' \<equiv> addControllerAndInitSlotMap t (Some b) st"
  shows "cr_occupied st' = init_slots i (cr_occupied st)" and "cdroms st' = cdroms st" and "grows st st'"
proof -
  show occ: "cr_occupied st' = init_slots i (cr_occupied st)"
    using assms(1) by (auto simp: st'_def i_def addControllerAndInitSlotMap_def init_slots_def cd_types_def Let_def
        split: option.split)
  show "cdroms st' = cdroms st"
    by (simp add: st'_def addControllerAndInitSlotMap_def Let_def split: option.split)
  show "grows st st'"
  proof (cases "cr_occupied st i")
    case (Some s)
    then have "st' = st" by (simp add: st'_def i_def addControllerAndInitSlotMap_def)
    then show ?thesis by (simp add: grows_refl)
  next
    case None
    obtain ide sata where hw: "cr_hw st' = (cr_hw st)\<lparr>hw_IDEControllers := hw_IDEControllers (cr_hw st) @ ide,
        hw_SATAControllers := hw_SATAControllers (cr_hw st) @ sata\<rparr>"
      and ids: "controller_id ` (IDEController ` set ide \<union> SATAController ` set sata) = {i}"
    proof (cases "t = VirtualControllerTypeIDE")
      case True
      then show thesis using that [where ide = "[\<lparr>ide_BusNumber = b\<rparr>]" and sata = "[]"] None
        by (simp add: st'_def i_def addControllerAndInitSlotMap_def Let_def)
    next
      case False
      with assms(1) show thesis using that [where ide = "[]" and sata = "[\<lparr>sata_BusNumber = b\<rparr>]"] None
        by (auto simp: st'_def i_def addControllerAndInitSlotMap_def cd_types_def Let_def)
    qed
    have "cd_controllers (cr_hw st') = cd_controllers (cr_hw st) \<union>
        controller_id ` (IDEController ` set ide \<union> SATAController ` set sata)"
      by (simp add: hw cd_controllers_def image_Un Un_ac)
    then have "cd_controllers (cr_hw st') = insert i (cd_controllers (cr_hw st))" unfolding ids by simp
    then have "hw_match st \<longrightarrow> hw_match st'"
      by (auto simp: hw_match_def occ init_slots_def None)
    moreover have "\<exists>ide sata cds. cr_hw st' = (cr_hw st)\<lparr>hw_IDEControllers := hw_IDEControllers (cr_hw st) @ ide,
        hw_SATAControllers := hw_SATAControllers (cr_hw st) @ sata, hw_Cdrom := cds\<rparr>"
      by (rule exI [of _ ide], rule exI [of _ sata], rule exI [of _ "cdroms st"]) (simp add: hw)
    ultimately show ?thesis by (auto simp: grows_def occ init_slots_def None)
  qed
qed

lemma grows_insert:
  assumes "grows st st'" and "cr_occupied st' i = Some s"
    and "st'' = st'\<lparr>cr_occupied := (cr_occupied st')(i \<mapsto> s'), cr_hw := (cr_hw st')\<lparr>hw_Cdrom := cds\<rparr>, cr_mutated := m\<rparr>"
  shows "grows st st''"
proof -
  have "cd_controllers ((cr_hw st')\<lparr>hw_Cdrom := cds\<rparr>) = cd_controllers (cr_hw st')" by (simp add: cd_controllers_def)
  with assms(2) have "hw_match st' \<longrightarrow> hw_match st''" by (auto simp: hw_match_def assms(3))
  moreover obtain ide sata cds0 where "cr_hw st' = (cr_hw st)\<lparr>hw_IDEControllers := hw_IDEControllers (cr_hw st) @ ide,
        hw_SATAControllers := hw_SATAControllers (cr_hw st) @ sata, hw_Cdrom := cds0\<rparr>"
    using assms(1) by (auto simp: grows_def)
  then have "cr_hw st'' = (cr_hw st)\<lparr>hw_IDEControllers := hw_IDEControllers (cr_hw st) @ ide,
        hw_SATAControllers := hw_SATAControllers (cr_hw st) @ sata, hw_Cdrom := cds\<rparr>"
    by (simp add: assms(3))
  ultimately show ?thesis using assms(1,2) by (auto simp: grows_def assms(3))
qed

lemma process_explicit_result:
  assumes "hw_Cdrom (cr_hw st) ! k = cdrom" and "cd_ControllerType cdrom \<in> cd_types" and "cd_slot cdrom = Some (i, u)"
  obtains st' where "process_explicit k st = Some st'" and "cdroms st' = cdroms st" and "grows st st'"
    and "slots_of (cr_occupied st') = (slots_of (cr_occupied st))(i := insert u (slots_of (cr_occupied st) i))"
    and "cr_occupied st' i \<noteq> None"
proof -
  obtain b where b: "cd_ControllerBusNumber cdrom = Some b" "cd_UnitNumber cdrom = Some u"
    and i: "i = \<lparr>ControllerType = cd_ControllerType cdrom, BusNumber = b\<rparr>"
    using assms(3) by (auto simp: cd_slot_def split: option.splits if_splits)
  let ?st = "addControllerAndInitSlotMap (cd_ControllerType cdrom) (Some b) st"
  note add = add_controller_result [OF assms(2), where b = b and st = st, folded i]
  from add(1) obtain s where s: "cr_occupied ?st i = Some s" "s = slots_of (cr_occupied st) i"
    by (auto simp: init_slots_def slots_of_def split: option.splits)
  let ?st' = "?st\<lparr>cr_occupied := (cr_occupied ?st)(i \<mapsto> insert u s)\<rparr>"
  have "process_explicit k st = Some ?st'"
    using assms(1) b i s(1) by (simp add: process_explicit_def Let_def insert_occupied_def)
  moreover have "grows st ?st'"
    by (rule grows_insert [OF add(3) s(1), where cds = "cdroms ?st" and m = "cr_mutated ?st"]) simp
  moreover have "slots_of (cr_occupied ?st') = (slots_of (cr_occupied st))(i := insert u (slots_of (cr_occupied st) i))"
    using s by (auto simp: add(1) slots_of_def init_slots_def fun_eq_iff split: option.split)
  ultimately show thesis using that add(2) by simp
qed

lemma find_bus_cases:
  "find_bus occ t first bs = first \<or>
   find_bus occ t first bs \<in> set bs \<and>
   (\<forall>s. occ \<lparr>ControllerType = t, BusNumber = find_bus occ t first bs\<rparr> = Some s \<longrightarrow>
      NextAvailableUnitNumber (CreateNewController t (find_bus occ t first bs) []) s \<noteq> -1)"
proof (induction bs arbitrary: first)
  case (Cons b bs)
  from Cons [of first] Cons [of b] show ?case by (auto split: option.split)
qed simp

lemma find_bus_none:
  assumes "-1 \<notin> set bs" and "find_bus occ t first bs = -1"
  shows "first = -1 \<and> (\<forall>b \<in> set bs. \<exists>s. occ \<lparr>ControllerType = t, BusNumber = b\<rparr> = Some s \<and>
    NextAvailableUnitNumber (CreateNewController t b []) s = -1)"
  using assms
proof (induction bs arbitrary: first)
  case (Cons b bs)
  from Cons.prems Cons.IH [of first] Cons.IH [of b] show ?case
    by (auto split: option.splits if_splits)
qed simp

lemma cd_units_nonempty: "\<not> cd_units t \<subseteq> {}"
  by (simp add: cd_units_def)

lemma findNextAvailableBusNumber_room:
  assumes "findNextAvailableBusNumber occ t = b" and "b \<noteq> -1" and "t \<in> cd_types"
  shows "\<not> cd_units t \<subseteq> slots_of occ \<lparr>ControllerType = t, BusNumber = b\<rparr>"
  using find_bus_cases [of occ t "-1" "[0..VirtualControllerType_MaxCount t - 1]"] assms cd_units_nonempty [of t]
  by (auto simp: findNextAvailableBusNumber_def slots_of_def cd_next_unit(1) split: option.split)

lemma findNextAvailableBusNumber_range:
  assumes "findNextAvailableBusNumber occ t \<noteq> -1"
  shows "0 \<le> findNextAvailableBusNumber occ t \<and> findNextAvailableBusNumber occ t < VirtualControllerType_MaxCount t"
  using find_bus_cases [of occ t "-1" "[0..VirtualControllerType_MaxCount t - 1]"] assms
  by (simp add: findNextAvailableBusNumber_def)

lemma desired_controller_target:
  assumes "desired_controller occ cdrom = Some i" and "cd_ControllerType cdrom \<in> insert [] cd_types"
  shows "cd_target cdrom i"
proof (cases "cd_ControllerBusNumber cdrom")
  case None
  let ?bus = "findNextAvailableBusNumber occ"
  from None assms(1) have "unplaced cdrom" and
    i: "i = \<lparr>ControllerType = VirtualControllerTypeIDE, BusNumber = ?bus VirtualControllerTypeIDE\<rparr> \<and> ?bus VirtualControllerTypeIDE \<noteq> -1 \<or>
        i = \<lparr>ControllerType = VirtualControllerTypeSATA, BusNumber = ?bus VirtualControllerTypeSATA\<rparr> \<and> ?bus VirtualControllerTypeSATA \<noteq> -1"
    by (auto simp: desired_controller_def Let_def split: option.splits if_splits)
  with findNextAvailableBusNumber_range [of occ] show ?thesis
    by (elim disjE) (simp_all add: cd_target_def cd_types_def)
next
  case (Some b)
  with assms show ?thesis
    by (auto simp: desired_controller_def cd_target_def split: option.splits if_splits)
qed

lemma process_implicit_cases:
  assumes cdrom: "hw_Cdrom (cr_hw st) ! k = cdrom" and type: "cd_ControllerType cdrom \<in> insert [] cd_types"
  obtains
    (keep) st' where "process_implicit k st = Some st'" and "cdroms st' = cdroms st" and "grows st st'"
      and "slots_of (cr_occupied st') = slots_of (cr_occupied st)"
      and "cd_ControllerBusNumber cdrom = None \<Longrightarrow> cd_ControllerType cdrom = [] \<Longrightarrow> cd_UnitNumber cdrom = None \<Longrightarrow>
        findNextAvailableBusNumber (cr_occupied st) VirtualControllerTypeIDE = -1 \<and>
        findNextAvailableBusNumber (cr_occupied st) VirtualControllerTypeSATA = -1"
  | (place) st' i u where "process_implicit k st = Some st'" and "grows st st'"
      and "cd_target cdrom i" and "u \<in> cd_units (ControllerType i) - slots_of (cr_occupied st) i"
      and "cdroms st' = (cdroms st)[k := cdrom\<lparr>cd_ControllerType := ControllerType i,
        cd_ControllerBusNumber := Some (BusNumber i), cd_UnitNumber := Some u\<rparr>]"
      and "slots_of (cr_occupied st') = (slots_of (cr_occupied st))(i := insert u (slots_of (cr_occupied st) i))"
      and "cr_occupied st' i \<noteq> None"
proof (cases "desired_controller (cr_occupied st) cdrom")
  case None
  then have "process_implicit k st = Some st" by (simp add: process_implicit_def cdrom)
  then show thesis
    by (rule keep) (use None in \<open>auto simp: grows_refl desired_controller_def Let_def split: if_splits\<close>)
next
  case (Some i)
  have target: "cd_target cdrom i" using Some type by (rule desired_controller_target)
  then have type: "ControllerType i \<in> cd_types" by (simp add: cd_target_def)
  let ?st = "addControllerAndInitSlotMap (ControllerType i) (Some (BusNumber i)) st"
  let ?u = "NextAvailableUnitNumber (CreateNewController (ControllerType i) (BusNumber i) []) (slots_of (cr_occupied st) i)"
  note add = add_controller_result [OF type, where b = "BusNumber i" and st = st, simplified]
  have occ: "slots_of (cr_occupied ?st) = slots_of (cr_occupied st)"
    unfolding add(1) by (rule ext) (simp add: hw_simps)
  show thesis
  proof (cases "?u = -1")
    case True
    then have step: "process_implicit k st = Some ?st"
      using Some by (simp add: process_implicit_def cdrom Let_def occ)
    have pinned: "False" if unpinned: "cd_ControllerBusNumber cdrom = None"
    proof -
      from Some unpinned target have "BusNumber i = findNextAvailableBusNumber (cr_occupied st) (ControllerType i)"
        "BusNumber i \<noteq> -1"
        by (auto simp: desired_controller_def Let_def cd_target_def split: if_splits)
      from findNextAvailableBusNumber_room [OF this(1) [symmetric] this(2) type] True show False
        by (simp add: cd_next_unit(1) [OF type])
    qed
    show thesis by (rule keep [OF step]) (use add(2,3) occ pinned in simp_all)
  next
    case False
    from add(1) obtain s where s: "cr_occupied ?st i = Some s" "s = slots_of (cr_occupied st) i"
      by (auto simp: init_slots_def slots_of_def split: option.splits)
    let ?cds = "(cdroms st)[k := cdrom\<lparr>cd_ControllerType := ControllerType i,
        cd_ControllerBusNumber := Some (BusNumber i), cd_UnitNumber := Some ?u\<rparr>]"
    let ?st' = "?st\<lparr>cr_occupied := (cr_occupied ?st)(i \<mapsto> insert ?u s), cr_hw := (cr_hw ?st)\<lparr>hw_Cdrom := ?cds\<rparr>,
      cr_mutated := True\<rparr>"
    have "process_implicit k st = Some ?st'"
      using Some False s(1) add(2) by (simp add: process_implicit_def cdrom Let_def occ insert_occupied_def)
    moreover have "grows st ?st'" by (rule grows_insert [OF add(3) s(1)]) simp
    moreover have "slots_of (cr_occupied ?st') = (slots_of (cr_occupied st))(i := insert ?u (slots_of (cr_occupied st) i))"
      using s by (auto simp: add(1) slots_of_def init_slots_def fun_eq_iff split: option.split)
    ultimately show thesis
      using place [of ?st' i ?u] target cd_next_unit(2) [OF type False] by simp
  qed
qed

section \<open>The whole run\<close>

text \<open>
  The map of occupied slots holds the slots of the other devices and the slots the CD-ROMs name; what
  a run did to a CD-ROM.
\<close>

definition cd_marked :: "occupied \<Rightarrow> cdrom_state \<Rightarrow> bool" where
  "cd_marked occ0 st \<longleftrightarrow>
     (\<forall>i. ControllerType i \<in> cd_types \<longrightarrow>
        slots_of (cr_occupied st) i = slots_of occ0 i \<union> {u. Some (i, u) \<in> cd_slot ` set (cdroms st)})"

definition cd_placed ::
    "occupied \<Rightarrow> VirtualMachineCdromSpec list \<Rightarrow> VirtualMachineCdromSpec list \<Rightarrow> nat \<Rightarrow> ControllerID \<Rightarrow> int \<Rightarrow> bool" where
  "cd_placed occ0 cds cds' k i u \<longleftrightarrow>
     cds' ! k = (cds ! k)\<lparr>cd_ControllerType := ControllerType i, cd_ControllerBusNumber := Some (BusNumber i),
       cd_UnitNumber := Some u\<rparr> \<and>
     cd_target (cds ! k) i \<and> u \<in> cd_units (ControllerType i) \<and> u \<notin> slots_of occ0 i \<and>
     (\<forall>j < length cds'. j \<noteq> k \<longrightarrow> cd_slot (cds' ! j) \<noteq> Some (i, u))"

definition cd_result :: "occupied \<Rightarrow> VirtualMachineCdromSpec list \<Rightarrow> VirtualMachineCdromSpec list \<Rightarrow> bool" where
  "cd_result occ0 cds cds' \<longleftrightarrow>
     length cds' = length cds \<and>
     (\<forall>k < length cds. cds' ! k = cds ! k \<or> (\<exists>i u. cd_placed occ0 cds cds' k i u))"

lemma cd_slot_update [simp]:
  "t \<noteq> [] \<Longrightarrow> cd_slot (cdrom\<lparr>cd_ControllerType := t, cd_ControllerBusNumber := Some b, cd_UnitNumber := Some u\<rparr>) =
    Some (\<lparr>ControllerType = t, BusNumber = b\<rparr>, u)"
  by (simp add: cd_slot_def)

lemma cd_types_nonempty [simp]: "t \<in> cd_types \<Longrightarrow> t \<noteq> []"
  by (auto simp: cd_types_def VirtualControllerTypeIDE_def VirtualControllerTypeSATA_def)

lemma grows_trans [trans]:
  assumes "grows st st'" and "grows st' st''"
  shows "grows st st''"
proof -
  obtain ide sata cds where 1: "cr_hw st' = (cr_hw st)\<lparr>hw_IDEControllers := hw_IDEControllers (cr_hw st) @ ide,
        hw_SATAControllers := hw_SATAControllers (cr_hw st) @ sata, hw_Cdrom := cds\<rparr>"
    using assms(1) by (auto simp: grows_def)
  obtain ide' sata' cds' where 2: "cr_hw st'' = (cr_hw st')\<lparr>hw_IDEControllers := hw_IDEControllers (cr_hw st') @ ide',
        hw_SATAControllers := hw_SATAControllers (cr_hw st') @ sata', hw_Cdrom := cds'\<rparr>"
    using assms(2) by (auto simp: grows_def)
  have "cr_hw st'' = (cr_hw st)\<lparr>hw_IDEControllers := hw_IDEControllers (cr_hw st) @ (ide @ ide'),
        hw_SATAControllers := hw_SATAControllers (cr_hw st) @ (sata @ sata'), hw_Cdrom := cds'\<rparr>"
    by (simp add: 2 1)
  then have "\<exists>ide sata cds. cr_hw st'' = (cr_hw st)\<lparr>hw_IDEControllers := hw_IDEControllers (cr_hw st) @ ide,
        hw_SATAControllers := hw_SATAControllers (cr_hw st) @ sata, hw_Cdrom := cds\<rparr>" by (intro exI)
  moreover have "hw_match st \<longrightarrow> hw_match st''" using assms by (simp add: grows_def)
  moreover have "\<forall>i. cr_occupied st i \<noteq> None \<longrightarrow> cr_occupied st'' i \<noteq> None" using assms by (simp add: grows_def)
  ultimately show ?thesis unfolding grows_def by blast
qed

lemma processExplicit_result:
  assumes "\<forall>k \<in> set ks. explicit_cdrom (cdroms st ! k) \<and> cd_ControllerType (cdroms st ! k) \<in> cd_types"
  obtains st' where "processExplicitCdroms ks st = Some st'" and "cdroms st' = cdroms st" and "grows st st'"
    and "\<And>i. slots_of (cr_occupied st') i =
      slots_of (cr_occupied st) i \<union> {u. \<exists>k \<in> set ks. cd_slot (cdroms st ! k) = Some (i, u)}"
  using assms
proof (induction ks arbitrary: st thesis)
  case Nil
  then show ?case by (simp add: processExplicitCdroms_def grows_refl)
next
  case (Cons k ks)
  then obtain i u where slot: "cd_slot (cdroms st ! k) = Some (i, u)"
    by (auto simp: explicit_cdrom_def cd_slot_def)
  from Cons.prems(2) have "cd_ControllerType (cdroms st ! k) \<in> cd_types" by simp
  from process_explicit_result [OF refl this slot] obtain st1 where st1: "process_explicit k st = Some st1"
      "cdroms st1 = cdroms st" "grows st st1"
      "slots_of (cr_occupied st1) = (slots_of (cr_occupied st))(i := insert u (slots_of (cr_occupied st) i))"
    by blast
  from Cons.prems(2) st1(2) have "\<forall>k \<in> set ks. explicit_cdrom (cdroms st1 ! k) \<and> cd_ControllerType (cdroms st1 ! k) \<in> cd_types"
    by simp
  from Cons.IH [OF _ this] obtain st2 where st2: "processExplicitCdroms ks st1 = Some st2" "cdroms st2 = cdroms st1"
      "grows st1 st2" "\<And>i. slots_of (cr_occupied st2) i =
      slots_of (cr_occupied st1) i \<union> {u. \<exists>k \<in> set ks. cd_slot (cdroms st1 ! k) = Some (i, u)}"
    by blast
  show ?case
  proof (rule Cons.prems(1))
    show "processExplicitCdroms (k # ks) st = Some st2" using st1(1) st2(1) by (simp add: processExplicitCdroms_def)
    show "cdroms st2 = cdroms st" using st1 st2 by simp
    show "grows st st2" using st1(3) st2(3) by (rule grows_trans)
    show "slots_of (cr_occupied st2) j =
      slots_of (cr_occupied st) j \<union> {u. \<exists>k \<in> set (k # ks). cd_slot (cdroms st ! k) = Some (j, u)}" for j
      unfolding st2(4) st1(4) st1(2) using slot by auto
  qed
qed

text \<open>Every slot of every IDE and SATA controller a VM may have is taken.\<close>

definition cd_full :: "(ControllerID \<Rightarrow> int set) \<Rightarrow> bool" where
  "cd_full taken \<longleftrightarrow>
     (\<forall>i. ControllerType i \<in> cd_types \<and> 0 \<le> BusNumber i \<and> BusNumber i < VirtualControllerType_MaxCount (ControllerType i) \<longrightarrow>
        cd_units (ControllerType i) \<subseteq> taken i)"

lemma findNextAvailableBusNumber_full:
  assumes "findNextAvailableBusNumber occ t = -1" and "t \<in> cd_types"
    and "0 \<le> b" and "b < VirtualControllerType_MaxCount t"
  shows "cd_units t \<subseteq> slots_of occ \<lparr>ControllerType = t, BusNumber = b\<rparr>"
proof -
  have "-1 \<notin> set [0..VirtualControllerType_MaxCount t - 1]" by simp
  moreover have "b \<in> set [0..VirtualControllerType_MaxCount t - 1]" using assms(3,4) by simp
  ultimately obtain s where "occ \<lparr>ControllerType = t, BusNumber = b\<rparr> = Some s"
      "NextAvailableUnitNumber (CreateNewController t b []) s = -1"
    using find_bus_none [OF _ assms(1) [unfolded findNextAvailableBusNumber_def]] by blast
  then show ?thesis by (simp add: slots_of_def cd_next_unit(1) [OF assms(2)])
qed

lemma no_bus_cd_full:
  assumes "findNextAvailableBusNumber occ VirtualControllerTypeIDE = -1"
    and "findNextAvailableBusNumber occ VirtualControllerTypeSATA = -1"
  shows "cd_full (slots_of occ)"
  unfolding cd_full_def
proof (intro allI impI, elim conjE)
  fix i :: ControllerID
  assume i: "ControllerType i \<in> cd_types" "0 \<le> BusNumber i" "BusNumber i < VirtualControllerType_MaxCount (ControllerType i)"
  then have "findNextAvailableBusNumber occ (ControllerType i) = -1" using assms by (auto simp: cd_types_def)
  from findNextAvailableBusNumber_full [OF this i] show "cd_units (ControllerType i) \<subseteq> slots_of occ i" by simp
qed

lemma cd_slot_image_update:
  assumes "k < length cds" and "cd_slot (cds ! k) = None"
  shows "Some x \<in> cd_slot ` set (cds[k := cdrom]) \<longleftrightarrow> cd_slot cdrom = Some x \<or> Some x \<in> cd_slot ` set cds"
proof -
  have "set cds = insert (cds ! k) (set (take k cds) \<union> set (drop (Suc k) cds))"
    by (subst id_take_nth_drop [OF assms(1)]) auto
  moreover have "set (cds[k := cdrom]) = insert cdrom (set (take k cds) \<union> set (drop (Suc k) cds))"
    by (subst upd_conv_take_nth_drop [OF assms(1)]) auto
  ultimately show ?thesis using assms(2) by auto
qed

lemma cd_result_place:
  assumes res: "cd_result occ0 cds cds'" and k: "k < length cds" "cds' ! k = cds ! k"
    and u: "cd_target (cds ! k) i" "u \<in> cd_units (ControllerType i)" "u \<notin> slots_of occ0 i"
    and fresh: "Some (i, u) \<notin> cd_slot ` set cds'"
  shows "cd_result occ0 cds (cds'[k := (cds ! k)\<lparr>cd_ControllerType := ControllerType i,
    cd_ControllerBusNumber := Some (BusNumber i), cd_UnitNumber := Some u\<rparr>])" (is "cd_result _ _ (cds'[k := ?cd])")
proof -
  have len: "length cds' = length cds" using res by (simp add: cd_result_def)
  have slot: "cd_slot ?cd = Some (i, u)" using u(1) by (simp add: cd_target_def)
  have new: "cd_placed occ0 cds (cds'[k := ?cd]) k i u"
    using k u fresh len by (auto simp: cd_placed_def nth_list_update image_iff in_set_conv_nth) (metis nth_mem image_eqI)
  have old: "cd_placed occ0 cds (cds'[k := ?cd]) j i' u'" if "cd_placed occ0 cds cds' j i' u'" "j \<noteq> k" "j < length cds" for j i' u'
  proof -
    have "cd_slot (cds' ! j) = Some (i', u')" using that(1) by (simp add: cd_placed_def cd_target_def)
    then have "(i', u') \<noteq> (i, u)" using fresh that(3) len by (metis image_eqI nth_mem)
    then have "cd_slot (cds'[k := ?cd] ! m) \<noteq> Some (i', u')" if "m < length cds'" "m \<noteq> j" for m
      using that \<open>cd_placed occ0 cds cds' j i' u'\<close> slot by (cases "m = k") (auto simp: cd_placed_def)
    then show ?thesis using that by (simp add: cd_placed_def)
  qed
  show ?thesis unfolding cd_result_def
  proof (intro conjI allI impI)
    fix j assume j: "j < length cds"
    show "cds'[k := ?cd] ! j = cds ! j \<or> (\<exists>i u. cd_placed occ0 cds (cds'[k := ?cd]) j i u)"
    proof (cases "j = k")
      case True
      then show ?thesis using new by blast
    next
      case False
      with res j old [OF _ False j] show ?thesis unfolding cd_result_def by (metis nth_list_update_neq)
    qed
  qed (simp add: len)
qed

definition cd_inv :: "occupied \<Rightarrow> VirtualMachineCdromSpec list \<Rightarrow> cdrom_state \<Rightarrow> bool" where
  "cd_inv occ0 cds st \<longleftrightarrow> cd_marked occ0 st \<and> cd_result occ0 cds (cdroms st)"

definition implicit_at :: "VirtualMachineCdromSpec list \<Rightarrow> nat \<Rightarrow> bool" where
  "implicit_at cds k \<longleftrightarrow> k < length cds \<and> cd_ControllerType (cds ! k) \<in> insert [] cd_types \<and> \<not> explicit_cdrom (cds ! k)"

lemma cd_inv_place:
  assumes inv: "cd_inv occ0 cds st" and k: "k < length cds" "cdroms st ! k = cds ! k"
    and target: "cd_target (cds ! k) i" and u: "u \<in> cd_units (ControllerType i) - slots_of (cr_occupied st) i"
    and cds': "cdroms st' = (cdroms st)[k := (cds ! k)\<lparr>cd_ControllerType := ControllerType i,
        cd_ControllerBusNumber := Some (BusNumber i), cd_UnitNumber := Some u\<rparr>]"
    and occ': "slots_of (cr_occupied st') = (slots_of (cr_occupied st))(i := insert u (slots_of (cr_occupied st) i))"
  shows "cd_inv occ0 cds st'"
proof -
  have type: "ControllerType i \<in> cd_types" using target by (simp add: cd_target_def)
  have marked: "\<And>j. ControllerType j \<in> cd_types \<Longrightarrow>
      slots_of (cr_occupied st) j = slots_of occ0 j \<union> {u. Some (j, u) \<in> cd_slot ` set (cdroms st)}"
    using inv by (simp add: cd_inv_def cd_marked_def)
  have fresh: "u \<notin> slots_of occ0 i" "Some (i, u) \<notin> cd_slot ` set (cdroms st)"
    using u marked [OF type] by auto
  have len: "k < length (cdroms st)" using inv k(1) by (simp add: cd_inv_def cd_result_def)
  have none: "cd_slot (cdroms st ! k) = None" using k target by (simp add: cd_slot_def cd_target_def split: option.split)
  have "cd_result occ0 cds (cdroms st')" unfolding cds'
    by (rule cd_result_place) (use inv k u target fresh in \<open>simp_all add: cd_inv_def\<close>)
  moreover have "slots_of (cr_occupied st') j = slots_of occ0 j \<union> {u. Some (j, u) \<in> cd_slot ` set (cdroms st')}"
    if "ControllerType j \<in> cd_types" for j
    unfolding occ' cds' cd_slot_image_update [OF len none] using marked [OF that] type by auto
  ultimately show ?thesis by (simp add: cd_inv_def cd_marked_def)
qed

lemma process_implicit_step:
  assumes inv: "cd_inv occ0 cds st" and k: "implicit_at cds k" "cdroms st ! k = cds ! k"
  obtains st' where "process_implicit k st = Some st'" and "cd_inv occ0 cds st'" and "grows st st'"
    and "\<And>j. j \<noteq> k \<Longrightarrow> cdroms st' ! j = cdroms st ! j"
    and "\<And>i. slots_of (cr_occupied st) i \<subseteq> slots_of (cr_occupied st') i"
    and "unplaced (cdroms st' ! k) \<Longrightarrow> cd_full (slots_of (cr_occupied st))"
proof -
  from k(1) have type: "cd_ControllerType (cds ! k) \<in> insert [] cd_types" and less: "k < length cds"
    by (simp_all add: implicit_at_def)
  show thesis
  proof (rule process_implicit_cases [OF k(2) type])
    fix st'
    assume step: "process_implicit k st = Some st'" and rest: "cdroms st' = cdroms st" "grows st st'"
        "slots_of (cr_occupied st') = slots_of (cr_occupied st)"
      and full: "cd_ControllerBusNumber (cds ! k) = None \<Longrightarrow> cd_ControllerType (cds ! k) = [] \<Longrightarrow> cd_UnitNumber (cds ! k) = None \<Longrightarrow>
        findNextAvailableBusNumber (cr_occupied st) VirtualControllerTypeIDE = -1 \<and>
        findNextAvailableBusNumber (cr_occupied st) VirtualControllerTypeSATA = -1"
    from inv rest have "cd_inv occ0 cds st'" by (simp add: cd_inv_def cd_marked_def)
    then show thesis
      by (rule that [OF step]) (use full k(2) no_bus_cd_full [of "cr_occupied st"] rest in simp_all)
  next
    fix st' i u
    assume step: "process_implicit k st = Some st'" "grows st st'"
      and target: "cd_target (cds ! k) i" and u: "u \<in> cd_units (ControllerType i) - slots_of (cr_occupied st) i"
      and cds': "cdroms st' = (cdroms st)[k := (cds ! k)\<lparr>cd_ControllerType := ControllerType i,
        cd_ControllerBusNumber := Some (BusNumber i), cd_UnitNumber := Some u\<rparr>]"
      and occ': "slots_of (cr_occupied st') = (slots_of (cr_occupied st))(i := insert u (slots_of (cr_occupied st) i))"
    have len: "k < length (cdroms st)" using inv less by (simp add: cd_inv_def cd_result_def)
    show thesis
      by (rule that [OF step(1) cd_inv_place [OF inv less k(2) target u cds' occ'] step(2)])
        (use len in \<open>auto simp: cds' occ'\<close>)
  qed
qed

lemma processImplicit_result:
  assumes "cd_inv occ0 cds st" and "\<forall>k \<in> set ks. implicit_at cds k \<and> cdroms st ! k = cds ! k" and "distinct ks"
  obtains st' where "processImplicitCdroms ks st = Some st'" and "cd_inv occ0 cds st'" and "grows st st'"
    and "\<And>i. slots_of (cr_occupied st) i \<subseteq> slots_of (cr_occupied st') i"
    and "\<And>j. j \<notin> set ks \<Longrightarrow> cdroms st' ! j = cdroms st ! j"
    and "\<And>k. k \<in> set ks \<Longrightarrow> unplaced (cdroms st' ! k) \<Longrightarrow> cd_full (slots_of (cr_occupied st'))"
  using assms
proof (induction ks arbitrary: st thesis)
  case Nil
  then show ?case by (simp add: processImplicitCdroms_def grows_refl)
next
  case (Cons k ks)
  from Cons.prems(3) have k: "implicit_at cds k" "cdroms st ! k = cds ! k" by simp_all
  obtain st1 where st1: "process_implicit k st = Some st1" "cd_inv occ0 cds st1" "grows st st1"
      "\<And>j. j \<noteq> k \<Longrightarrow> cdroms st1 ! j = cdroms st ! j"
      "\<And>i. slots_of (cr_occupied st) i \<subseteq> slots_of (cr_occupied st1) i"
      "unplaced (cdroms st1 ! k) \<Longrightarrow> cd_full (slots_of (cr_occupied st))"
    using process_implicit_step [OF Cons.prems(2) k] by blast
  have todo: "\<forall>k \<in> set ks. implicit_at cds k \<and> cdroms st1 ! k = cds ! k"
  proof
    fix j assume j: "j \<in> set ks"
    with Cons.prems(4) have "j \<noteq> k" by auto
    with j Cons.prems(3) st1(4) [of j] show "implicit_at cds j \<and> cdroms st1 ! j = cds ! j" by simp
  qed
  have "distinct ks" using Cons.prems(4) by simp
  from Cons.IH [OF _ st1(2) todo this]
  obtain st2 where st2: "processImplicitCdroms ks st1 = Some st2" "cd_inv occ0 cds st2" "grows st1 st2"
      "\<And>i. slots_of (cr_occupied st1) i \<subseteq> slots_of (cr_occupied st2) i"
      "\<And>j. j \<notin> set ks \<Longrightarrow> cdroms st2 ! j = cdroms st1 ! j"
      "\<And>k. k \<in> set ks \<Longrightarrow> unplaced (cdroms st2 ! k) \<Longrightarrow> cd_full (slots_of (cr_occupied st2))"
    by blast
  have mono: "slots_of (cr_occupied st) i \<subseteq> slots_of (cr_occupied st2) i" for i
    using st1(5) st2(4) by blast
  have head: "cd_full (slots_of (cr_occupied st2))" if "unplaced (cdroms st2 ! k)"
  proof -
    from that Cons.prems(4) st2(5) [of k] have "cd_full (slots_of (cr_occupied st))" by (simp add: st1(6))
    then show ?thesis using mono unfolding cd_full_def by blast
  qed
  show ?case
  proof (rule Cons.prems(1))
    show "processImplicitCdroms (k # ks) st = Some st2" using st1(1) st2(1) by (simp add: processImplicitCdroms_def)
    show "grows st st2" using st1(3) st2(3) by (rule grows_trans)
    show "cd_full (slots_of (cr_occupied st2))" if "j \<in> set (k # ks)" "unplaced (cdroms st2 ! j)" for j
      using that head st2(6) by (cases "j = k") simp_all
  qed (use st2(2) mono st1(4) st2(5) in simp_all)
qed

lemma fold_init_dom: "dom (fold (\<lambda>c occ. occ(f c \<mapsto> {})) cs occ) = f ` set cs \<union> dom occ"
  by (induction cs arbitrary: occ) auto

lemma fold_mark_devices_dom: "dom (fold mark_devices ctrls occ) = dom occ"
proof (induction ctrls arbitrary: occ)
  case (Cons ctrl ctrls)
  have "dom (mark_devices ctrl occ) = dom occ"
    by (auto simp: mark_devices_def Let_def split: option.splits if_splits)
  with Cons show ?case by simp
qed simp

lemma constructOccupiedSlots_dom:
  assumes "vm_Hardware vm = Some hw"
  shows "dom (constructOccupiedSlots vm) = cd_controllers hw"
  by (simp add: constructOccupiedSlots_def assms Let_def fold_mark_devices_dom fold_init_dom cd_controllers_def
      image_Un image_image Un_commute split: option.split)

lemma indices_filter [simp]:
  "k \<in> set (filter P (filter Q [0..<n])) \<longleftrightarrow> k < n \<and> P k \<and> Q k"
  by auto

lemma explicit_slots:
  assumes ks: "\<And>k. k \<in> set ks \<longleftrightarrow> k < length cds \<and> explicit_cdrom (cds ! k) \<and> cd_ControllerType (cds ! k) \<in> cd_types"
    and i: "ControllerType i \<in> cd_types"
  shows "{u. \<exists>k \<in> set ks. cd_slot (cds ! k) = Some (i, u)} = {u. Some (i, u) \<in> cd_slot ` set cds}"
proof (intro Collect_cong iffI)
  fix u assume "\<exists>k \<in> set ks. cd_slot (cds ! k) = Some (i, u)"
  then obtain k where "k < length cds" "cd_slot (cds ! k) = Some (i, u)" unfolding ks Bex_def by blast
  then show "Some (i, u) \<in> cd_slot ` set cds" by (intro image_eqI [where x = "cds ! k"]) simp_all
next
  fix u assume "Some (i, u) \<in> cd_slot ` set cds"
  then obtain k where k: "k < length cds" "cd_slot (cds ! k) = Some (i, u)" by (auto simp: in_set_conv_nth)
  then have "explicit_cdrom (cds ! k) \<and> cd_ControllerType (cds ! k) \<in> cd_types"
    using i by (auto simp: cd_slot_def explicit_cdrom_def split: option.splits if_splits)
  with k show "\<exists>k \<in> set ks. cd_slot (cds ! k) = Some (i, u)" unfolding ks Bex_def by blast
qed

text \<open>The run of the loops, from the state \<^verbatim>\<open>MutateCdromControllerOnUpdate\<close> starts them in.\<close>

lemma cdrom_loops:
  fixes vm :: VirtualMachine and hw :: VirtualMachineHardwareSpec
  assumes hw: "vm_Hardware vm = Some hw"
  defines "st0 \<equiv> \<lparr>cr_occupied = constructOccupiedSlots vm, cr_hw = hw, cr_mutated = False\<rparr>"
  defines "indices \<equiv> filter (\<lambda>k. supported_type (hw_Cdrom hw ! k)) [0..<length (hw_Cdrom hw)]"
  obtains st1 st2 where
    "processExplicitCdroms (filter (\<lambda>k. explicit_cdrom (hw_Cdrom hw ! k)) indices) st0 = Some st1"
    and "processImplicitCdroms (filter (\<lambda>k. \<not> explicit_cdrom (hw_Cdrom hw ! k)) indices) st1 = Some st2"
    and "cd_inv (constructOccupiedSlots vm) (hw_Cdrom hw) st2" and "grows st0 st2" and "hw_match st2"
    and "\<And>k. k < length (hw_Cdrom hw) \<Longrightarrow> unplaced (cdroms st2 ! k) \<Longrightarrow> cd_full (slots_of (cr_occupied st2))"
proof -
  let ?ex = "filter (\<lambda>k. explicit_cdrom (hw_Cdrom hw ! k)) indices"
  let ?im = "filter (\<lambda>k. \<not> explicit_cdrom (hw_Cdrom hw ! k)) indices"
  let ?occ = "constructOccupiedSlots vm"
  have supported: "supported_type cd \<longleftrightarrow> cd_ControllerType cd \<in> insert [] cd_types" for cd
    by (auto simp: supported_type_def cd_types_def)
  have ex: "k \<in> set ?ex \<longleftrightarrow> k < length (hw_Cdrom hw) \<and> explicit_cdrom (hw_Cdrom hw ! k) \<and>
      cd_ControllerType (hw_Cdrom hw ! k) \<in> cd_types" for k
    by (auto simp: indices_def supported explicit_cdrom_def)
  then have "\<forall>k \<in> set ?ex. explicit_cdrom (cdroms st0 ! k) \<and> cd_ControllerType (cdroms st0 ! k) \<in> cd_types"
    unfolding st0_def by simp
  from processExplicit_result [OF this] obtain st1 where st1: "processExplicitCdroms ?ex st0 = Some st1"
      "cdroms st1 = cdroms st0" "grows st0 st1"
      "\<And>i. slots_of (cr_occupied st1) i =
        slots_of (cr_occupied st0) i \<union> {u. \<exists>k \<in> set ?ex. cd_slot (cdroms st0 ! k) = Some (i, u)}"
    by blast
  have inv: "cd_inv ?occ (hw_Cdrom hw) st1"
    using st1(2) explicit_slots [OF ex] by (simp add: cd_inv_def cd_result_def cd_marked_def st1(4) st0_def del: set_filter)
  have im: "\<forall>k \<in> set ?im. implicit_at (hw_Cdrom hw) k \<and> cdroms st1 ! k = hw_Cdrom hw ! k"
    using st1(2) by (simp add: indices_def supported implicit_at_def st0_def)
  have "distinct ?im" by (simp add: indices_def)
  then obtain st2 where st2: "processImplicitCdroms ?im st1 = Some st2" "cd_inv ?occ (hw_Cdrom hw) st2" "grows st1 st2"
      "\<And>i. slots_of (cr_occupied st1) i \<subseteq> slots_of (cr_occupied st2) i"
      "\<And>j. j \<notin> set ?im \<Longrightarrow> cdroms st2 ! j = cdroms st1 ! j"
      "\<And>k. k \<in> set ?im \<Longrightarrow> unplaced (cdroms st2 ! k) \<Longrightarrow> cd_full (slots_of (cr_occupied st2))"
    by (rule processImplicit_result [OF inv im]) (rule that; blast)
  have "hw_match st0" using constructOccupiedSlots_dom [OF hw] by (auto simp: hw_match_def st0_def)
  with st1(3) st2(3) have grown: "grows st0 st2" "hw_match st2" using grows_trans by (blast, simp add: grows_def)
  have "k \<in> set ?im" if "k < length (hw_Cdrom hw)" "unplaced (cdroms st2 ! k)" for k
  proof (rule ccontr)
    assume "k \<notin> set ?im"
    then have "cdroms st2 ! k = hw_Cdrom hw ! k" using st1(2) st2(5) by (simp add: st0_def)
    with that \<open>k \<notin> set ?im\<close> show False by (auto simp: indices_def supported explicit_cdrom_def)
  qed
  then show thesis by (rule that [OF st1(1) st2(1,2) grown st2(6)])
qed

section \<open>Properties\<close>

definition cdrom_update_applies :: "pkgcfg_Config \<Rightarrow> VirtualMachine \<Rightarrow> VirtualMachine option \<Rightarrow> bool" where
  "cdrom_update_applies cfg vm oldVM \<longleftrightarrow>
     VMSharedDisks (FeatureStates cfg) \<and> oldVM \<noteq> None \<and> IsObjectUpgraded cfg (vm_Annotations vm) = None"

definition hw_extends :: "VirtualMachineHardwareSpec \<Rightarrow> VirtualMachineHardwareSpec \<Rightarrow> bool" where
  "hw_extends hw hw' \<longleftrightarrow>
     (\<exists>ide sata. hw' = hw\<lparr>hw_IDEControllers := hw_IDEControllers hw @ ide,
        hw_SATAControllers := hw_SATAControllers hw @ sata, hw_Cdrom := hw_Cdrom hw'\<rparr>)"

lemma grows_hw_extends:
  assumes "grows st st'"
  shows "hw_extends (cr_hw st) (cr_hw st')"
proof -
  obtain ide sata cds where hw: "cr_hw st' = (cr_hw st)\<lparr>hw_IDEControllers := hw_IDEControllers (cr_hw st) @ ide,
      hw_SATAControllers := hw_SATAControllers (cr_hw st) @ sata, hw_Cdrom := cds\<rparr>"
    using assms by (auto simp: grows_def)
  then have "cds = hw_Cdrom (cr_hw st')" by simp
  with hw show ?thesis unfolding hw_extends_def by blast
qed

lemma hw_extends_refl: "hw_extends hw hw"
  unfolding hw_extends_def by (rule exI [of _ "[]"], rule exI [of _ "[]"]) simp

lemma vm_Hardware_self: "vm_Hardware vm = Some hw \<Longrightarrow> vm\<lparr>vm_Hardware := Some hw\<rparr> = vm"
  by (cases vm) simp

lemma MutateCdrom_skipped:
  assumes "vm_Hardware vm = Some hw" and "\<not> cdrom_update_applies cfg vm oldVM \<or> hw_Cdrom hw = []"
  shows "MutateCdromControllerOnUpdate cfg vm oldVM = Some (False, vm)"
  using assms by (auto simp: MutateCdromControllerOnUpdate_def cdrom_update_applies_def)

lemma MutateCdrom_run:
  assumes hw: "vm_Hardware vm = Some hw" and on: "cdrom_update_applies cfg vm oldVM"
  obtains mutated hw' occ where
    "MutateCdromControllerOnUpdate cfg vm oldVM = Some (mutated, vm\<lparr>vm_Hardware := Some hw'\<rparr>)"
    and "hw_extends hw hw'" and "cd_result (constructOccupiedSlots vm) (hw_Cdrom hw) (hw_Cdrom hw')"
    and "\<And>i. ControllerType i \<in> cd_types \<Longrightarrow>
      slots_of occ i = slots_of (constructOccupiedSlots vm) i \<union> {u. Some (i, u) \<in> cd_slot ` set (hw_Cdrom hw')}"
    and "dom occ = cd_controllers hw'"
    and "\<And>cdrom. cdrom \<in> set (hw_Cdrom hw') \<Longrightarrow> unplaced cdrom \<Longrightarrow> cd_full (slots_of occ)"
proof (cases "hw_Cdrom hw = []")
  case True
  then show thesis
    using that [of False hw "constructOccupiedSlots vm"] MutateCdrom_skipped [OF hw] vm_Hardware_self [OF hw] hw_extends_refl [of hw]
      constructOccupiedSlots_dom [OF hw]
    by (simp add: cd_result_def)
next
  case False
  from hw obtain st1 st2 where loops:
    "processExplicitCdroms (filter (\<lambda>k. explicit_cdrom (hw_Cdrom hw ! k)) (filter (\<lambda>k. supported_type (hw_Cdrom hw ! k))
        [0..<length (hw_Cdrom hw)])) \<lparr>cr_occupied = constructOccupiedSlots vm, cr_hw = hw, cr_mutated = False\<rparr> = Some st1"
    "processImplicitCdroms (filter (\<lambda>k. \<not> explicit_cdrom (hw_Cdrom hw ! k)) (filter (\<lambda>k. supported_type (hw_Cdrom hw ! k))
        [0..<length (hw_Cdrom hw)])) st1 = Some st2"
    and inv: "cd_inv (constructOccupiedSlots vm) (hw_Cdrom hw) st2"
    and grows: "grows \<lparr>cr_occupied = constructOccupiedSlots vm, cr_hw = hw, cr_mutated = False\<rparr> st2" and "hw_match st2"
    and full: "\<And>k. k < length (hw_Cdrom hw) \<Longrightarrow> unplaced (cdroms st2 ! k) \<Longrightarrow> cd_full (slots_of (cr_occupied st2))"
    by (rule cdrom_loops) (rule that; blast)
  have "MutateCdromControllerOnUpdate cfg vm oldVM = Some (cr_mutated st2, vm\<lparr>vm_Hardware := Some (cr_hw st2)\<rparr>)"
    using on False hw loops by (auto simp: MutateCdromControllerOnUpdate_def cdrom_update_applies_def Let_def simp del: filter_filter)
  moreover have "hw_extends hw (cr_hw st2)" using grows_hw_extends [OF grows] by simp
  moreover have "dom (cr_occupied st2) = cd_controllers (cr_hw st2)" using \<open>hw_match st2\<close> by (auto simp: hw_match_def)
  moreover have "length (cdroms st2) = length (hw_Cdrom hw)" using inv by (simp add: cd_inv_def cd_result_def)
  then have "cd_full (slots_of (cr_occupied st2))" if "cdrom \<in> set (cdroms st2)" "unplaced cdrom" for cdrom
    using that full by (auto simp: in_set_conv_nth)
  ultimately show thesis using that [of "cr_mutated st2" "cr_hw st2" "cr_occupied st2"] inv
    unfolding cd_inv_def cd_marked_def by blast
qed

text \<open>A VM with a CD-ROM on IDE and one without a placement.\<close>

definition cd_sample_cfg :: pkgcfg_Config where
  "cd_sample_cfg = \<lparr>BuildVersion = ''1'', FeatureStates = \<lparr>VMSharedDisks = True, AllDisksArePVCs = False,
     VMServiceClasslessVM = False, VMNetworkUnitNumbers = False\<rparr>\<rparr>"

definition cd_sample_hw :: "VirtualControllerType \<Rightarrow> int option \<Rightarrow> int option \<Rightarrow> IDEControllerSpec list \<Rightarrow> VirtualMachineHardwareSpec" where
  "cd_sample_hw t b u ide = hardware_zero\<lparr>hw_Cdrom := [
     \<lparr>cd_Name = ''a'', cd_ControllerBusNumber = b, cd_ControllerType = t, cd_UnitNumber = u\<rparr>,
     \<lparr>cd_Name = ''b'', cd_ControllerBusNumber = Some 0, cd_ControllerType = ''IDE'', cd_UnitNumber = Some 0\<rparr>],
     hw_IDEControllers := ide\<rparr>"

abbreviation cd_sample_hw0 :: VirtualMachineHardwareSpec where
  "cd_sample_hw0 \<equiv> cd_sample_hw [] None None []"

abbreviation cd_sample_hw1 :: VirtualMachineHardwareSpec where
  "cd_sample_hw1 \<equiv> cd_sample_hw ''IDE'' (Some 0) (Some 1) [\<lparr>ide_BusNumber = 0\<rparr>]"

definition cd_sample_vm :: VirtualMachine where
  "cd_sample_vm = \<lparr>vm_Annotations = Map.empty(UpgradedToBuildVersionAnnotationKey \<mapsto> BuildVersion cd_sample_cfg,
       UpgradedToSchemaVersionAnnotationKey \<mapsto> GroupVersion_Version,
       UpgradedToFeatureVersionAnnotationKey \<mapsto> FeatureVersion_String (ActivatedFeatureVersion cd_sample_cfg)),
     vm_PowerState = [], vm_Volumes = [], vm_Hardware = Some cd_sample_hw0, vm_Network = None,
     vm_StatusControllers = None\<rparr>"

lemma cd_sample_hardware: "vm_Hardware cd_sample_vm = Some cd_sample_hw0"
  by (simp add: cd_sample_vm_def)

lemma cd_sample_applies: "cdrom_update_applies cd_sample_cfg cd_sample_vm (Some vm)"
  using stamped_upgraded [of cd_sample_cfg cd_sample_cfg Map.empty]
  by (simp add: cdrom_update_applies_def cd_sample_vm_def) (simp add: cd_sample_cfg_def)

abbreviation cd_sample_state :: "int set \<Rightarrow> VirtualMachineHardwareSpec \<Rightarrow> cdrom_state" where
  "cd_sample_state us hw \<equiv>
     \<lparr>cr_occupied = [\<lparr>ControllerType = ''IDE'', BusNumber = 0\<rparr> \<mapsto> us], cr_hw = hw, cr_mutated = True\<rparr>"

lemma cd_sample_explicit:
  "processExplicitCdroms [Suc 0] \<lparr>cr_occupied = Map.empty, cr_hw = cd_sample_hw0, cr_mutated = False\<rparr> =
     Some (cd_sample_state {0} (cd_sample_hw [] None None [\<lparr>ide_BusNumber = 0\<rparr>]))"
  by (simp add: processExplicitCdroms_def process_explicit_def addControllerAndInitSlotMap_def insert_occupied_def
      cd_sample_hw_def hardware_zero_def VirtualControllerTypeIDE_def Let_def)

lemma cd_sample_implicit:
  "processImplicitCdroms [0] (cd_sample_state {0} (cd_sample_hw [] None None [\<lparr>ide_BusNumber = 0\<rparr>])) =
     Some (cd_sample_state {0, 1} cd_sample_hw1)"
proof -
  have "findNextAvailableBusNumber [\<lparr>ControllerType = ''IDE'', BusNumber = 0\<rparr> \<mapsto> {0}] ''IDE'' = 0"
    "NextAvailableUnitNumber (CreateNewController ''IDE'' 0 []) {0} = 1" by code_simp+
  then show ?thesis
    by (simp add: processImplicitCdroms_def process_implicit_def addControllerAndInitSlotMap_def insert_occupied_def
        desired_controller_def slots_of_def cd_sample_hw_def hardware_zero_def VirtualControllerTypeIDE_def Let_def
        insert_commute)
qed

lemma cd_sample_run:
  "MutateCdromControllerOnUpdate cd_sample_cfg cd_sample_vm (Some cd_sample_vm) =
     Some (True, cd_sample_vm\<lparr>vm_Hardware := Some cd_sample_hw1\<rparr>)"
proof -
  have "constructOccupiedSlots cd_sample_vm = Map.empty"
    by (simp add: constructOccupiedSlots_def cd_sample_vm_def cd_sample_hw_def hardware_zero_def)
  moreover have "filter (\<lambda>k. supported_type (hw_Cdrom cd_sample_hw0 ! k)) [0..<length (hw_Cdrom cd_sample_hw0)] = [0, Suc 0]"
    "filter (\<lambda>k. explicit_cdrom (hw_Cdrom cd_sample_hw0 ! k)) [0, Suc 0] = [Suc 0]"
    "filter (\<lambda>k. \<not> explicit_cdrom (hw_Cdrom cd_sample_hw0 ! k)) [0, Suc 0] = [0]" "hw_Cdrom cd_sample_hw0 \<noteq> []"
    by code_simp+
  ultimately show ?thesis
    using cd_sample_applies [of cd_sample_vm] cd_sample_hardware
    by (simp add: MutateCdromControllerOnUpdate_def cdrom_update_applies_def cd_sample_explicit cd_sample_implicit
        del: filter.simps filter_filter)
qed

text \<open>
  \<^verbatim>\<open>MutateCdromControllerOnUpdate\<close> never panics: no insertion reaches a nil set of the map of
  occupied slots, for any virtual machine.
\<close>

theorem MutateCdromControllerOnUpdate_no_panic:
  "\<exists>mutated vm'. MutateCdromControllerOnUpdate cfg vm oldVM = Some (mutated, vm')"
proof (cases "vm_Hardware vm")
  case None
  then have "MutateCdromControllerOnUpdate cfg vm oldVM = Some (False, vm)"
    by (simp add: MutateCdromControllerOnUpdate_def)
  then show ?thesis by blast
next
  case (Some hw)
  then show ?thesis using MutateCdrom_run [OF Some] MutateCdrom_skipped [OF Some] by metis
qed



text \<open>
  C31. When the mutation applies, every CD-ROM of the result with a full placement on IDE or SATA
  has its controller in the spec, and a CD-ROM is left without any placement only when each of the
  slots of the two IDE and four SATA controllers a VM may have is taken by a device or a CD-ROM.
\<close>

theorem MutateCdromControllerOnUpdate_complete:
  assumes "MutateCdromControllerOnUpdate cfg vm oldVM = Some (mutated, vm')" and "cdrom_update_applies cfg vm oldVM"
    and "vm_Hardware vm' = Some hw'" and "cdrom \<in> set (hw_Cdrom hw')"
  shows "(cd_slot cdrom = Some (i, u) \<and> ControllerType i \<in> cd_types \<longrightarrow> i \<in> cd_controllers hw') \<and>
    (unplaced cdrom \<longrightarrow> cd_full (\<lambda>i. slots_of (constructOccupiedSlots vm) i \<union> {u. Some (i, u) \<in> cd_slot ` set (hw_Cdrom hw')}))"
proof (cases "vm_Hardware vm")
  case None
  then have "vm' = vm" using assms(1) by (auto simp: MutateCdromControllerOnUpdate_def split: if_splits)
  with None assms(3) show ?thesis by simp
next
  case (Some hw)
  obtain occ where occ: "\<And>i. ControllerType i \<in> cd_types \<Longrightarrow>
      slots_of occ i = slots_of (constructOccupiedSlots vm) i \<union> {u. Some (i, u) \<in> cd_slot ` set (hw_Cdrom hw')}"
    and dom: "dom occ = cd_controllers hw'"
    and full: "\<And>cdrom. cdrom \<in> set (hw_Cdrom hw') \<Longrightarrow> unplaced cdrom \<Longrightarrow> cd_full (slots_of occ)"
  proof (rule MutateCdrom_run [OF Some assms(2)])
    fix m hw2 occ
    assume run: "MutateCdromControllerOnUpdate cfg vm oldVM = Some (m, vm\<lparr>vm_Hardware := Some hw2\<rparr>)"
      and rest: "\<And>i. ControllerType i \<in> cd_types \<Longrightarrow>
        slots_of occ i = slots_of (constructOccupiedSlots vm) i \<union> {u. Some (i, u) \<in> cd_slot ` set (hw_Cdrom hw2)}"
      "dom occ = cd_controllers hw2" "\<And>cdrom. cdrom \<in> set (hw_Cdrom hw2) \<Longrightarrow> unplaced cdrom \<Longrightarrow> cd_full (slots_of occ)"
    from run assms(1,3) have "hw2 = hw'" by auto
    with rest show thesis by (intro that [of occ]) simp_all
  qed
  have "i \<in> cd_controllers hw'" if "cd_slot cdrom = Some (i, u)" "ControllerType i \<in> cd_types"
  proof -
    have "u \<in> slots_of occ i" using occ [OF that(2)] that(1) assms(4) by (simp add: image_iff) metis
    then show ?thesis unfolding dom [symmetric] by (auto simp: slots_of_def split: option.splits)
  qed
  moreover have "cd_full (\<lambda>i. slots_of (constructOccupiedSlots vm) i \<union> {u. Some (i, u) \<in> cd_slot ` set (hw_Cdrom hw')})"
    if "unplaced cdrom"
    using full [OF assms(4) that] occ unfolding cd_full_def by simp
  ultimately show ?thesis by blast
qed

theorem MutateCdromControllerOnUpdate_complete_witness:
  "\<lparr>ControllerType = ''IDE'', BusNumber = 0\<rparr> \<in> cd_controllers cd_sample_hw1"
proof -
  let ?cd = "hw_Cdrom cd_sample_hw1 ! 0"
  have "vm_Hardware (cd_sample_vm\<lparr>vm_Hardware := Some cd_sample_hw1\<rparr>) = Some cd_sample_hw1" by simp
  moreover have "?cd \<in> set (hw_Cdrom cd_sample_hw1)" "cd_slot ?cd = Some (\<lparr>ControllerType = ''IDE'', BusNumber = 0\<rparr>, 1)"
    by (simp_all add: cd_sample_hw_def cd_slot_def)
  moreover have "''IDE'' \<in> cd_types" by (simp add: cd_types_def VirtualControllerTypeIDE_def)
  ultimately show ?thesis
    using MutateCdromControllerOnUpdate_complete [OF cd_sample_run cd_sample_applies, of cd_sample_hw1 ?cd] by simp
qed

end
