(* ===== verification/Cdrom_Validation.thy ===== *)
theory Cdrom_Validation
  imports Cdrom
begin

text \<open>
  The validation of CD-ROM placements,
  \<^verbatim>\<open>webhooks/virtualmachine/validation/virtualmachine_validator_cdrom.go\<close>, and that what the mutation
  webhook produces passes it. The map of unit numbers by controller is a map to sets, as for volumes;
  the field errors keep the arguments of their constructors.
\<close>

section \<open>Validation\<close>

definition range_errors :: "VirtualControllerType \<Rightarrow> int \<Rightarrow> int \<Rightarrow> int \<Rightarrow> int \<Rightarrow> string \<Rightarrow> field_Error list" where
  "range_errors ctrlType busNum maxCount unitNum maxSlots fieldPath =
     (if busNum < 0 \<or> busNum \<ge> maxCount
      then [field_Invalid (field_Child fieldPath ''controllerBusNumber'') (show_int busNum)
        (ctrlType @ '' controllerBusNumber must be in the range of 0 to '' @ show_int (maxCount - 1))]
      else []) @
     (if unitNum < 0 \<or> unitNum \<ge> maxSlots
      then [field_Invalid (field_Child fieldPath ''unitNumber'') (show_int unitNum)
        (ctrlType @ '' unitNumber must be in the range of 0 to '' @ show_int (maxSlots - 1))]
      else [])"

definition validateControllerTypeAndRanges :: "VirtualMachineCdromSpec \<Rightarrow> string \<Rightarrow> field_Error list" where
  "validateControllerTypeAndRanges cdrom fieldPath =
     (let ctrlType = cd_ControllerType cdrom
      in case (cd_ControllerBusNumber cdrom, cd_UnitNumber cdrom) of
           (Some busNum, Some unitNum) \<Rightarrow>
             if ctrlType = [] then []
             else if ctrlType = VirtualControllerTypeIDE
             then range_errors ctrlType busNum (VirtualControllerType_MaxCount VirtualControllerTypeIDE)
               unitNum (IDEControllerSpec_MaxSlots \<lparr>ide_BusNumber = 0\<rparr>) fieldPath
             else if ctrlType = VirtualControllerTypeSATA
             then range_errors ctrlType busNum (VirtualControllerType_MaxCount VirtualControllerTypeSATA)
               unitNum (SATAControllerSpec_MaxSlots \<lparr>sata_BusNumber = 0\<rparr>) fieldPath
             else [field_NotSupported (field_Child fieldPath ''controllerType'') ctrlType
               [VirtualControllerTypeIDE, VirtualControllerTypeSATA]]
         | _ \<Rightarrow> [])"

definition validateControllerSpecOnUpdate :: "VirtualMachineCdromSpec \<Rightarrow> string \<Rightarrow> field_Error list" where
  "validateControllerSpecOnUpdate cdrom fieldPath =
     (let allErrs =
        (if cd_ControllerType cdrom = [] then [field_Required (field_Child fieldPath ''controllerType'') []] else []) @
        (if cd_ControllerBusNumber cdrom = None then [field_Required (field_Child fieldPath ''controllerBusNumber'') []] else []) @
        (if cd_UnitNumber cdrom = None then [field_Required (field_Child fieldPath ''unitNumber'') []] else [])
      in if allErrs \<noteq> [] then allErrs else validateControllerTypeAndRanges cdrom fieldPath)"

text \<open>The body of the loop of \<^verbatim>\<open>validateDuplicateUnitNumbers\<close>.\<close>

definition validate_duplicate ::
    "string \<Rightarrow> nat \<times> VirtualMachineCdromSpec \<Rightarrow> occupied \<times> field_Error list \<Rightarrow> occupied \<times> field_Error list" where
  "validate_duplicate f ic acc =
     (case (ic, acc) of ((i, cdrom), (controllerUnitNumbers, allErrs)) \<Rightarrow>
      case (cd_ControllerBusNumber cdrom, cd_UnitNumber cdrom) of
        (Some b, Some unitNumber) \<Rightarrow>
          if cd_ControllerType cdrom = [] then (controllerUnitNumbers, allErrs)
          else
            let controllerID = \<lparr>ControllerType = cd_ControllerType cdrom, BusNumber = b\<rparr>;
                controllerUnitNumbers = init_slots controllerID controllerUnitNumbers
            in if unitNumber \<in> slots_of controllerUnitNumbers controllerID
               then (controllerUnitNumbers,
                 allErrs @ [field_Duplicate (field_Child (field_Index f i) ''unitNumber'') (show_int unitNumber)])
               else (insert_slot controllerID unitNumber controllerUnitNumbers, allErrs)
      | _ \<Rightarrow> (controllerUnitNumbers, allErrs))"

definition validateDuplicateUnitNumbers :: "VirtualMachineCdromSpec list \<Rightarrow> string \<Rightarrow> field_Error list" where
  "validateDuplicateUnitNumbers cds f = snd (fold (validate_duplicate f) (enumerate 0 cds) (Map.empty, []))"

definition validateCdromControllerSpecsOnUpdate :: "VirtualMachineCdromSpec list \<Rightarrow> string \<Rightarrow> field_Error list" where
  "validateCdromControllerSpecsOnUpdate newCD f =
     (if newCD = [] then []
      else concat (map (\<lambda>(i, cdrom). validateControllerSpecOnUpdate cdrom (field_Index f i)) (enumerate 0 newCD)) @
        validateDuplicateUnitNumbers newCD f)"

definition validateCdromControllerSpecsOnCreate :: "VirtualMachineCdromSpec list \<Rightarrow> string \<Rightarrow> field_Error list" where
  "validateCdromControllerSpecsOnCreate cds f =
     concat (map (\<lambda>(i, cdrom).
       let cdromFieldPath = field_Index f i;
           hasControllerType = (cd_ControllerType cdrom \<noteq> []);
           hasControllerBusNumber = (cd_ControllerBusNumber cdrom \<noteq> None)
       in (if hasControllerType \<and> \<not> hasControllerBusNumber
           then [field_Required (field_Child cdromFieldPath ''controllerBusNumber'')
             ''must be set when controllerType is specified'']
           else if \<not> hasControllerType \<and> hasControllerBusNumber
           then [field_Required (field_Child cdromFieldPath ''controllerType'')
             ''must be set when controllerBusNumber is specified'']
           else []) @
          (if cd_ControllerType cdrom \<noteq> [] \<and> cd_ControllerBusNumber cdrom \<noteq> None \<and> cd_UnitNumber cdrom \<noteq> None
           then validateControllerTypeAndRanges cdrom cdromFieldPath
           else []))
       (enumerate 0 cds))"

text \<open>\<^verbatim>\<open>oldCdromByName\<close> is filled in list order: the last CD-ROM with a name wins.\<close>

definition oldCdromByName :: "VirtualMachineCdromSpec list \<Rightarrow> string \<rightharpoonup> VirtualMachineCdromSpec" where
  "oldCdromByName oldCD = map_of (rev (map (\<lambda>c. (cd_Name c, c)) oldCD))"

definition validateCdromControllerSpecWhenPoweredOn ::
    "VirtualMachineCdromSpec list \<Rightarrow> VirtualMachineCdromSpec list \<Rightarrow> string \<Rightarrow> field_Error list" where
  "validateCdromControllerSpecWhenPoweredOn newCD oldCD f =
     concat (map (\<lambda>(i, newCdrom).
       let cdromFieldPath = field_Index f i
       in case oldCdromByName oldCD (cd_Name newCdrom) of
            None \<Rightarrow> []
          | Some oldCdrom \<Rightarrow>
              (if cd_ControllerType newCdrom \<noteq> cd_ControllerType oldCdrom
               then [field_Forbidden (field_Child cdromFieldPath ''controllerType'') updatesNotAllowedWhenPowerOn] else []) @
              (if cd_ControllerBusNumber newCdrom \<noteq> cd_ControllerBusNumber oldCdrom
               then [field_Forbidden (field_Child cdromFieldPath ''controllerBusNumber'') updatesNotAllowedWhenPowerOn] else []) @
              (if cd_UnitNumber newCdrom \<noteq> cd_UnitNumber oldCdrom
               then [field_Forbidden (field_Child cdromFieldPath ''unitNumber'') updatesNotAllowedWhenPowerOn] else []))
       (enumerate 0 newCD))"

section \<open>What passes\<close>

definition valid_placement :: "VirtualMachineCdromSpec \<Rightarrow> bool" where
  "valid_placement cdrom \<longleftrightarrow>
     (case cd_slot cdrom of
        None \<Rightarrow> False
      | Some (i, u) \<Rightarrow> ControllerType i \<in> cd_types \<and> 0 \<le> BusNumber i \<and>
          BusNumber i < VirtualControllerType_MaxCount (ControllerType i) \<and> u \<in> cd_units (ControllerType i))"

lemma validateControllerTypeAndRanges_Nil:
  assumes "cd_slot cdrom \<noteq> None"
  shows "validateControllerTypeAndRanges cdrom p = [] \<longleftrightarrow> valid_placement cdrom"
  using assms
  by (auto simp: validateControllerTypeAndRanges_def valid_placement_def cd_slot_def range_errors_def cd_types_def
      cd_units_def IDEControllerSpec_MaxSlots_def SATAControllerSpec_MaxSlots_def Let_def split: option.splits if_splits)

lemma validateControllerSpecOnUpdate_Nil: "validateControllerSpecOnUpdate cdrom p = [] \<longleftrightarrow> valid_placement cdrom"
proof (cases "cd_slot cdrom")
  case None
  then show ?thesis
    by (auto simp: validateControllerSpecOnUpdate_def valid_placement_def cd_slot_def split: option.splits if_splits)
next
  case (Some iu)
  then have "validateControllerSpecOnUpdate cdrom p = validateControllerTypeAndRanges cdrom p"
    by (auto simp: validateControllerSpecOnUpdate_def cd_slot_def split: option.splits if_splits)
  with Some show ?thesis by (simp add: validateControllerTypeAndRanges_Nil)
qed

lemma concat_enumerate_Nil:
  "concat (map (\<lambda>(i, x). f i x) (enumerate n xs)) = [] \<longleftrightarrow> (\<forall>k < length xs. f (n + k) (xs ! k) = [])"
  by (induction xs arbitrary: n) (simp_all add: All_less_Suc2)

lemma validate_duplicate_step:
  "validate_duplicate f (i, cdrom) (occ, errs) =
     (case cd_slot cdrom of
        None \<Rightarrow> (occ, errs)
      | Some (c, u) \<Rightarrow>
          if u \<in> slots_of occ c
          then (init_slots c occ, errs @ [field_Duplicate (field_Child (field_Index f i) ''unitNumber'') (show_int u)])
          else (insert_slot c u (init_slots c occ), errs))"
  by (simp add: validate_duplicate_def cd_slot_def Let_def hw_simps split: option.split)

lemma validate_duplicate_errs:
  "\<exists>more. snd (fold (validate_duplicate f) (enumerate n cds) (occ, errs)) = errs @ more"
proof (induction cds arbitrary: n occ errs)
  case (Cons c cds)
  have "\<exists>occ' more. validate_duplicate f (n, c) (occ, errs) = (occ', errs @ more)"
    by (auto simp: validate_duplicate_step split: option.split)
  then obtain occ' more where step: "validate_duplicate f (n, c) (occ, errs) = (occ', errs @ more)" by blast
  from Cons [of "Suc n" occ' "errs @ more"] show ?case by (auto simp: step)
qed simp

lemma validate_duplicate_Nil:
  "snd (fold (validate_duplicate f) (enumerate n cds) (occ, [])) = [] \<longleftrightarrow>
     distinct (List.map_filter cd_slot cds) \<and> (\<forall>(i, u) \<in> set (List.map_filter cd_slot cds). u \<notin> slots_of occ i)"
proof (induction cds arbitrary: n occ)
  case Nil
  then show ?case by (simp add: map_filter_simps)
next
  case (Cons c cds)
  show ?case
  proof (cases "cd_slot c")
    case None
    then show ?thesis by (simp add: validate_duplicate_step map_filter_simps Cons)
  next
    case (Some iu)
    obtain i u where iu: "iu = (i, u)" by force
    show ?thesis
    proof (cases "u \<in> slots_of occ i")
      case True
      then show ?thesis using Some iu validate_duplicate_errs [of f "Suc n" cds "init_slots i occ"]
        by (auto simp: validate_duplicate_step map_filter_simps) (metis append_Cons list.distinct(1) append_Nil)+
    next
      case False
      then show ?thesis using Some iu
        by (auto simp: validate_duplicate_step map_filter_simps Cons hw_simps split: if_splits)
    qed
  qed
qed

lemma validateDuplicateUnitNumbers_Nil:
  "validateDuplicateUnitNumbers cds f = [] \<longleftrightarrow> distinct (List.map_filter cd_slot cds)"
  by (auto simp: validateDuplicateUnitNumbers_def validate_duplicate_Nil hw_simps)

lemma map_filter_all:
  assumes "list_all (\<lambda>x. f x \<noteq> None) xs"
  shows "map Some (List.map_filter f xs) = map f xs"
  using assms by (induction xs) auto

lemma in_set_map_filter: "y \<in> set (List.map_filter f xs) \<longleftrightarrow> (\<exists>k < length xs. f (xs ! k) = Some y)"
  by (induction xs) (auto simp: Ex_less_Suc2 split: option.split)

lemma map_filter_distinct:
  assumes "distinct (List.map_filter f xs)" and "j < length xs" and "k < length xs" and "j \<noteq> k" and "f (xs ! j) = Some y"
  shows "f (xs ! k) \<noteq> Some y"
  using assms
proof (induction xs arbitrary: j k)
  case (Cons x xs)
  have member: "y \<in> set (List.map_filter f xs)" if "m < length xs" "f (xs ! m) = Some y" for m
    using that by (auto simp: in_set_map_filter)
  have dist: "distinct (List.map_filter f xs)" "f x = Some y \<Longrightarrow> y \<notin> set (List.map_filter f xs)"
    using Cons.prems(1) by (auto split: option.splits)
  show ?case
  proof (cases j)
    case 0
    with Cons.prems obtain k' where "k = Suc k'" by (cases k) simp_all
    with 0 Cons.prems dist(2) member [of k'] show ?thesis by auto
  next
    case (Suc j')
    note j = this
    show ?thesis
    proof (cases k)
      case 0
      with Suc Cons.prems dist(2) member [of j'] show ?thesis by auto
    next
      case (Suc k')
      with j Cons.prems Cons.IH [OF dist(1), of j' k'] show ?thesis by simp
    qed
  qed
qed simp

lemma validateCdromControllerSpecsOnUpdate_Nil:
  "validateCdromControllerSpecsOnUpdate cds f = [] \<longleftrightarrow> list_all valid_placement cds \<and> distinct (map cd_slot cds)"
proof (cases "list_all valid_placement cds")
  case True
  then have "list_all (\<lambda>c. cd_slot c \<noteq> None) cds"
    by (rule list.pred_mono_strong) (auto simp: valid_placement_def split: option.splits)
  from map_filter_all [OF this] have "distinct (map cd_slot cds) \<longleftrightarrow> distinct (map Some (List.map_filter cd_slot cds))"
    by simp
  then have "distinct (map cd_slot cds) \<longleftrightarrow> distinct (List.map_filter cd_slot cds)"
    by (simp add: distinct_map [of Some])
  with True show ?thesis
    by (auto simp: validateCdromControllerSpecsOnUpdate_def concat_enumerate_Nil validateControllerSpecOnUpdate_Nil
        validateDuplicateUnitNumbers_Nil list_all_length simp del: concat_eq_Nil_conv)
next
  case False
  then show ?thesis
    by (auto simp: validateCdromControllerSpecsOnUpdate_def concat_enumerate_Nil validateControllerSpecOnUpdate_Nil
        list_all_length simp del: concat_eq_Nil_conv)
qed

section \<open>Properties\<close>

text \<open>
  An update of the CD-ROMs passes exactly when every CD-ROM names an IDE or SATA controller, a bus
  number and a unit number in the range of the type, and no two CD-ROMs name the same slot.
\<close>

theorem validateCdromControllerSpecsOnUpdate_iff:
  "validateCdromControllerSpecsOnUpdate cds f = [] \<longleftrightarrow> list_all valid_placement cds \<and> distinct (map cd_slot cds)"
  by (rule validateCdromControllerSpecsOnUpdate_Nil)

text \<open>
  On a powered on VM the CD-ROM check passes exactly when each CD-ROM that was there before, by
  name, keeps its controller type, bus number and unit number.
\<close>

theorem validateCdromControllerSpecWhenPoweredOn_iff:
  "validateCdromControllerSpecWhenPoweredOn newCD oldCD f = [] \<longleftrightarrow>
     list_all (\<lambda>cdrom. case oldCdromByName oldCD (cd_Name cdrom) of
         None \<Rightarrow> True
       | Some old \<Rightarrow> (cd_ControllerType cdrom, cd_ControllerBusNumber cdrom, cd_UnitNumber cdrom) =
           (cd_ControllerType old, cd_ControllerBusNumber old, cd_UnitNumber old)) newCD"
  unfolding validateCdromControllerSpecWhenPoweredOn_def concat_enumerate_Nil list_all_length
  by (auto simp: Let_def split: option.split)

lemma cd_result_distinct:
  assumes res: "cd_result occ cds cds'" and dist: "distinct (List.map_filter cd_slot cds)"
    and some: "list_all (\<lambda>c. cd_slot c \<noteq> None) cds'"
  shows "distinct (map cd_slot cds')"
  unfolding distinct_conv_nth
proof (intro allI impI)
  fix j k assume less: "j < length (map cd_slot cds')" "k < length (map cd_slot cds')" and "j \<noteq> k"
  have len: "length cds' = length cds" using res by (simp add: cd_result_def)
  obtain y where y: "cd_slot (cds' ! j) = Some y" using some less by (auto simp: list_all_length)
  have placed: "cd_slot (cds' ! m) = Some (i, u)" if "cd_placed occ cds cds' m i u" for m i u
    using that by (simp add: cd_placed_def cd_target_def)
  have other: "cd_slot (cds' ! n) \<noteq> cd_slot (cds' ! m)"
    if "cd_placed occ cds cds' m i u" "m \<noteq> n" "n < length cds'" for m n i u
    using placed [OF that(1)] that by (auto simp: cd_placed_def)
  consider i u where "cd_placed occ cds cds' j i u" | i u where "cd_placed occ cds cds' k i u"
    | "cds' ! j = cds ! j" "cds' ! k = cds ! k"
    using res less len unfolding cd_result_def by (metis length_map)
  then show "map cd_slot cds' ! j \<noteq> map cd_slot cds' ! k"
  proof cases
    case 1
    then show ?thesis using other [of j i u k] \<open>j \<noteq> k\<close> less by simp
  next
    case 2
    then show ?thesis using other [of k i u j] \<open>j \<noteq> k\<close> less by simp
  next
    case 3
    then show ?thesis using map_filter_distinct [OF dist, of j k y] y \<open>j \<noteq> k\<close> less len by simp
  qed
qed

lemma placed_valid:
  assumes "unplaced (cds ! k) \<or> valid_placement (cds ! k)" and "cd_placed occ cds cds' k i u"
  shows "valid_placement (cds' ! k)"
  using assms
  by (auto simp: cd_placed_def cd_target_def valid_placement_def cd_slot_def split: option.splits)

text \<open>
  C12. Mutation makes CD-ROMs valid: when each CD-ROM of an update is either unplaced or a valid
  placement, the placements name distinct slots, and the result leaves some slot of some IDE or SATA
  controller free, the result of the mutation webhook passes the validation of updates.
\<close>

theorem MutateCdrom_passes_validation:
  assumes "cdrom_update_applies cfg vm oldVM" and "vm_Hardware vm = Some hw"
    and "MutateCdromControllerOnUpdate cfg vm oldVM = Some (mutated, vm\<lparr>vm_Hardware := Some hw'\<rparr>)"
    and user: "list_all (\<lambda>cdrom. unplaced cdrom \<or> validateControllerSpecOnUpdate cdrom p = []) (hw_Cdrom hw)"
    and dup: "validateDuplicateUnitNumbers (hw_Cdrom hw) f = []"
    and room: "\<not> cd_full (\<lambda>i. slots_of (constructOccupiedSlots vm) i \<union> {u. Some (i, u) \<in> cd_slot ` set (hw_Cdrom hw')})"
  shows "validateCdromControllerSpecsOnUpdate (hw_Cdrom hw') f = []"
proof -
  obtain occ where res: "cd_result (constructOccupiedSlots vm) (hw_Cdrom hw) (hw_Cdrom hw')"
    and occ: "\<And>i. ControllerType i \<in> cd_types \<Longrightarrow>
      slots_of occ i = slots_of (constructOccupiedSlots vm) i \<union> {u. Some (i, u) \<in> cd_slot ` set (hw_Cdrom hw')}"
    and full: "\<And>cdrom. cdrom \<in> set (hw_Cdrom hw') \<Longrightarrow> unplaced cdrom \<Longrightarrow> cd_full (slots_of occ)"
  proof (rule MutateCdrom_run [OF assms(2,1)])
    fix m hw2 occ
    assume run: "MutateCdromControllerOnUpdate cfg vm oldVM = Some (m, vm\<lparr>vm_Hardware := Some hw2\<rparr>)"
      and rest: "cd_result (constructOccupiedSlots vm) (hw_Cdrom hw) (hw_Cdrom hw2)"
        "\<And>i. ControllerType i \<in> cd_types \<Longrightarrow>
        slots_of occ i = slots_of (constructOccupiedSlots vm) i \<union> {u. Some (i, u) \<in> cd_slot ` set (hw_Cdrom hw2)}"
      "\<And>cdrom. cdrom \<in> set (hw_Cdrom hw2) \<Longrightarrow> unplaced cdrom \<Longrightarrow> cd_full (slots_of occ)"
    from run assms(3) have "vm_Hardware (vm\<lparr>vm_Hardware := Some hw2\<rparr>) = vm_Hardware (vm\<lparr>vm_Hardware := Some hw'\<rparr>)" by simp
    then have "hw2 = hw'" by simp
    with rest show thesis by (intro that [of occ]) simp_all
  qed
  have "cd_full (\<lambda>i. slots_of (constructOccupiedSlots vm) i \<union> {u. Some (i, u) \<in> cd_slot ` set (hw_Cdrom hw')})"
    if "cd_full (slots_of occ)" using that occ unfolding cd_full_def by simp
  with room full have no: "\<not> unplaced cdrom" if "cdrom \<in> set (hw_Cdrom hw')" for cdrom using that by blast
  have "valid_placement (hw_Cdrom hw' ! k)" if k: "k < length (hw_Cdrom hw')" for k
  proof -
    from k res have "k < length (hw_Cdrom hw)" by (simp add: cd_result_def)
    with user have before: "unplaced (hw_Cdrom hw ! k) \<or> valid_placement (hw_Cdrom hw ! k)"
      by (simp add: list_all_length validateControllerSpecOnUpdate_Nil)
    from \<open>k < length (hw_Cdrom hw)\<close> res consider "hw_Cdrom hw' ! k = hw_Cdrom hw ! k"
      | i u where "cd_placed (constructOccupiedSlots vm) (hw_Cdrom hw) (hw_Cdrom hw') k i u"
      unfolding cd_result_def by blast
    then show ?thesis
    proof cases
      case 1
      with before no [OF nth_mem [OF k]] show ?thesis by metis
    next
      case 2
      with before show ?thesis by (rule placed_valid)
    qed
  qed
  then have valid: "list_all valid_placement (hw_Cdrom hw')" by (simp add: list_all_length)
  then have "list_all (\<lambda>c. cd_slot c \<noteq> None) (hw_Cdrom hw')"
    by (rule list.pred_mono_strong) (auto simp: valid_placement_def split: option.splits)
  with valid show ?thesis
    using cd_result_distinct [OF res] dup by (simp add: validateCdromControllerSpecsOnUpdate_Nil validateDuplicateUnitNumbers_Nil)
qed

theorem MutateCdrom_passes_validation_witness:
  "validateCdromControllerSpecsOnUpdate (hw_Cdrom cd_sample_hw1) ''cdrom'' = []"
proof -
  have "\<not> cd_full (\<lambda>i. slots_of (constructOccupiedSlots cd_sample_vm) i \<union>
      {u. Some (i, u) \<in> cd_slot ` set (hw_Cdrom cd_sample_hw1)})" (is "\<not> cd_full ?taken")
  proof
    let ?i = "\<lparr>ControllerType = VirtualControllerTypeSATA, BusNumber = 0\<rparr>"
    assume "cd_full ?taken"
    then have "cd_units VirtualControllerTypeSATA \<subseteq> ?taken ?i"
      unfolding cd_full_def by (elim allE [of _ ?i]) (simp add: cd_types_def VirtualControllerType_MaxCount_def
        VirtualControllerTypeSATA_def VirtualControllerTypeIDE_def)
    moreover have "0 \<in> cd_units VirtualControllerTypeSATA"
      by (simp add: cd_units_def VirtualControllerTypeSATA_def VirtualControllerTypeIDE_def)
    moreover have "slots_of (constructOccupiedSlots cd_sample_vm) ?i = {}"
      by (simp add: constructOccupiedSlots_def cd_sample_vm_def cd_sample_hw_def hardware_zero_def slots_of_def)
    moreover have "Some (?i, 0) \<notin> cd_slot ` set (hw_Cdrom cd_sample_hw1)"
      by (simp add: cd_sample_hw_def cd_slot_def VirtualControllerTypeSATA_def)
    ultimately show False by auto
  qed
  moreover have "list_all (\<lambda>cdrom. unplaced cdrom \<or> validateControllerSpecOnUpdate cdrom [] = []) (hw_Cdrom cd_sample_hw0)"
    "validateDuplicateUnitNumbers (hw_Cdrom cd_sample_hw0) ''cdrom'' = []"
    by code_simp+
  ultimately show ?thesis
    using MutateCdrom_passes_validation [OF cd_sample_applies cd_sample_hardware cd_sample_run] by blast
qed

end
