(* ===== verification/Label_Value.thy ===== *)
theory Label_Value
  imports VMOp_Prelude "HOL-Library.Word"
begin

unbundle bit_operations_syntax

text \<open>
  Label values for object names, \<^verbatim>\<open>pkg/util/replicaset_label.go\<close>: a name that is not a label value is
  replaced by its 32-bit FNV-1a hash in URL base64 without padding (\<^verbatim>\<open>hash/fnv\<close> and
  \<^verbatim>\<open>encoding/base64\<close> of the Go library). The test \<^verbatim>\<open>validation.IsValidLabelValue\<close> of the Kubernetes
  library is the argument \<^verbatim>\<open>valid\<close>.
\<close>

section \<open>The hash and its text\<close>

definition fnv32a :: "string \<Rightarrow> 32 word" where
  "fnv32a s = fold (\<lambda>c h. (h XOR of_nat (of_char c)) * 16777619) s 2166136261"

text \<open>\<^verbatim>\<open>Sum\<close>: the hash as four bytes, most significant first.\<close>

definition hash_bytes :: "32 word \<Rightarrow> nat list" where
  "hash_bytes h = map (\<lambda>k. unat h div 2 ^ k mod 256) [24, 16, 8, 0]"

definition base64_alphabet :: string where
  "base64_alphabet = ''ABCDEFGHIJKLMNOPQRSTUVWXYZabcdefghijklmnopqrstuvwxyz0123456789-_''"

fun base64_digits :: "nat list \<Rightarrow> nat list" where
  "base64_digits [] = []"
| "base64_digits [a] = [a div 4, a mod 4 * 16]"
| "base64_digits [a, b] = [a div 4, a mod 4 * 16 + b div 16, b mod 16 * 4]"
| "base64_digits (a # b # c # bs) =
     [a div 4, a mod 4 * 16 + b div 16, b mod 16 * 4 + c div 64, c mod 64] @ base64_digits bs"

definition base64_EncodeToString :: "nat list \<Rightarrow> string" where
  "base64_EncodeToString bs = map (\<lambda>d. base64_alphabet ! d) (base64_digits bs)"

section \<open>\<^verbatim>\<open>FormatValue\<close>\<close>

text \<open>The \<^verbatim>\<open>Write\<close> of an FNV hash never fails, so that the error result of the code is unreachable.\<close>

definition FormatValue :: "(string \<Rightarrow> bool) \<Rightarrow> string \<Rightarrow> goerror + string" where
  "FormatValue valid str =
     (if valid str then Inr str
      else Inr (''hash_'' @ base64_EncodeToString (hash_bytes (fnv32a str)) @ ''_z''))"

text \<open>A panic on an error is the value \<^verbatim>\<open>None\<close>.\<close>

definition MustFormatValue :: "(string \<Rightarrow> bool) \<Rightarrow> string \<Rightarrow> string option" where
  "MustFormatValue valid str = (case FormatValue valid str of Inl err \<Rightarrow> None | Inr val \<Rightarrow> Some val)"

definition label_value :: "(string \<Rightarrow> bool) \<Rightarrow> string \<Rightarrow> string" where
  "label_value valid str = the (MustFormatValue valid str)"

lemma MustFormatValue_total: "MustFormatValue valid str = Some (label_value valid str)"
  by (simp add: label_value_def MustFormatValue_def FormatValue_def)

section \<open>The hash is a label value\<close>

text \<open>
  The syntax of label values as Kubernetes documents it: at most 63 characters, letters, digits, dash,
  underscore and dot, with a letter or digit at both ends.
\<close>

definition alphanumeric :: "char \<Rightarrow> bool" where
  "alphanumeric c \<longleftrightarrow> c \<in> set (filter (\<lambda>c. c \<noteq> CHR ''-'' \<and> c \<noteq> CHR ''_'') base64_alphabet)"

definition label_syntax :: "string \<Rightarrow> bool" where
  "label_syntax s \<longleftrightarrow>
     s = [] \<or> length s \<le> 63 \<and> alphanumeric (hd s) \<and> alphanumeric (last s) \<and>
       list_all (\<lambda>c. alphanumeric c \<or> c \<in> set ''-_.'') s"

lemma base64_digits_bound:
  "list_all (\<lambda>b. b < 256) bs \<Longrightarrow> list_all (\<lambda>d. d < 64) (base64_digits bs)"
  by (induction bs rule: base64_digits.induct) (auto simp: algebra_simps)

lemma base64_alphabet_member: "d < 64 \<Longrightarrow> base64_alphabet ! d \<in> set base64_alphabet"
  by (rule nth_mem) (simp add: base64_alphabet_def)

lemma base64_alphabet_label: "c \<in> set base64_alphabet \<Longrightarrow> alphanumeric c \<or> c \<in> set ''-_.''"
  by (auto simp: alphanumeric_def)

lemma hash_label_syntax: "label_syntax (''hash_'' @ base64_EncodeToString (hash_bytes h) @ ''_z'')"
proof -
  have "list_all (\<lambda>b. b < 256) (hash_bytes h)" by (simp add: hash_bytes_def)
  then have "list_all (\<lambda>d. d < 64) (base64_digits (hash_bytes h))" by (rule base64_digits_bound)
  then have "list_all (\<lambda>c. alphanumeric c \<or> c \<in> set ''-_.'') (base64_EncodeToString (hash_bytes h))"
    unfolding base64_EncodeToString_def list.pred_map comp_def
    by (rule list.pred_mono_strong) (use base64_alphabet_member base64_alphabet_label in blast)
  moreover have "length (base64_EncodeToString (hash_bytes h)) = 6"
    by (simp add: base64_EncodeToString_def hash_bytes_def)
  ultimately show ?thesis
    by (simp add: label_syntax_def) (simp add: alphanumeric_def base64_alphabet_def)
qed

text \<open>
  C35. Every object name has a label value: when the validation accepts the documented syntax of label
  values, the value that stands for a name is always accepted, whatever the name, and it stands for itself.
\<close>

theorem MustFormatValue_is_label:
  assumes "\<And>s. label_syntax s \<Longrightarrow> valid s"
  shows "\<exists>v. MustFormatValue valid str = Some v \<and> valid v \<and> MustFormatValue valid v = Some v"
  using assms [OF hash_label_syntax [of "fnv32a str"]]
  by (simp add: MustFormatValue_def FormatValue_def)

theorem MustFormatValue_is_label_witness:
  "\<not> label_syntax (replicate 64 CHR ''a'') \<and>
   (\<exists>v. MustFormatValue label_syntax (replicate 64 CHR ''a'') = Some v \<and> label_syntax v \<and>
      MustFormatValue label_syntax v = Some v)"
  using MustFormatValue_is_label [of label_syntax "replicate 64 CHR ''a''"] by (simp add: label_syntax_def)

end
