(* ===== verification/Replica_Set.thy ===== *)
theory Replica_Set
  imports Conditions Label_Value
begin

text \<open>
  The replica set controller, \<^verbatim>\<open>controllers/virtualmachinereplicaset\<close>. The API server is not part of
  the sources: its answers to the requests of a reconcile are the record \<^verbatim>\<open>rs_api\<close>, and the requests
  the code makes are collected in a list, in their order. A nil pointer dereference or a write to a nil
  map is a panic, the value \<^verbatim>\<open>None\<close>. The owner references of an object are represented by the UID of the
  controller among them, and label selection of the Kubernetes library is a field of \<^verbatim>\<open>rs_api\<close>. The
  clock is an argument.
\<close>

section \<open>Objects\<close>

record VirtualMachineReadinessProbeSpec =
  probe_TCPSocket :: "string option"
  probe_GuestHeartbeat :: "string option"
  probe_GuestInfo :: "string list"

record rs_VM =
  rvm_Name :: string
  rvm_GenerateName :: string
  rvm_Namespace :: string
  rvm_Labels :: "labels option"
  rvm_Annotations :: "labels option"
  rvm_Controller :: "string option"
  rvm_DeletionTimestamp :: gotime
  rvm_ReadinessProbe :: "VirtualMachineReadinessProbeSpec option"
  rvm_Conditions :: conditions

record VirtualMachineReplicaSetStatus =
  rst_Replicas :: int
  rst_FullyLabeledReplicas :: int
  rst_ReadyReplicas :: int
  rst_ObservedGeneration :: int
  rst_Conditions :: conditions

record VirtualMachineReplicaSet =
  rs_Name :: string
  rs_Namespace :: string
  rs_UID :: string
  rs_Generation :: int
  rs_Labels :: "labels option"
  rs_Finalizers :: "string list"
  rs_DeletionTimestamp :: gotime
  rs_Replicas :: "int option"
  rs_Selector :: "labels option option"
  rs_TemplateLabels :: "labels option"
  rs_TemplateAnnotations :: "labels option"
  rs_TemplateReadinessProbe :: "VirtualMachineReadinessProbeSpec option"
  rs_Status :: VirtualMachineReplicaSetStatus

definition ReplicaSet_GetConditions :: "VirtualMachineReplicaSet \<Rightarrow> conditions" where
  "ReplicaSet_GetConditions rs = rst_Conditions (rs_Status rs)"

definition ReplicaSet_SetConditions :: "VirtualMachineReplicaSet \<Rightarrow> conditions \<Rightarrow> VirtualMachineReplicaSet" where
  "ReplicaSet_SetConditions rs cs = rs\<lparr>rs_Status := (rs_Status rs)\<lparr>rst_Conditions := cs\<rparr>\<rparr>"

definition VirtualMachineReplicaSetReplicaFailure :: string where
  "VirtualMachineReplicaSetReplicaFailure = ''ReplicaFailure''"

definition VirtualMachinesCreatedCondition :: string where
  "VirtualMachinesCreatedCondition = ''VirtualMachinesCreated''"

definition VirtualMachinesReadyCondition :: string where
  "VirtualMachinesReadyCondition = ''VirtualMachinesReady''"

definition VirtualMachineCreationFailedReason :: string where
  "VirtualMachineCreationFailedReason = ''VirtualMachineCreationFailed''"

definition VirtualMachineDeletionFailedReason :: string where
  "VirtualMachineDeletionFailedReason = ''VirtualMachineDeletionFailed''"

definition VirtualMachinesNotReadyReason :: string where
  "VirtualMachinesNotReadyReason = ''VirtualMachinesNotReady''"

definition ResizedCondition :: string where "ResizedCondition = ''Resized''"

definition ScalingUpReason :: string where "ScalingUpReason = ''ScalingUp''"

definition ScalingDownReason :: string where "ScalingDownReason = ''ScalingDown''"

definition VirtualMachineReplicaSetNameLabel :: string where
  "VirtualMachineReplicaSetNameLabel = ''vmoperator.vmware.com/replicaset-name''"

definition finalizerName :: string where
  "finalizerName = ''virtualmachinereplicaset.vmoperator.vmware.com''"

section \<open>Requests and answers\<close>

datatype api_request = PatchOwner string | PatchLabel string | CreateVM rs_VM | DeleteVM string

text \<open>
  \<^verbatim>\<open>api_Create i\<close> answers the \<^verbatim>\<open>i\<close>-th creation with an error or the name the server generated; the
  polls answer with the error of \<^verbatim>\<open>PollUntilContextTimeout\<close>, if any.
\<close>

record rs_api =
  api_ValidLabel :: "string \<Rightarrow> bool"
  api_SelectorAsMap :: "labels \<Rightarrow> goerror option"
  api_List :: "labels \<Rightarrow> goerror + rs_VM list"
  api_Adopt :: "string \<Rightarrow> goerror option"
  api_NewHelper :: "string \<Rightarrow> goerror option"
  api_PatchVM :: "string \<Rightarrow> goerror option"
  api_Create :: "nat \<Rightarrow> goerror + string"
  api_Delete :: "string \<Rightarrow> goerror option"
  api_PollCreated :: "string \<Rightarrow> goerror option"
  api_PollDeleted :: "string \<Rightarrow> goerror option"
  api_Matches :: "labels \<Rightarrow> labels \<Rightarrow> bool"
  api_Aggregate :: "goerror list \<Rightarrow> goerror"
  api_PrintLabels :: "labels \<Rightarrow> string"

section \<open>Delete policy (\<^verbatim>\<open>virtualmachinereplicaset_delete_policy.go\<close>)\<close>

type_synonym deletePriority = int

definition mustDelete :: deletePriority where "mustDelete = 100"

definition couldDelete :: deletePriority where "couldDelete = 50"

definition mustNotDelete :: deletePriority where "mustNotDelete = 0"

definition randomDeletePolicy :: "rs_VM \<Rightarrow> deletePriority" where
  "randomDeletePolicy vm = (if \<not> time_IsZero (rvm_DeletionTimestamp vm) then mustDelete else couldDelete)"

definition sortableMachines_Less :: "(rs_VM \<Rightarrow> deletePriority) \<Rightarrow> rs_VM \<Rightarrow> rs_VM \<Rightarrow> bool" where
  "sortableMachines_Less priority i j \<longleftrightarrow>
     (if priority i = priority j then rvm_Name i < rvm_Name j else priority j < priority i)"

text \<open>\<^verbatim>\<open>sort.Sort\<close> orders the slice in place; the names of the VMs of a namespace are distinct.\<close>

definition getMachinesToDeletePrioritized :: "rs_VM list \<Rightarrow> int \<Rightarrow> (rs_VM \<Rightarrow> deletePriority) \<Rightarrow> rs_VM list" where
  "getMachinesToDeletePrioritized filteredMachines diff fun =
     (if diff \<ge> int (length filteredMachines) then filteredMachines
      else if diff \<le> 0 then []
      else take (nat diff) (go_sort (sortableMachines_Less fun) filteredMachines))"

definition getDeletePriorityFunc :: "VirtualMachineReplicaSet \<Rightarrow> goerror + (rs_VM \<Rightarrow> deletePriority)" where
  "getDeletePriorityFunc rs = Inr randomDeletePolicy"

section \<open>Scaling\<close>

definition MustEqualValue :: "(string \<Rightarrow> bool) \<Rightarrow> string \<Rightarrow> string \<Rightarrow> bool option" where
  "MustEqualValue valid rsName labelValue = map_option (\<lambda>v. labelValue = v) (MustFormatValue valid rsName)"

definition getLabelsFromVMReplicaSet :: "(string \<Rightarrow> bool) \<Rightarrow> VirtualMachineReplicaSet \<Rightarrow> labels option" where
  "getLabelsFromVMReplicaSet valid rs =
     map_option (\<lambda>v. (labels_of (rs_TemplateLabels rs))(VirtualMachineReplicaSetNameLabel \<mapsto> v))
       (MustFormatValue valid (rs_Name rs))"

definition getAnnotationsFromReplicaSet :: "VirtualMachineReplicaSet \<Rightarrow> labels" where
  "getAnnotationsFromReplicaSet rs = labels_of (rs_TemplateAnnotations rs)"

definition getNewVirtualMachine :: "(string \<Rightarrow> bool) \<Rightarrow> VirtualMachineReplicaSet \<Rightarrow> rs_VM option" where
  "getNewVirtualMachine valid rs =
     map_option (\<lambda>l. \<lparr>rvm_Name = [], rvm_GenerateName = rs_Name rs @ ''-'', rvm_Namespace = rs_Namespace rs,
       rvm_Labels = Some l, rvm_Annotations = Some (getAnnotationsFromReplicaSet rs),
       rvm_Controller = Some (rs_UID rs), rvm_DeletionTimestamp = 0,
       rvm_ReadinessProbe = rs_TemplateReadinessProbe rs, rvm_Conditions = []\<rparr>)
     (getLabelsFromVMReplicaSet valid rs)"

text \<open>The loop over \<^verbatim>\<open>diff\<close> creations: the created names, the errors and the conditions it marks.\<close>

fun create_loop ::
    "rs_api \<Rightarrow> gotime \<Rightarrow> rs_VM \<Rightarrow> nat list \<Rightarrow> VirtualMachineReplicaSet \<Rightarrow> VirtualMachineReplicaSet \<times> string list \<times> goerror list" where
  "create_loop api now vm [] rs = (rs, [], [])"
| "create_loop api now vm (i # is) rs =
     (case api_Create api i of
        Inl err \<Rightarrow>
          (case create_loop api now vm is (ReplicaSet_SetConditions rs (Conditions_MarkError now
              (ReplicaSet_GetConditions rs) VirtualMachinesCreatedCondition VirtualMachineCreationFailedReason err)) of
             (rs', names, errs) \<Rightarrow> (rs', names, err # errs))
      | Inr name \<Rightarrow>
          (case create_loop api now vm is rs of (rs', names, errs) \<Rightarrow> (rs', name # names, errs)))"

fun wait_loop :: "(string \<Rightarrow> goerror option) \<Rightarrow> string \<Rightarrow> string \<Rightarrow> string list \<Rightarrow> goerror option" where
  "wait_loop poll before after [] = None"
| "wait_loop poll before after (name # names) =
     (case poll name of
        Some pollErr \<Rightarrow> Some (before @ go_quote name @ after @ pollErr)
      | None \<Rightarrow> wait_loop poll before after names)"

definition waitForVMCreation :: "rs_api \<Rightarrow> string list \<Rightarrow> goerror option" where
  "waitForVMCreation api = wait_loop (api_PollCreated api) ''failed waiting for VirtualMachine: '' '' to be created: ''"

definition waitForVMDeletion :: "rs_api \<Rightarrow> string list \<Rightarrow> goerror option" where
  "waitForVMDeletion api = wait_loop (api_PollDeleted api) ''failed waiting for VirtualMachine '' '' to be deleted: ''"

definition ReplicaFailure_condition :: "string \<Rightarrow> string \<Rightarrow> condition" where
  "ReplicaFailure_condition r msg =
     \<lparr>ctype = VirtualMachineReplicaSetReplicaFailure, cstatus = ConditionTrue, observedGeneration = 0,
      lastTransitionTime = 0, reason = r, message = msg\<rparr>"

abbreviation set_failure :: "gotime \<Rightarrow> string \<Rightarrow> goerror \<Rightarrow> VirtualMachineReplicaSet \<Rightarrow> VirtualMachineReplicaSet" where
  "set_failure now r msg rs \<equiv>
     ReplicaSet_SetConditions rs (Conditions_Set now (ReplicaSet_GetConditions rs) (Some (ReplicaFailure_condition r msg)))"

abbreviation clear_failure :: "VirtualMachineReplicaSet \<Rightarrow> VirtualMachineReplicaSet" where
  "clear_failure rs \<equiv>
     ReplicaSet_SetConditions rs (Conditions_Delete (ReplicaSet_GetConditions rs) VirtualMachineReplicaSetReplicaFailure)"

text \<open>
  \<^verbatim>\<open>syncReplicas\<close>: the error, the replica set, the requests, and the slice of VMs, which the sort of the
  delete policy may have reordered.
\<close>

definition scale_up :: "rs_api \<Rightarrow> gotime \<Rightarrow> VirtualMachineReplicaSet \<Rightarrow> nat \<Rightarrow>
    (goerror option \<times> VirtualMachineReplicaSet \<times> api_request list) option" where
  "scale_up api now rs diff =
     (case getNewVirtualMachine (api_ValidLabel api) rs of
        None \<Rightarrow> None
      | Some vm \<Rightarrow>
          (case create_loop api now vm [0..<diff] rs of
             (rs, vmList, errs) \<Rightarrow>
               let requests = replicate diff (CreateVM vm)
               in if errs \<noteq> [] then
                    let aggErr = api_Aggregate api errs
                    in Some (Some aggErr, set_failure now VirtualMachineCreationFailedReason aggErr rs, requests)
                  else
                    let rs = clear_failure rs
                    in Some (waitForVMCreation api vmList, rs, requests)))"

definition scale_down :: "rs_api \<Rightarrow> gotime \<Rightarrow> VirtualMachineReplicaSet \<Rightarrow> rs_VM list \<Rightarrow> int \<Rightarrow>
    goerror option \<times> VirtualMachineReplicaSet \<times> api_request list" where
  "scale_down api now rs vms diff =
     (case getDeletePriorityFunc rs of
        Inl err \<Rightarrow> (Some err, rs, [])
      | Inr fun \<Rightarrow>
          let vmsToDelete = getMachinesToDeletePrioritized vms diff fun;
              live = filter (\<lambda>vm. time_IsZero (rvm_DeletionTimestamp vm)) vmsToDelete;
              errs = List.map_filter (\<lambda>vm. api_Delete api (rvm_Name vm)) live;
              requests = map (\<lambda>vm. DeleteVM (rvm_Name vm)) live
          in if errs \<noteq> [] then
               let aggErr = api_Aggregate api errs
               in (Some aggErr, set_failure now VirtualMachineDeletionFailedReason aggErr rs, requests)
             else (waitForVMDeletion api (map rvm_Name vmsToDelete), clear_failure rs, requests))"

definition syncReplicas :: "rs_api \<Rightarrow> gotime \<Rightarrow> VirtualMachineReplicaSet \<Rightarrow> rs_VM list \<Rightarrow>
    (goerror option \<times> VirtualMachineReplicaSet \<times> api_request list) option" where
  "syncReplicas api now rs vms =
     (case rs_Replicas rs of
        None \<Rightarrow> Some (Some (''the Replicas field in Spec for VirtualMachineReplicaSet '' @ rs_Name rs @
          '' is nil, this should not be allowed''), rs, [])
      | Some replicas \<Rightarrow>
          let diff = int (length vms) - replicas
          in if diff < 0 then scale_up api now rs (nat (- diff))
             else if diff > 0 then Some (scale_down api now rs vms diff)
             else Some (None, rs, []))"

section \<open>Status\<close>

definition isVMReady :: "rs_VM \<Rightarrow> bool" where
  "isVMReady vm =
     (case Conditions_Get (rvm_Conditions vm) ReadyConditionType of
        Some c \<Rightarrow> cstatus c = ConditionTrue
      | None \<Rightarrow>
          (case rvm_ReadinessProbe vm of
             None \<Rightarrow> True
           | Some p \<Rightarrow> probe_TCPSocket p = None \<and> probe_GuestHeartbeat p = None \<and> probe_GuestInfo p = []))"

definition observed_status ::
    "rs_api \<Rightarrow> VirtualMachineReplicaSet \<Rightarrow> rs_VM list \<Rightarrow> VirtualMachineReplicaSetStatus" where
  "observed_status api rs filteredVMs =
     (rs_Status rs)\<lparr>
       rst_Replicas := int32_of (int (length filteredVMs)),
       rst_FullyLabeledReplicas := int32_of (int (length (filter
         (\<lambda>vm. api_Matches api (labels_of (rs_TemplateLabels rs)) (labels_of (rvm_Labels vm))) filteredVMs))),
       rst_ReadyReplicas := int32_of (int (length (filter isVMReady filteredVMs)))\<rparr>"

definition mark_resized :: "gotime \<Rightarrow> int \<Rightarrow> VirtualMachineReplicaSetStatus \<Rightarrow> conditions \<Rightarrow> conditions" where
  "mark_resized now desiredReplicas newStatus cs =
     (if rst_Replicas newStatus < desiredReplicas then
        Conditions_MarkFalse now cs ResizedCondition ScalingUpReason
          (''Scaling up VirtualMachineReplicaSet to '' @ show_int desiredReplicas @ '' replicas (currentReplicas '' @
            show_int (rst_Replicas newStatus) @ '')'')
      else if rst_Replicas newStatus > desiredReplicas then
        Conditions_MarkTrue now
          (Conditions_MarkFalse now cs ResizedCondition ScalingDownReason
            (''Scaling down VirtualMachineReplicaSet to '' @ show_int desiredReplicas @ '' replicas (currentReplicas '' @
              show_int (rst_Replicas newStatus) @ '')''))
          VirtualMachinesCreatedCondition
      else
        Conditions_MarkTrue now
          (if rst_ReadyReplicas newStatus = rst_Replicas newStatus then Conditions_MarkTrue now cs ResizedCondition
           else cs)
          VirtualMachinesCreatedCondition)"

definition mark_ready :: "gotime \<Rightarrow> int \<Rightarrow> VirtualMachineReplicaSetStatus \<Rightarrow> conditions \<Rightarrow> conditions" where
  "mark_ready now desiredReplicas newStatus cs =
     (if rst_ReadyReplicas newStatus \<ge> desiredReplicas then Conditions_MarkTrue now cs VirtualMachinesReadyCondition
      else Conditions_MarkFalse now cs VirtualMachinesReadyCondition VirtualMachinesNotReadyReason
        (show_int (rst_ReadyReplicas newStatus) @ '' of '' @ show_int desiredReplicas @ '' replicas ready''))"

definition rs_updateStatus ::
    "rs_api \<Rightarrow> gotime \<Rightarrow> VirtualMachineReplicaSet \<Rightarrow> rs_VM list \<Rightarrow> VirtualMachineReplicaSet option" where
  "rs_updateStatus api now rs filteredVMs =
     (case rs_Replicas rs of
        None \<Rightarrow> None
      | Some desiredReplicas \<Rightarrow>
          let newStatus = observed_status api rs filteredVMs;
              rs = (if rst_Replicas (rs_Status rs) \<noteq> rst_Replicas newStatus \<or>
                  rst_FullyLabeledReplicas (rs_Status rs) \<noteq> rst_FullyLabeledReplicas newStatus \<or>
                  rst_ReadyReplicas (rs_Status rs) \<noteq> rst_ReadyReplicas newStatus \<or>
                  rs_Generation rs \<noteq> rst_ObservedGeneration (rs_Status rs)
                then rs\<lparr>rs_Status := newStatus\<lparr>rst_ObservedGeneration := rs_Generation rs\<rparr>\<rparr>
                else rs)
          in Some (ReplicaSet_SetConditions rs (mark_ready now desiredReplicas newStatus
               (mark_resized now desiredReplicas newStatus (ReplicaSet_GetConditions rs)))))"

section \<open>Reconcile\<close>

definition adoptOrphan :: "VirtualMachineReplicaSet \<Rightarrow> rs_VM \<Rightarrow> rs_VM" where
  "adoptOrphan rs vm = vm\<lparr>rvm_Controller := Some (rs_UID rs)\<rparr>"

text \<open>The loop that adopts orphans and filters out the VMs of other controllers.\<close>

fun filter_loop :: "rs_api \<Rightarrow> VirtualMachineReplicaSet \<Rightarrow> rs_VM list \<Rightarrow> rs_VM list \<times> api_request list" where
  "filter_loop api rs [] = ([], [])"
| "filter_loop api rs (vm # vms) =
     (case filter_loop api rs vms of (filtered, requests) \<Rightarrow>
        if rvm_Controller vm = None then
          (case api_Adopt api (rvm_Name vm) of
             Some err \<Rightarrow> (filtered, PatchOwner (rvm_Name vm) # requests)
           | None \<Rightarrow> (adoptOrphan rs vm # filtered, PatchOwner (rvm_Name vm) # requests))
        else if rvm_Controller vm \<noteq> Some (rs_UID rs) then (filtered, requests)
        else (vm # filtered, requests))"

text \<open>
  The loop that labels the VMs: an error ends the reconcile, and so does the panic of a write to the
  nil labels of a VM.
\<close>

fun label_loop :: "rs_api \<Rightarrow> VirtualMachineReplicaSet \<Rightarrow> rs_VM list \<Rightarrow> ((goerror + rs_VM list) \<times> api_request list) option" where
  "label_loop api rs [] = Some (Inr [], [])"
| "label_loop api rs (vm # vms) =
     (let continue = (\<lambda>vm requests. map_option (\<lambda>(result, more).
            (map_sum id (\<lambda>vms. vm # vms) result, requests @ more)) (label_loop api rs vms))
      in case (case labels_of (rvm_Labels vm) VirtualMachineReplicaSetNameLabel of
                 None \<Rightarrow> Some False
               | Some rsName \<Rightarrow> MustEqualValue (api_ValidLabel api) (rs_Name rs) rsName) of
           None \<Rightarrow> None
         | Some True \<Rightarrow> continue vm []
         | Some False \<Rightarrow>
             (case api_NewHelper api (rvm_Name vm) of
                Some err \<Rightarrow> Some (Inl (''failed to create patch helper to apply '' @ VirtualMachineReplicaSetNameLabel @
                  '' label to VirtualMachine '' @ go_quote (rvm_Name vm) @ '': '' @ err), [])
              | None \<Rightarrow>
                  (case (rvm_Labels vm, MustFormatValue (api_ValidLabel api) (rs_Name rs)) of
                     (Some l, Some v) \<Rightarrow>
                       (case api_PatchVM api (rvm_Name vm) of
                          Some err \<Rightarrow> Some (Inl (''failed to apply '' @ VirtualMachineReplicaSetNameLabel @
                            '' label to VirtualMachine '' @ go_quote (rvm_Name vm) @ '': '' @ err), [PatchLabel (rvm_Name vm)])
                        | None \<Rightarrow> continue (vm\<lparr>rvm_Labels := Some (l(VirtualMachineReplicaSetNameLabel \<mapsto> v))\<rparr>)
                            [PatchLabel (rvm_Name vm)])
                   | _ \<Rightarrow> None)))"

text \<open>The result of a reconcile: an error, or whether to reconcile again in 15 seconds.\<close>

type_synonym rs_outcome = "(goerror + bool) \<times> VirtualMachineReplicaSet \<times> api_request list"

definition make_labels :: "labels option \<Rightarrow> labels option" where
  "make_labels l = Some (labels_of l)"

definition sync_and_status :: "rs_api \<Rightarrow> gotime \<Rightarrow> VirtualMachineReplicaSet \<Rightarrow> rs_VM list \<Rightarrow> rs_outcome option" where
  "sync_and_status api now rs filteredVMs =
     (case syncReplicas api now rs filteredVMs of
        None \<Rightarrow> None
      | Some (syncErr, rs, requests) \<Rightarrow>
          let rs = (if syncErr = None then clear_failure rs else rs)
          in case rs_updateStatus api now rs filteredVMs of
               None \<Rightarrow> None
             | Some rs \<Rightarrow>
                 (case syncErr of
                    Some err \<Rightarrow> Some (Inl (''failed to sync VirtualMachineReplicaSet replicas: '' @ err), rs, requests)
                  | None \<Rightarrow>
                      let replicas = (case rs_Replicas rs of None \<Rightarrow> 0 | Some n \<Rightarrow> n)
                      in Some (Inr (rst_ReadyReplicas (rs_Status rs) \<noteq> replicas), rs, requests)))"

definition ReconcileNormal :: "rs_api \<Rightarrow> gotime \<Rightarrow> VirtualMachineReplicaSet \<Rightarrow> rs_outcome option" where
  "ReconcileNormal api now rs =
     (if finalizerName \<notin> set (rs_Finalizers rs)
      then Some (Inr False, rs\<lparr>rs_Finalizers := rs_Finalizers rs @ [finalizerName]\<rparr>, [])
      else case rs_Selector rs of
        None \<Rightarrow> None
      | Some matchLabels \<Rightarrow>
          let rs = rs\<lparr>rs_Labels := make_labels (rs_Labels rs), rs_Selector := Some (make_labels matchLabels),
                rs_TemplateLabels := make_labels (rs_TemplateLabels rs)\<rparr>
          in case api_SelectorAsMap api (labels_of matchLabels) of
               Some err \<Rightarrow> Some (Inl (''failed to convert VirtualMachineReplicaSet '' @ go_quote (rs_Name rs) @
                 '' label selector to a map: '' @ err), rs, [])
             | None \<Rightarrow>
                 (case api_List api (labels_of matchLabels) of
                    Inl err \<Rightarrow>
                      Some (Inl (''failed to list virtual machines matched by the VirtualMachineReplicaSet. selector: '' @
                      api_PrintLabels api (labels_of matchLabels) @ '', err: '' @ err), rs, [])
                  | Inr allVMs \<Rightarrow>
                      (case filter_loop api rs allVMs of (filteredVMs, adoptions) \<Rightarrow>
                         (case label_loop api rs filteredVMs of
                            None \<Rightarrow> None
                          | Some (Inl err, patches) \<Rightarrow> Some (Inl err, rs, adoptions @ patches)
                          | Some (Inr filteredVMs, patches) \<Rightarrow>
                              map_option (\<lambda>(result, rs, requests). (result, rs, adoptions @ patches @ requests))
                                (sync_and_status api now rs filteredVMs)))))"

definition ReconcileDelete :: "VirtualMachineReplicaSet \<Rightarrow> VirtualMachineReplicaSet" where
  "ReconcileDelete rs = rs\<lparr>rs_Finalizers := filter (\<lambda>f. f \<noteq> finalizerName) (rs_Finalizers rs)\<rparr>"

text \<open>\<^verbatim>\<open>Reconcile\<close> after the object is read; the deferred patch writes the returned replica set back.\<close>

definition rs_Reconcile :: "rs_api \<Rightarrow> gotime \<Rightarrow> VirtualMachineReplicaSet \<Rightarrow> rs_outcome option" where
  "rs_Reconcile api now rs =
     (if \<not> time_IsZero (rs_DeletionTimestamp rs) then Some (Inr False, ReconcileDelete rs, [])
      else ReconcileNormal api now rs)"

text \<open>
  The watch on VMs: which replica sets to reconcile for a VM. \<^verbatim>\<open>selector\<close> is the selector of a replica set
  as the Kubernetes library makes it: an error, or whether it is empty and what it matches.
\<close>

definition getReplicaSetsForVM ::
    "(goerror + VirtualMachineReplicaSet list) \<Rightarrow> (VirtualMachineReplicaSet \<Rightarrow> goerror + (bool \<times> (labels \<Rightarrow> bool))) \<Rightarrow>
     rs_VM \<Rightarrow> goerror + VirtualMachineReplicaSet list" where
  "getReplicaSetsForVM listed selector vm =
     (if labels_of (rvm_Labels vm) = Map.empty then Inr []
      else case listed of
        Inl err \<Rightarrow> Inl (''failed to list VirtualMachineReplicaSets: '' @ err)
      | Inr items \<Rightarrow> Inr (filter (\<lambda>rs. case selector rs of
            Inl err \<Rightarrow> False
          | Inr (isEmpty, matches) \<Rightarrow> \<not> isEmpty \<and> matches (labels_of (rvm_Labels vm))) items))"

definition VMToReplicaSets ::
    "(goerror + VirtualMachineReplicaSet list) \<Rightarrow> (VirtualMachineReplicaSet \<Rightarrow> goerror + (bool \<times> (labels \<Rightarrow> bool))) \<Rightarrow>
     rs_VM \<Rightarrow> (string \<times> string) list" where
  "VMToReplicaSets listed selector vm =
     (if rvm_Controller vm \<noteq> None then []
      else case getReplicaSetsForVM listed selector vm of
        Inl err \<Rightarrow> []
      | Inr rss \<Rightarrow> map (\<lambda>rs. (rs_Name rs, rs_Namespace rs)) rss)"

end
