(* ===== verification/Replica_Sync.thy ===== *)
theory Replica_Sync
  imports Replica_Set
begin

text \<open>
  What the replica set controller guarantees: which VMs it deletes, how many requests it makes, that
  scaling converges, the conditions it reports, and when a reconcile panics.
\<close>

section \<open>The delete policy\<close>

lemma length_filter_card: "distinct xs \<Longrightarrow> length (filter P xs) = card {x \<in> set xs. P x}"
  using distinct_card [of "filter P xs"] by simp

interpretation machine_order: strict_weak_order "sortableMachines_Less f" rvm_Name for f
proof unfold_locales
  fix x y z :: rs_VM
  show "sortableMachines_Less f x y \<Longrightarrow> \<not> sortableMachines_Less f y x"
    by (auto simp: sortableMachines_Less_def split: if_splits)
  show "\<not> sortableMachines_Less f x y \<Longrightarrow> \<not> sortableMachines_Less f y z \<Longrightarrow> \<not> sortableMachines_Less f x z"
    by (auto simp: sortableMachines_Less_def split: if_splits)
  show "rvm_Name x \<noteq> rvm_Name y \<Longrightarrow> sortableMachines_Less f x y \<or> sortableMachines_Less f y x"
    by (auto simp: sortableMachines_Less_def)
qed

abbreviation terminating :: "rs_VM \<Rightarrow> bool" where
  "terminating vm \<equiv> \<not> time_IsZero (rvm_DeletionTimestamp vm)"

lemma getMachines_length:
  "int (length (getMachinesToDeletePrioritized vms diff f)) = max 0 (min diff (int (length vms)))"
  by (simp add: getMachinesToDeletePrioritized_def)

lemma getMachines_subset: "set (getMachinesToDeletePrioritized vms diff f) \<subseteq> set vms"
  using set_take_subset [of "nat diff" "go_sort (sortableMachines_Less f) vms"]
  by (auto simp: getMachinesToDeletePrioritized_def)

lemma getMachines_priority:
  assumes "vm \<in> set (getMachinesToDeletePrioritized vms diff f)" and "spared \<in> set vms"
    and "spared \<notin> set (getMachinesToDeletePrioritized vms diff f)"
  shows "f spared \<le> f vm"
proof -
  let ?sorted = "go_sort (sortableMachines_Less f) vms"
  have mem: "vm \<in> set (take (nat diff) ?sorted)" "spared \<notin> set (take (nat diff) ?sorted)"
    using assms by (auto simp: getMachinesToDeletePrioritized_def split: if_splits)
  have "spared \<in> set (take (nat diff) ?sorted @ drop (nat diff) ?sorted)" using assms(2) by simp
  with mem(2) have "spared \<in> set (drop (nat diff) ?sorted)" by (simp del: append_take_drop_id)
  moreover have "sorted_wrt (\<lambda>x y. \<not> sortableMachines_Less f y x) (take (nat diff) ?sorted @ drop (nat diff) ?sorted)"
    using machine_order.go_sort_sorted [of f vms] by simp
  ultimately have "\<not> sortableMachines_Less f spared vm"
    using mem(1) unfolding sorted_wrt_append by blast
  then show ?thesis by (auto simp: sortableMachines_Less_def split: if_splits)
qed

lemma getMachines_distinct:
  assumes "distinct (map rvm_Name vms)"
  shows "distinct (map rvm_Name (getMachinesToDeletePrioritized vms diff f))"
proof -
  have "distinct (map rvm_Name (go_sort (sortableMachines_Less f) vms))" using assms by (simp add: distinct_map_go_sort)
  then have "distinct (map rvm_Name (take n (go_sort (sortableMachines_Less f) vms)))" for n
    by (simp add: take_map [symmetric])
  with assms show ?thesis by (simp add: getMachinesToDeletePrioritized_def)
qed

lemma randomDeletePolicy_le: "randomDeletePolicy x \<le> randomDeletePolicy y \<longleftrightarrow> (terminating x \<longrightarrow> terminating y)"
  by (simp add: randomDeletePolicy_def mustDelete_def couldDelete_def)

text \<open>How many of the selected VMs are still to be deleted: terminating VMs are selected first.\<close>

lemma live_to_delete:
  assumes dist: "distinct (map rvm_Name vms)" and n: "0 \<le> n"
  shows "length (filter (\<lambda>vm. \<not> terminating vm)
      (getMachinesToDeletePrioritized vms (int (length vms) - n) randomDeletePolicy)) =
    nat (int (length (filter (\<lambda>vm. \<not> terminating vm) vms)) - n)"
proof -
  let ?sel = "getMachinesToDeletePrioritized vms (int (length vms) - n) randomDeletePolicy"
  let ?live = "\<lambda>vm. \<not> terminating vm"
  have sel: "distinct ?sel" "distinct vms" "set ?sel \<subseteq> set vms"
    using getMachines_distinct [OF dist] dist getMachines_subset by (simp_all add: distinct_map)
  have len: "int (length ?sel) = max 0 (int (length vms) - n)"
    using n by (simp add: getMachines_length)
  have split: "length xs = length (filter ?live xs) + length (filter terminating xs)" for xs
    using sum_length_filter_compl [of ?live xs] by simp
  show ?thesis
  proof (cases "filter ?live ?sel = []")
    case True
    then have "length ?sel = length (filter terminating ?sel)" using split [of ?sel] by simp
    also have "\<dots> \<le> length (filter terminating vms)"
      using sel by (simp add: length_filter_card) (intro card_mono, auto)
    finally have "int (length (filter ?live vms)) \<le> n" using len split [of vms] by linarith
    with True show ?thesis by simp
  next
    case False
    then obtain vm where "vm \<in> set ?sel" "?live vm" by (auto simp: filter_empty_conv)
    then have "terminating x \<longrightarrow> x \<in> set ?sel" if "x \<in> set vms" for x
      using getMachines_priority [of vm vms _ randomDeletePolicy x] that by (auto simp: randomDeletePolicy_le)
    then have "{x \<in> set ?sel. terminating x} = {x \<in> set vms. terminating x}" using sel(3) by blast
    then have "length (filter terminating ?sel) = length (filter terminating vms)"
      using sel by (simp add: length_filter_card)
    moreover have "length ?sel > 0" using False by auto
    ultimately show ?thesis using len split [of ?sel] split [of vms] by linarith
  qed
qed

section \<open>Requests\<close>

abbreviation creations :: "api_request list \<Rightarrow> rs_VM list" where
  "creations rq \<equiv> List.map_filter (\<lambda>r. case r of CreateVM vm \<Rightarrow> Some vm | _ \<Rightarrow> None) rq"

abbreviation deletions :: "api_request list \<Rightarrow> string list" where
  "deletions rq \<equiv> List.map_filter (\<lambda>r. case r of DeleteVM name \<Rightarrow> Some name | _ \<Rightarrow> None) rq"

lemma requests_replicate [simp]:
  "creations (replicate k (CreateVM vm)) = replicate k vm" "deletions (replicate k (CreateVM vm)) = []"
  by (induction k) (simp_all add: map_filter_simps)

lemma requests_deletes [simp]:
  "creations (map (\<lambda>vm. DeleteVM (f vm)) vms) = []" "deletions (map (\<lambda>vm. DeleteVM (f vm)) vms) = map f vms"
  by (induction vms) (simp_all add: map_filter_simps)

lemma create_loop_fields:
  assumes "create_loop api now vm is rs = (rs', names, errs)"
  shows "\<exists>cs. rs' = ReplicaSet_SetConditions rs cs"
  using assms
proof (induction "is" arbitrary: rs rs' names errs)
  case Nil
  then show ?case by (auto simp: ReplicaSet_SetConditions_def intro!: exI [of _ "rst_Conditions (rs_Status rs)"])
next
  case (Cons i "is")
  have set_set: "ReplicaSet_SetConditions (ReplicaSet_SetConditions r c) d = ReplicaSet_SetConditions r d" for r c d
    by (simp add: ReplicaSet_SetConditions_def)
  show ?case
  proof (cases "api_Create api i")
    case (Inl err)
    with Cons.prems Cons.IH show ?thesis by (fastforce simp: set_set split: prod.splits)
  next
    case (Inr name)
    with Cons.prems Cons.IH show ?thesis by (fastforce split: prod.splits)
  qed
qed

lemma getNewVirtualMachine_Some:
  "getNewVirtualMachine valid rs = Some \<lparr>rvm_Name = [], rvm_GenerateName = rs_Name rs @ ''-'',
     rvm_Namespace = rs_Namespace rs,
     rvm_Labels = Some ((labels_of (rs_TemplateLabels rs))(VirtualMachineReplicaSetNameLabel \<mapsto> label_value valid (rs_Name rs))),
     rvm_Annotations = Some (labels_of (rs_TemplateAnnotations rs)),
     rvm_Controller = Some (rs_UID rs), rvm_DeletionTimestamp = 0,
     rvm_ReadinessProbe = rs_TemplateReadinessProbe rs, rvm_Conditions = []\<rparr>"
  by (simp add: getNewVirtualMachine_def getLabelsFromVMReplicaSet_def MustFormatValue_total getAnnotationsFromReplicaSet_def)

lemma scale_up_requests:
  "\<exists>e rs' vm. scale_up api now rs k = Some (e, rs', replicate k (CreateVM vm)) \<and>
     getNewVirtualMachine (api_ValidLabel api) rs = Some vm"
  by (simp add: scale_up_def getNewVirtualMachine_Some Let_def split: prod.split)

lemma scale_down_requests:
  "snd (snd (scale_down api now rs vms diff)) = map (\<lambda>vm. DeleteVM (rvm_Name vm))
     (filter (\<lambda>vm. \<not> terminating vm) (getMachinesToDeletePrioritized vms diff randomDeletePolicy))"
  by (simp add: scale_down_def getDeletePriorityFunc_def Let_def)

lemma syncReplicas_requests:
  assumes sync: "syncReplicas api now rs vms = Some (e, rs', rq)" and n: "rs_Replicas rs = Some n"
  shows "rq = (if int (length vms) < n
      then replicate (nat (n - int (length vms))) (CreateVM (the (getNewVirtualMachine (api_ValidLabel api) rs)))
      else map (\<lambda>vm. DeleteVM (rvm_Name vm)) (filter (\<lambda>vm. \<not> terminating vm)
        (getMachinesToDeletePrioritized vms (int (length vms) - n) randomDeletePolicy)))"
proof -
  consider "int (length vms) < n" | "int (length vms) > n" | "int (length vms) = n" by linarith
  then show ?thesis
  proof cases
    case 1
    with sync n scale_up_requests [of api now rs "nat (n - int (length vms))"] show ?thesis
      by (auto simp: syncReplicas_def Let_def)
  next
    case 2
    with sync n scale_down_requests [of api now rs vms "int (length vms) - n"] show ?thesis
      by (auto simp: syncReplicas_def Let_def)
  next
    case 3
    with sync n show ?thesis by (auto simp: syncReplicas_def getMachinesToDeletePrioritized_def)
  qed
qed

text \<open>
  The controller asks for as many VMs as are missing and deletes as many as there are live ones too
  many, terminating VMs counting as already deleted. Every VM it creates is controlled by the replica
  set and carries the labels of the template and its name label.
\<close>

theorem syncReplicas_counts:
  assumes "syncReplicas api now rs vms = Some (e, rs', rq)" and "rs_Replicas rs = Some n" and "0 \<le> n"
    and "distinct (map rvm_Name vms)"
  shows "length (creations rq) = nat (n - int (length vms)) \<and>
    length (deletions rq) = nat (int (length (filter (\<lambda>vm. \<not> terminating vm) vms)) - n) \<and>
    list_all (\<lambda>vm. rvm_Controller vm = Some (rs_UID rs) \<and> \<not> terminating vm \<and>
      rvm_Labels vm = Some ((labels_of (rs_TemplateLabels rs))
        (VirtualMachineReplicaSetNameLabel \<mapsto> label_value (api_ValidLabel api) (rs_Name rs)))) (creations rq)"
proof (cases "int (length vms) < n")
  case True
  have "length (filter (\<lambda>vm. \<not> terminating vm) vms) \<le> length vms" by simp
  then have "int (length (filter (\<lambda>vm. \<not> terminating vm) vms)) \<le> n" using True by linarith
  with True syncReplicas_requests [OF assms(1,2)] show ?thesis
    by (simp add: getNewVirtualMachine_Some list_all_iff time_IsZero_def)
next
  case False
  with syncReplicas_requests [OF assms(1,2)] live_to_delete [OF assms(4,3)] show ?thesis by simp
qed

section \<open>The VMs of a replica set\<close>

text \<open>A VM the replica set may manage: its own, or an orphan whose adoption succeeds.\<close>

definition manageable :: "rs_api \<Rightarrow> VirtualMachineReplicaSet \<Rightarrow> rs_VM \<Rightarrow> bool" where
  "manageable api rs vm \<longleftrightarrow>
     rvm_Controller vm = Some (rs_UID rs) \<or> rvm_Controller vm = None \<and> api_Adopt api (rvm_Name vm) = None"

lemma filter_loop_result:
  "fst (filter_loop api rs vms) = map (adoptOrphan rs) (filter (manageable api rs) vms)"
proof (induction vms)
  case (Cons vm vms)
  have "adoptOrphan rs vm = vm" if "rvm_Controller vm = Some (rs_UID rs)"
    using that by (cases vm) (simp add: adoptOrphan_def)
  with Cons show ?case by (auto simp: manageable_def split: prod.split option.split)
qed simp

lemma filter_loop_requests: "list_all (\<lambda>r. \<exists>name. r = PatchOwner name) (snd (filter_loop api rs vms))"
  by (induction vms) (auto split: prod.split option.split)

lemma label_loop_result:
  assumes "label_loop api rs vms = Some (result, rq)"
  shows "list_all (\<lambda>r. \<exists>name. r = PatchLabel name) rq \<and>
    (\<forall>vms'. result = Inr vms' \<longrightarrow> map (\<lambda>vm. vm\<lparr>rvm_Labels := None\<rparr>) vms' = map (\<lambda>vm. vm\<lparr>rvm_Labels := None\<rparr>) vms)"
  using assms
proof (induction vms arbitrary: result rq)
  case (Cons vm vms)
  let ?here = "\<lambda>r. r = PatchLabel (rvm_Name vm)"
  from Cons.prems consider (err) err where "result = Inl err" "list_all ?here rq"
    | (step) vm' pre res more where "label_loop api rs vms = Some (res, more)" "result = map_sum id (\<lambda>vms. vm' # vms) res"
        "rq = pre @ more" "list_all ?here pre" "vm'\<lparr>rvm_Labels := None\<rparr> = vm\<lparr>rvm_Labels := None\<rparr>"
    by (auto simp: Let_def split: option.splits bool.splits prod.splits)
  then show ?case
  proof cases
    case err
    then show ?thesis by (auto simp: list_all_iff)
  next
    case step
    from Cons.IH [OF step(1)] step show ?thesis by (cases res) (auto simp: list_all_iff)
  qed
qed simp

lemma same_but_labels:
  assumes "map (\<lambda>vm. vm\<lparr>rvm_Labels := None\<rparr>) vms' = map (\<lambda>vm. vm\<lparr>rvm_Labels := None\<rparr>) vms"
  shows "map rvm_Name vms' = map rvm_Name vms" and "map rvm_DeletionTimestamp vms' = map rvm_DeletionTimestamp vms"
proof -
  have "map rvm_Name (map (\<lambda>vm. vm\<lparr>rvm_Labels := None\<rparr>) vms') = map rvm_Name (map (\<lambda>vm. vm\<lparr>rvm_Labels := None\<rparr>) vms)"
    "map rvm_DeletionTimestamp (map (\<lambda>vm. vm\<lparr>rvm_Labels := None\<rparr>) vms') =
     map rvm_DeletionTimestamp (map (\<lambda>vm. vm\<lparr>rvm_Labels := None\<rparr>) vms)"
    using assms by simp_all
  then show "map rvm_Name vms' = map rvm_Name vms" "map rvm_DeletionTimestamp vms' = map rvm_DeletionTimestamp vms"
    by (simp_all add: comp_def)
qed

definition with_maps :: "VirtualMachineReplicaSet \<Rightarrow> labels option \<Rightarrow> VirtualMachineReplicaSet" where
  "with_maps rs matchLabels = rs\<lparr>rs_Labels := make_labels (rs_Labels rs), rs_Selector := Some (make_labels matchLabels),
     rs_TemplateLabels := make_labels (rs_TemplateLabels rs)\<rparr>"

lemma with_maps_simps [simp]:
  "rs_UID (with_maps rs m) = rs_UID rs" "rs_Replicas (with_maps rs m) = rs_Replicas rs"
  "rs_Name (with_maps rs m) = rs_Name rs" "rs_Status (with_maps rs m) = rs_Status rs"
  "manageable api (with_maps rs m) = manageable api rs"
  by (simp_all add: with_maps_def manageable_def fun_eq_iff)

lemma ReconcileNormal_cases:
  assumes "ReconcileNormal api now rs = Some (result, rs', rq)"
  obtains (early) "list_all (\<lambda>r. \<exists>name. r = PatchOwner name \<or> r = PatchLabel name) rq"
  | (sync) m allVMs vms patches more where "rs_Selector rs = Some m" "api_List api (labels_of m) = Inr allVMs"
      "label_loop api (with_maps rs m) (map (adoptOrphan rs) (filter (manageable api rs) allVMs)) = Some (Inr vms, patches)"
      "sync_and_status api now (with_maps rs m) vms = Some (result, rs', more)"
      "rq = snd (filter_loop api (with_maps rs m) allVMs) @ patches @ more"
proof (cases "finalizerName \<in> set (rs_Finalizers rs)")
  case False
  then have "rq = []" using assms by (simp add: ReconcileNormal_def)
  then show thesis using early by simp
next
  case True
  with assms obtain m where m: "rs_Selector rs = Some m" by (auto simp: ReconcileNormal_def split: option.splits)
  show thesis
  proof (cases "api_SelectorAsMap api (labels_of m) = None \<and> \<not> isl (api_List api (labels_of m))")
    case False
    then have "rq = []"
      using assms True m by (auto simp: ReconcileNormal_def Let_def split: option.splits sum.splits)
    then show thesis using early by simp
  next
    case ok: True
    then obtain allVMs where vms: "api_List api (labels_of m) = Inr allVMs" by (cases "api_List api (labels_of m)") auto
    have adopt: "adoptOrphan (with_maps rs m) = adoptOrphan rs" by (simp add: adoptOrphan_def fun_eq_iff)
    obtain res patches where labels: "label_loop api (with_maps rs m)
        (map (adoptOrphan rs) (filter (manageable api rs) allVMs)) = Some (res, patches)"
      and rest: "case res of
          Inl err \<Rightarrow> rq = snd (filter_loop api (with_maps rs m) allVMs) @ patches
        | Inr vms \<Rightarrow> \<exists>more. sync_and_status api now (with_maps rs m) vms = Some (result, rs', more) \<and>
            rq = snd (filter_loop api (with_maps rs m) allVMs) @ patches @ more"
      using assms True m ok vms filter_loop_result [of api "with_maps rs m" allVMs]
      by (auto simp: ReconcileNormal_def with_maps_def [symmetric] adopt Let_def split: option.splits prod.splits sum.splits)
    show thesis
    proof (cases res)
      case (Inl err)
      then show thesis using early rest label_loop_result [OF labels] filter_loop_requests [of api "with_maps rs m" allVMs]
        by (auto simp: list_all_iff)
    next
      case (Inr vms)
      then show thesis using rest by (auto intro: sync [OF m vms labels [unfolded Inr]])
    qed
  qed
qed

lemma sync_and_status_requests:
  assumes "sync_and_status api now rs vms = Some (result, rs', rq)"
  shows "\<exists>e rs''. syncReplicas api now rs vms = Some (e, rs'', rq)"
  using assms by (auto simp: sync_and_status_def Let_def split: option.splits prod.splits)

text \<open>
  C18. A reconcile deletes no VM but its own: each deletion names a listed VM that the replica set controls, or
  just adopted, and that is not already terminating.
\<close>

theorem Reconcile_deletes_own:
  assumes "rs_Reconcile api now rs = Some (result, rs', rq)" and "DeleteVM name \<in> set rq"
  shows "\<exists>m allVMs vm. rs_Selector rs = Some m \<and> api_List api (labels_of m) = Inr allVMs \<and> vm \<in> set allVMs \<and>
    rvm_Name vm = name \<and> \<not> terminating vm \<and> manageable api rs vm"
proof -
  have "ReconcileNormal api now rs = Some (result, rs', rq)"
    using assms by (auto simp: rs_Reconcile_def split: if_splits)
  then show ?thesis
  proof (cases rule: ReconcileNormal_cases)
    case early
    with assms(2) show ?thesis by (auto simp: list_all_iff)
  next
    case (sync m allVMs vms patches more)
    note labels = label_loop_result [OF sync(3)]
    have "DeleteVM name \<in> set more"
      using assms(2) sync(5) labels filter_loop_requests [of api "with_maps rs m" allVMs] by (auto simp: list_all_iff)
    moreover obtain e rs'' where run: "syncReplicas api now (with_maps rs m) vms = Some (e, rs'', more)"
      using sync_and_status_requests [OF sync(4)] by blast
    moreover obtain n where n: "rs_Replicas (with_maps rs m) = Some n"
      using run calculation(1) by (auto simp: syncReplicas_def split: option.splits)
    ultimately obtain vm where vm: "vm \<in> set vms" "rvm_Name vm = name" "\<not> terminating vm"
      using syncReplicas_requests [OF run n] getMachines_subset by (force split: if_splits)
    from labels have same: "map (\<lambda>vm. vm\<lparr>rvm_Labels := None\<rparr>) vms =
        map (\<lambda>vm. vm\<lparr>rvm_Labels := None\<rparr>) (map (adoptOrphan rs) (filter (manageable api rs) allVMs))" by simp
    then have "vm\<lparr>rvm_Labels := None\<rparr> \<in> set (map (\<lambda>vm. vm\<lparr>rvm_Labels := None\<rparr>) (map (adoptOrphan rs) (filter (manageable api rs) allVMs)))"
      using vm(1) by (metis image_eqI list.set_map)
    then obtain vm0 where "vm0 \<in> set allVMs" "manageable api rs vm0"
        and eq: "vm\<lparr>rvm_Labels := None\<rparr> = (adoptOrphan rs vm0)\<lparr>rvm_Labels := None\<rparr>" by auto
    moreover from arg_cong [OF eq, of rvm_Name] arg_cong [OF eq, of rvm_DeletionTimestamp]
    have "rvm_Name vm0 = name" "\<not> terminating vm0" using vm by (simp_all add: adoptOrphan_def)
    ultimately show ?thesis using sync(1,2) by blast
  qed
qed

section \<open>Convergence\<close>

text \<open>
  The VMs of the replica set once the server has carried out the requests: deleted and terminating VMs are
  gone, and the created ones have the names the server generated.
\<close>

definition fleet_after :: "string list \<Rightarrow> rs_VM list \<Rightarrow> api_request list \<Rightarrow> rs_VM list" where
  "fleet_after names vms rq =
     filter (\<lambda>vm. \<not> terminating vm \<and> rvm_Name vm \<notin> set (deletions rq)) vms @
     map2 (\<lambda>name vm. vm\<lparr>rvm_Name := name\<rparr>) names (creations rq)"

lemma syncReplicas_keeps:
  assumes "syncReplicas api now rs vms = Some (e, rs', rq)"
  shows "rs_Replicas rs' = rs_Replicas rs"
proof -
  have "rs_Replicas rs' = rs_Replicas rs" if "create_loop api now vm is rs = (rs', names, errs)" for vm "is" rs' names errs
    using create_loop_fields [OF that] by (auto simp: ReplicaSet_SetConditions_def)
  with assms show ?thesis
    by (auto simp: syncReplicas_def scale_up_def scale_down_def getDeletePriorityFunc_def Let_def ReplicaSet_SetConditions_def
        split: option.splits if_splits prod.splits)
qed

lemma survivors:
  assumes n: "0 \<le> n" and dist: "distinct (map rvm_Name vms)" and sel: "\<And>name. name \<in> set names \<longleftrightarrow>
    name \<in> rvm_Name ` {vm \<in> set (getMachinesToDeletePrioritized vms (int (length vms) - n) randomDeletePolicy). \<not> terminating vm}"
  shows "int (length (filter (\<lambda>vm. \<not> terminating vm \<and> rvm_Name vm \<notin> set names) vms)) =
    min n (int (length (filter (\<lambda>vm. \<not> terminating vm) vms)))"
proof -
  let ?sel = "getMachinesToDeletePrioritized vms (int (length vms) - n) randomDeletePolicy"
  let ?live = "{vm \<in> set vms. \<not> terminating vm}"
  let ?gone = "{vm \<in> set ?sel. \<not> terminating vm}"
  have inj: "inj_on rvm_Name (set vms)" and "distinct vms" using dist by (simp_all add: distinct_map)
  have sub: "?gone \<subseteq> ?live" using getMachines_subset by blast
  have "rvm_Name vm \<in> set names \<longleftrightarrow> vm \<in> ?gone" if "vm \<in> set vms" for vm
    unfolding sel using inj_on_image_mem_iff [OF inj that, of ?gone] sub by blast
  then have "{vm \<in> set vms. \<not> terminating vm \<and> rvm_Name vm \<notin> set names} = ?live - ?gone" by blast
  then have "length (filter (\<lambda>vm. \<not> terminating vm \<and> rvm_Name vm \<notin> set names) vms) = card (?live - ?gone)"
    using \<open>distinct vms\<close> by (simp add: length_filter_card)
  also have "\<dots> = card ?live - card ?gone" using sub by (intro card_Diff_subset) (auto intro: finite_subset)
  also have "card ?gone = nat (int (card ?live) - n)"
  proof -
    have "distinct ?sel" using getMachines_distinct [OF dist] by (simp add: distinct_map)
    with live_to_delete [OF dist n] \<open>distinct vms\<close> show ?thesis
      by (simp add: length_filter_card)
  qed
  finally have "int (length (filter (\<lambda>vm. \<not> terminating vm \<and> rvm_Name vm \<notin> set names) vms)) =
      int (card ?live - nat (int (card ?live) - n))" by simp
  moreover have "length (filter (\<lambda>vm. \<not> terminating vm) vms) = card ?live"
    using \<open>distinct vms\<close> by (simp add: length_filter_card)
  moreover have "int (c - nat (int c - n)) = min n (int c)" for c :: nat
    using n by (cases "n \<le> int c") (simp_all add: nat_diff_distrib' of_nat_diff)
  ultimately show ?thesis by metis
qed

lemma fleet_after_length:
  assumes sync: "syncReplicas api now rs vms = Some (e, rs', rq)" and n: "rs_Replicas rs = Some n" "0 \<le> n"
    and dist: "distinct (map rvm_Name vms)" and names: "length names = length (creations rq)"
  shows "int (length (fleet_after names vms rq)) =
    (if int (length vms) < n then n - int (length (filter terminating vms))
     else min n (int (length (filter (\<lambda>vm. \<not> terminating vm) vms))))"
proof (cases "int (length vms) < n")
  case True
  with syncReplicas_requests [OF sync n(1)] have rq: "deletions rq = []" "int (length (creations rq)) = n - int (length vms)" by simp_all
  have "length vms = length (filter (\<lambda>vm. \<not> terminating vm) vms) + length (filter terminating vms)"
    using sum_length_filter_compl [of "\<lambda>vm. \<not> terminating vm" vms] by simp
  with True rq names show ?thesis by (simp add: fleet_after_def)
next
  case False
  have "int (length (filter (\<lambda>vm. \<not> terminating vm \<and> rvm_Name vm \<notin> set (deletions rq)) vms)) =
      min n (int (length (filter (\<lambda>vm. \<not> terminating vm) vms)))"
    using False syncReplicas_requests [OF sync n(1)] by (intro survivors [OF n(2) dist]) auto
  moreover have "creations rq = []" using False syncReplicas_requests [OF sync n(1)] by simp
  ultimately show ?thesis using False by (simp add: fleet_after_def)
qed

lemma fleet_after_live:
  assumes "syncReplicas api now rs vms = Some (e, rs', rq)" "rs_Replicas rs = Some n"
    and "vm \<in> set (fleet_after names vms rq)"
  shows "\<not> terminating vm"
  using assms(3) syncReplicas_requests [OF assms(1,2)]
  by (auto simp: fleet_after_def getNewVirtualMachine_Some time_IsZero_def dest!: set_zip_rightD split: if_splits)

lemma fleet_after_names:
  assumes "distinct (names @ map rvm_Name vms)"
  shows "distinct (map rvm_Name (fleet_after names vms rq))"
proof -
  have new: "map rvm_Name (map2 (\<lambda>name vm. vm\<lparr>rvm_Name := name\<rparr>) names ys) = take (length ys) names" for ys
    by (induction names ys rule: list_induct2') simp_all
  show ?thesis using assms unfolding fleet_after_def map_append new
    by (auto simp: distinct_map_filter dest: in_set_takeD)
qed

text \<open>
  C6. Scaling converges in two rounds: whatever VMs, live or terminating, a replica set has, when the server
  carries out the requests of two successive scalings it is left with exactly the desired number of
  live VMs, and the next scaling makes no request.
\<close>

theorem scaling_converges:
  assumes "rs_Replicas rs = Some n" and "0 \<le> n"
    and "syncReplicas api now rs vms = Some (e, rs1, rq1)" and "length names1 = length (creations rq1)"
    and "distinct (names1 @ map rvm_Name vms)"
    and "fleet1 = fleet_after names1 vms rq1" and "syncReplicas api1 now1 rs1 fleet1 = Some (e1, rs2, rq2)"
    and "length names2 = length (creations rq2)" and "distinct (names2 @ map rvm_Name fleet1)"
    and "fleet2 = fleet_after names2 fleet1 rq2"
  shows "int (length fleet2) = n \<and> list_all (\<lambda>vm. \<not> terminating vm) fleet2 \<and>
    syncReplicas api2 now2 rs2 fleet2 = Some (None, rs2, [])"
proof -
  have n1: "rs_Replicas rs1 = Some n" using syncReplicas_keeps [OF assms(3)] assms(1) by simp
  have n2: "rs_Replicas rs2 = Some n" using syncReplicas_keeps [OF assms(7)] n1 by simp
  have "filter terminating fleet1 = []" "filter (\<lambda>vm. \<not> terminating vm) fleet1 = fleet1"
    using fleet_after_live [OF assms(3,1)] by (auto simp: assms(6) filter_empty_conv intro!: filter_True)
  then have len: "int (length fleet2) = n"
    using fleet_after_length [OF assms(7) n1 assms(2) _ assms(8)] assms(9,10) by (auto split: if_splits)
  moreover have "list_all (\<lambda>vm. \<not> terminating vm) fleet2"
    using fleet_after_live [OF assms(7) n1] by (auto simp: assms(10) list_all_iff)
  ultimately show ?thesis using n2 by (simp add: syncReplicas_def)
qed

section \<open>Conditions\<close>

lemmas rs_condition_types = ResizedCondition_def VirtualMachinesCreatedCondition_def VirtualMachinesReadyCondition_def
  VirtualMachineReplicaSetReplicaFailure_def

lemma mark_resized_report:
  assumes "wf_conditions l"
  shows "wf_conditions (mark_resized now n st l)"
    and "rst_Replicas st \<noteq> n \<Longrightarrow> Conditions_IsFalse (mark_resized now n st l) ResizedCondition"
    and "rst_Replicas st = n \<Longrightarrow> rst_ReadyReplicas st = n \<Longrightarrow> Conditions_IsTrue (mark_resized now n st l) ResizedCondition"
    and "n \<le> rst_Replicas st \<Longrightarrow> Conditions_IsTrue (mark_resized now n st l) VirtualMachinesCreatedCondition"
  using assms by (auto simp: mark_resized_def Mark_status rs_condition_types)

lemma mark_ready_report:
  assumes "wf_conditions l"
  shows "Conditions_IsTrue (mark_ready now n st l) VirtualMachinesReadyCondition \<longleftrightarrow> n \<le> rst_ReadyReplicas st"
    and "t \<noteq> VirtualMachinesReadyCondition \<Longrightarrow> Conditions_IsTrue (mark_ready now n st l) t = Conditions_IsTrue l t"
    and "t \<noteq> VirtualMachinesReadyCondition \<Longrightarrow> Conditions_IsFalse (mark_ready now n st l) t = Conditions_IsFalse l t"
  using assms by (auto simp: mark_ready_def Mark_status)

lemma observed_counts:
  assumes "int (length vms) < 2147483648"
  shows "rst_Replicas (observed_status api rs vms) = int (length vms)"
    and "rst_ReadyReplicas (observed_status api rs vms) = int (length (filter isVMReady vms))"
proof -
  have "int (length (filter isVMReady vms)) < 2147483648" using assms length_filter_le [of isVMReady vms] by linarith
  then show "rst_Replicas (observed_status api rs vms) = int (length vms)"
    "rst_ReadyReplicas (observed_status api rs vms) = int (length (filter isVMReady vms))"
    using assms by (simp_all add: observed_status_def int32_of_id is_int32_def)
qed

lemma updateStatus_shape:
  assumes "rs_updateStatus api now rs vms = Some rs'" and "rs_Replicas rs = Some n"
  obtains status where "rs' = rs\<lparr>rs_Status := status\<lparr>rst_Conditions := mark_ready now n (observed_status api rs vms)
      (mark_resized now n (observed_status api rs vms) (rst_Conditions (rs_Status rs)))\<rparr>\<rparr>"
    and "rst_Replicas status = rst_Replicas (observed_status api rs vms)"
    and "rst_ReadyReplicas status = rst_ReadyReplicas (observed_status api rs vms)"
    and "rst_ObservedGeneration status = rs_Generation rs"
proof -
  let ?st = "observed_status api rs vms"
  let ?stale = "rst_Replicas (rs_Status rs) \<noteq> rst_Replicas ?st \<or>
      rst_FullyLabeledReplicas (rs_Status rs) \<noteq> rst_FullyLabeledReplicas ?st \<or>
      rst_ReadyReplicas (rs_Status rs) \<noteq> rst_ReadyReplicas ?st \<or>
      rs_Generation rs \<noteq> rst_ObservedGeneration (rs_Status rs)"
  let ?status = "if ?stale then ?st\<lparr>rst_ObservedGeneration := rs_Generation rs\<rparr> else rs_Status rs"
  have conds: "rst_Conditions ?st = rst_Conditions (rs_Status rs)" by (simp add: observed_status_def)
  show thesis
  proof (cases ?stale)
    case True
    with assms conds show thesis
      by (intro that [of ?status]) (simp_all only: rs_updateStatus_def option.case Let_def if_True option.inject,
        simp_all add: ReplicaSet_SetConditions_def ReplicaSet_GetConditions_def)
  next
    case False
    with assms show thesis
      by (intro that [of ?status]) (simp_all only: rs_updateStatus_def option.case Let_def if_False option.inject,
        simp_all add: ReplicaSet_SetConditions_def ReplicaSet_GetConditions_def)
  qed
qed

text \<open>
  The status of a reconciled replica set counts its VMs, the fully labelled and the ready ones, and its
  conditions agree with the counts: VMs are ready exactly when at least the desired number is, the set is
  reported as resizing when the numbers differ and resized when all are there and ready, and the
  creation as done when there are enough.
\<close>

theorem updateStatus_report:
  assumes "rs_updateStatus api now rs vms = Some rs'" and "rs_Replicas rs = Some n"
    and "wf_conditions (ReplicaSet_GetConditions rs)" and "int (length vms) < 2147483648"
  shows "rst_Replicas (rs_Status rs') = int (length vms) \<and>
    rst_ReadyReplicas (rs_Status rs') = int (length (filter isVMReady vms)) \<and>
    rst_ObservedGeneration (rs_Status rs') = rs_Generation rs \<and>
    (Conditions_IsTrue (ReplicaSet_GetConditions rs') VirtualMachinesReadyCondition \<longleftrightarrow> n \<le> int (length (filter isVMReady vms))) \<and>
    (int (length vms) \<noteq> n \<longrightarrow> Conditions_IsFalse (ReplicaSet_GetConditions rs') ResizedCondition) \<and>
    (int (length vms) = n \<and> list_all isVMReady vms \<longrightarrow> Conditions_IsTrue (ReplicaSet_GetConditions rs') ResizedCondition) \<and>
    (n \<le> int (length vms) \<longrightarrow> Conditions_IsTrue (ReplicaSet_GetConditions rs') VirtualMachinesCreatedCondition)"
proof -
  let ?st = "observed_status api rs vms"
  have wf: "wf_conditions (rst_Conditions (rs_Status rs))" using assms(3) by (simp add: ReplicaSet_GetConditions_def)
  obtain status where rs': "rs' = rs\<lparr>rs_Status := status\<lparr>rst_Conditions :=
        mark_ready now n ?st (mark_resized now n ?st (rst_Conditions (rs_Status rs)))\<rparr>\<rparr>"
    and status: "rst_Replicas status = rst_Replicas ?st" "rst_ReadyReplicas status = rst_ReadyReplicas ?st"
      "rst_ObservedGeneration status = rs_Generation rs"
    by (rule updateStatus_shape [OF assms(1,2)])
  have all: "list_all isVMReady vms \<Longrightarrow> filter isVMReady vms = vms" by (simp add: list_all_iff)
  have other: "ResizedCondition \<noteq> VirtualMachinesReadyCondition" "VirtualMachinesCreatedCondition \<noteq> VirtualMachinesReadyCondition"
    by (simp_all add: rs_condition_types)
  note resized = mark_resized_report [OF wf, where now = now and n = n and st = ?st]
  show ?thesis
    using status resized(2-4) mark_ready_report [OF resized(1), where now = now and n = n and st = ?st] other all observed_counts [OF assms(4)]
    by (simp add: rs' ReplicaSet_GetConditions_def)
qed

section \<open>Panics\<close>

lemma syncReplicas_total: "\<exists>e rs' rq. syncReplicas api now rs vms = Some (e, rs', rq)"
proof (cases "rs_Replicas rs")
  case None
  then show ?thesis by (simp add: syncReplicas_def)
next
  case (Some n)
  with scale_up_requests [of api now rs "nat (n - int (length vms))"] show ?thesis
    by (cases "scale_down api now rs vms (int (length vms) - n)") (auto simp: syncReplicas_def Let_def)
qed

lemma sync_and_status_None: "sync_and_status api now rs vms = None \<longleftrightarrow> rs_Replicas rs = None"
proof -
  obtain e rs1 rq where sync: "syncReplicas api now rs vms = Some (e, rs1, rq)" using syncReplicas_total by blast
  let ?rs = "if e = None then clear_failure rs1 else rs1"
  have "rs_Replicas ?rs = rs_Replicas rs" using syncReplicas_keeps [OF sync] by (simp add: ReplicaSet_SetConditions_def)
  then have "rs_updateStatus api now ?rs vms = None \<longleftrightarrow> rs_Replicas rs = None"
    by (auto simp: rs_updateStatus_def Let_def split: option.split)
  then show ?thesis by (auto simp: sync_and_status_def sync Let_def split: option.splits)
qed

lemma label_loop_None:
  assumes "\<And>name. api_NewHelper api name = None" and "\<And>name. api_PatchVM api name = None"
  shows "if list_ex (\<lambda>vm. rvm_Labels vm = None) vms then label_loop api rs vms = None
    else \<exists>vms' rq. label_loop api rs vms = Some (Inr vms', rq)"
proof (induction vms)
  case (Cons vm vms)
  with assms show ?case
    by (cases "rvm_Labels vm")
      (auto simp: labels_of_def MustEqualValue_def MustFormatValue_total Let_def split: option.split bool.split if_splits)
qed simp

lemma Reconcile_list_panics:
  assumes "rs_DeletionTimestamp rs = 0" and "finalizerName \<in> set (rs_Finalizers rs)" and "rs_Selector rs = Some m"
    and "api_SelectorAsMap api (labels_of m) = None" and "api_List api (labels_of m) = Inr vms"
    and "\<And>name. api_NewHelper api name = None" and "\<And>name. api_PatchVM api name = None"
  shows "rs_Reconcile api now rs = None \<longleftrightarrow>
    rs_Replicas rs = None \<or> (\<exists>vm \<in> set vms. manageable api rs vm \<and> rvm_Labels vm = None)"
proof -
  let ?vms = "map (adoptOrphan rs) (filter (manageable api rs) vms)"
  have unlabelled: "list_ex (\<lambda>vm. rvm_Labels vm = None) ?vms \<longleftrightarrow> (\<exists>vm \<in> set vms. manageable api rs vm \<and> rvm_Labels vm = None)"
    by (auto simp: list_ex_iff adoptOrphan_def)
  have filtered: "fst (filter_loop api (with_maps rs m) vms) = ?vms"
    by (simp add: filter_loop_result adoptOrphan_def)
  have "rs_Reconcile api now rs = (case filter_loop api (with_maps rs m) vms of (filteredVMs, adoptions) \<Rightarrow>
      (case label_loop api (with_maps rs m) filteredVMs of
         None \<Rightarrow> None
       | Some (Inl err, patches) \<Rightarrow> Some (Inl err, with_maps rs m, adoptions @ patches)
       | Some (Inr filteredVMs, patches) \<Rightarrow>
           map_option (\<lambda>(result, rs, requests). (result, rs, adoptions @ patches @ requests))
             (sync_and_status api now (with_maps rs m) filteredVMs)))"
    using assms(1-5) by (simp add: rs_Reconcile_def time_IsZero_def ReconcileNormal_def with_maps_def [symmetric] Let_def)
  then have "rs_Reconcile api now rs = None \<longleftrightarrow> (case label_loop api (with_maps rs m) ?vms of
       None \<Rightarrow> True
     | Some (Inl err, patches) \<Rightarrow> False
     | Some (Inr vms, patches) \<Rightarrow> rs_Replicas rs = None)"
    unfolding filtered [symmetric]
    by (auto simp: sync_and_status_None split: prod.splits option.splits sum.splits)
  then show ?thesis
    using label_loop_None [OF assms(6,7), where rs = "with_maps rs m" and vms = ?vms] unlabelled by (auto split: if_splits)
qed

text \<open>
  C34. When the API server carries out the patches of labels, a reconcile panics exactly in these cases. The replica set
  is not being deleted and has its finalizer, and it has no selector at all; or its selector converts, the
  listing of VMs succeeds, and either \<^verbatim>\<open>spec.replicas\<close> is nil or a VM that the replica set controls or
  adopts has no labels at all. The error \<^verbatim>\<open>syncReplicas\<close> returns for nil replicas is never reported, as
  \<^verbatim>\<open>updateStatus\<close> dereferences the pointer first.
\<close>

theorem Reconcile_panics_iff:
  assumes "\<And>name. api_NewHelper api name = None" and "\<And>name. api_PatchVM api name = None"
  shows "rs_Reconcile api now rs = None \<longleftrightarrow>
    rs_DeletionTimestamp rs = 0 \<and> finalizerName \<in> set (rs_Finalizers rs) \<and>
    (rs_Selector rs = None \<or>
     (\<exists>m vms. rs_Selector rs = Some m \<and> api_SelectorAsMap api (labels_of m) = None \<and> api_List api (labels_of m) = Inr vms \<and>
        (rs_Replicas rs = None \<or> (\<exists>vm \<in> set vms. manageable api rs vm \<and> rvm_Labels vm = None))))"
proof (cases "rs_DeletionTimestamp rs = 0 \<and> finalizerName \<in> set (rs_Finalizers rs)")
  case True
  show ?thesis
  proof (cases "\<exists>m vms. rs_Selector rs = Some m \<and> api_SelectorAsMap api (labels_of m) = None \<and> api_List api (labels_of m) = Inr vms")
    case listed: True
    with True Reconcile_list_panics [OF _ _ _ _ _ assms] show ?thesis by fastforce
  next
    case False
    with True show ?thesis
      by (auto simp: rs_Reconcile_def time_IsZero_def ReconcileNormal_def Let_def split: option.splits sum.splits)
  qed
qed (auto simp: rs_Reconcile_def time_IsZero_def ReconcileNormal_def)

section \<open>Witnesses\<close>

definition sample_rvm :: "string \<Rightarrow> gotime \<Rightarrow> rs_VM" where
  "sample_rvm name deleted = \<lparr>rvm_Name = name, rvm_GenerateName = [], rvm_Namespace = ''ns'', rvm_Labels = Some Map.empty,
     rvm_Annotations = None, rvm_Controller = Some ''uid'', rvm_DeletionTimestamp = deleted, rvm_ReadinessProbe = None,
     rvm_Conditions = []\<rparr>"

definition sample_rvms :: "rs_VM list" where
  "sample_rvms = [sample_rvm ''a'' 0, sample_rvm ''b'' 0, sample_rvm ''c'' 1]"

definition sample_rs :: "int \<Rightarrow> VirtualMachineReplicaSet" where
  "sample_rs n = \<lparr>rs_Name = ''web'', rs_Namespace = ''ns'', rs_UID = ''uid'', rs_Generation = 1, rs_Labels = None,
     rs_Finalizers = [finalizerName], rs_DeletionTimestamp = 0, rs_Replicas = Some n, rs_Selector = Some None,
     rs_TemplateLabels = None, rs_TemplateAnnotations = None, rs_TemplateReadinessProbe = None,
     rs_Status = \<lparr>rst_Replicas = 0, rst_FullyLabeledReplicas = 0, rst_ReadyReplicas = 0, rst_ObservedGeneration = 0,
       rst_Conditions = []\<rparr>\<rparr>"

definition sample_api :: rs_api where
  "sample_api = \<lparr>api_ValidLabel = (\<lambda>s. True), api_SelectorAsMap = (\<lambda>l. None), api_List = (\<lambda>l. Inr sample_rvms),
     api_Adopt = (\<lambda>n. None), api_NewHelper = (\<lambda>n. None), api_PatchVM = (\<lambda>n. None),
     api_Create = (\<lambda>i. Inr (''web-'' @ show_nat i)), api_Delete = (\<lambda>n. None), api_PollCreated = (\<lambda>n. None),
     api_PollDeleted = (\<lambda>n. None), api_Matches = (\<lambda>a b. True), api_Aggregate = concat, api_PrintLabels = (\<lambda>l. [])\<rparr>"

lemma sample_rvms_names: "distinct (map rvm_Name sample_rvms)"
  by (simp add: sample_rvms_def sample_rvm_def)

theorem syncReplicas_counts_witness:
  "\<exists>e rs' rq. syncReplicas sample_api 0 (sample_rs 1) sample_rvms = Some (e, rs', rq) \<and>
     creations rq = [] \<and> length (deletions rq) = 1"
proof -
  obtain e rs' rq where sync: "syncReplicas sample_api 0 (sample_rs 1) sample_rvms = Some (e, rs', rq)"
    using syncReplicas_total by blast
  have "rs_Replicas (sample_rs 1) = Some 1" by (simp add: sample_rs_def)
  from syncReplicas_counts [OF sync this _ sample_rvms_names] sync show ?thesis
    by (simp add: sample_rvms_def sample_rvm_def time_IsZero_def)
qed

theorem Reconcile_deletes_own_witness:
  "\<exists>name m allVMs vm. rs_Selector (sample_rs 1) = Some m \<and> api_List sample_api (labels_of m) = Inr allVMs \<and>
     vm \<in> set allVMs \<and> rvm_Name vm = name \<and> \<not> terminating vm \<and> manageable sample_api (sample_rs 1) vm"
proof -
  have "case rs_Reconcile sample_api 0 (sample_rs 1) of
      None \<Rightarrow> False
    | Some (result, rs', rq) \<Rightarrow> list_ex (\<lambda>r. case r of DeleteVM name \<Rightarrow> True | _ \<Rightarrow> False) rq" by code_simp
  then obtain result rs' rq r where run: "rs_Reconcile sample_api 0 (sample_rs 1) = Some (result, rs', rq)"
      and r: "r \<in> set rq" "case r of DeleteVM name \<Rightarrow> True | _ \<Rightarrow> False"
    by (auto simp: list_ex_iff split: option.splits)
  from r(2) obtain name where "r = DeleteVM name" by (cases r) simp_all
  with r(1) have "DeleteVM name \<in> set rq" by simp
  from Reconcile_deletes_own [OF run this] show ?thesis by blast
qed

theorem scaling_converges_witness:
  "\<exists>e rs1 rq1 e1 rs2 rq2. syncReplicas sample_api 0 (sample_rs 1) sample_rvms = Some (e, rs1, rq1) \<and>
     syncReplicas sample_api 0 rs1 (fleet_after [] sample_rvms rq1) = Some (e1, rs2, rq2) \<and>
     length (fleet_after [] (fleet_after [] sample_rvms rq1) rq2) = 1"
proof -
  let ?rs = "sample_rs 1"
  have n: "rs_Replicas ?rs = Some 1" by (simp add: sample_rs_def)
  obtain e rs1 rq1 where sync1: "syncReplicas sample_api 0 ?rs sample_rvms = Some (e, rs1, rq1)"
    using syncReplicas_total by blast
  let ?fleet = "fleet_after [] sample_rvms rq1"
  have none1: "creations rq1 = []" using syncReplicas_requests [OF sync1 n] by (simp add: sample_rvms_def)
  then have len: "int (length ?fleet) = 1"
    using fleet_after_length [OF sync1 n, of "[]"] sample_rvms_names
    by (simp add: sample_rvms_def sample_rvm_def time_IsZero_def)
  obtain e1 rs2 rq2 where sync2: "syncReplicas sample_api 0 rs1 ?fleet = Some (e1, rs2, rq2)"
    using syncReplicas_total by blast
  have n1: "rs_Replicas rs1 = Some 1" using syncReplicas_keeps [OF sync1] n by simp
  have none2: "creations rq2 = []" using syncReplicas_requests [OF sync2 n1] len by simp
  have "distinct ([] @ map rvm_Name sample_rvms)" "distinct ([] @ map rvm_Name ?fleet)"
    using sample_rvms_names fleet_after_names [of "[]" sample_rvms rq1] by simp_all
  with scaling_converges [OF n _ sync1 _ _ refl sync2 _ _ refl, of "[]"] none1 none2
  have "length (fleet_after [] ?fleet rq2) = 1" by auto
  with sync1 sync2 show ?thesis by blast
qed

theorem updateStatus_report_witness:
  "\<exists>rs'. rs_updateStatus sample_api 0 (sample_rs 1) sample_rvms = Some rs' \<and> rst_ReadyReplicas (rs_Status rs') = 3 \<and>
     Conditions_IsFalse (ReplicaSet_GetConditions rs') ResizedCondition"
proof -
  have n: "rs_Replicas (sample_rs 1) = Some 1" by (simp add: sample_rs_def)
  then obtain rs' where run: "rs_updateStatus sample_api 0 (sample_rs 1) sample_rvms = Some rs'"
    by (simp add: rs_updateStatus_def Let_def)
  have "wf_conditions (ReplicaSet_GetConditions (sample_rs 1))"
    by (simp add: ReplicaSet_GetConditions_def sample_rs_def wf_conditions_def)
  moreover have "filter isVMReady sample_rvms = sample_rvms" "length sample_rvms = 3"
    by (simp_all add: sample_rvms_def sample_rvm_def isVMReady_def)
  ultimately show ?thesis using updateStatus_report [OF run n] run by simp
qed

theorem Reconcile_panics_iff_witness:
  "rs_Reconcile sample_api 0 ((sample_rs 1)\<lparr>rs_Replicas := None\<rparr>) = None \<and>
   rs_Reconcile sample_api 0 (sample_rs 1) \<noteq> None"
proof -
  have api: "api_NewHelper sample_api n = None" "api_PatchVM sample_api n = None" for n
    by (simp_all add: sample_api_def)
  show ?thesis
    unfolding Reconcile_panics_iff [where api = sample_api, OF api]
    by (simp add: sample_rs_def sample_api_def sample_rvms_def sample_rvm_def)
qed

end
