(* ===== verification/Bitmask.thy ===== *)
theory Bitmask
  imports Conditions "HOL-Library.Word"
begin

unbundle bit_operations_syntax

text \<open>
  Bit masks, \<^verbatim>\<open>pkg/bitmask/bitmask.go\<close>, for an unsigned type of any width, and the reasons of the encryption
  condition that use them, \<^verbatim>\<open>pkg/vmconfig/crypto/crypto_reconciler.go\<close>. The loop of \<^verbatim>\<open>String\<close> has no bound of
  its own: its counter is a Go \<^verbatim>\<open>int\<close>, whose width is that of the platform and an argument of the model, and a
  panic is the value \<^verbatim>\<open>None\<close>.
\<close>

section \<open>Masks\<close>

definition bitmask_Has :: "'a::len word \<Rightarrow> 'a word \<Rightarrow> bool" where
  "bitmask_Has a b \<longleftrightarrow> a AND b > 0"

definition bitmask_Set :: "'a::len word \<Rightarrow> 'a word \<Rightarrow> 'a word" where
  "bitmask_Set a b = a OR b"

definition bitmask_Unset :: "'a::len word \<Rightarrow> 'a word \<Rightarrow> 'a word" where
  "bitmask_Unset a b = a AND NOT b"

definition bitmask_write :: "('a::len word \<Rightarrow> string) \<Rightarrow> string \<Rightarrow> 'a word \<Rightarrow> string" where
  "bitmask_write stringValue w b = (if length w > 0 then w @ ''And'' else w) @ stringValue b"

text \<open>
  The increment of a Go \<^verbatim>\<open>int\<close> of \<^verbatim>\<open>bits\<close> bits, which wraps around to the smallest number. A shift by the width of
  the mask or more gives zero, in Go as for \<^verbatim>\<open>push_bit\<close>, and a shift by a negative count panics.
\<close>

definition int_inc :: "nat \<Rightarrow> int \<Rightarrow> int" where
  "int_inc bits i = (if i + 1 \<ge> 2 ^ (bits - 1) then - (2 ^ (bits - 1)) else i + 1)"

function string_loop ::
    "nat \<Rightarrow> (string \<Rightarrow> 'a::len word \<Rightarrow> string) \<Rightarrow> 'a word \<Rightarrow> 'a word \<Rightarrow> int \<Rightarrow> string \<Rightarrow> string option" where
  "string_loop bits writeFn a m i w =
     (if i < 0 then None
      else let b = push_bit (nat i) 1
           in if b > m then Some w
              else string_loop bits writeFn a m (int_inc bits i) (if bitmask_Has a b then writeFn w b else w))"
  by pat_completeness auto
termination
  by (relation "measure (\<lambda>(bits, writeFn, a, m, i, w). if i < 0 then 0 else Suc (nat (2 ^ (bits - 1) - i)))")
    (auto simp: int_inc_def)

declare string_loop.simps [simp del]

text \<open>\<^verbatim>\<open>String\<close>, with the write function it uses, \<^verbatim>\<open>write\<close> for a type without a \<^verbatim>\<open>Write\<close> method.\<close>

definition bitmask_String :: "nat \<Rightarrow> (string \<Rightarrow> 'a::len word \<Rightarrow> string) \<Rightarrow> 'a word \<Rightarrow> 'a word \<Rightarrow> string option" where
  "bitmask_String bits writeFn maxValue a = string_loop bits writeFn a maxValue 0 []"

section \<open>Reasons of the encryption condition\<close>

type_synonym Reason = "8 word"

definition ReasonInternalError :: Reason where "ReasonInternalError = push_bit 0 1"

definition ReasonEncryptionClassNotFound :: Reason where "ReasonEncryptionClassNotFound = push_bit 1 1"

definition ReasonEncryptionClassInvalid :: Reason where "ReasonEncryptionClassInvalid = push_bit 2 1"

definition ReasonNoDefaultKeyProvider :: Reason where "ReasonNoDefaultKeyProvider = push_bit 3 1"

definition ReasonInvalidState :: Reason where "ReasonInvalidState = push_bit 4 1"

definition ReasonInvalidChanges :: Reason where "ReasonInvalidChanges = push_bit 5 1"

definition ReasonReconfigureError :: Reason where "ReasonReconfigureError = push_bit 6 1"

definition Reason_MaxValue :: Reason where "Reason_MaxValue = push_bit 6 1"

definition Reason_StringValue :: "Reason \<Rightarrow> string" where
  "Reason_StringValue r =
     (if r = ReasonInternalError then ''InternalError''
      else if r = ReasonEncryptionClassNotFound then ''EncryptionClassNotFound''
      else if r = ReasonEncryptionClassInvalid then ''EncryptionClassInvalid''
      else if r = ReasonNoDefaultKeyProvider then ''NoDefaultKeyProvider''
      else if r = ReasonInvalidState then ''InvalidState''
      else if r = ReasonInvalidChanges then ''InvalidChanges''
      else if r = ReasonReconfigureError then ''ReconfigureError''
      else [])"

definition Reason_String :: "nat \<Rightarrow> Reason \<Rightarrow> string option" where
  "Reason_String bits r = bitmask_String bits (bitmask_write Reason_StringValue) Reason_MaxValue r"

definition SprintfStateNotSynced :: "string \<Rightarrow> string list \<Rightarrow> string" where
  "SprintfStateNotSynced op msgs =
     (case msgs of
        [] \<Rightarrow> []
      | [m] \<Rightarrow> ''Must '' @ m @ '' when '' @ op @ '' the VM''
      | [m, m'] \<Rightarrow> ''Must '' @ (m @ '' and '' @ m') @ '' when '' @ op @ '' the VM''
      | _ \<Rightarrow> ''Must '' @ (go_join '', '' (butlast msgs) @ '', and '' @ last msgs) @ '' when '' @ op @ '' the VM'')"

definition VirtualMachineEncryptionSynced :: string where
  "VirtualMachineEncryptionSynced = ''VirtualMachineEncryptionSynced''"

definition markEncryptionStateNotSynced ::
    "nat \<Rightarrow> gotime \<Rightarrow> conditions \<Rightarrow> string \<Rightarrow> Reason \<Rightarrow> string list \<Rightarrow> conditions option" where
  "markEncryptionStateNotSynced bits now vm op r msgs =
     map_option (\<lambda>s. Conditions_MarkFalse now vm VirtualMachineEncryptionSynced s (SprintfStateNotSynced op msgs))
       (Reason_String bits r)"

section \<open>When \<^verbatim>\<open>String\<close> returns\<close>

text \<open>The names of the bits of a mask among the first \<^verbatim>\<open>n\<close>, as the loop writes them.\<close>

definition bits_text :: "(string \<Rightarrow> 'a::len word \<Rightarrow> string) \<Rightarrow> 'a word \<Rightarrow> nat list \<Rightarrow> string \<Rightarrow> string" where
  "bits_text writeFn a is w = fold (\<lambda>i w. if bit a i then writeFn w (push_bit i 1) else w) is w"

lemma bitmask_Has_bit:
  assumes "i < LENGTH('a)"
  shows "bitmask_Has (a :: 'a::len word) (push_bit i 1) \<longleftrightarrow> bit a i"
proof -
  have "a AND push_bit i 1 = (if bit a i then push_bit i 1 else 0)"
    by (rule bit_word_eqI) (auto simp: bit_simps)
  moreover have "push_bit i (1 :: 'a word) \<noteq> 0" using assms by (simp add: push_bit_eq_mult)
  ultimately show ?thesis by (auto simp: bitmask_Has_def word_gt_0)
qed

lemma push_bit_1_mono:
  assumes "i \<le> j" and "j < LENGTH('a)"
  shows "push_bit i (1 :: 'a::len word) \<le> push_bit j 1"
proof -
  have "uint (push_bit k (1 :: 'a word)) = 2 ^ k" if "k < LENGTH('a)" for k
    using that by transfer (simp add: push_bit_eq_mult take_bit_int_eq_self)
  with assms show ?thesis by (simp add: word_le_def)
qed

lemma string_loop_returns:
  assumes "k < LENGTH('a)" and "push_bit k 1 > (m :: 'a::len word)" and "\<And>j. j < k \<Longrightarrow> push_bit j 1 \<le> m" and "i \<le> k"
    and "int (LENGTH('a)) < 2 ^ (bits - 1)"
  shows "string_loop bits writeFn a m (int i) w = Some (bits_text writeFn a [i..<k] w)"
  using assms(4)
proof (induction "k - i" arbitrary: i w)
  case 0
  then have "i = k" by simp
  with assms(2) show ?case by (simp add: string_loop.simps [of _ _ _ _ "int k"] bits_text_def)
next
  case (Suc d)
  then have less: "i < k" and d: "d = k - Suc i" by simp_all
  have not: "\<not> push_bit i 1 > m" using assms(3) [OF less] by simp
  have has: "bitmask_Has a (push_bit i 1) \<longleftrightarrow> bit a i" using less assms(1) by (intro bitmask_Has_bit) simp
  have inc: "int_inc bits (int i) = int (Suc i)"
  proof -
    have "int i + 1 < int (LENGTH('a))" using less assms(1) by simp
    with assms(5) have "int i + 1 < 2 ^ (bits - 1)" by (rule order.strict_trans [rotated])
    then show ?thesis by (simp add: int_inc_def)
  qed
  have "string_loop bits writeFn a m (int i) w =
      string_loop bits writeFn a m (int (Suc i)) (if bit a i then writeFn w (push_bit i 1) else w)"
    using not has inc by (subst string_loop.simps) (simp add: Let_def)
  also have "\<dots> = Some (bits_text writeFn a [Suc i..<k] (if bit a i then writeFn w (push_bit i 1) else w))"
    using Suc.hyps(1) [OF d] less by simp
  finally show ?case using less by (simp add: bits_text_def upt_conv_Cons)
qed

lemma string_loop_panics:
  assumes "\<And>j. push_bit j 1 \<le> (m :: 'a::len word)"
  shows "string_loop bits writeFn a m i w = None"
  using assms
proof (induction bits writeFn a m i w rule: string_loop.induct)
  case (1 bits writeFn a m i w)
  have "\<not> push_bit (nat i) 1 > m" using 1(2) [of "nat i"] by simp
  with 1 show ?case by (cases "i < 0") (simp_all add: string_loop.simps [of bits writeFn a m i w] Let_def)
qed

text \<open>The number of bits of a mask up to its maximum.\<close>

definition bit_count :: "'a::len word \<Rightarrow> nat" where
  "bit_count m = length (takeWhile (\<lambda>i. push_bit i 1 \<le> m) [0..<LENGTH('a)])"

lemma bit_count_props:
  assumes "(m :: 'a::len word) < push_bit (LENGTH('a) - 1) 1"
  shows "bit_count m < LENGTH('a)" and "push_bit (bit_count m) 1 > m" and "\<And>j. j < bit_count m \<Longrightarrow> push_bit j 1 \<le> m"
proof -
  let ?P = "\<lambda>i. push_bit i 1 \<le> m" and ?xs = "[0..<LENGTH('a)]"
  have len: "bit_count m = length (takeWhile ?P ?xs)" by (simp add: bit_count_def)
  show below: "push_bit j 1 \<le> m" if "j < bit_count m" for j
  proof -
    have "takeWhile ?P ?xs ! j = j" using that len length_takeWhile_le [of ?P ?xs] by (simp add: takeWhile_nth)
    moreover have "takeWhile ?P ?xs ! j \<in> set (takeWhile ?P ?xs)" using that len by (intro nth_mem) simp
    ultimately show ?thesis using set_takeWhileD by fastforce
  qed
  show less: "bit_count m < LENGTH('a)"
  proof (rule ccontr)
    assume "\<not> ?thesis"
    then have "LENGTH('a) - 1 < bit_count m" using len_gt_0 [where 'a = 'a] by linarith
    from below [OF this] assms show False by simp
  qed
  then have "\<not> ?P (?xs ! length (takeWhile ?P ?xs))" by (intro nth_length_takeWhile) (simp add: len)
  with less show "push_bit (bit_count m) 1 > m" by (simp add: len)
qed

lemma top_bit_blocks:
  assumes "\<not> (m :: 'a::len word) < push_bit (LENGTH('a) - 1) 1"
  shows "push_bit j 1 \<le> m"
proof (cases "j < LENGTH('a)")
  case True
  then have "push_bit j 1 \<le> push_bit (LENGTH('a) - 1) (1 :: 'a word)" by (intro push_bit_1_mono) simp_all
  with assms show ?thesis by simp
next
  case False
  then have zero: "push_bit j (1 :: 'a word) = 0" by (simp add: push_bit_eq_mult exp_eq_zero_iff)
  show ?thesis unfolding zero by simp
qed

lemma int_covers_mask:
  assumes "bits \<in> {32, 64}" and "n \<le> (64 :: nat)"
  shows "int n < 2 ^ (bits - 1)"
  using assms by auto

text \<open>
  C39. For a mask of at most 64 bits, on a platform with 32-bit or 64-bit integers, \<^verbatim>\<open>String\<close> returns exactly when the
  maximum value of the mask type does not use the top bit of its width; it then writes the names of the set bits up
  to the maximum, in order. For a type whose maximum uses the top bit the counter runs through all the numbers of
  the platform, wraps around, and the shift by a negative count panics.
\<close>

theorem bitmask_String_result:
  assumes "bits \<in> {32, 64}" and "LENGTH('a) \<le> 64"
  shows "bitmask_String bits writeFn m (a :: 'a::len word) =
    (if m < push_bit (LENGTH('a) - 1) 1 then Some (bits_text writeFn a [0..<bit_count m] []) else None)"
proof (cases "m < push_bit (LENGTH('a) - 1) 1")
  case True
  note count = bit_count_props [OF True]
  from string_loop_returns [OF count(1,2) count(3) _ int_covers_mask [OF assms], of 0] True
  show ?thesis by (simp add: bitmask_String_def)
next
  case False
  from string_loop_panics [OF top_bit_blocks [OF False]] False show ?thesis by (simp add: bitmask_String_def)
qed

theorem bitmask_String_result_witness:
  "bitmask_String 32 (bitmask_write (\<lambda>b. ''x'')) (push_bit 7 1) (5 :: 8 word) = None \<and>
   bitmask_String 64 (bitmask_write (\<lambda>b. ''x'')) (push_bit 6 1) (5 :: 8 word) = Some ''xAndx''"
proof -
  have m: "push_bit (LENGTH(8) - 1) 1 = (128 :: 8 word)" "(push_bit 7 1 :: 8 word) = 128" "(push_bit 6 1 :: 8 word) = 64"
    by (simp_all add: push_bit_eq_mult)
  have "bits_text (bitmask_write (\<lambda>b. ''x'')) (5 :: 8 word) [0..<bit_count (64 :: 8 word)] [] = ''xAndx''" by code_simp
  then show ?thesis
    using bitmask_String_result [where 'a = 8, of 32 "bitmask_write (\<lambda>b. ''x'')" "push_bit 7 1" 5]
      bitmask_String_result [where 'a = 8, of 64 "bitmask_write (\<lambda>b. ''x'')" "push_bit 6 1" 5]
    unfolding m by simp
qed

text \<open>The reasons of the encryption condition use seven of eight bits: printing them returns on every platform.\<close>

lemma Reason_String_Some:
  assumes "bits \<in> {32, 64}"
  shows "Reason_String bits r = Some (bits_text (bitmask_write Reason_StringValue) r [0..<7] [])"
proof -
  have "Reason_MaxValue < push_bit (LENGTH(8) - 1) 1" "push_bit 7 1 > Reason_MaxValue"
    by (simp_all add: Reason_MaxValue_def)
  moreover have "push_bit j 1 \<le> Reason_MaxValue" if "j < 7" for j
    using push_bit_1_mono [where 'a = 8, of j 6] that by (simp add: Reason_MaxValue_def)
  ultimately show ?thesis
    using string_loop_returns [where 'a = 8, of 7 Reason_MaxValue 0 bits] int_covers_mask [OF assms, of 8]
    unfolding Reason_String_def bitmask_String_def by simp
qed

end
