(* ===== verification/Power_State.thy ===== *)
theory Power_State
  imports Bitmask
begin

text \<open>
  Power operations, \<^verbatim>\<open>pkg/util/vsphere/vm/power_state.go\<close>, with the errors of tasks,
  \<^verbatim>\<open>pkg/util/vsphere/task/task.go\<close>. vSphere and its client library are not part of the sources: the record
  \<^verbatim>\<open>vsphere\<close> holds the calls the code makes, as functions on a state of any type, and what the theorems
  rely on are named hypotheses about them. Times are nanoseconds since the Unix epoch, and the clock and the
  soft timeout of the context are arguments.
\<close>

section \<open>Task errors\<close>

record LocalizableMessage =
  fm_Key :: string
  fm_Message :: string

text \<open>A fault has messages; a \<^verbatim>\<open>NoCompatibleHost\<close> fault also lists the faults of the hosts, which may be nil.\<close>

datatype BaseMethodFault =
    MethodFault (fault_messages: "LocalizableMessage list")
  | NoCompatibleHost (fault_messages: "LocalizableMessage list") "LocalizableMessage list option list"

record LocalizedMethodFault =
  lmf_Fault :: BaseMethodFault
  lmf_LocalizedMessage :: string

type_synonym TaskInfo = "LocalizedMethodFault option"

definition TrimRight :: "string \<Rightarrow> string \<Rightarrow> string" where
  "TrimRight s cutset = rev (dropWhile (\<lambda>c. c \<in> set cutset) (rev s))"

definition ErrorMessageFromTaskInfo :: "TaskInfo option \<Rightarrow> string" where
  "ErrorMessageFromTaskInfo taskInfo =
     (case taskInfo of
        None \<Rightarrow> []
      | Some None \<Rightarrow> []
      | Some (Some taskErr) \<Rightarrow>
          let faultMsgs = filter (\<lambda>m. m \<noteq> []) (map fm_Message (fault_messages (lmf_Fault taskErr)))
          in if fault_messages (lmf_Fault taskErr) = [] then lmf_LocalizedMessage taskErr
             else if faultMsgs = [] then lmf_LocalizedMessage taskErr
             else if lmf_LocalizedMessage taskErr \<noteq> []
             then TrimRight (lmf_LocalizedMessage taskErr) [CHR '':'', CHR '' '', CHR 0x0A, CHR 0x0D, CHR 0x09] @ '': '' @
               go_join ''; '' faultMsgs
             else go_join ''; '' faultMsgs)"

definition FaultMessageKeyAutoevacHostInMaintenanceMode :: string where
  "FaultMessageKeyAutoevacHostInMaintenanceMode =
     ''com.vmware.cp.autoevac.RestartOnCurrentHostRequired.HostInMaintenanceMode''"

definition FaultMessageKeyAutoevacRestartOnCurrentHostRequired :: string where
  "FaultMessageKeyAutoevacRestartOnCurrentHostRequired = ''com.vmware.cp.autoevac.RestartOnCurrentHostRequired''"

definition IsInfraMaintenanceFault :: "TaskInfo option \<Rightarrow> bool" where
  "IsInfraMaintenanceFault taskInfo =
     (case taskInfo of
        Some (Some taskErr) \<Rightarrow>
          (case lmf_Fault taskErr of
             NoCompatibleHost msgs errors \<Rightarrow>
               list_ex (\<lambda>e. case e of
                   None \<Rightarrow> False
                 | Some ms \<Rightarrow> list_ex (\<lambda>fm. fm_Key fm = FaultMessageKeyAutoevacHostInMaintenanceMode \<or>
                     fm_Key fm = FaultMessageKeyAutoevacRestartOnCurrentHostRequired) ms) errors
           | MethodFault msgs \<Rightarrow> False)
      | _ \<Rightarrow> False)"

section \<open>Behaviours, results and power states\<close>

definition DefaultTrySoftTimeout :: int where
  "DefaultTrySoftTimeout = 5 * 60 * 1000000000"

type_synonym PowerOpBehavior = "8 word"

definition PowerOpBehaviorHard :: PowerOpBehavior where "PowerOpBehaviorHard = 1"

definition PowerOpBehaviorSoft :: PowerOpBehavior where "PowerOpBehaviorSoft = 2"

definition PowerOpBehaviorTrySoft :: PowerOpBehavior where "PowerOpBehaviorTrySoft = 3"

definition PowerOpBehavior_String :: "PowerOpBehavior \<Rightarrow> string" where
  "PowerOpBehavior_String b =
     (if b = PowerOpBehaviorHard then ''Hard''
      else if b = PowerOpBehaviorSoft then ''Soft''
      else if b = PowerOpBehaviorTrySoft then ''TrySoft''
      else [])"

type_synonym PowerOpResult = "8 word"

definition PowerOpResultNone :: PowerOpResult where "PowerOpResultNone = 0"

definition PowerOpResultChanged :: PowerOpResult where "PowerOpResultChanged = 1"

definition PowerOpResultChangedHard :: PowerOpResult where "PowerOpResultChangedHard = 2"

definition PowerOpResultChangedSoft :: PowerOpResult where "PowerOpResultChangedSoft = 3"

definition PowerOpResult_AnyChange :: "PowerOpResult \<Rightarrow> bool" where
  "PowerOpResult_AnyChange r \<longleftrightarrow> r \<ge> PowerOpResultChanged"

text \<open>The power states of the vSphere API.\<close>

type_synonym vim_PowerState = string

definition PoweredOff :: vim_PowerState where "PoweredOff = ''poweredOff''"

definition PoweredOn :: vim_PowerState where "PoweredOn = ''poweredOn''"

definition Suspended :: vim_PowerState where "Suspended = ''suspended''"

definition ParsePowerOpMode :: "string \<Rightarrow> PowerOpBehavior" where
  "ParsePowerOpMode m =
     (if ToLower m = ToLower (PowerOpBehavior_String PowerOpBehaviorHard) then PowerOpBehaviorHard
      else if ToLower m = ToLower (PowerOpBehavior_String PowerOpBehaviorSoft) then PowerOpBehaviorSoft
      else if ToLower m = ToLower (PowerOpBehavior_String PowerOpBehaviorTrySoft) then PowerOpBehaviorTrySoft
      else 0)"

definition ParsePowerState :: "string \<Rightarrow> vim_PowerState" where
  "ParsePowerState m =
     (if ToLower m = ToLower PoweredOff then PoweredOff
      else if ToLower m = ToLower PoweredOn then PoweredOn
      else if ToLower m = ToLower Suspended then Suspended
      else [])"

datatype power_error =
    FailedProperties goerror
  | ErrInvalidPowerState vim_PowerState
  | ErrInvalidPowerOpBehavior PowerOpBehavior
  | MissingPowerOps
  | HardInvokeFailed vim_PowerState goerror
  | HardFailed vim_PowerState bool string goerror
  | SoftFailed vim_PowerState goerror
  | SoftTimedOut vim_PowerState
  | SoftWaitFailed vim_PowerState goerror
  | NilConfig
  | LastRestartTimeNotInt64 string
  | HardRestartInvokeFailed goerror
  | HardRestartFailed goerror
  | SoftRestartTimedOut
  | SoftRestartFailed goerror
  | RecordInvokeFailed int goerror
  | RecordFailed int goerror

section \<open>vSphere\<close>

text \<open>The dynamic value of an option; a float is given by its conversion to an integer.\<close>

datatype ov_Value = IntValue int | Int64Value int | Float64Value int | StringValue string | OtherValue

record OptionValue =
  ov_Key :: string
  ov_Value :: ov_Value

text \<open>The properties of a VM the code reads; \<^verbatim>\<open>None\<close> is a nil configuration.\<close>

record mo_VirtualMachine =
  mo_PowerState :: vim_PowerState
  mo_ExtraConfig :: "OptionValue option list option"

datatype hard_op = op_PowerOn | op_PowerOff | op_Suspend | op_Reset

datatype soft_op = op_ShutdownGuest | op_StandbyGuest | op_RebootGuest

text \<open>
  A task is not created, or fails with its information and, for an \<^verbatim>\<open>InvalidPowerState\<close> fault, the existing
  and the requested state, or succeeds. A call with a timeout fails with its error and whether the
  deadline was exceeded.
\<close>

datatype task_outcome = InvokeFailed goerror | TaskFailed "TaskInfo option" goerror "(string \<times> string) option" | TaskDone

type_synonym timed_outcome = "(goerror \<times> bool) option"

record 's vsphere =
  vc_Properties :: "string list \<Rightarrow> mo_VirtualMachine \<Rightarrow> 's \<Rightarrow> goerror + mo_VirtualMachine"
  vc_Task :: "hard_op \<Rightarrow> 's \<Rightarrow> task_outcome \<times> 's"
  vc_Guest :: "int \<Rightarrow> soft_op \<Rightarrow> 's \<Rightarrow> timed_outcome \<times> 's"
  vc_WaitForPowerState :: "int \<Rightarrow> vim_PowerState \<Rightarrow> 's \<Rightarrow> timed_outcome \<times> 's"
  vc_Reconfigure :: "OptionValue \<Rightarrow> bool \<Rightarrow> 's \<Rightarrow> task_outcome \<times> 's"

section \<open>Setting the power state\<close>

definition WrapHardPowerOpFailure :: "vim_PowerState \<Rightarrow> TaskInfo option \<Rightarrow> goerror \<Rightarrow> power_error" where
  "WrapHardPowerOpFailure desiredPowerState ti err =
     HardFailed desiredPowerState (IsInfraMaintenanceFault ti) (ErrorMessageFromTaskInfo ti) err"

definition doAndWaitOnHardPowerOp ::
    "'s vsphere \<Rightarrow> vim_PowerState \<Rightarrow> hard_op \<Rightarrow> 's \<Rightarrow> (power_error + PowerOpResult) \<times> 's" where
  "doAndWaitOnHardPowerOp vc desiredPowerState powerOpFn s =
     (case vc_Task vc powerOpFn s of
        (InvokeFailed err, s) \<Rightarrow> (Inl (HardInvokeFailed desiredPowerState err), s)
      | (TaskFailed ti err ips, s) \<Rightarrow>
          if (case ips of None \<Rightarrow> False | Some (existing, requested) \<Rightarrow> existing = requested)
          then (Inr PowerOpResultNone, s)
          else (Inl (WrapHardPowerOpFailure desiredPowerState ti err), s)
      | (TaskDone, s) \<Rightarrow>
          if desiredPowerState = PoweredOn then (Inr PowerOpResultChanged, s)
          else if desiredPowerState = PoweredOff \<or> desiredPowerState = Suspended then (Inr PowerOpResultChangedHard, s)
          else (Inl (ErrInvalidPowerState desiredPowerState), s))"

definition soft_timeout :: "int option \<Rightarrow> int" where
  "soft_timeout t = (case t of None \<Rightarrow> DefaultTrySoftTimeout | Some t \<Rightarrow> t)"

definition doAndWaitOnSoftPowerOp ::
    "'s vsphere \<Rightarrow> int option \<Rightarrow> vim_PowerState \<Rightarrow> soft_op \<Rightarrow> 's \<Rightarrow> (power_error + PowerOpResult) \<times> 's" where
  "doAndWaitOnSoftPowerOp vc timeout desiredPowerState powerOpFn s =
     (case vc_Guest vc 0 powerOpFn s of
        (Some (err, _), s) \<Rightarrow> (Inl (SoftFailed desiredPowerState err), s)
      | (None, s) \<Rightarrow>
          (case vc_WaitForPowerState vc (soft_timeout timeout) desiredPowerState s of
             (Some (err, exceeded), s) \<Rightarrow>
               (Inl (if exceeded then SoftTimedOut desiredPowerState else SoftWaitFailed desiredPowerState err), s)
           | (None, s) \<Rightarrow> (Inr PowerOpResultChangedSoft, s)))"

text \<open>The hard and the soft function the switch on the desired power state chooses.\<close>

definition power_op_fns ::
    "vim_PowerState \<Rightarrow> PowerOpBehavior \<Rightarrow> power_error + (hard_op option \<times> soft_op option)" where
  "power_op_fns desiredPowerState powerOpBehavior =
     (if desiredPowerState = PoweredOn then Inr (Some op_PowerOn, None)
      else if desiredPowerState = PoweredOff then
        (if powerOpBehavior = PowerOpBehaviorHard then Inr (Some op_PowerOff, None)
         else if powerOpBehavior = PowerOpBehaviorSoft then Inr (None, Some op_ShutdownGuest)
         else if powerOpBehavior = PowerOpBehaviorTrySoft then Inr (Some op_PowerOff, Some op_ShutdownGuest)
         else Inl (ErrInvalidPowerOpBehavior powerOpBehavior))
      else if desiredPowerState = Suspended then
        (if powerOpBehavior = PowerOpBehaviorHard then Inr (Some op_Suspend, None)
         else if powerOpBehavior = PowerOpBehaviorSoft then Inr (None, Some op_StandbyGuest)
         else if powerOpBehavior = PowerOpBehaviorTrySoft then Inr (Some op_Suspend, Some op_StandbyGuest)
         else Inl (ErrInvalidPowerOpBehavior powerOpBehavior))
      else Inl (ErrInvalidPowerState desiredPowerState))"

definition setPowerState ::
    "'s vsphere \<Rightarrow> int option \<Rightarrow> mo_VirtualMachine \<Rightarrow> bool \<Rightarrow> vim_PowerState \<Rightarrow> PowerOpBehavior \<Rightarrow> 's \<Rightarrow>
     (power_error + PowerOpResult) \<times> 's" where
  "setPowerState vc timeout mo fetchProperties desiredPowerState powerOpBehavior s =
     (case (if mo_PowerState mo = [] \<or> fetchProperties
            then vc_Properties vc [''summary.runtime.powerState''] mo s else Inr mo) of
        Inl err \<Rightarrow> (Inl (FailedProperties err), s)
      | Inr mo \<Rightarrow>
          if mo_PowerState mo = desiredPowerState then (Inr PowerOpResultNone, s)
          else case power_op_fns desiredPowerState powerOpBehavior of
            Inl err \<Rightarrow> (Inl err, s)
          | Inr (Some hard, None) \<Rightarrow> doAndWaitOnHardPowerOp vc desiredPowerState hard s
          | Inr (None, Some soft) \<Rightarrow> doAndWaitOnSoftPowerOp vc timeout desiredPowerState soft s
          | Inr (Some hard, Some soft) \<Rightarrow>
              (case doAndWaitOnSoftPowerOp vc timeout desiredPowerState soft s of
                 (Inl err, s) \<Rightarrow> doAndWaitOnHardPowerOp vc desiredPowerState hard s
               | (Inr result, s) \<Rightarrow> (Inr result, s))
          | Inr (None, None) \<Rightarrow> (Inl MissingPowerOps, s))"

text \<open>The blocking and the asynchronous form; the channel of the latter carries one value.\<close>

definition SetAndWaitOnPowerState ::
    "'s vsphere \<Rightarrow> int option \<Rightarrow> mo_VirtualMachine \<Rightarrow> bool \<Rightarrow> vim_PowerState \<Rightarrow> PowerOpBehavior \<Rightarrow> 's \<Rightarrow>
     (power_error + PowerOpResult) \<times> 's" where
  "SetAndWaitOnPowerState vc timeout mo fetchProperties desiredPowerState powerOpBehavior s =
     setPowerState vc timeout mo fetchProperties desiredPowerState powerOpBehavior s"

definition SetPowerState ::
    "'s vsphere \<Rightarrow> int option \<Rightarrow> mo_VirtualMachine \<Rightarrow> bool \<Rightarrow> vim_PowerState \<Rightarrow> PowerOpBehavior \<Rightarrow> 's \<Rightarrow>
     (power_error + PowerOpResult) list \<times> 's" where
  "SetPowerState vc timeout mo fetchProperties desiredPowerState powerOpBehavior s =
     (case setPowerState vc timeout mo fetchProperties desiredPowerState powerOpBehavior s of (result, s) \<Rightarrow> ([result], s))"

section \<open>Restarting\<close>

definition ExtraConfigKeyLastRestartTime :: string where
  "ExtraConfigKeyLastRestartTime = ''vmservice.lastRestartTime''"

text \<open>\<^verbatim>\<open>strconv.ParseInt(s, 10, 64)\<close>: an optional sign, decimal digits, at least one, and no overflow.\<close>

definition is_int64 :: "int \<Rightarrow> bool" where
  "is_int64 n \<longleftrightarrow> - (2 ^ 63) \<le> n \<and> n < 2 ^ 63"

definition ParseInt64 :: "string \<Rightarrow> int option" where
  "ParseInt64 s =
     (let (neg, ds) = (case s of
            [] \<Rightarrow> (False, [])
          | c # cs \<Rightarrow> if c = CHR ''-'' then (True, cs) else if c = CHR ''+'' then (False, cs) else (False, s));
          n = (if neg then - int (read_digits 0 ds) else int (read_digits 0 ds))
      in if ds = [] \<or> \<not> list_all (\<lambda>c. c \<in> set ''0123456789'') ds \<or> \<not> is_int64 n then None else Some n)"

text \<open>The loop of \<^verbatim>\<open>GetLastRestartTimeFromExtraConfig\<close>.\<close>

fun GetLastRestartTimeFromExtraConfig :: "OptionValue option list \<Rightarrow> power_error + int option" where
  "GetLastRestartTimeFromExtraConfig [] = Inr None"
| "GetLastRestartTimeFromExtraConfig (bov # extraConfig) =
     (case bov of
        None \<Rightarrow> GetLastRestartTimeFromExtraConfig extraConfig
      | Some ov \<Rightarrow>
          if ov_Key ov \<noteq> ExtraConfigKeyLastRestartTime then GetLastRestartTimeFromExtraConfig extraConfig
          else
            let finish = (\<lambda>epoch. if epoch = 0 then Inr None else Inr (Some epoch))
            in case ov_Value ov of
                 IntValue tval \<Rightarrow> finish tval
               | Int64Value tval \<Rightarrow> finish tval
               | Float64Value tval \<Rightarrow> finish tval
               | StringValue tval \<Rightarrow>
                   (case ParseInt64 tval of
                      None \<Rightarrow> Inl (LastRestartTimeNotInt64 tval)
                    | Some i64 \<Rightarrow> finish i64)
               | OtherValue \<Rightarrow> finish 0)"

definition setLastRestartTimeInExtraConfigAndWait ::
    "'s vsphere \<Rightarrow> bool \<Rightarrow> int \<Rightarrow> 's \<Rightarrow> power_error option \<times> 's" where
  "setLastRestartTimeInExtraConfigAndWait vc extensionCompatConstraint lastRestartTimeEpoch s =
     (case vc_Reconfigure vc \<lparr>ov_Key = ExtraConfigKeyLastRestartTime, ov_Value = StringValue (show_int lastRestartTimeEpoch)\<rparr>
          extensionCompatConstraint s of
        (InvokeFailed err, s) \<Rightarrow> (Some (RecordInvokeFailed lastRestartTimeEpoch err), s)
      | (TaskFailed ti err ips, s) \<Rightarrow> (Some (RecordFailed lastRestartTimeEpoch err), s)
      | (TaskDone, s) \<Rightarrow> (None, s))"

definition doAndWaitOnHardRestart :: "'s vsphere \<Rightarrow> 's \<Rightarrow> (power_error + PowerOpResult) \<times> 's" where
  "doAndWaitOnHardRestart vc s =
     (case vc_Task vc op_Reset s of
        (InvokeFailed err, s) \<Rightarrow> (Inl (HardRestartInvokeFailed err), s)
      | (TaskFailed ti err ips, s) \<Rightarrow> (Inl (HardRestartFailed err), s)
      | (TaskDone, s) \<Rightarrow> (Inr PowerOpResultChangedHard, s))"

definition doAndWaitOnSoftRestart :: "'s vsphere \<Rightarrow> int option \<Rightarrow> 's \<Rightarrow> (power_error + PowerOpResult) \<times> 's" where
  "doAndWaitOnSoftRestart vc timeout s =
     (case vc_Guest vc (soft_timeout timeout) op_RebootGuest s of
        (Some (err, exceeded), s) \<Rightarrow> (Inl (if exceeded then SoftRestartTimedOut else SoftRestartFailed err), s)
      | (None, s) \<Rightarrow> (Inr PowerOpResultChangedSoft, s))"

text \<open>
  \<^verbatim>\<open>restart\<close>: the result and, when recording the time of a restart that was done fails, also the error of
  that.
\<close>

definition restart_op ::
    "'s vsphere \<Rightarrow> int option \<Rightarrow> PowerOpBehavior \<Rightarrow> 's \<Rightarrow> (power_error + PowerOpResult) \<times> 's" where
  "restart_op vc timeout powerOpBehavior s =
     (if powerOpBehavior = PowerOpBehaviorHard then doAndWaitOnHardRestart vc s
      else if powerOpBehavior = PowerOpBehaviorSoft then doAndWaitOnSoftRestart vc timeout s
      else if powerOpBehavior = PowerOpBehaviorTrySoft then
        (case doAndWaitOnSoftRestart vc timeout s of
           (Inl err, s) \<Rightarrow> doAndWaitOnHardRestart vc s
         | (Inr result, s) \<Rightarrow> (Inr result, s))
      else (Inl (ErrInvalidPowerOpBehavior powerOpBehavior), s))"

definition restart_properties :: "mo_VirtualMachine \<Rightarrow> bool \<Rightarrow> string list" where
  "restart_properties mo fetchProperties =
     (if fetchProperties \<or> mo_PowerState mo = [] then [''summary.runtime.powerState''] else []) @
     (if fetchProperties \<or> mo_ExtraConfig mo = None \<or> mo_ExtraConfig mo = Some [] then [''config.extraConfig''] else [])"

definition restart ::
    "'s vsphere \<Rightarrow> int option \<Rightarrow> bool \<Rightarrow> int \<Rightarrow> mo_VirtualMachine \<Rightarrow> bool \<Rightarrow> int \<Rightarrow> PowerOpBehavior \<Rightarrow> 's \<Rightarrow>
     (PowerOpResult \<times> power_error option) \<times> 's" where
  "restart vc timeout extensionCompatConstraint now mo fetchProperties desiredLastRestartTime powerOpBehavior s =
     (let propsToFetch = restart_properties mo fetchProperties
      in case (if propsToFetch \<noteq> [] then vc_Properties vc propsToFetch mo s else Inr mo) of
           Inl err \<Rightarrow> ((0, Some (FailedProperties err)), s)
         | Inr mo \<Rightarrow>
             (case mo_ExtraConfig mo of
                None \<Rightarrow> ((0, Some NilConfig), s)
              | Some extraConfig \<Rightarrow>
                  if mo_PowerState mo \<noteq> PoweredOn then ((0, Some (ErrInvalidPowerState (mo_PowerState mo))), s)
                  else case GetLastRestartTimeFromExtraConfig extraConfig of
                    Inl err \<Rightarrow> ((0, Some err), s)
                  | Inr currentLastRestartTime \<Rightarrow>
                      if (case currentLastRestartTime of None \<Rightarrow> False | Some t \<Rightarrow> desiredLastRestartTime \<le> t)
                      then ((PowerOpResultNone, None), s)
                      else if desiredLastRestartTime > now then ((PowerOpResultNone, None), s)
                      else case restart_op vc timeout powerOpBehavior s of
                        (Inl err, s) \<Rightarrow> ((0, Some err), s)
                      | (Inr result, s) \<Rightarrow>
                          if PowerOpResult_AnyChange result then
                            (case setLastRestartTimeInExtraConfigAndWait vc extensionCompatConstraint desiredLastRestartTime s of
                               (err, s) \<Rightarrow> ((result, err), s))
                          else ((result, None), s)))"

definition RestartAndWait ::
    "'s vsphere \<Rightarrow> int option \<Rightarrow> bool \<Rightarrow> int \<Rightarrow> mo_VirtualMachine \<Rightarrow> bool \<Rightarrow> int \<Rightarrow> PowerOpBehavior \<Rightarrow> 's \<Rightarrow>
     (PowerOpResult \<times> power_error option) \<times> 's" where
  "RestartAndWait vc timeout extensionCompatConstraint now mo fetchProperties desiredLastRestartTime powerOpBehavior s =
     restart vc timeout extensionCompatConstraint now mo fetchProperties desiredLastRestartTime powerOpBehavior s"

definition Restart ::
    "'s vsphere \<Rightarrow> int option \<Rightarrow> bool \<Rightarrow> int \<Rightarrow> mo_VirtualMachine \<Rightarrow> bool \<Rightarrow> int \<Rightarrow> PowerOpBehavior \<Rightarrow> 's \<Rightarrow>
     (power_error + PowerOpResult) list \<times> 's" where
  "Restart vc timeout extensionCompatConstraint now mo fetchProperties desiredLastRestartTime powerOpBehavior s =
     (case restart vc timeout extensionCompatConstraint now mo fetchProperties desiredLastRestartTime powerOpBehavior s of
        ((result, None), s) \<Rightarrow> ([Inr result], s)
      | ((result, Some err), s) \<Rightarrow> ([Inl err], s))"

end
