(* ===== verification/Power_Laws.thy ===== *)
theory Power_Laws
  imports Power_State
begin

text \<open>
  What the power operations achieve on a vSphere that does what its API documents: setting a power state
  refines the abstract operation on power states, and a restart is carried out at most once.
\<close>

section \<open>Setting the power state\<close>

definition op_target :: "hard_op \<Rightarrow> vim_PowerState \<Rightarrow> vim_PowerState" where
  "op_target op p = (case op of op_PowerOn \<Rightarrow> PoweredOn | op_PowerOff \<Rightarrow> PoweredOff | op_Suspend \<Rightarrow> Suspended | op_Reset \<Rightarrow> p)"

text \<open>
  The documented behaviour of vSphere: properties are those of the VM, a task that succeeds puts the VM
  into the state of its operation, one that fails as the VM is in the requested state leaves it there,
  and waiting for a power state ends without an error when the VM has it.
\<close>

definition power_laws :: "'s vsphere \<Rightarrow> ('s \<Rightarrow> vim_PowerState) \<Rightarrow> bool" where
  "power_laws vc pst \<longleftrightarrow>
     (\<forall>ps mo s mo'. vc_Properties vc ps mo s = Inr mo' \<and> ''summary.runtime.powerState'' \<in> set ps \<longrightarrow>
        mo_PowerState mo' = pst s) \<and>
     (\<forall>op s s'. vc_Task vc op s = (TaskDone, s') \<longrightarrow> pst s' = op_target op (pst s)) \<and>
     (\<forall>op s s' ti err st. vc_Task vc op s = (TaskFailed ti err (Some (st, st)), s') \<longrightarrow>
        pst s' = op_target op (pst s)) \<and>
     (\<forall>t d s s'. vc_WaitForPowerState vc t d s = (None, s') \<longrightarrow> pst s' = d)"

text \<open>
  The abstract operation: the VM ends in the desired state. No change is reported exactly when the VM was found to
  have that state already; otherwise the report is of a power on, of a change by the guest or of a hard change, and
  only of a kind the behaviour allows.
\<close>

definition set_power_spec ::
    "vim_PowerState \<Rightarrow> PowerOpBehavior \<Rightarrow> bool \<Rightarrow> bool \<Rightarrow> PowerOpResult \<Rightarrow> vim_PowerState \<Rightarrow> bool" where
  "set_power_spec desired behavior matched guest r p' \<longleftrightarrow>
     p' = desired \<and>
     r = (if matched then PowerOpResultNone
          else if desired = PoweredOn then PowerOpResultChanged
          else if guest then PowerOpResultChangedSoft else PowerOpResultChangedHard) \<and>
     (r = PowerOpResultChangedHard \<longrightarrow> behavior \<in> {PowerOpBehaviorHard, PowerOpBehaviorTrySoft}) \<and>
     (r = PowerOpResultChangedSoft \<longrightarrow> behavior \<in> {PowerOpBehaviorSoft, PowerOpBehaviorTrySoft})"

text \<open>
  What vSphere answers: whether the guest, asked to shut down or to stand by, brings the VM into the desired
  state in time, and whether a hard operation is refused because the VM already has the requested state. The hard
  operation follows a guest that was asked in vain.
\<close>

definition guest_run :: "'s vsphere \<Rightarrow> int option \<Rightarrow> vim_PowerState \<Rightarrow> 's \<Rightarrow> bool \<times> 's" where
  "guest_run vc timeout desired s =
     (case vc_Guest vc 0 (if desired = PoweredOff then op_ShutdownGuest else op_StandbyGuest) s of
        (Some _, s) \<Rightarrow> (False, s)
      | (None, s) \<Rightarrow> (case vc_WaitForPowerState vc (soft_timeout timeout) desired s of (err, s) \<Rightarrow> (err = None, s)))"

definition guest_succeeds :: "'s vsphere \<Rightarrow> int option \<Rightarrow> vim_PowerState \<Rightarrow> PowerOpBehavior \<Rightarrow> 's \<Rightarrow> bool" where
  "guest_succeeds vc timeout desired behavior s \<longleftrightarrow>
     desired \<noteq> PoweredOn \<and> behavior \<noteq> PowerOpBehaviorHard \<and> fst (guest_run vc timeout desired s)"

definition refused :: "'s vsphere \<Rightarrow> hard_op \<Rightarrow> 's \<Rightarrow> bool" where
  "refused vc op s = (case fst (vc_Task vc op s) of TaskFailed ti err (Some (existing, requested)) \<Rightarrow> existing = requested | _ \<Rightarrow> False)"

definition hard_refused :: "'s vsphere \<Rightarrow> int option \<Rightarrow> vim_PowerState \<Rightarrow> PowerOpBehavior \<Rightarrow> 's \<Rightarrow> bool" where
  "hard_refused vc timeout desired behavior s \<longleftrightarrow>
     \<not> guest_succeeds vc timeout desired behavior s \<and>
     (if desired = PoweredOn then refused vc op_PowerOn s
      else refused vc (if desired = PoweredOff then op_PowerOff else op_Suspend)
             (if behavior = PowerOpBehaviorHard then s else snd (guest_run vc timeout desired s)))"

lemma laws_properties:
  assumes "power_laws vc pst" and "vc_Properties vc ps mo s = Inr mo'" and "''summary.runtime.powerState'' \<in> set ps"
  shows "mo_PowerState mo' = pst s"
  using assms unfolding power_laws_def by blast

lemma hard_op_result:
  assumes "power_laws vc pst" and "doAndWaitOnHardPowerOp vc d op s = (Inr r, s')" and "op_target op (pst s) = d"
  shows "pst s' = d"
    and "r = (if refused vc op s then PowerOpResultNone
              else if d = PoweredOn then PowerOpResultChanged else PowerOpResultChangedHard)"
  using assms
  by (auto simp: doAndWaitOnHardPowerOp_def power_laws_def refused_def
      split: prod.splits task_outcome.splits option.splits if_splits)

lemma soft_op_result:
  assumes "power_laws vc pst" and "doAndWaitOnSoftPowerOp vc t d op s = (Inr r, s')"
  shows "pst s' = d" and "r = PowerOpResultChangedSoft"
  using assms
  by (auto simp: doAndWaitOnSoftPowerOp_def power_laws_def split: prod.splits option.splits)

lemma soft_op_guest_run:
  assumes "doAndWaitOnSoftPowerOp vc t d (if d = PoweredOff then op_ShutdownGuest else op_StandbyGuest) s = (res, s')"
  shows "guest_run vc t d s = (\<not> isl res, s')"
  using assms by (auto simp: doAndWaitOnSoftPowerOp_def guest_run_def split: prod.splits option.splits)

lemma power_op_fns_cases:
  assumes "power_op_fns d b = Inr fns"
  obtains "d = PoweredOn" "fns = (Some op_PowerOn, None)"
  | hard where "d \<noteq> PoweredOn" "b = PowerOpBehaviorHard" "fns = (Some hard, None)"
      "hard = (if d = PoweredOff then op_PowerOff else op_Suspend)" "\<And>p. op_target hard p = d"
  | "d \<noteq> PoweredOn" "b = PowerOpBehaviorSoft" "fns = (None, Some (if d = PoweredOff then op_ShutdownGuest else op_StandbyGuest))"
  | hard where "d \<noteq> PoweredOn" "b = PowerOpBehaviorTrySoft"
      "fns = (Some hard, Some (if d = PoweredOff then op_ShutdownGuest else op_StandbyGuest))"
      "hard = (if d = PoweredOff then op_PowerOff else op_Suspend)" "\<And>p. op_target hard p = d"
  using assms
  by (auto simp: power_op_fns_def op_target_def PoweredOn_def PoweredOff_def Suspended_def split: if_splits)

lemma behaviors_differ: "PowerOpBehaviorSoft \<noteq> PowerOpBehaviorHard" "PowerOpBehaviorTrySoft \<noteq> PowerOpBehaviorHard"
  by (simp_all add: PowerOpBehaviorSoft_def PowerOpBehaviorTrySoft_def PowerOpBehaviorHard_def)

lemma results_differ:
  "PowerOpResultNone \<noteq> PowerOpResultChangedHard" "PowerOpResultNone \<noteq> PowerOpResultChangedSoft"
  "PowerOpResultChanged \<noteq> PowerOpResultChangedHard" "PowerOpResultChanged \<noteq> PowerOpResultChangedSoft"
  "PowerOpResultChangedHard \<noteq> PowerOpResultChangedSoft"
  by (simp_all add: PowerOpResultNone_def PowerOpResultChanged_def PowerOpResultChangedHard_def PowerOpResultChangedSoft_def)

lemmas power_spec_simps = set_power_spec_def hard_refused_def guest_succeeds_def behaviors_differ results_differ
  results_differ [symmetric]

text \<open>
  C11. Setting the power state refines the abstract operation, on a vSphere that keeps its documented behaviour and
  from a power state that is read or known to be current. When it returns without an error, the VM is in the
  desired state. No change is reported exactly when the VM had that state, at the time it was read or at the time
  a hard operation was refused for that reason. Otherwise the result is a change for a power on, a soft change when
  the guest brought the VM into the state and a hard one when it did not; the behaviour allows the kind reported.
\<close>

theorem setPowerState_refines:
  assumes laws: "power_laws vc pst" and known: "mo_PowerState mo = [] \<or> fetch \<or> mo_PowerState mo = pst s"
    and run: "setPowerState vc timeout mo fetch desired behavior s = (Inr r, s')"
  shows "set_power_spec desired behavior (pst s = desired \<or> hard_refused vc timeout desired behavior s)
    (guest_succeeds vc timeout desired behavior s) r (pst s')"
proof -
  obtain mo1 where mo1: "(if mo_PowerState mo = [] \<or> fetch
      then vc_Properties vc [''summary.runtime.powerState''] mo s else Inr mo) = Inr mo1"
    using run by (auto simp: setPowerState_def split: sum.splits)
  then have current: "mo_PowerState mo1 = pst s"
    using laws_properties [OF laws] known by (auto split: if_splits)
  show ?thesis
  proof (cases "pst s = desired")
    case True
    then show ?thesis using run mo1 current by (simp add: setPowerState_def set_power_spec_def results_differ)
  next
    case False
    note run' = run [unfolded setPowerState_def mo1, simplified, simplified current False, simplified]
    obtain fns where fns: "power_op_fns desired behavior = Inr fns" using run' False by (auto split: sum.splits)
    from fns show ?thesis
    proof (cases rule: power_op_fns_cases)
      case 1
      then have hard: "doAndWaitOnHardPowerOp vc desired op_PowerOn s = (Inr r, s')" using run' fns False by simp
      with hard_op_result [OF laws hard] 1 False show ?thesis
        by (simp add: power_spec_simps op_target_def)
    next
      case (2 hard)
      then have "doAndWaitOnHardPowerOp vc desired hard s = (Inr r, s')" using run' fns False by simp
      from hard_op_result [OF laws this 2(5)] 2 False show ?thesis
        by (simp add: power_spec_simps)
    next
      case 3
      then have soft: "doAndWaitOnSoftPowerOp vc timeout desired (if desired = PoweredOff then op_ShutdownGuest else op_StandbyGuest) s =
          (Inr r, s')" using run' fns False by simp
      from soft_op_result [OF laws soft] soft_op_guest_run [OF soft] 3 False show ?thesis
        by (simp add: power_spec_simps)
    next
      case (4 hard)
      obtain res s1 where soft: "doAndWaitOnSoftPowerOp vc timeout desired
          (if desired = PoweredOff then op_ShutdownGuest else op_StandbyGuest) s = (res, s1)" by fastforce
      note guest = soft_op_guest_run [OF soft]
      show ?thesis
      proof (cases res)
        case (Inr r1)
        then have "r1 = r" "s1 = s'" using run' fns 4(1-3) soft False by auto
        with soft_op_result [OF laws soft [unfolded Inr]] guest Inr 4 False show ?thesis
          by (simp add: power_spec_simps)
      next
        case (Inl err)
        then have "doAndWaitOnHardPowerOp vc desired hard s1 = (Inr r, s')" using run' fns 4(1-3) soft False by simp
        from hard_op_result [OF laws this 4(5)] guest Inl 4 False show ?thesis
          by (simp add: power_spec_simps)
      qed
    qed
  qed
qed

section \<open>Restarting at most once\<close>

lemma ParseInt64_show_int:
  assumes "is_int64 n"
  shows "ParseInt64 (show_int n) = Some n"
proof (cases "n < 0")
  case True
  with assms show_nat_digits [of "nat (- n)"] show ?thesis
    by (simp add: ParseInt64_def show_int_def read_show_nat)
next
  case False
  obtain c cs where digits: "show_nat (nat n) = c # cs" using show_nat_digits [of "nat n"] by (cases "show_nat (nat n)") auto
  then have "c \<in> set ''0123456789''" using show_nat_digits [of "nat n"] by simp
  then have "c \<noteq> CHR ''-''" "c \<noteq> CHR ''+''" by auto
  moreover have "int (read_digits 0 (c # cs)) = n" using False read_show_nat [of "nat n"] by (simp add: digits)
  ultimately show ?thesis
    using assms False show_nat_digits [of "nat n"] by (simp add: ParseInt64_def show_int_def digits del: read_digits.simps)
qed

text \<open>
  The documented behaviour of vSphere that restarts rely on: the properties give the extra configuration
  of the VM, and a reconfiguration that succeeds sets the option it was given.
\<close>

definition extra_config_laws :: "'s vsphere \<Rightarrow> ('s \<Rightarrow> OptionValue option list) \<Rightarrow> bool" where
  "extra_config_laws vc extra \<longleftrightarrow>
     (\<forall>ps mo s mo'. vc_Properties vc ps mo s = Inr mo' \<and> ''config.extraConfig'' \<in> set ps \<longrightarrow>
        mo_ExtraConfig mo' = Some (extra s)) \<and>
     (\<forall>ov skip s s'. vc_Reconfigure vc ov skip s = (TaskDone, s') \<longrightarrow>
        (\<exists>before after. extra s' = before @ Some ov # after \<and>
           list_all (\<lambda>o'. case o' of None \<Rightarrow> True | Some o' \<Rightarrow> ov_Key o' \<noteq> ov_Key ov) before))"

lemma laws_reconfigure:
  assumes "extra_config_laws vc extra" and "vc_Reconfigure vc ov skip s = (TaskDone, s')"
  obtains before after where "extra s' = before @ Some ov # after"
    and "list_all (\<lambda>o'. case o' of None \<Rightarrow> True | Some o' \<Rightarrow> ov_Key o' \<noteq> ov_Key ov) before"
  using assms unfolding extra_config_laws_def by blast

lemma recorded_restart_time:
  assumes "list_all (\<lambda>o'. case o' of None \<Rightarrow> True | Some o' \<Rightarrow> ov_Key o' \<noteq> ExtraConfigKeyLastRestartTime) before"
    and "is_int64 t" and "t \<noteq> 0"
  shows "GetLastRestartTimeFromExtraConfig
    (before @ Some \<lparr>ov_Key = ExtraConfigKeyLastRestartTime, ov_Value = StringValue (show_int t)\<rparr> # after) = Inr (Some t)"
  using assms by (induction before) (auto simp: ParseInt64_show_int Let_def split: option.splits)

lemma restart_records:
  assumes laws: "extra_config_laws vc extra" and t: "is_int64 t" "t \<noteq> 0"
    and run: "restart vc timeout ecc now mo fetch t behavior s = ((r, None), s')" and "PowerOpResult_AnyChange r"
  shows "GetLastRestartTimeFromExtraConfig (extra s') = Inr (Some t)"
proof -
  let ?ov = "\<lparr>ov_Key = ExtraConfigKeyLastRestartTime, ov_Value = StringValue (show_int t)\<rparr>"
  have "\<not> PowerOpResult_AnyChange 0" "\<not> PowerOpResult_AnyChange PowerOpResultNone"
    by (simp_all add: PowerOpResult_AnyChange_def PowerOpResultChanged_def PowerOpResultNone_def)
  with run assms(5) obtain s1 where "setLastRestartTimeInExtraConfigAndWait vc ecc t s1 = (None, s')"
    by (auto simp: restart_def Let_def split: sum.splits option.splits if_splits prod.splits)
  then have "vc_Reconfigure vc ?ov ecc s1 = (TaskDone, s')"
    by (auto simp: setLastRestartTimeInExtraConfigAndWait_def split: prod.splits task_outcome.splits)
  from laws_reconfigure [OF laws this] obtain before after where extra: "extra s' = before @ Some ?ov # after"
      and before: "list_all (\<lambda>o'. case o' of None \<Rightarrow> True | Some o' \<Rightarrow> ov_Key o' \<noteq> ov_Key ?ov) before" by blast
  show ?thesis unfolding extra by (rule recorded_restart_time [OF before [unfolded OptionValue.simps] t])
qed

text \<open>
  C19. A restart is carried out at most once: after a restart at some time was done and recorded, a request
  to restart at that time or before, with the properties read from vSphere, changes nothing, whatever the
  behaviour and the clock.
\<close>

theorem restart_at_most_once:
  assumes "extra_config_laws vc extra" and "is_int64 t" and "t \<noteq> 0"
    and "restart vc timeout ecc now mo fetch t behavior s = ((r, None), s')" and "PowerOpResult_AnyChange r"
    and "t' \<le> t"
  shows "snd (restart vc timeout' ecc' now' mo' True t' behavior' s') = s' \<and>
    \<not> PowerOpResult_AnyChange (fst (fst (restart vc timeout' ecc' now' mo' True t' behavior' s')))"
proof -
  have none: "\<not> PowerOpResult_AnyChange 0" "\<not> PowerOpResult_AnyChange PowerOpResultNone"
    by (simp_all add: PowerOpResult_AnyChange_def PowerOpResultChanged_def PowerOpResultNone_def)
  have recorded: "GetLastRestartTimeFromExtraConfig (extra s') = Inr (Some t)"
    by (rule restart_records [OF assms(1-5)])
  let ?ps = "restart_properties mo' True"
  have ps: "?ps \<noteq> []" "''config.extraConfig'' \<in> set ?ps" by (simp_all add: restart_properties_def)
  show ?thesis
  proof (cases "vc_Properties vc ?ps mo' s'")
    case (Inl err)
    then show ?thesis using ps none by (simp add: restart_def)
  next
    case (Inr mo1)
    then have "mo_ExtraConfig mo1 = Some (extra s')" using assms(1) ps(2) unfolding extra_config_laws_def by blast
    with Inr ps recorded assms(6) none show ?thesis by (simp add: restart_def)
  qed
qed

section \<open>A vSphere for the witnesses\<close>

text \<open>A simulated VM: its power state and its extra configuration; every call succeeds.\<close>

definition sim_vsphere :: "(vim_PowerState \<times> OptionValue option list) vsphere" where
  "sim_vsphere = \<lparr>
     vc_Properties = (\<lambda>ps mo s. Inr \<lparr>mo_PowerState = fst s, mo_ExtraConfig = Some (snd s)\<rparr>),
     vc_Task = (\<lambda>op s. (TaskDone, (op_target op (fst s), snd s))),
     vc_Guest = (\<lambda>t op s. (Some (''no tools'', False), s)),
     vc_WaitForPowerState = (\<lambda>t d s. (if fst s = d then None else Some (''waiting'', True), s)),
     vc_Reconfigure = (\<lambda>ov skip s. (TaskDone, (fst s, Some ov # snd s)))\<rparr>"

abbreviation sim_mo :: mo_VirtualMachine where
  "sim_mo \<equiv> \<lparr>mo_PowerState = [], mo_ExtraConfig = None\<rparr>"

lemma sim_power_laws: "power_laws sim_vsphere fst"
  by (auto simp: power_laws_def sim_vsphere_def)

lemma sim_extra_config_laws: "extra_config_laws sim_vsphere snd"
proof -
  have "\<exists>before after. Some ov # b = before @ Some ov # after \<and> list_all P before" for ov :: OptionValue and b P
    by (rule exI [of _ "[]"]) simp
  then show ?thesis by (auto simp: extra_config_laws_def sim_vsphere_def)
qed

theorem setPowerState_refines_witness:
  "\<not> hard_refused sim_vsphere None PoweredOff PowerOpBehaviorTrySoft (PoweredOn, []) \<and>
   \<not> guest_succeeds sim_vsphere None PoweredOff PowerOpBehaviorTrySoft (PoweredOn, []) \<and>
   set_power_spec PoweredOff PowerOpBehaviorTrySoft False False PowerOpResultChangedHard PoweredOff"
proof -
  have run: "setPowerState sim_vsphere None sim_mo False PoweredOff PowerOpBehaviorTrySoft (PoweredOn, []) =
      (Inr PowerOpResultChangedHard, (PoweredOff, []))"
    by code_simp
  have "\<not> hard_refused sim_vsphere None PoweredOff PowerOpBehaviorTrySoft (PoweredOn, [])"
    "\<not> guest_succeeds sim_vsphere None PoweredOff PowerOpBehaviorTrySoft (PoweredOn, [])" "PoweredOn \<noteq> PoweredOff"
    by code_simp+
  then show ?thesis using setPowerState_refines [OF sim_power_laws _ run] by simp
qed

theorem restart_at_most_once_witness:
  "snd (restart sim_vsphere None False 2000 sim_mo True 900 PowerOpBehaviorHard
      (PoweredOn, [Some \<lparr>ov_Key = ExtraConfigKeyLastRestartTime, ov_Value = StringValue ''1000''\<rparr>])) =
   (PoweredOn, [Some \<lparr>ov_Key = ExtraConfigKeyLastRestartTime, ov_Value = StringValue ''1000''\<rparr>])"
proof -
  have run: "restart sim_vsphere None False 2000 sim_mo True 1000 PowerOpBehaviorTrySoft (PoweredOn, []) =
      ((PowerOpResultChangedHard, None),
       (PoweredOn, [Some \<lparr>ov_Key = ExtraConfigKeyLastRestartTime, ov_Value = StringValue ''1000''\<rparr>]))"
    by code_simp
  have "is_int64 1000" "(1000 :: int) \<noteq> 0" "PowerOpResult_AnyChange PowerOpResultChangedHard" "(900 :: int) \<le> 1000"
    by code_simp+
  with restart_at_most_once [OF sim_extra_config_laws _ _ run] show ?thesis by blast
qed

end
