(* ===== verification/Devices.thy ===== *)
theory Devices
  imports VMOp_Prelude
begin

text \<open>
  Virtual devices and device changes, as far as the code for controllers and disks reads and writes them. The
  types are those of the vSphere API (\<^verbatim>\<open>vimtypes\<close>): a device is one case of the type switches of the code. A nil
  entry of the device changes and an entry without a device are \<^verbatim>\<open>None\<close>.
\<close>

datatype controller_kind = ParaVirtualSCSIController | VirtualBusLogicController | VirtualLsiLogicController
  | VirtualLsiLogicSASController | VirtualSCSIController | VirtualSATAController | VirtualAHCIController
  | VirtualNVMEController | VirtualIDEController

text \<open>The fields of a controller other than its key and its bus number; a kind without the field has the zero value.\<close>

record controller_info =
  ctl_ControllerKey :: int
  ctl_SharedBus :: string
  ctl_HotAddRemove :: "bool option"

datatype device =
    VirtualPCIController (dev_key: int)
  | DiskController controller_kind (dev_key: int) int controller_info
  | VirtualDisk (dev_key: int) int "int option"
  | OtherDevice (dev_key: int)

record device_change =
  dvc_Operation :: string
  dvc_Device :: "device option"

definition OperationAdd :: string where "OperationAdd = ''add''"

definition OperationRemove :: string where "OperationRemove = ''remove''"

definition OperationEdit :: string where "OperationEdit = ''edit''"

lemma Operation_distinct [simp]:
  "OperationAdd \<noteq> OperationRemove" "OperationAdd \<noteq> OperationEdit" "OperationRemove \<noteq> OperationEdit"
  "OperationRemove \<noteq> OperationAdd" "OperationEdit \<noteq> OperationAdd" "OperationEdit \<noteq> OperationRemove"
  by (simp_all add: OperationAdd_def OperationRemove_def OperationEdit_def)

type_synonym device_changes = "device_change option list"

definition VirtualSCSISharingNoSharing :: string where "VirtualSCSISharingNoSharing = ''noSharing''"

definition VirtualSCSISharingPhysicalSharing :: string where "VirtualSCSISharingPhysicalSharing = ''physicalSharing''"

definition VirtualSCSISharingVirtualSharing :: string where "VirtualSCSISharingVirtualSharing = ''virtualSharing''"

definition VirtualNVMEControllerSharingNoSharing :: string where "VirtualNVMEControllerSharingNoSharing = ''noSharing''"

definition VirtualNVMEControllerSharingPhysicalSharing :: string where
  "VirtualNVMEControllerSharingPhysicalSharing = ''physicalSharing''"

end
