(* ===== verification/Disk_Controllers.thy ===== *)
theory Disk_Controllers
  imports Devices
begin

text \<open>
  Controllers for the disks of a ConfigSpec, \<^verbatim>\<open>pkg/util/ensure_disk_controller.go\<close>. Pointers to the disks of the
  ConfigSpec are indices into its device changes. The code changes disks in place even when it then fails, so that the changed device changes are
  part of every result; a panic is the value \<^verbatim>\<open>None\<close>. Device keys are integers: the decrement of the next key
  does not reach the end of the \<^verbatim>\<open>int32\<close> range in any ConfigSpec of fewer than two billion devices.
\<close>

section \<open>Bus numbers and unit numbers\<close>

definition maxSCSIControllers :: nat where "maxSCSIControllers = 4"

definition maxSATAControllers :: nat where "maxSATAControllers = 4"

definition maxNVMEControllers :: nat where "maxNVMEControllers = 4"

definition maxDisksPerSCSIController :: int where "maxDisksPerSCSIController = 16"

definition maxDisksPerSATAController :: int where "maxDisksPerSATAController = 30"

definition maxDisksPerNVMEController :: int where "maxDisksPerNVMEController = 15"

definition maxDisksPerIDEController :: int where "maxDisksPerIDEController = 2"

record ensureDiskControllerBusNumbers =
  bus_zero :: bool
  bus_one :: bool
  bus_two :: bool

definition BusNumbers_free :: "ensureDiskControllerBusNumbers \<Rightarrow> int" where
  "BusNumbers_free d = (if \<not> bus_zero d then 0 else if \<not> bus_one d then 1 else if \<not> bus_two d then 2 else 3)"

definition BusNumbers_set :: "int \<Rightarrow> ensureDiskControllerBusNumbers \<Rightarrow> ensureDiskControllerBusNumbers" where
  "BusNumbers_set busNumber d =
     (if busNumber = 0 then d\<lparr>bus_zero := True\<rparr>
      else if busNumber = 1 then d\<lparr>bus_one := True\<rparr>
      else if busNumber = 2 then d\<lparr>bus_two := True\<rparr>
      else d)"

text \<open>\<^verbatim>\<open>dev\<close> is only compared with nil.\<close>

record diskController =
  dc_dev :: bool
  dc_curUN :: int
  dc_maxUN :: int
  dc_reservedUN :: "int set"

definition diskController_zero :: diskController where
  "diskController_zero = \<lparr>dc_dev = False, dc_curUN = 0, dc_maxUN = 0, dc_reservedUN = {}\<rparr>"

definition reserveUnitNumber :: "int \<Rightarrow> diskController \<Rightarrow> diskController" where
  "reserveUnitNumber unitNumber dc = dc\<lparr>dc_reservedUN := insert unitNumber (dc_reservedUN dc)\<rparr>"

definition nextUnitNumber :: "diskController \<Rightarrow> int option \<times> diskController" where
  "nextUnitNumber dc =
     (case List.find (\<lambda>un. un \<notin> dc_reservedUN dc) [dc_curUN dc..dc_maxUN dc - 1] of
        None \<Rightarrow> (None, dc)
      | Some un \<Rightarrow> (Some un, dc\<lparr>dc_curUN := un + 1\<rparr>))"

section \<open>The recorded controllers\<close>

record ensureDiskControllerData =
  keyToDiskControllers :: "int \<rightharpoonup> diskController"
  scsiBusNumbers :: ensureDiskControllerBusNumbers
  pvSCSIControllerKeys :: "int list"
  busLogicSCSIControllerKeys :: "int list"
  lsiLogicControllerKeys :: "int list"
  lsiLogicSASControllerKeys :: "int list"
  scsiControllerKeys :: "int list"
  sataBusNumbers :: ensureDiskControllerBusNumbers
  sataControllerKeys :: "int list"
  ahciControllerKeys :: "int list"
  nvmeBusNumbers :: ensureDiskControllerBusNumbers
  nvmeControllerKeys :: "int list"
  ideBusNumbers :: ensureDiskControllerBusNumbers
  ideControllerKeys :: "int list"

definition BusNumbers_zero :: ensureDiskControllerBusNumbers where
  "BusNumbers_zero = \<lparr>bus_zero = False, bus_one = False, bus_two = False\<rparr>"

definition data_zero :: ensureDiskControllerData where
  "data_zero = \<lparr>keyToDiskControllers = Map.empty, scsiBusNumbers = BusNumbers_zero, pvSCSIControllerKeys = [],
     busLogicSCSIControllerKeys = [], lsiLogicControllerKeys = [], lsiLogicSASControllerKeys = [], scsiControllerKeys = [],
     sataBusNumbers = BusNumbers_zero, sataControllerKeys = [], ahciControllerKeys = [],
     nvmeBusNumbers = BusNumbers_zero, nvmeControllerKeys = [], ideBusNumbers = BusNumbers_zero, ideControllerKeys = []\<rparr>"

definition numSCSIControllers :: "ensureDiskControllerData \<Rightarrow> nat" where
  "numSCSIControllers d = length (pvSCSIControllerKeys d) + length (busLogicSCSIControllerKeys d) +
     length (lsiLogicControllerKeys d) + length (lsiLogicSASControllerKeys d) + length (scsiControllerKeys d)"

definition numSATAControllers :: "ensureDiskControllerData \<Rightarrow> nat" where
  "numSATAControllers d = length (sataControllerKeys d) + length (ahciControllerKeys d)"

definition numNVMEControllers :: "ensureDiskControllerData \<Rightarrow> nat" where
  "numNVMEControllers d = length (nvmeControllerKeys d)"

definition validateAttachments :: "ensureDiskControllerData \<Rightarrow> ensureDiskControllerData" where
  "validateAttachments d =
     d\<lparr>keyToDiskControllers := (\<lambda>key. case keyToDiskControllers d key of
         None \<Rightarrow> None
       | Some dc \<Rightarrow> if \<not> dc_dev dc then None else Some dc)\<rparr>"

definition controller_exists :: "ensureDiskControllerData \<Rightarrow> int \<Rightarrow> bool" where
  "controller_exists d key \<longleftrightarrow> keyToDiskControllers d key \<noteq> None"

abbreviation entry :: "ensureDiskControllerData \<Rightarrow> int \<Rightarrow> diskController" where
  "entry d key \<equiv> case keyToDiskControllers d key of None \<Rightarrow> diskController_zero | Some dc \<Rightarrow> dc"

definition kind_max :: "controller_kind \<Rightarrow> int" where
  "kind_max kind =
     (case kind of
        VirtualSATAController \<Rightarrow> maxDisksPerSATAController
      | VirtualAHCIController \<Rightarrow> maxDisksPerSATAController
      | VirtualNVMEController \<Rightarrow> maxDisksPerNVMEController
      | VirtualIDEController \<Rightarrow> maxDisksPerIDEController
      | _ \<Rightarrow> maxDisksPerSCSIController)"

definition data_add :: "controller_kind \<Rightarrow> int \<Rightarrow> int \<Rightarrow> ensureDiskControllerData \<Rightarrow> ensureDiskControllerData" where
  "data_add kind key busNumber d =
     (let d = d\<lparr>keyToDiskControllers := (keyToDiskControllers d)(key \<mapsto> (entry d key)\<lparr>dc_dev := True, dc_maxUN := kind_max kind\<rparr>)\<rparr>
      in case kind of
           ParaVirtualSCSIController \<Rightarrow>
             d\<lparr>pvSCSIControllerKeys := pvSCSIControllerKeys d @ [key], scsiBusNumbers := BusNumbers_set busNumber (scsiBusNumbers d)\<rparr>
         | VirtualBusLogicController \<Rightarrow>
             d\<lparr>busLogicSCSIControllerKeys := busLogicSCSIControllerKeys d @ [key],
               scsiBusNumbers := BusNumbers_set busNumber (scsiBusNumbers d)\<rparr>
         | VirtualLsiLogicController \<Rightarrow>
             d\<lparr>lsiLogicControllerKeys := lsiLogicControllerKeys d @ [key],
               scsiBusNumbers := BusNumbers_set busNumber (scsiBusNumbers d)\<rparr>
         | VirtualLsiLogicSASController \<Rightarrow>
             d\<lparr>lsiLogicSASControllerKeys := lsiLogicSASControllerKeys d @ [key],
               scsiBusNumbers := BusNumbers_set busNumber (scsiBusNumbers d)\<rparr>
         | VirtualSCSIController \<Rightarrow>
             d\<lparr>scsiControllerKeys := scsiControllerKeys d @ [key], scsiBusNumbers := BusNumbers_set busNumber (scsiBusNumbers d)\<rparr>
         | VirtualSATAController \<Rightarrow>
             d\<lparr>sataControllerKeys := sataControllerKeys d @ [key], sataBusNumbers := BusNumbers_set busNumber (sataBusNumbers d)\<rparr>
         | VirtualAHCIController \<Rightarrow>
             d\<lparr>ahciControllerKeys := ahciControllerKeys d @ [key], sataBusNumbers := BusNumbers_set busNumber (sataBusNumbers d)\<rparr>
         | VirtualNVMEController \<Rightarrow>
             d\<lparr>nvmeControllerKeys := nvmeControllerKeys d @ [key], nvmeBusNumbers := BusNumbers_set busNumber (nvmeBusNumbers d)\<rparr>
         | VirtualIDEController \<Rightarrow>
             d\<lparr>ideControllerKeys := ideControllerKeys d @ [key], ideBusNumbers := BusNumbers_set busNumber (ideBusNumbers d)\<rparr>)"

definition data_addDisk :: "int \<Rightarrow> int option \<Rightarrow> ensureDiskControllerData \<Rightarrow> ensureDiskControllerData" where
  "data_addDisk controllerKey unitNumber d =
     (let dc = entry d controllerKey;
          dc = (case unitNumber of None \<Rightarrow> dc | Some u \<Rightarrow> reserveUnitNumber u dc)
      in d\<lparr>keyToDiskControllers := (keyToDiskControllers d)(controllerKey \<mapsto> dc)\<rparr>)"

definition getNextUnitNumber :: "int \<Rightarrow> ensureDiskControllerData \<Rightarrow> int option \<times> ensureDiskControllerData" where
  "getNextUnitNumber controllerKey d =
     (case keyToDiskControllers d controllerKey of
        None \<Rightarrow> (None, d)
      | Some dc \<Rightarrow>
          (case nextUnitNumber dc of (un, dc) \<Rightarrow>
             (un, d\<lparr>keyToDiskControllers := (keyToDiskControllers d)(controllerKey \<mapsto> dc)\<rparr>)))"

section \<open>Inspecting the devices\<close>

record inspected =
  ins_disks :: "nat list"
  ins_newDeviceKey :: int
  ins_pci :: "int option"
  ins_data :: ensureDiskControllerData

definition inspect_change :: "nat \<times> device_change option \<Rightarrow> inspected \<Rightarrow> inspected" where
  "inspect_change ic st =
     (case ic of (i, dc) \<Rightarrow>
      case dc of
        None \<Rightarrow> st
      | Some dc \<Rightarrow>
          if dvc_Operation dc = OperationRemove then st
          else case dvc_Device dc of
            None \<Rightarrow> st
          | Some d \<Rightarrow>
              let st = (case d of
                    VirtualPCIController key \<Rightarrow> st\<lparr>ins_pci := Some key\<rparr>
                  | DiskController kind key bus ctrl \<Rightarrow> st\<lparr>ins_data := data_add kind key bus (ins_data st)\<rparr>
                  | VirtualDisk key controllerKey unitNumber \<Rightarrow>
                      let st = st\<lparr>ins_disks := ins_disks st @ [i]\<rparr>
                      in if controllerKey \<noteq> 0 then st\<lparr>ins_data := data_addDisk controllerKey unitNumber (ins_data st)\<rparr> else st
                  | OtherDevice key \<Rightarrow> st)
              in if dev_key d < ins_newDeviceKey st then st\<lparr>ins_newDeviceKey := dev_key d\<rparr> else st)"

definition inspect_existing :: "device option \<Rightarrow> inspected \<Rightarrow> inspected" where
  "inspect_existing bvd st =
     (case bvd of
        None \<Rightarrow> st
      | Some (VirtualPCIController key) \<Rightarrow> st\<lparr>ins_pci := Some key\<rparr>
      | Some (DiskController kind key bus ctrl) \<Rightarrow>
          if kind = VirtualIDEController then st else st\<lparr>ins_data := data_add kind key bus (ins_data st)\<rparr>
      | Some (VirtualDisk key controllerKey unitNumber) \<Rightarrow>
          st\<lparr>ins_data := data_addDisk controllerKey unitNumber (ins_data st)\<rparr>
      | Some (OtherDevice key) \<Rightarrow> st)"

section \<open>Assigning disks\<close>

definition disk_at :: "device_changes \<Rightarrow> nat \<Rightarrow> (int \<times> int option) option" where
  "disk_at dcs k =
     (case dcs ! k of
        Some dc \<Rightarrow> (case dvc_Device dc of Some (VirtualDisk key ctrl un) \<Rightarrow> Some (ctrl, un) | _ \<Rightarrow> None)
      | None \<Rightarrow> None)"

definition set_disk :: "nat \<Rightarrow> int \<Rightarrow> int \<Rightarrow> device_changes \<Rightarrow> device_changes" where
  "set_disk k controllerKey unitNumber dcs =
     dcs[k := map_option (\<lambda>dc. dc\<lparr>dvc_Device := map_option (\<lambda>d. VirtualDisk (dev_key d) controllerKey (Some unitNumber))
       (dvc_Device dc)\<rparr>) (dcs ! k)]"

text \<open>
  The loop that gives unit numbers to disks with a controller and collects the others; it ends with an error
  when a controller is full.
\<close>

fun allocate_loop :: "nat list \<Rightarrow> ensureDiskControllerData \<Rightarrow> device_changes \<Rightarrow>
    (goerror + nat list) \<times> ensureDiskControllerData \<times> device_changes" where
  "allocate_loop [] d dcs = (Inr [], d, dcs)"
| "allocate_loop (k # ks) d dcs =
     (case disk_at dcs k of
        None \<Rightarrow> allocate_loop ks d dcs
      | Some (controllerKey, unitNumber) \<Rightarrow>
          if \<not> controller_exists d controllerKey then
            (case allocate_loop ks d dcs of (rest, d, dcs) \<Rightarrow> (map_sum id (\<lambda>ks. k # ks) rest, d, dcs))
          else if unitNumber = None then
            (case getNextUnitNumber controllerKey d of
               (None, d) \<Rightarrow> (Inl (''no available unit number for controller key '' @ show_int controllerKey), d, dcs)
             | (Some un, d) \<Rightarrow> allocate_loop ks d (set_disk k controllerKey un dcs))
          else allocate_loop ks d dcs)"

fun ensureDiskControllerFindWith :: "nat \<Rightarrow> int list \<Rightarrow> ensureDiskControllerData \<Rightarrow> device_changes \<Rightarrow>
    bool \<times> ensureDiskControllerData \<times> device_changes" where
  "ensureDiskControllerFindWith k [] d dcs = (False, d, dcs)"
| "ensureDiskControllerFindWith k (controllerKey # controllerKeys) d dcs =
     (case getNextUnitNumber controllerKey d of
        (Some un, d) \<Rightarrow> (True, d, set_disk k controllerKey un dcs)
      | (None, d) \<Rightarrow> ensureDiskControllerFindWith k controllerKeys d dcs)"

text \<open>
  The disjunction of the searches by type, in order of preference: a search that fails does not change the
  recorded controllers, so that the keys of the next one may be read beforehand.
\<close>

definition preferred_keys :: "ensureDiskControllerData \<Rightarrow> int list list" where
  "preferred_keys d = [pvSCSIControllerKeys d, busLogicSCSIControllerKeys d, lsiLogicControllerKeys d,
     lsiLogicSASControllerKeys d, scsiControllerKeys d, sataControllerKeys d, ahciControllerKeys d,
     nvmeControllerKeys d, ideControllerKeys d]"

fun find_by_type :: "nat \<Rightarrow> int list list \<Rightarrow> ensureDiskControllerData \<Rightarrow> device_changes \<Rightarrow>
    bool \<times> ensureDiskControllerData \<times> device_changes" where
  "find_by_type k [] d dcs = (False, d, dcs)"
| "find_by_type k (keys # rest) d dcs =
     (case ensureDiskControllerFindWith k keys d dcs of
        (True, d, dcs) \<Rightarrow> (True, d, dcs)
      | (False, d, dcs) \<Rightarrow> find_by_type k rest d dcs)"

definition ensureDiskControllerFind :: "nat \<Rightarrow> ensureDiskControllerData \<Rightarrow> device_changes \<Rightarrow>
    bool \<times> ensureDiskControllerData \<times> device_changes" where
  "ensureDiskControllerFind k d dcs = find_by_type k (preferred_keys d) d dcs"

definition ensureDiskControllerCreate :: "int \<Rightarrow> int \<Rightarrow> ensureDiskControllerData \<Rightarrow> device_changes \<Rightarrow>
    goerror + (ensureDiskControllerData \<times> device_changes)" where
  "ensureDiskControllerCreate pciKey newDeviceKey d dcs =
     (let new = (\<lambda>kind bus sharedBus hotAddRemove. Inr (data_add kind newDeviceKey bus d,
            dcs @ [Some \<lparr>dvc_Operation = OperationAdd, dvc_Device = Some (DiskController kind newDeviceKey bus
              \<lparr>ctl_ControllerKey = pciKey, ctl_SharedBus = sharedBus, ctl_HotAddRemove = hotAddRemove\<rparr>)\<rparr>]))
      in if numSCSIControllers d < maxSCSIControllers
         then new ParaVirtualSCSIController (BusNumbers_free (scsiBusNumbers d)) VirtualSCSISharingNoSharing (Some True)
         else if numSATAControllers d < maxSATAControllers
         then new VirtualAHCIController (BusNumbers_free (sataBusNumbers d)) [] None
         else if numNVMEControllers d < maxNVMEControllers
         then new VirtualNVMEController (BusNumbers_free (nvmeBusNumbers d)) VirtualNVMEControllerSharingNoSharing None
         else Inl ''no controllers available'')"

text \<open>The loop over the disks without a controller; \<^verbatim>\<open>None\<close> is the panic of \<^verbatim>\<open>mustGetNextUnitNumber\<close>.\<close>

fun place_loop :: "nat list \<Rightarrow> int \<Rightarrow> int \<Rightarrow> ensureDiskControllerData \<Rightarrow> device_changes \<Rightarrow>
    (goerror option \<times> device_changes) option" where
  "place_loop [] pciKey newDeviceKey d dcs = Some (None, dcs)"
| "place_loop (k # ks) pciKey newDeviceKey d dcs =
     (case ensureDiskControllerFind k d dcs of
        (True, d, dcs) \<Rightarrow> place_loop ks pciKey newDeviceKey d dcs
      | (False, d, dcs) \<Rightarrow>
          (case ensureDiskControllerCreate pciKey newDeviceKey d dcs of
             Inl err \<Rightarrow> Some (Some err, dcs)
           | Inr (d, dcs) \<Rightarrow>
               (case getNextUnitNumber newDeviceKey d of
                  (None, d) \<Rightarrow> None
                | (Some un, d) \<Rightarrow> place_loop ks pciKey (newDeviceKey - 1) d (set_disk k newDeviceKey un dcs))))"

definition add_pci :: "int option \<Rightarrow> int \<Rightarrow> device_changes \<Rightarrow> int \<times> int \<times> device_changes" where
  "add_pci pci newDeviceKey dcs =
     (case pci of
        Some key \<Rightarrow> (key, newDeviceKey, dcs)
      | None \<Rightarrow> (newDeviceKey, newDeviceKey - 1,
          dcs @ [Some \<lparr>dvc_Operation = OperationAdd, dvc_Device = Some (VirtualPCIController newDeviceKey)\<rparr>]))"

definition EnsureDisksHaveControllers ::
    "device_changes option \<Rightarrow> device option list \<Rightarrow> (goerror option \<times> device_changes option) option" where
  "EnsureDisksHaveControllers configSpec existingDevices =
     (case configSpec of
        None \<Rightarrow> Some (Some ''configSpec is nil'', None)
      | Some dcs \<Rightarrow>
          let st = fold inspect_change (enumerate 0 dcs)
                \<lparr>ins_disks = [], ins_newDeviceKey = 0, ins_pci = None, ins_data = data_zero\<rparr>
          in if ins_disks st = [] then Some (None, Some dcs)
             else
               let st = fold inspect_existing existingDevices st
               in case add_pci (ins_pci st) (ins_newDeviceKey st - 1) dcs of (pciKey, newDeviceKey, dcs) \<Rightarrow>
                    (case allocate_loop (ins_disks st) (validateAttachments (ins_data st)) dcs of
                       (Inl err, d, dcs) \<Rightarrow> Some (Some err, Some dcs)
                     | (Inr disksWithoutController, d, dcs) \<Rightarrow>
                         map_option (\<lambda>(err, dcs). (err, Some dcs))
                           (place_loop disksWithoutController pciKey newDeviceKey d dcs)))"

end
