(* ===== verification/Disk_Placement.thy ===== *)
theory Disk_Placement
  imports Disk_Controllers
begin

text \<open>
  What \<^verbatim>\<open>EnsureDisksHaveControllers\<close> guarantees: every disk of the ConfigSpec gets a controller and a unit
  number that no other disk has, the search prefers controllers in the documented order, and no call panics.
\<close>

section \<open>Recorded controllers\<close>

lemma keyToDiskControllers_add [simp]:
  "keyToDiskControllers (data_add kind key bus d) =
     (keyToDiskControllers d)(key \<mapsto> (entry d key)\<lparr>dc_dev := True, dc_maxUN := kind_max kind\<rparr>)"
  by (simp add: data_add_def Let_def split: controller_kind.split)

lemma keyToDiskControllers_addDisk [simp]:
  "keyToDiskControllers (data_addDisk c un d) =
     (keyToDiskControllers d)(c \<mapsto> (case un of None \<Rightarrow> entry d c | Some u \<Rightarrow> reserveUnitNumber u (entry d c)))"
  by (simp add: data_addDisk_def Let_def)

text \<open>The number of units of a controller of each type: 2 for IDE, 15 for NVMe, 30 for SATA and AHCI, 16 for SCSI.\<close>

fun unit_limit :: "controller_kind \<Rightarrow> int" where
  "unit_limit VirtualIDEController = 2"
| "unit_limit VirtualNVMEController = 15"
| "unit_limit VirtualSATAController = 30"
| "unit_limit VirtualAHCIController = 30"
| "unit_limit kind = 16"

lemma kind_max_limit: "kind_max kind = unit_limit kind"
  by (cases kind) (simp_all add: kind_max_def maxDisksPerSCSIController_def maxDisksPerSATAController_def maxDisksPerNVMEController_def
      maxDisksPerIDEController_def)

lemma unit_limit_pos: "0 < unit_limit kind"
  by (cases kind) simp_all

text \<open>Controllers \<^verbatim>\<open>C\<close>, with their numbers of units, and slots \<^verbatim>\<open>R\<close> recorded while inspecting, before any unit number is given out.\<close>

definition data_inv :: "(int \<times> int) set \<Rightarrow> (int \<times> int) set \<Rightarrow> ensureDiskControllerData \<Rightarrow> bool" where
  "data_inv C R d \<longleftrightarrow>
     (\<forall>c dc. keyToDiskControllers d c = Some dc \<longrightarrow>
        dc_curUN dc = 0 \<and> (dc_dev dc \<longrightarrow> (c, dc_maxUN dc) \<in> C)) \<and>
     (\<forall>(c, u) \<in> R. \<exists>dc. keyToDiskControllers d c = Some dc \<and> u \<in> dc_reservedUN dc)"

lemma data_inv_zero: "data_inv {} {} data_zero"
  by (simp add: data_inv_def data_zero_def)

lemma data_inv_add: "data_inv C R d \<Longrightarrow> data_inv (insert (key, unit_limit kind) C) R (data_add kind key bus d)"
  by (fastforce simp: data_inv_def kind_max_limit diskController_zero_def split: option.splits if_splits)

lemma data_inv_addDisk:
  assumes "data_inv C R d"
  shows "data_inv C (R \<union> (\<lambda>u. (c, u)) ` set_option un) (data_addDisk c un d)"
  using assms
  by (fastforce simp: data_inv_def diskController_zero_def reserveUnitNumber_def split: option.splits if_splits)

lemma data_inv_mono: "data_inv C R d \<Longrightarrow> C \<subseteq> C' \<Longrightarrow> data_inv C' R d"
  unfolding data_inv_def by blast

text \<open>The device of a change that is not a removal, and the controllers and disk slots of devices.\<close>

definition change_device :: "device_change option \<Rightarrow> device option" where
  "change_device c = (case c of None \<Rightarrow> None | Some dc \<Rightarrow> if dvc_Operation dc = OperationRemove then None else dvc_Device dc)"

definition controllers :: "device option list \<Rightarrow> (int \<times> int) set" where
  "controllers ds = {(key, m). \<exists>kind bus ctrl. Some (DiskController kind key bus ctrl) \<in> set ds \<and> m = unit_limit kind}"

definition disk_slots :: "device option list \<Rightarrow> (int \<times> int) set" where
  "disk_slots ds = {(c, u). \<exists>key. Some (VirtualDisk key c (Some u)) \<in> set ds}"

definition disk_indices :: "device_changes \<Rightarrow> nat list" where
  "disk_indices dcs = filter (\<lambda>k. \<exists>key c un. change_device (dcs ! k) = Some (VirtualDisk key c un)) [0..<length dcs]"

lemma controllers_Cons: "controllers (d # ds) = controllers [d] \<union> controllers ds"
  by (simp add: controllers_def set_eq_iff) blast

lemma disk_slots_Cons: "disk_slots (d # ds) = disk_slots [d] \<union> disk_slots ds"
  unfolding disk_slots_def by auto

lemma inspect_change_device:
  "inspect_change (i, c) st =
     (case change_device c of
        None \<Rightarrow> st
      | Some d \<Rightarrow>
          let st = (case d of
                VirtualPCIController key \<Rightarrow> st\<lparr>ins_pci := Some key\<rparr>
              | DiskController kind key bus ctrl \<Rightarrow> st\<lparr>ins_data := data_add kind key bus (ins_data st)\<rparr>
              | VirtualDisk key controllerKey unitNumber \<Rightarrow>
                  let st = st\<lparr>ins_disks := ins_disks st @ [i]\<rparr>
                  in if controllerKey \<noteq> 0 then st\<lparr>ins_data := data_addDisk controllerKey unitNumber (ins_data st)\<rparr> else st
              | OtherDevice key \<Rightarrow> st)
          in if dev_key d < ins_newDeviceKey st then st\<lparr>ins_newDeviceKey := dev_key d\<rparr> else st)"
  by (simp add: inspect_change_def change_device_def split: option.split)

text \<open>The invariant of the inspection, over the devices seen so far.\<close>

definition inspect_inv :: "device option list \<Rightarrow> inspected \<Rightarrow> bool" where
  "inspect_inv ds st \<longleftrightarrow>
     data_inv (controllers ds) (disk_slots ds - {0} \<times> UNIV) (ins_data st) \<and>
     ins_newDeviceKey st \<le> 0 \<and> (\<forall>d. Some d \<in> set ds \<longrightarrow> ins_newDeviceKey st \<le> dev_key d)"

lemma inspect_inv_step:
  assumes "inspect_inv ds st"
  shows "inspect_inv (ds @ [change_device c]) (inspect_change (i, c) st)"
proof (cases "change_device c")
  case None
  then show ?thesis using assms
    by (simp add: inspect_change_device inspect_inv_def controllers_def disk_slots_def)
next
  case (Some d)
  have inv: "data_inv (controllers ds) (disk_slots ds - {0} \<times> UNIV) (ins_data st)"
    using assms by (simp add: inspect_inv_def)
  show ?thesis
  proof (cases d)
    case (DiskController kind key bus ctrl)
    then have "controllers (ds @ [Some d]) = insert (key, unit_limit kind) (controllers ds)" "disk_slots (ds @ [Some d]) = disk_slots ds"
      by (auto simp: controllers_def disk_slots_def)
    with data_inv_add [OF inv, of key kind bus] assms show ?thesis
      by (auto simp: inspect_change_device Some DiskController inspect_inv_def Let_def)
  next
    case (VirtualDisk key ctrl un)
    then have sets: "controllers (ds @ [Some d]) = controllers ds"
        "disk_slots (ds @ [Some d]) = disk_slots ds \<union> (\<lambda>u. (ctrl, u)) ` set_option un"
      by (auto simp: controllers_def disk_slots_def)
    have "disk_slots (ds @ [Some d]) - {0} \<times> UNIV =
        (if ctrl = 0 then disk_slots ds - {0} \<times> UNIV else (disk_slots ds - {0} \<times> UNIV) \<union> (\<lambda>u. (ctrl, u)) ` set_option un)"
      unfolding sets by auto
    with data_inv_addDisk [OF inv, of ctrl un] inv sets assms show ?thesis
      by (auto simp: inspect_change_device Some VirtualDisk inspect_inv_def Let_def)
  qed (use assms in \<open>auto simp: inspect_change_device Some inspect_inv_def Let_def controllers_def disk_slots_def\<close>)
qed


lemma inspect_changes:
  "inspect_inv ds st \<Longrightarrow>
     inspect_inv (ds @ map change_device dcs) (fold inspect_change (enumerate i dcs) st) \<and>
     ins_disks (fold inspect_change (enumerate i dcs) st) = ins_disks st @ map (\<lambda>k. k + i) (disk_indices dcs)"
proof (induction dcs arbitrary: i ds st)
  case (Cons c dcs)
  let ?st = "inspect_change (i, c) st"
  have "disk_indices (c # dcs) =
      (if \<exists>key ctrl un. change_device c = Some (VirtualDisk key ctrl un) then [0] else []) @ map Suc (disk_indices dcs)"
    by (simp add: disk_indices_def upt_conv_Cons filter_map comp_def map_Suc_upt [symmetric] del: upt_Suc)
  moreover have "ins_disks ?st = ins_disks st @
      (if \<exists>key ctrl un. change_device c = Some (VirtualDisk key ctrl un) then [i] else [])"
    by (auto simp: inspect_change_device Let_def split: option.split device.split)
  ultimately show ?case
    using Cons.IH [OF inspect_inv_step [OF Cons.prems, of c i], of "Suc i"] by (simp add: comp_def)
qed (simp add: disk_indices_def)

text \<open>The existing controllers that are recorded: all but the IDE ones.\<close>

definition recorded :: "device option \<Rightarrow> device option" where
  "recorded bvd = (case bvd of
     Some (DiskController kind key bus ctrl) \<Rightarrow> if kind = VirtualIDEController then None else bvd
   | _ \<Rightarrow> bvd)"

lemma inspect_existing_step:
  assumes "data_inv C R (ins_data st)"
  shows "data_inv (C \<union> controllers [recorded bvd]) (R \<union> disk_slots [bvd]) (ins_data (inspect_existing bvd st))"
proof (cases bvd)
  case (Some d)
  show ?thesis
  proof (cases d)
    case (DiskController kind key bus ctrl)
    then show ?thesis using assms data_inv_add [OF assms, of key kind bus]
      by (auto simp: Some inspect_existing_def controllers_def disk_slots_def recorded_def)
  next
    case (VirtualDisk key ctrl un)
    then have "disk_slots [bvd] = (\<lambda>u. (ctrl, u)) ` set_option un" by (auto simp: Some disk_slots_def)
    then show ?thesis using data_inv_addDisk [OF assms, of ctrl un] VirtualDisk
      by (simp add: Some inspect_existing_def controllers_def recorded_def)
  qed (use assms in \<open>simp_all add: Some inspect_existing_def controllers_def disk_slots_def recorded_def\<close>)
qed (use assms in \<open>simp add: inspect_existing_def controllers_def disk_slots_def recorded_def\<close>)

lemma inspect_existing_frame [simp]:
  "ins_disks (inspect_existing bvd st) = ins_disks st"
  "ins_newDeviceKey (inspect_existing bvd st) = ins_newDeviceKey st"
  by (auto simp: inspect_existing_def split: option.split device.split)

lemma inspect_existing_all:
  "data_inv C R (ins_data st) \<Longrightarrow>
     data_inv (C \<union> controllers (map recorded ds)) (R \<union> disk_slots ds) (ins_data (fold inspect_existing ds st)) \<and>
     ins_disks (fold inspect_existing ds st) = ins_disks st \<and>
     ins_newDeviceKey (fold inspect_existing ds st) = ins_newDeviceKey st"
proof (induction ds arbitrary: C R st)
  case (Cons bvd ds)
  have "controllers (recorded bvd # map recorded ds) = controllers [recorded bvd] \<union> controllers (map recorded ds)"
      "disk_slots (bvd # ds) = disk_slots [bvd] \<union> disk_slots ds"
    by (rule controllers_Cons, rule disk_slots_Cons)
  with Cons.IH [OF inspect_existing_step [OF Cons.prems, of bvd]] show ?case by (simp add: Un_assoc)
qed (simp add: controllers_def disk_slots_def)

section \<open>Unit numbers\<close>

lemma find_interval:
  "List.find P xs = Some x \<Longrightarrow> x \<in> set xs \<and> P x" for xs :: "int list"
  by (auto simp: find_Some_iff)

lemma getNextUnitNumber_Some:
  assumes "getNextUnitNumber c d = (Some u, d')"
  obtains dc where "keyToDiskControllers d c = Some dc" "dc_curUN dc \<le> u" "u < dc_maxUN dc" "u \<notin> dc_reservedUN dc"
    "d' = d\<lparr>keyToDiskControllers := (keyToDiskControllers d)(c \<mapsto> dc\<lparr>dc_curUN := u + 1\<rparr>)\<rparr>"
  using assms
  by (fastforce simp: getNextUnitNumber_def nextUnitNumber_def split: option.splits dest!: find_interval)

lemma getNextUnitNumber_None: "getNextUnitNumber c d = (None, d') \<Longrightarrow> d' = d"
  by (auto simp: getNextUnitNumber_def nextUnitNumber_def map_upd_triv split: option.splits)

text \<open>A controller with a free unit number is never reported full.\<close>

lemma getNextUnitNumber_full:
  "fst (getNextUnitNumber c d) = None \<longleftrightarrow>
     (\<forall>dc. keyToDiskControllers d c = Some dc \<longrightarrow> (\<forall>u. dc_curUN dc \<le> u \<and> u < dc_maxUN dc \<longrightarrow> u \<in> dc_reservedUN dc))"
proof (cases "keyToDiskControllers d c")
  case (Some dc)
  show ?thesis
  proof (cases "List.find (\<lambda>un. un \<notin> dc_reservedUN dc) [dc_curUN dc..dc_maxUN dc - 1]")
    case None
    then have "\<forall>u. dc_curUN dc \<le> u \<and> u < dc_maxUN dc \<longrightarrow> u \<in> dc_reservedUN dc" by (auto simp: find_None_iff)
    with None Some show ?thesis by (simp add: getNextUnitNumber_def nextUnitNumber_def)
  next
    case (Some u)
    with find_interval [OF Some] \<open>keyToDiskControllers d c = Some dc\<close> show ?thesis
      by (auto simp: getNextUnitNumber_def nextUnitNumber_def)
  qed
qed (simp add: getNextUnitNumber_def)


section \<open>Placements\<close>

text \<open>
  The state of the assignment: disks \<^verbatim>\<open>Ks\<close> keep the slot they came with, disks \<^verbatim>\<open>As\<close> were given one, \<^verbatim>\<open>E\<close> are
  the slots of existing disks, \<^verbatim>\<open>CE\<close> the existing controllers and \<^verbatim>\<open>dcs0\<close> the device changes at the start.
\<close>

definition controllers_inv :: "(int \<times> int) set \<Rightarrow> (int \<times> int) set \<Rightarrow> ensureDiskControllerData \<Rightarrow> device_changes \<Rightarrow> bool" where
  "controllers_inv E CE d dcs \<longleftrightarrow>
     (\<forall>c dc. keyToDiskControllers d c = Some dc \<longrightarrow>
        0 \<le> dc_curUN dc \<and> (c, dc_maxUN dc) \<in> CE \<union> controllers (map change_device dcs) \<and>
        (\<forall>u. (c, u) \<in> E \<longrightarrow> u \<in> dc_reservedUN dc))"

definition disks_inv :: "nat set \<Rightarrow> nat set \<Rightarrow> ensureDiskControllerData \<Rightarrow> device_changes \<Rightarrow> bool" where
  "disks_inv Ks As d dcs \<longleftrightarrow>
     (\<forall>k \<in> Ks. \<exists>c u dc. disk_at dcs k = Some (c, Some u) \<and> keyToDiskControllers d c = Some dc \<and> u \<in> dc_reservedUN dc) \<and>
     (\<forall>k \<in> As. \<exists>c u dc. disk_at dcs k = Some (c, Some u) \<and> keyToDiskControllers d c = Some dc \<and>
        0 \<le> u \<and> u < dc_maxUN dc \<and> u < dc_curUN dc \<and> u \<notin> dc_reservedUN dc) \<and>
     (\<forall>k \<in> As. \<forall>j \<in> Ks \<union> As. j \<noteq> k \<longrightarrow> disk_at dcs j \<noteq> disk_at dcs k)"

definition frame_inv :: "device_changes \<Rightarrow> nat set \<Rightarrow> device_changes \<Rightarrow> bool" where
  "frame_inv dcs0 As dcs \<longleftrightarrow>
     length dcs0 \<le> length dcs \<and> As \<subseteq> set (disk_indices dcs0) \<and>
     (\<forall>k < length dcs0. k \<notin> As \<longrightarrow> dcs ! k = dcs0 ! k)"

lemma disk_indices_less: "k \<in> set (disk_indices dcs) \<Longrightarrow> k < length dcs"
  by (simp add: disk_indices_def)

lemma disk_indices_disk_at: "k \<in> set (disk_indices dcs) \<Longrightarrow> \<exists>c un. disk_at dcs k = Some (c, un)"
  by (auto simp: disk_indices_def disk_at_def change_device_def split: option.splits if_splits)

lemma disk_at_set_disk:
  assumes "k < length dcs" "disk_at dcs k \<noteq> None"
  shows "disk_at (set_disk k c u dcs) j = (if j = k then Some (c, Some u) else disk_at dcs j)"
  using assms by (auto simp: disk_at_def set_disk_def split: option.splits device.splits)

lemma disk_at_append [simp]: "k < length dcs \<Longrightarrow> disk_at (dcs @ xs) k = disk_at dcs k"
  by (simp add: disk_at_def nth_append)

lemma controllers_set_disk:
  assumes "k < length dcs" "disk_at dcs k \<noteq> None"
  shows "controllers (map change_device (set_disk k c u dcs)) = controllers (map change_device dcs)"
proof -
  have "Some (DiskController kind key bus ctrl) \<in> set (map change_device (set_disk k c u dcs)) \<longleftrightarrow>
      Some (DiskController kind key bus ctrl) \<in> set (map change_device dcs)" for kind key bus ctrl
  proof -
    have "change_device (set_disk k c u dcs ! i) = Some (DiskController kind key bus ctrl) \<longleftrightarrow>
        change_device (dcs ! i) = Some (DiskController kind key bus ctrl)" if "i < length dcs" for i
      using that assms by (auto simp: set_disk_def nth_list_update change_device_def disk_at_def split: option.splits)
    then have "(\<exists>i < length dcs. change_device (set_disk k c u dcs ! i) = Some (DiskController kind key bus ctrl)) \<longleftrightarrow>
        (\<exists>i < length dcs. change_device (dcs ! i) = Some (DiskController kind key bus ctrl))"
      by blast
    then show ?thesis unfolding in_set_conv_nth by (simp add: set_disk_def cong: conj_cong)
  qed
  then show ?thesis by (simp only: controllers_def)
qed

lemma controllers_append: "controllers (ds @ ds') = controllers ds \<union> controllers ds'"
  by (simp add: controllers_def set_eq_iff) blast

text \<open>Giving a disk the next unit number of a recorded controller.\<close>

lemma assign_controllers:
  assumes "controllers_inv E CE d dcs" "getNextUnitNumber c d = (Some u, d')" "k < length dcs" "disk_at dcs k \<noteq> None"
  shows "controllers_inv E CE d' (set_disk k c u dcs)"
proof -
  obtain dc where dc: "keyToDiskControllers d c = Some dc" "dc_curUN dc \<le> u"
      "d' = d\<lparr>keyToDiskControllers := (keyToDiskControllers d)(c \<mapsto> dc\<lparr>dc_curUN := u + 1\<rparr>)\<rparr>"
    by (rule getNextUnitNumber_Some [OF assms(2)])
  then show ?thesis using assms(1)
    by (simp add: controllers_inv_def controllers_set_disk [OF assms(3,4)]) (meson add_increasing2 order.trans zero_le_one)
qed

text \<open>Steps that keep the reserved numbers and only raise the next unit number keep the placements.\<close>

definition grows :: "ensureDiskControllerData \<Rightarrow> ensureDiskControllerData \<Rightarrow> bool" where
  "grows d d' \<longleftrightarrow> (\<forall>c dc. keyToDiskControllers d c = Some dc \<longrightarrow>
     (\<exists>dc'. keyToDiskControllers d' c = Some dc' \<and> dc_reservedUN dc' = dc_reservedUN dc \<and>
       dc_maxUN dc' = dc_maxUN dc \<and> dc_curUN dc \<le> dc_curUN dc'))"

lemma disks_inv_grows:
  assumes "disks_inv Ks As d dcs" "grows d d'" "\<And>j. j \<in> Ks \<union> As \<Longrightarrow> disk_at dcs' j = disk_at dcs j"
  shows "disks_inv Ks As d' dcs'"
  unfolding disks_inv_def
proof (intro conjI ballI)
  fix j assume "j \<in> Ks"
  then obtain c u dc where "disk_at dcs j = Some (c, Some u)" "keyToDiskControllers d c = Some dc" "u \<in> dc_reservedUN dc"
    using assms(1) unfolding disks_inv_def by blast
  then show "\<exists>c u dc. disk_at dcs' j = Some (c, Some u) \<and> keyToDiskControllers d' c = Some dc \<and> u \<in> dc_reservedUN dc"
    using assms(2) assms(3) [of j] \<open>j \<in> Ks\<close> unfolding grows_def by fastforce
next
  fix j assume "j \<in> As"
  then obtain c u dc where *: "disk_at dcs j = Some (c, Some u)" "keyToDiskControllers d c = Some dc"
      "0 \<le> u" "u < dc_maxUN dc" "u < dc_curUN dc" "u \<notin> dc_reservedUN dc"
    using assms(1) unfolding disks_inv_def by blast
  obtain dc' where "keyToDiskControllers d' c = Some dc'" "dc_reservedUN dc' = dc_reservedUN dc"
      "dc_maxUN dc' = dc_maxUN dc" "dc_curUN dc \<le> dc_curUN dc'"
    using assms(2) *(2) unfolding grows_def by blast
  with * assms(3) [of j] \<open>j \<in> As\<close>
  show "\<exists>c u dc. disk_at dcs' j = Some (c, Some u) \<and> keyToDiskControllers d' c = Some dc \<and>
      0 \<le> u \<and> u < dc_maxUN dc \<and> u < dc_curUN dc \<and> u \<notin> dc_reservedUN dc"
    by (intro exI [of _ c] exI [of _ u] exI [of _ dc']) simp
next
  fix k j assume "k \<in> As" "j \<in> Ks \<union> As"
  then have "j \<noteq> k \<longrightarrow> disk_at dcs j \<noteq> disk_at dcs k" using assms(1) unfolding disks_inv_def by blast
  with assms(3) [of j] assms(3) [of k] \<open>k \<in> As\<close> \<open>j \<in> Ks \<union> As\<close>
  show "j \<noteq> k \<longrightarrow> disk_at dcs' j \<noteq> disk_at dcs' k" by simp
qed

lemma assign_grows:
  assumes "getNextUnitNumber c d = (Some u, d')"
  shows "grows d d'"
  by (rule getNextUnitNumber_Some [OF assms]) (simp add: grows_def)

lemma disks_inv_fresh:
  assumes "disks_inv Ks As d dcs" "keyToDiskControllers d c = Some dc" "dc_curUN dc \<le> u" "u \<notin> dc_reservedUN dc"
    and "j \<in> Ks \<union> As"
  shows "disk_at dcs j \<noteq> Some (c, Some u)"
  using assms unfolding disks_inv_def by fastforce

lemma disks_inv_insert:
  assumes "disks_inv Ks As d dcs" "\<And>j. j \<in> Ks \<union> As \<Longrightarrow> disk_at dcs j \<noteq> Some (c, Some u)"
    and "disk_at dcs k = Some (c, Some u)" "keyToDiskControllers d c = Some dc" "0 \<le> u" "u < dc_maxUN dc" "u < dc_curUN dc"
      "u \<notin> dc_reservedUN dc"
  shows "disks_inv Ks (insert k As) d dcs"
proof -
  have "disk_at dcs j \<noteq> disk_at dcs i" if "i \<in> insert k As" "j \<in> Ks \<union> insert k As" "j \<noteq> i" for i j
  proof (cases "i = k \<or> j = k")
    case True
    then show ?thesis using that assms(2) [of i] assms(2) [of j] assms(3) by auto
  next
    case False
    then show ?thesis using that assms(1) unfolding disks_inv_def by blast
  qed
  moreover have "\<exists>c u dc. disk_at dcs i = Some (c, Some u) \<and> keyToDiskControllers d c = Some dc \<and>
      0 \<le> u \<and> u < dc_maxUN dc \<and> u < dc_curUN dc \<and> u \<notin> dc_reservedUN dc" if "i \<in> insert k As" for i
    using that assms unfolding disks_inv_def by blast
  ultimately show ?thesis using assms(1) unfolding disks_inv_def by blast
qed

lemma assign_disks:
  assumes "controllers_inv E CE d dcs" "disks_inv Ks As d dcs" "getNextUnitNumber c d = (Some u, d')"
    and k: "k < length dcs" "disk_at dcs k \<noteq> None" "k \<notin> Ks \<union> As"
  shows "disks_inv Ks (insert k As) d' (set_disk k c u dcs)"
proof -
  obtain dc where dc: "keyToDiskControllers d c = Some dc" "dc_curUN dc \<le> u" "u < dc_maxUN dc" "u \<notin> dc_reservedUN dc"
      "d' = d\<lparr>keyToDiskControllers := (keyToDiskControllers d)(c \<mapsto> dc\<lparr>dc_curUN := u + 1\<rparr>)\<rparr>"
    by (rule getNextUnitNumber_Some [OF assms(3)])
  note at = disk_at_set_disk [OF k(1,2), of c u]
  have range: "0 \<le> u" "u < dc_maxUN dc" using assms(1) dc(1-3) unfolding controllers_inv_def by fastforce+
  have old: "disks_inv Ks As d' (set_disk k c u dcs)"
    by (rule disks_inv_grows [OF assms(2) assign_grows [OF assms(3)]]) (use k(3) in \<open>auto simp: at\<close>)
  have new: "disk_at (set_disk k c u dcs) j \<noteq> Some (c, Some u)" if "j \<in> Ks \<union> As" for j
    using disks_inv_fresh [OF assms(2) dc(1,2,4) that] that k(3) by (auto simp: at)
  show ?thesis
    by (rule disks_inv_insert [OF old new, where dc = "dc\<lparr>dc_curUN := u + 1\<rparr>"]) (use dc range in \<open>simp_all add: at\<close>)
qed

lemma assign_frame:
  assumes "frame_inv dcs0 As dcs" "k \<in> set (disk_indices dcs0)"
  shows "frame_inv dcs0 (insert k As) (set_disk k c u dcs)"
  using assms by (auto simp: frame_inv_def set_disk_def)


definition placed :: "(int \<times> int) set \<Rightarrow> (int \<times> int) set \<Rightarrow> device_changes \<Rightarrow> nat set \<Rightarrow> nat set \<Rightarrow>
    ensureDiskControllerData \<Rightarrow> device_changes \<Rightarrow> bool" where
  "placed E CE dcs0 Ks As d dcs \<longleftrightarrow>
     controllers_inv E CE d dcs \<and> disks_inv Ks As d dcs \<and> frame_inv dcs0 As dcs \<and> Ks \<subseteq> set (disk_indices dcs0)"

lemma placed_at:
  assumes "placed E CE dcs0 Ks As d dcs" "k \<in> set (disk_indices dcs0)" "k \<notin> As"
  shows "k < length dcs" "disk_at dcs k = disk_at dcs0 k" "disk_at dcs k \<noteq> None"
  using assms disk_indices_less [OF assms(2)] disk_indices_disk_at [OF assms(2)]
  by (auto simp: placed_def frame_inv_def disk_at_def)

lemma placed_assign:
  assumes "placed E CE dcs0 Ks As d dcs" "getNextUnitNumber c d = (Some u, d')"
    and "k \<in> set (disk_indices dcs0)" "k \<notin> Ks \<union> As"
  shows "placed E CE dcs0 Ks (insert k As) d' (set_disk k c u dcs)"
proof -
  have k: "k < length dcs" "disk_at dcs k \<noteq> None" using placed_at [OF assms(1,3)] assms(4) by auto
  show ?thesis
    using assms(1,3,4) assign_controllers [OF _ assms(2) k] assign_disks [OF _ _ assms(2) k] assign_frame
    unfolding placed_def by blast
qed

lemma placed_keep:
  assumes "placed E CE dcs0 Ks As d dcs" "k \<in> set (disk_indices dcs0)" "k \<notin> Ks \<union> As"
    and "disk_at dcs0 k = Some (c, Some u)" "keyToDiskControllers d c = Some dc" "u \<in> dc_reservedUN dc"
  shows "placed E CE dcs0 (insert k Ks) As d dcs"
proof -
  have inv: "disks_inv Ks As d dcs" using assms(1) by (simp add: placed_def)
  have k: "disk_at dcs k = Some (c, Some u)" using placed_at [OF assms(1,2)] assms(3,4) by simp
  have new: "disk_at dcs i \<noteq> disk_at dcs k" if "i \<in> As" for i
    using that inv assms(5,6) k unfolding disks_inv_def by fastforce
  have "disks_inv (insert k Ks) As d dcs"
    using inv k assms(5,6) new unfolding disks_inv_def by (simp add: ball_Un) (metis)
  with assms(1,2) show ?thesis by (simp add: placed_def)
qed

text \<open>A new controller has a key that is not recorded and that no existing disk names.\<close>

lemma placed_new:
  assumes "placed E CE dcs0 Ks As d dcs" "keyToDiskControllers d key = None" "key \<notin> fst ` E"
  shows "placed E CE dcs0 Ks As (data_add kind key bus d)
    (dcs @ [Some \<lparr>dvc_Operation = OperationAdd, dvc_Device = Some (DiskController kind key bus ctrl)\<rparr>])"
    (is "placed _ _ _ _ _ ?d (dcs @ [?c])")
proof -
  have "change_device ?c = Some (DiskController kind key bus ctrl)"
    by (simp add: change_device_def OperationAdd_def OperationRemove_def)
  then have "controllers (map change_device (dcs @ [?c])) = insert (key, unit_limit kind) (controllers (map change_device dcs))"
    by (auto simp: controllers_append) (auto simp: controllers_def)
  then have "controllers_inv E CE ?d (dcs @ [?c])"
    using assms
    by (auto simp: placed_def kind_max_limit controllers_inv_def diskController_zero_def image_iff)
  moreover have "k < length dcs" if "k \<in> Ks \<union> As" for k
    using that assms(1) disk_indices_less by (fastforce simp: placed_def frame_inv_def)
  then have same: "disk_at (dcs @ [?c]) k = disk_at dcs k" if "k \<in> Ks \<union> As" for k using that by simp
  have "grows d ?d" using assms(2) by (auto simp: grows_def)
  then have "disks_inv Ks As ?d (dcs @ [?c])"
    using assms(1) same unfolding placed_def by (blast intro: disks_inv_grows)
  moreover have "frame_inv dcs0 As (dcs @ [?c])"
    using assms(1) by (simp add: placed_def frame_inv_def nth_append)
  ultimately show ?thesis using assms(1) by (simp add: placed_def)
qed

section \<open>The two loops\<close>

text \<open>The slots that the disks \<^verbatim>\<open>ks\<close> came with are reserved.\<close>

definition names_reserved :: "device_changes \<Rightarrow> nat list \<Rightarrow> ensureDiskControllerData \<Rightarrow> bool" where
  "names_reserved dcs0 ks d \<longleftrightarrow> (\<forall>k \<in> set ks. \<forall>c u dc.
     disk_at dcs0 k = Some (c, Some u) \<longrightarrow> keyToDiskControllers d c = Some dc \<longrightarrow> u \<in> dc_reservedUN dc)"

lemma names_reserved_assign:
  assumes "getNextUnitNumber c d = (Some u, d')" "names_reserved dcs0 ks d"
  shows "names_reserved dcs0 ks d'"
  by (rule getNextUnitNumber_Some [OF assms(1)]) (use assms(2) in \<open>auto simp: names_reserved_def\<close>)

lemma dom_getNextUnitNumber:
  assumes "getNextUnitNumber c d = (Some u, d')"
  shows "dom (keyToDiskControllers d') = dom (keyToDiskControllers d)"
  by (rule getNextUnitNumber_Some [OF assms]) auto

lemma allocate_loop_placed:
  assumes "placed E CE dcs0 Ks As d dcs" "allocate_loop ks d dcs = (Inr rest, d', dcs')"
    and "distinct ks" "set ks \<subseteq> set (disk_indices dcs0)" "set ks \<inter> (Ks \<union> As) = {}" "names_reserved dcs0 ks d"
  shows "\<exists>Ks' As'. placed E CE dcs0 Ks' As' d' dcs' \<and> Ks' \<union> As' \<union> set rest = Ks \<union> As \<union> set ks \<and>
    distinct rest \<and> set rest \<subseteq> set ks \<and> set rest \<inter> (Ks' \<union> As') = {} \<and>
    dom (keyToDiskControllers d') = dom (keyToDiskControllers d)"
  using assms
proof (induction ks arbitrary: Ks As d dcs rest)
  case Nil
  then show ?case by auto
next
  case (Cons k ks)
  have k: "k \<in> set (disk_indices dcs0)" "k \<notin> Ks \<union> As" "k \<notin> set ks" using Cons.prems(3-5) by auto
  have ks: "distinct ks" "set ks \<subseteq> set (disk_indices dcs0)" "set ks \<inter> (Ks \<union> As) = {}" "names_reserved dcs0 ks d"
    using Cons.prems(3-6) by (auto simp: names_reserved_def)
  obtain c un where at0: "disk_at dcs0 k = Some (c, un)" using disk_indices_disk_at [OF k(1)] by blast
  then have at: "disk_at dcs k = Some (c, un)" using placed_at(2) [OF Cons.prems(1) k(1)] k(2) by simp
  consider "keyToDiskControllers d c = None" | dc where "keyToDiskControllers d c = Some dc" "un = None"
    | dc u where "keyToDiskControllers d c = Some dc" "un = Some u" by (cases un; cases "keyToDiskControllers d c") auto
  then show ?case
  proof cases
    case 1
    then obtain rest' where rest: "allocate_loop ks d dcs = (Inr rest', d', dcs')" "rest = k # rest'"
      using Cons.prems(2) at
      by (cases "allocate_loop ks d dcs"; cases "fst (allocate_loop ks d dcs)") (auto simp: controller_exists_def)
    from Cons.IH [OF Cons.prems(1) rest(1) ks] show ?thesis using k rest(2) by (elim exE) (intro exI, auto)
  next
    case 2
    then obtain u d1 where step: "getNextUnitNumber c d = (Some u, d1)" "allocate_loop ks d1 (set_disk k c u dcs) = (Inr rest, d', dcs')"
      using Cons.prems(2) at by (auto simp: controller_exists_def split: prod.splits option.splits)
    have disj: "set ks \<inter> (Ks \<union> insert k As) = {}" using ks(3) k(3) by simp
    from Cons.IH [OF placed_assign [OF Cons.prems(1) step(1) k(1,2)] step(2) ks(1,2) disj names_reserved_assign [OF step(1) ks(4)]]
    show ?thesis using k(3) by (simp add: dom_getNextUnitNumber [OF step(1)]) blast
  next
    case 3
    have keep: "placed E CE dcs0 (insert k Ks) As d dcs"
      by (rule placed_keep [OF Cons.prems(1) k(1,2)]) (use at0 3 Cons.prems(6) in \<open>auto simp: names_reserved_def\<close>)
    have "allocate_loop ks d dcs = (Inr rest, d', dcs')" using Cons.prems(2) at 3 by (simp add: controller_exists_def)
    moreover have "set ks \<inter> (insert k Ks \<union> As) = {}" using ks(3) k(3) by simp
    ultimately show ?thesis using Cons.IH [OF keep _ ks(1,2) _ ks(4)] by simp blast
  qed
qed


text \<open>The search by type is one search over the keys in order of preference: it takes the first controller with room.\<close>

definition has_room :: "ensureDiskControllerData \<Rightarrow> int \<Rightarrow> bool" where
  "has_room d c \<longleftrightarrow> (\<exists>dc u. keyToDiskControllers d c = Some dc \<and> dc_curUN dc \<le> u \<and> u < dc_maxUN dc \<and> u \<notin> dc_reservedUN dc)"

lemma has_room_iff: "fst (getNextUnitNumber c d) = None \<longleftrightarrow> \<not> has_room d c"
  unfolding getNextUnitNumber_full has_room_def by blast

lemma getNextUnitNumber_cases:
  "(\<not> has_room d c \<and> getNextUnitNumber c d = (None, d)) \<or> (has_room d c \<and> (\<exists>u d'. getNextUnitNumber c d = (Some u, d')))"
  using has_room_iff [of c d] getNextUnitNumber_None [of c d]
  by (cases "getNextUnitNumber c d"; cases "fst (getNextUnitNumber c d)") auto

lemma ensureDiskControllerFindWith_find:
  "ensureDiskControllerFindWith k keys d dcs =
     (case List.find (has_room d) keys of
        None \<Rightarrow> (False, d, dcs)
      | Some c \<Rightarrow> (True, snd (getNextUnitNumber c d), set_disk k c (the (fst (getNextUnitNumber c d))) dcs))"
proof (induction keys)
  case (Cons c keys)
  then show ?case using getNextUnitNumber_cases [of d c] by auto
qed simp

lemma find_by_type_concat: "find_by_type k kss d dcs = ensureDiskControllerFindWith k (concat kss) d dcs"
proof (induction kss)
  case (Cons keys kss)
  have "List.find P (xs @ ys) = (case List.find P xs of None \<Rightarrow> List.find P ys | Some x \<Rightarrow> Some x)" for P and xs ys :: "int list"
    by (induction xs) auto
  with Cons show ?case
    by (simp add: ensureDiskControllerFindWith_find split: option.split)
qed simp

lemma place_find_cases:
  obtains c u d' where "ensureDiskControllerFind k d dcs = (True, d', set_disk k c u dcs)" "getNextUnitNumber c d = (Some u, d')"
  | "ensureDiskControllerFind k d dcs = (False, d, dcs)"
proof (cases "List.find (has_room d) (concat (preferred_keys d))")
  case None
  then show thesis using that(2) by (simp add: ensureDiskControllerFind_def find_by_type_concat ensureDiskControllerFindWith_find)
next
  case (Some c)
  then have "has_room d c" using find_interval by blast
  then obtain u d' where u: "getNextUnitNumber c d = (Some u, d')" using getNextUnitNumber_cases [of d c] by auto
  then show thesis using that(1) [of d' c u] Some
    by (simp add: ensureDiskControllerFind_def find_by_type_concat ensureDiskControllerFindWith_find)
qed

lemma getNextUnitNumber_new:
  assumes "keyToDiskControllers d key = None"
  shows "\<exists>u d'. getNextUnitNumber key (data_add kind key bus d) = (Some u, d')"
proof -
  have "has_room (data_add kind key bus d) key"
    using assms unit_limit_pos [of kind] by (auto simp: has_room_def kind_max_limit diskController_zero_def)
  then show ?thesis using getNextUnitNumber_cases [of "data_add kind key bus d" key] by auto
qed

lemma ensureDiskControllerCreate_cases:
  obtains err where "ensureDiskControllerCreate pci key d dcs = Inl err"
  | kind bus info where "ensureDiskControllerCreate pci key d dcs =
      Inr (data_add kind key bus d,
        dcs @ [Some \<lparr>dvc_Operation = OperationAdd, dvc_Device = Some (DiskController kind key bus info)\<rparr>])"
proof -
  have "(\<exists>err. ensureDiskControllerCreate pci key d dcs = Inl err) \<or>
      (\<exists>kind bus info. ensureDiskControllerCreate pci key d dcs =
        Inr (data_add kind key bus d,
          dcs @ [Some \<lparr>dvc_Operation = OperationAdd, dvc_Device = Some (DiskController kind key bus info)\<rparr>]))"
    unfolding ensureDiskControllerCreate_def Let_def by (simp only: split: if_split) blast
  then show thesis using that by blast
qed

text \<open>Keys below every key in use.\<close>

definition key_fresh :: "(int \<times> int) set \<Rightarrow> int \<Rightarrow> ensureDiskControllerData \<Rightarrow> bool" where
  "key_fresh E key d \<longleftrightarrow> (\<forall>c \<in> dom (keyToDiskControllers d). key < c) \<and> (\<forall>e \<in> E. key < fst e)"

lemma key_fresh_unused: "key_fresh E key d \<Longrightarrow> keyToDiskControllers d key = None \<and> key \<notin> fst ` E"
  by (fastforce simp: key_fresh_def)

lemma key_fresh_decr:
  assumes "key_fresh E key d" "dom (keyToDiskControllers d') \<subseteq> insert key (dom (keyToDiskControllers d))"
  shows "key_fresh E (key - 1) d'"
  unfolding key_fresh_def
proof (intro conjI ballI)
  fix c assume "c \<in> dom (keyToDiskControllers d')"
  then have "c = key \<or> key < c" using assms unfolding key_fresh_def by blast
  then show "key - 1 < c" by auto
next
  fix e assume "e \<in> E"
  then have "key < fst e" using assms(1) unfolding key_fresh_def by blast
  then show "key - 1 < fst e" by simp
qed

lemma place_loop_placed:
  assumes "placed E CE dcs0 Ks As d dcs" "key_fresh E key d"
    and "distinct ks" "set ks \<subseteq> set (disk_indices dcs0)" "set ks \<inter> (Ks \<union> As) = {}"
  shows "\<exists>err dcs'. place_loop ks pci key d dcs = Some (err, dcs') \<and>
    (err = None \<longrightarrow> (\<exists>d'. placed E CE dcs0 Ks (As \<union> set ks) d' dcs'))"
  using assms
proof (induction ks arbitrary: As d dcs key)
  case (Cons k ks)
  have k: "k \<in> set (disk_indices dcs0)" "k \<notin> Ks \<union> As" using Cons.prems by auto
  have ks: "distinct ks" "set ks \<subseteq> set (disk_indices dcs0)" "set ks \<inter> (Ks \<union> insert k As) = {}" using Cons.prems by auto
  show ?case
  proof (cases rule: place_find_cases [of k d dcs])
    case (1 c u d')
    have "key_fresh E key d'" using Cons.prems(2) by (simp add: key_fresh_def dom_getNextUnitNumber [OF 1(2)])
    from Cons.IH [OF placed_assign [OF Cons.prems(1) 1(2) k] this ks] 1(1) show ?thesis by simp
  next
    case 2
    note fresh = key_fresh_unused [OF Cons.prems(2)]
    show ?thesis
    proof (cases rule: ensureDiskControllerCreate_cases [of pci key d dcs])
      case (1 err)
      with 2 show ?thesis by simp
    next
      case (2 kind bus info)
      let ?d = "data_add kind key bus d"
      obtain u d' where u: "getNextUnitNumber key ?d = (Some u, d')" using getNextUnitNumber_new fresh by blast
      have "key_fresh E (key - 1) d'"
        by (rule key_fresh_decr [OF Cons.prems(2)]) (simp add: dom_getNextUnitNumber [OF u])
      from Cons.IH [OF placed_assign [OF placed_new [OF Cons.prems(1) _ _, of key kind bus info] u k] this ks]
      show ?thesis using fresh u 2 \<open>ensureDiskControllerFind k d dcs = (False, d, dcs)\<close> by simp
    qed
  qed
qed auto


section \<open>EnsureDisksHaveControllers\<close>

text \<open>
  Device keys as vSphere hands them out: the keys of the devices of a virtual machine are positive, and no
  controller has the key 0, which the ConfigSpec uses for a disk without a controller.
\<close>

definition device_keys_ok :: "device_changes \<Rightarrow> device option list \<Rightarrow> bool" where
  "device_keys_ok dcs existing \<longleftrightarrow>
     0 \<notin> fst ` controllers (map change_device dcs) \<and> (\<forall>c \<in> fst ` controllers existing. 0 < c) \<and>
     (\<forall>(c, u) \<in> disk_slots existing. 0 \<le> c)"

lemma controllers_recorded: "controllers (map recorded ds) \<subseteq> controllers ds"
proof -
  have "recorded d = Some (DiskController kind key bus ctrl) \<Longrightarrow> d = Some (DiskController kind key bus ctrl)" for d kind key bus ctrl
    by (auto simp: recorded_def split: option.splits device.splits if_splits)
  then have "Some (DiskController kind key bus ctrl) \<in> set (map recorded ds) \<Longrightarrow> Some (DiskController kind key bus ctrl) \<in> set ds"
    for kind key bus ctrl by (metis (no_types, lifting) imageE set_map)
  then show ?thesis unfolding controllers_def by blast
qed

lemma disk_at_change_device:
  "k \<in> set (disk_indices dcs) \<Longrightarrow> disk_at dcs k = Some (c, Some u) \<Longrightarrow> (c, u) \<in> disk_slots (map change_device dcs)"
  by (force simp: disk_indices_def disk_slots_def disk_at_def change_device_def image_iff in_set_conv_nth
      split: option.splits device.splits if_splits)

lemma validated_entry:
  "keyToDiskControllers (validateAttachments d) c = Some dc \<longleftrightarrow> keyToDiskControllers d c = Some dc \<and> dc_dev dc"
  by (auto simp: validateAttachments_def split: option.split)

lemma add_pci_frame:
  assumes "add_pci pci key dcs = (pciKey, key', dcs')"
  shows "key' \<le> key" "frame_inv dcs {} dcs'"
    "controllers (map change_device dcs') = controllers (map change_device dcs)"
  using assms
  by (auto simp: add_pci_def frame_inv_def nth_append controllers_append split: option.splits)
    (simp_all add: controllers_def change_device_def OperationAdd_def OperationRemove_def)

text \<open>The state with which the loops start.\<close>

lemma placed_start:
  assumes ok: "device_keys_ok dcs existing"
    and st: "st = fold inspect_existing existing (fold inspect_change (enumerate 0 dcs)
      \<lparr>ins_disks = [], ins_newDeviceKey = 0, ins_pci = None, ins_data = data_zero\<rparr>)"
    and pci: "add_pci (ins_pci st) (ins_newDeviceKey st - 1) dcs = (pciKey, key, dcs')"
  shows "placed (disk_slots existing) (controllers (map recorded existing)) dcs {} {}
      (validateAttachments (ins_data st)) dcs'"
    and "names_reserved dcs (disk_indices dcs) (validateAttachments (ins_data st))"
    and "key_fresh (disk_slots existing) key (validateAttachments (ins_data st))"
proof -
  let ?C = "controllers (map change_device dcs)" and ?CE = "controllers (map recorded existing)"
  let ?S = "disk_slots (map change_device dcs) - {0} \<times> UNIV" and ?E = "disk_slots existing"
  let ?d = "validateAttachments (ins_data st)"
  have "inspect_inv [] \<lparr>ins_disks = [], ins_newDeviceKey = 0, ins_pci = None, ins_data = data_zero\<rparr>"
    using data_inv_zero by (simp add: inspect_inv_def controllers_def disk_slots_def)
  from inspect_changes [OF this, of dcs 0] have
    inv: "data_inv (?C \<union> ?CE) (?S \<union> ?E) (ins_data st)" and key0: "ins_newDeviceKey st \<le> 0"
    and keys: "\<And>d. Some d \<in> set (map change_device dcs) \<Longrightarrow> ins_newDeviceKey st \<le> dev_key d"
    unfolding st using inspect_existing_all by (auto simp: inspect_inv_def)
  have rec: "\<exists>dc. keyToDiskControllers (ins_data st) c = Some dc \<and> u \<in> dc_reservedUN dc" if "(c, u) \<in> ?S \<union> ?E" for c u
    using inv that unfolding data_inv_def by fastforce
  have entry: "dc_curUN dc = 0 \<and> (c, dc_maxUN dc) \<in> ?C \<union> ?CE" if "keyToDiskControllers ?d c = Some dc" for c dc
    using inv that unfolding data_inv_def validated_entry by blast
  have res: "u \<in> dc_reservedUN dc" if "keyToDiskControllers ?d c = Some dc" "(c, u) \<in> ?S \<union> ?E" for c u dc
    using rec [OF that(2)] that(1) unfolding validated_entry by auto
  have "controllers_inv ?E ?CE ?d dcs'"
    unfolding controllers_inv_def add_pci_frame(3) [OF pci] using entry res by fastforce
  then show "placed ?E ?CE dcs {} {} ?d dcs'"
    using add_pci_frame(2) [OF pci] by (simp add: placed_def disks_inv_def)
  have nonzero: "0 < c \<or> (c, m) \<in> ?C \<and> c \<noteq> 0" if "(c, m) \<in> ?C \<union> ?CE" for c m
    using that ok controllers_recorded unfolding device_keys_ok_def by (force simp: image_iff)
  show "names_reserved dcs (disk_indices dcs) ?d"
    unfolding names_reserved_def
  proof (intro ballI allI impI)
    fix k c u dc assume k: "k \<in> set (disk_indices dcs)" "disk_at dcs k = Some (c, Some u)" "keyToDiskControllers ?d c = Some dc"
    then have "c \<noteq> 0" using nonzero entry by blast
    with res [OF k(3)] disk_at_change_device [OF k(1,2)] show "u \<in> dc_reservedUN dc" by simp
  qed
  have C: "ins_newDeviceKey st \<le> c" if "(c, m) \<in> ?C" for c m
    using that keys unfolding controllers_def by fastforce
  have less: "key < ins_newDeviceKey st" using add_pci_frame(1) [OF pci] by simp
  show "key_fresh ?E key ?d"
    unfolding key_fresh_def
  proof (intro conjI ballI)
    fix c assume "c \<in> dom (keyToDiskControllers ?d)"
    then show "key < c" using entry nonzero [of c] C [of c] less key0 by force
  next
    fix e assume "e \<in> ?E"
    then show "key < fst e" using ok less key0 unfolding device_keys_ok_def by fastforce
  qed
qed


lemma EnsureDisksHaveControllers_run:
  assumes "device_keys_ok dcs existing"
  shows "\<exists>err dcs'. EnsureDisksHaveControllers (Some dcs) existing = Some (err, Some dcs') \<and>
    (err = None \<longrightarrow> (\<exists>Ks As d. placed (disk_slots existing) (controllers (map recorded existing)) dcs Ks As d dcs' \<and>
      Ks \<union> As = set (disk_indices dcs)))"
proof -
  let ?st1 = "fold inspect_change (enumerate 0 dcs) \<lparr>ins_disks = [], ins_newDeviceKey = 0, ins_pci = None, ins_data = data_zero\<rparr>"
  let ?st = "fold inspect_existing existing ?st1"
  let ?E = "disk_slots existing" and ?CE = "controllers (map recorded existing)"
  have disks: "ins_disks ?st1 = disk_indices dcs"
    using inspect_changes [of "[]" _ dcs 0] data_inv_zero by (simp add: inspect_inv_def controllers_def disk_slots_def)
  have disks2: "ins_disks ?st = disk_indices dcs"
    using disks by (induction existing rule: rev_induct) simp_all
  have dist: "distinct (disk_indices dcs)" by (simp add: disk_indices_def)
  show ?thesis
  proof (cases "disk_indices dcs = []")
    case True
    have "placed ?E ?CE dcs {} {} data_zero dcs"
      by (simp add: placed_def controllers_inv_def disks_inv_def frame_inv_def data_zero_def)
    then show ?thesis using True disks by (auto simp: EnsureDisksHaveControllers_def Let_def)
  next
    case False
    obtain pciKey key dcs1 where pci: "add_pci (ins_pci ?st) (ins_newDeviceKey ?st - 1) dcs = (pciKey, key, dcs1)"
      by (cases "add_pci (ins_pci ?st) (ins_newDeviceKey ?st - 1) dcs") auto
    note start = placed_start [OF assms refl pci]
    obtain r d dcs2 where alloc: "allocate_loop (disk_indices dcs) (validateAttachments (ins_data ?st)) dcs1 = (r, d, dcs2)"
      by (cases "allocate_loop (disk_indices dcs) (validateAttachments (ins_data ?st)) dcs1") auto
    show ?thesis
    proof (cases r)
      case (Inl err)
      then show ?thesis using False disks disks2 pci alloc by (simp add: EnsureDisksHaveControllers_def Let_def)
    next
      case (Inr rest)
      obtain Ks As where pl: "placed ?E ?CE dcs Ks As d dcs2" "Ks \<union> As \<union> set rest = set (disk_indices dcs)"
          "distinct rest" "set rest \<subseteq> set (disk_indices dcs)" "set rest \<inter> (Ks \<union> As) = {}"
          "dom (keyToDiskControllers d) = dom (keyToDiskControllers (validateAttachments (ins_data ?st)))"
        using allocate_loop_placed [OF start(1) alloc [unfolded Inr] dist subset_refl _ start(2)] by auto
      have "key_fresh ?E key d" using start(3) pl(6) by (simp add: key_fresh_def)
      from place_loop_placed [OF pl(1) this pl(3,4,5), of pciKey] obtain err dcs' where
          run: "place_loop rest pciKey key d dcs2 = Some (err, dcs')"
          and "err = None \<longrightarrow> (\<exists>d'. placed ?E ?CE dcs Ks (As \<union> set rest) d' dcs')" by blast
      moreover have "Ks \<union> (As \<union> set rest) = set (disk_indices dcs)" using pl(2) by (simp add: Un_assoc)
      moreover have "EnsureDisksHaveControllers (Some dcs) existing = Some (err, Some dcs')"
        using False disks disks2 pci alloc Inr run by (simp add: EnsureDisksHaveControllers_def Let_def)
      ultimately show ?thesis by blast
    qed
  qed
qed

text \<open>
  C3. When \<^verbatim>\<open>EnsureDisksHaveControllers\<close> succeeds, and device keys are as vSphere hands them out, every disk of the
  ConfigSpec that is not being removed has a unit number on a controller that exists or is added by the ConfigSpec.
  Its entry is as it was, or the slot was chosen: then the unit number is within the range of a controller of that
  type (2 units for IDE, 15 for NVMe, 30 for SATA and AHCI, 16 for SCSI), no disk of the virtual machine has the
  slot and no other disk of the ConfigSpec has it either.
\<close>

theorem EnsureDisksHaveControllers_slots:
  assumes "device_keys_ok dcs existing" "EnsureDisksHaveControllers (Some dcs) existing = Some (None, Some dcs')"
    and "k \<in> set (disk_indices dcs)"
  shows "\<exists>c u kind bus ctrl. disk_at dcs' k = Some (c, Some u) \<and>
    Some (DiskController kind c bus ctrl) \<in> set (map recorded existing) \<union> set (map change_device dcs') \<and>
    (dcs' ! k = dcs ! k \<or>
      0 \<le> u \<and> u < unit_limit kind \<and> (c, u) \<notin> disk_slots existing \<and>
      (\<forall>j \<in> set (disk_indices dcs). j \<noteq> k \<longrightarrow> disk_at dcs' j \<noteq> disk_at dcs' k))"
proof -
  obtain Ks As d where pl: "placed (disk_slots existing) (controllers (map recorded existing)) dcs Ks As d dcs'"
      and all: "Ks \<union> As = set (disk_indices dcs)"
    using EnsureDisksHaveControllers_run [OF assms(1)] assms(2) by auto
  have keys: "\<exists>kind bus ctrl. dc_maxUN dc = unit_limit kind \<and>
        Some (DiskController kind c bus ctrl) \<in> set (map recorded existing) \<union> set (map change_device dcs')"
      and used: "(c, u) \<in> disk_slots existing \<Longrightarrow> u \<in> dc_reservedUN dc" if "keyToDiskControllers d c = Some dc" for c u dc
    using pl that unfolding placed_def controllers_inv_def controllers_def by blast+
  have inv: "disks_inv Ks As d dcs'" using pl by (simp add: placed_def)
  show ?thesis
  proof (cases "k \<in> As")
    case True
    then obtain c u dc where at: "disk_at dcs' k = Some (c, Some u)" "keyToDiskControllers d c = Some dc"
        "0 \<le> u" "u < dc_maxUN dc" "u \<notin> dc_reservedUN dc"
      using inv unfolding disks_inv_def by blast
    moreover have "\<forall>j \<in> set (disk_indices dcs). j \<noteq> k \<longrightarrow> disk_at dcs' j \<noteq> disk_at dcs' k"
      using inv True all unfolding disks_inv_def by blast
    ultimately show ?thesis using keys [OF at(2)] used [OF at(2)] by metis
  next
    case False
    then have "k \<in> Ks" using all assms(3) by blast
    then obtain c u dc where at: "disk_at dcs' k = Some (c, Some u)" "keyToDiskControllers d c = Some dc"
      using inv unfolding disks_inv_def by blast
    moreover have "dcs' ! k = dcs ! k"
      using pl False disk_indices_less [OF assms(3)] by (simp add: placed_def frame_inv_def)
    ultimately show ?thesis using keys [OF at(2)] by metis
  qed
qed

text \<open>
  \<^verbatim>\<open>EnsureDisksHaveControllers\<close> always returns: the unit number of a controller it just created, without which
  \<^verbatim>\<open>mustGetNextUnitNumber\<close> panics, is always available. On success every change that is not a disk is as it was, and
  device changes are only added.
\<close>

theorem EnsureDisksHaveControllers_no_panic:
  assumes "device_keys_ok dcs existing"
  shows "\<exists>err dcs'. EnsureDisksHaveControllers (Some dcs) existing = Some (err, Some dcs') \<and>
    (err = None \<longrightarrow> length dcs \<le> length dcs' \<and>
      (\<forall>k < length dcs. k \<notin> set (disk_indices dcs) \<longrightarrow> dcs' ! k = dcs ! k))"
  using EnsureDisksHaveControllers_run [OF assms] by (fastforce simp: placed_def frame_inv_def)

text \<open>
  The search for a controller with room takes the first one in the order of preference of the controller types,
  and fails only when no recorded controller has a free unit number; a failed search changes nothing.
\<close>

theorem ensureDiskControllerFind_first:
  "ensureDiskControllerFind k d dcs =
     (case List.find (has_room d) (concat (preferred_keys d)) of
        None \<Rightarrow> (False, d, dcs)
      | Some c \<Rightarrow> (True, snd (getNextUnitNumber c d), set_disk k c (the (fst (getNextUnitNumber c d))) dcs))"
  by (simp add: ensureDiskControllerFind_def find_by_type_concat ensureDiskControllerFindWith_find)


text \<open>A virtual machine with one disk on a SCSI controller gets three disks, one of them on a SATA controller of its own.\<close>

definition example_info :: controller_info where
  "example_info = \<lparr>ctl_ControllerKey = 100, ctl_SharedBus = [], ctl_HotAddRemove = None\<rparr>"

definition example_existing :: "device option list" where
  "example_existing = [Some (VirtualPCIController 100), Some (DiskController ParaVirtualSCSIController 1000 0 example_info),
     Some (VirtualDisk 2000 1000 (Some 0))]"

definition example_changes :: device_changes where
  "example_changes = map (\<lambda>d. Some \<lparr>dvc_Operation = OperationAdd, dvc_Device = Some d\<rparr>)
     [VirtualDisk (- 1) 0 None, DiskController VirtualAHCIController (- 2) 0 example_info, VirtualDisk (- 3) (- 2) None,
      VirtualDisk (- 4) 1000 (Some 1)]"

definition example_result :: device_changes where
  "example_result = map (\<lambda>d. Some \<lparr>dvc_Operation = OperationAdd, dvc_Device = Some d\<rparr>)
     [VirtualDisk (- 1) 1000 (Some 2), DiskController VirtualAHCIController (- 2) 0 example_info, VirtualDisk (- 3) (- 2) (Some 0),
      VirtualDisk (- 4) 1000 (Some 1)]"

lemma example_keys_ok: "device_keys_ok example_changes example_existing"
  by (auto simp: device_keys_ok_def example_changes_def example_existing_def controllers_def disk_slots_def
      change_device_def OperationAdd_def OperationRemove_def)

lemma example_run: "EnsureDisksHaveControllers (Some example_changes) example_existing = Some (None, Some example_result)"
  by code_simp

lemma example_disk: "0 \<in> set (disk_indices example_changes)"
  by (simp add: disk_indices_def example_changes_def change_device_def OperationAdd_def OperationRemove_def)

theorem EnsureDisksHaveControllers_slots_witness:
  "\<exists>c u kind bus ctrl. disk_at example_result 0 = Some (c, Some u) \<and>
    Some (DiskController kind c bus ctrl) \<in> set (map recorded example_existing) \<union> set (map change_device example_result) \<and>
    (example_result ! 0 = example_changes ! 0 \<or>
      0 \<le> u \<and> u < unit_limit kind \<and> (c, u) \<notin> disk_slots example_existing \<and>
      (\<forall>j \<in> set (disk_indices example_changes). j \<noteq> 0 \<longrightarrow> disk_at example_result j \<noteq> disk_at example_result 0))"
  by (rule EnsureDisksHaveControllers_slots [OF example_keys_ok example_run example_disk])

theorem EnsureDisksHaveControllers_no_panic_witness:
  "\<exists>err dcs'. EnsureDisksHaveControllers (Some example_changes) example_existing = Some (err, Some dcs') \<and>
    (err = None \<longrightarrow> length example_changes \<le> length dcs' \<and>
      (\<forall>k < length example_changes. k \<notin> set (disk_indices example_changes) \<longrightarrow> dcs' ! k = example_changes ! k))"
  by (rule EnsureDisksHaveControllers_no_panic [OF example_keys_ok])

end
