(* ===== verification/Virtual_Controllers.thy ===== *)
theory Virtual_Controllers
  imports Devices VM_Types Power_State "HOL-Library.AList"
begin

text \<open>
  The reconciler of virtual controllers, \<^verbatim>\<open>pkg/vmconfig/virtualcontroller\<close>: it compares the controllers of a VM with
  those of its specification and adds the device changes that make them agree. A map keyed by bus number is an
  association list with distinct keys, and pointers to the devices of the VM are indices into the device list, which
  the code edits in place. Go ranges over a map in an unspecified order: \<^verbatim>\<open>ord n\<close> is the order in which the n-th
  range loop of a reconcile visits the keys. A panic is the value \<^verbatim>\<open>None\<close>. The contexts and clients, which are only
  tested for nil, are left out; device keys are integers, as in \<^verbatim>\<open>Disk_Controllers\<close>.
\<close>

type_synonym range_orders = "nat \<Rightarrow> int list \<Rightarrow> int list"

section \<open>New controllers\<close>

definition NewIDEController :: "IDEControllerSpec \<Rightarrow> int \<Rightarrow> int \<Rightarrow> device option \<times> int" where
  "NewIDEController spec pciControllerKey newDeviceKey =
     (let newDeviceKey = newDeviceKey - 1
      in (Some (DiskController VirtualIDEController newDeviceKey (ide_BusNumber spec)
            \<lparr>ctl_ControllerKey = pciControllerKey, ctl_SharedBus = [], ctl_HotAddRemove = None\<rparr>), newDeviceKey))"

definition validateNVMEController :: "NVMEControllerSpec \<Rightarrow> goerror option" where
  "validateNVMEController spec =
     (if nvme_SharingMode spec = VirtualControllerSharingModeNone \<or> nvme_SharingMode spec = VirtualControllerSharingModePhysical
      then None
      else Some (''invalid sharingMode for NVME Controller: '' @ nvme_SharingMode spec))"

definition sharingModeToSCSIVimTypes :: "string \<Rightarrow> string" where
  "sharingModeToSCSIVimTypes sharingMode =
     (if sharingMode = VirtualControllerSharingModeNone then VirtualSCSISharingNoSharing
      else if sharingMode = VirtualControllerSharingModePhysical then VirtualSCSISharingPhysicalSharing
      else if sharingMode = VirtualControllerSharingModeVirtual then VirtualSCSISharingVirtualSharing
      else VirtualSCSISharingNoSharing)"

definition sharingModeToNVMEControllerSharing :: "string \<Rightarrow> string" where
  "sharingModeToNVMEControllerSharing sharingMode =
     (if sharingMode = VirtualControllerSharingModeNone then VirtualNVMEControllerSharingNoSharing
      else if sharingMode = VirtualControllerSharingModePhysical then VirtualNVMEControllerSharingPhysicalSharing
      else VirtualNVMEControllerSharingNoSharing)"

definition NewNVMEController :: "NVMEControllerSpec \<Rightarrow> int \<Rightarrow> int \<Rightarrow> device option \<times> int" where
  "NewNVMEController spec pciControllerKey newDeviceKey =
     (let newDeviceKey = newDeviceKey - 1
      in (Some (DiskController VirtualNVMEController newDeviceKey (nvme_BusNumber spec)
            \<lparr>ctl_ControllerKey = pciControllerKey,
             ctl_SharedBus = sharingModeToNVMEControllerSharing (nvme_SharingMode spec), ctl_HotAddRemove = None\<rparr>), newDeviceKey))"

definition NewSATAController :: "SATAControllerSpec \<Rightarrow> int \<Rightarrow> int \<Rightarrow> device option \<times> int" where
  "NewSATAController spec pciControllerKey newDeviceKey =
     (let newDeviceKey = newDeviceKey - 1
      in (Some (DiskController VirtualAHCIController newDeviceKey (sata_BusNumber spec)
            \<lparr>ctl_ControllerKey = pciControllerKey, ctl_SharedBus = [], ctl_HotAddRemove = None\<rparr>), newDeviceKey))"

text \<open>A type that is none of the four leaves the controller nil.\<close>

definition NewSCSIController :: "SCSIControllerSpec \<Rightarrow> int \<Rightarrow> int \<Rightarrow> device option \<times> int" where
  "NewSCSIController spec pciControllerKey newDeviceKey =
     (let newDeviceKey = newDeviceKey - 1;
          controller = (\<lambda>kind. Some (DiskController kind newDeviceKey (scsi_BusNumber spec)
            \<lparr>ctl_ControllerKey = pciControllerKey,
             ctl_SharedBus = sharingModeToSCSIVimTypes (scsi_SharingMode spec), ctl_HotAddRemove = None\<rparr>))
      in (if scsi_Type spec = SCSIControllerTypeParaVirtualSCSI then controller ParaVirtualSCSIController
          else if scsi_Type spec = SCSIControllerTypeBusLogic then controller VirtualBusLogicController
          else if scsi_Type spec = SCSIControllerTypeLsiLogic then controller VirtualLsiLogicController
          else if scsi_Type spec = SCSIControllerTypeLsiLogicSAS then controller VirtualLsiLogicSASController
          else None, newDeviceKey))"

definition addDeviceChangeOp :: "device_changes \<Rightarrow> device \<Rightarrow> string \<Rightarrow> device_changes" where
  "addDeviceChangeOp deviceChange controller op =
     deviceChange @ [Some \<lparr>dvc_Operation = op, dvc_Device = Some controller\<rparr>]"

section \<open>Matching and editing\<close>

definition nvmeDeviceMatchSpec :: "device \<Rightarrow> NVMEControllerSpec \<Rightarrow> bool" where
  "nvmeDeviceMatchSpec dev spec \<longleftrightarrow>
     (case dev of
        DiskController kind key bus info \<Rightarrow> sharingModeToNVMEControllerSharing (nvme_SharingMode spec) = ctl_SharedBus info
      | _ \<Rightarrow> False)"

definition editNVMEController :: "device \<Rightarrow> NVMEControllerSpec \<Rightarrow> bool \<times> device" where
  "editNVMEController dev spec =
     (False, case dev of
        DiskController kind key bus info \<Rightarrow>
          if ctl_SharedBus info \<noteq> sharingModeToNVMEControllerSharing (nvme_SharingMode spec)
          then DiskController kind key bus (info\<lparr>ctl_SharedBus := sharingModeToNVMEControllerSharing (nvme_SharingMode spec)\<rparr>)
          else dev
      | _ \<Rightarrow> dev)"

definition SCSIControllerTypeMatch :: "device \<Rightarrow> string \<Rightarrow> bool" where
  "SCSIControllerTypeMatch dev specType \<longleftrightarrow>
     (case dev of
        DiskController ParaVirtualSCSIController key bus info \<Rightarrow> specType = SCSIControllerTypeParaVirtualSCSI
      | DiskController VirtualBusLogicController key bus info \<Rightarrow> specType = SCSIControllerTypeBusLogic
      | DiskController VirtualLsiLogicController key bus info \<Rightarrow> specType = SCSIControllerTypeLsiLogic
      | DiskController VirtualLsiLogicSASController key bus info \<Rightarrow> specType = SCSIControllerTypeLsiLogicSAS
      | _ \<Rightarrow> False)"

definition scsiDeviceMatchSpec :: "device \<Rightarrow> SCSIControllerSpec \<Rightarrow> bool" where
  "scsiDeviceMatchSpec dev spec \<longleftrightarrow>
     (case dev of
        DiskController kind key bus info \<Rightarrow> sharingModeToSCSIVimTypes (scsi_SharingMode spec) = ctl_SharedBus info
      | _ \<Rightarrow> False) \<and> SCSIControllerTypeMatch dev (scsi_Type spec)"

definition editSCSIController :: "device \<Rightarrow> SCSIControllerSpec \<Rightarrow> bool \<times> device" where
  "editSCSIController dev spec =
     (if \<not> SCSIControllerTypeMatch dev (scsi_Type spec) then (True, dev)
      else (False, case dev of
        DiskController kind key bus info \<Rightarrow>
          if ctl_SharedBus info \<noteq> sharingModeToSCSIVimTypes (scsi_SharingMode spec)
          then DiskController kind key bus (info\<lparr>ctl_SharedBus := sharingModeToSCSIVimTypes (scsi_SharingMode spec)\<rparr>)
          else dev
      | _ \<Rightarrow> dev))"

section \<open>The difference by bus number\<close>

record 'spec bus_diff =
  toAdd :: "'spec list"
  toEdit :: "nat list"
  toRemove :: "nat list"
  edited :: "device list"

text \<open>
  One round of the loop over the existing devices. \<^verbatim>\<open>match\<close> and \<^verbatim>\<open>edit\<close> may be nil; \<^verbatim>\<open>edit\<close> says whether the
  device must be created anew, and gives the device as it leaves it.
\<close>

definition diff_existing ::
    "(int \<times> nat) list \<Rightarrow> (int \<times> 'spec) list \<Rightarrow> (device \<Rightarrow> 'spec \<Rightarrow> bool) option \<Rightarrow>
     (device \<Rightarrow> 'spec \<Rightarrow> bool \<times> device) option \<Rightarrow> int \<Rightarrow> 'spec bus_diff \<Rightarrow> 'spec bus_diff" where
  "diff_existing existing desired match edit bus st =
     (case map_of existing bus of
        None \<Rightarrow> st
      | Some dev \<Rightarrow>
          (case map_of desired bus of
             None \<Rightarrow> st\<lparr>toRemove := toRemove st @ [dev]\<rparr>
           | Some spec \<Rightarrow>
               (case match of
                  None \<Rightarrow> st
                | Some match \<Rightarrow>
                    if match (edited st ! dev) spec then st
                    else case edit of
                      None \<Rightarrow> st
                    | Some edit \<Rightarrow>
                        (case edit (edited st ! dev) spec of (needRecreate, dev') \<Rightarrow>
                           let st = st\<lparr>edited := (edited st)[dev := dev']\<rparr>
                           in if needRecreate then st\<lparr>toRemove := toRemove st @ [dev], toAdd := toAdd st @ [spec]\<rparr>
                              else st\<lparr>toEdit := toEdit st @ [dev]\<rparr>))))"

definition diffByBusNumber ::
    "(int list \<Rightarrow> int list) \<Rightarrow> (int list \<Rightarrow> int list) \<Rightarrow> (int \<times> nat) list \<Rightarrow> (int \<times> 'spec) list \<Rightarrow>
     (device \<Rightarrow> 'spec \<Rightarrow> bool) option \<Rightarrow> (device \<Rightarrow> 'spec \<Rightarrow> bool \<times> device) option \<Rightarrow> device list \<Rightarrow> 'spec bus_diff" where
  "diffByBusNumber ord_desired ord_existing existing desired match edit devices =
     fold (diff_existing existing desired match edit) (ord_existing (map fst existing))
       \<lparr>toAdd = List.map_filter (map_of desired) (filter (\<lambda>bus. map_of existing bus = None) (ord_desired (map fst desired))),
        toEdit = [], toRemove = [], edited = devices\<rparr>"

definition diffIDEControllerByBusNumber ::
    "(int list \<Rightarrow> int list) \<Rightarrow> (int list \<Rightarrow> int list) \<Rightarrow> (int \<times> nat) list \<Rightarrow> (int \<times> IDEControllerSpec) list \<Rightarrow>
     device list \<Rightarrow> IDEControllerSpec bus_diff" where
  "diffIDEControllerByBusNumber ord1 ord2 existing desired devices = diffByBusNumber ord1 ord2 existing desired None None devices"

definition diffNVMEControllerByBusNumber ::
    "(int list \<Rightarrow> int list) \<Rightarrow> (int list \<Rightarrow> int list) \<Rightarrow> (int \<times> nat) list \<Rightarrow> (int \<times> NVMEControllerSpec) list \<Rightarrow>
     device list \<Rightarrow> NVMEControllerSpec bus_diff" where
  "diffNVMEControllerByBusNumber ord1 ord2 existing desired devices =
     diffByBusNumber ord1 ord2 existing desired (Some nvmeDeviceMatchSpec) (Some editNVMEController) devices"

definition diffSATAControllerByBusNumber ::
    "(int list \<Rightarrow> int list) \<Rightarrow> (int list \<Rightarrow> int list) \<Rightarrow> (int \<times> nat) list \<Rightarrow> (int \<times> SATAControllerSpec) list \<Rightarrow>
     device list \<Rightarrow> SATAControllerSpec bus_diff" where
  "diffSATAControllerByBusNumber ord1 ord2 existing desired devices = diffByBusNumber ord1 ord2 existing desired None None devices"

definition diffSCSIControllerByBusNumber ::
    "(int list \<Rightarrow> int list) \<Rightarrow> (int list \<Rightarrow> int list) \<Rightarrow> (int \<times> nat) list \<Rightarrow> (int \<times> SCSIControllerSpec) list \<Rightarrow>
     device list \<Rightarrow> SCSIControllerSpec bus_diff" where
  "diffSCSIControllerByBusNumber ord1 ord2 existing desired devices =
     diffByBusNumber ord1 ord2 existing desired (Some scsiDeviceMatchSpec) (Some editSCSIController) devices"

section \<open>Reconciling\<close>

record controllers_state =
  vc_changes :: device_changes
  vc_newDeviceKey :: int
  vc_devices :: "device list"

text \<open>
  The three loops at the end of each of the four reconcile functions: removals, additions and edits. A new
  controller that is nil fails the type assertion on it.
\<close>

fun add_controllers :: "('spec \<Rightarrow> int \<Rightarrow> int \<Rightarrow> device option \<times> int) \<Rightarrow> int \<Rightarrow> 'spec list \<Rightarrow> controllers_state \<Rightarrow>
    controllers_state option" where
  "add_controllers new pciKey [] st = Some st"
| "add_controllers new pciKey (spec # specs) st =
     (case new spec pciKey (vc_newDeviceKey st) of
        (None, key) \<Rightarrow> None
      | (Some dev, key) \<Rightarrow>
          add_controllers new pciKey specs
            (st\<lparr>vc_changes := addDeviceChangeOp (vc_changes st) dev OperationAdd, vc_newDeviceKey := key\<rparr>))"

definition emit_changes :: "('spec \<Rightarrow> int \<Rightarrow> int \<Rightarrow> device option \<times> int) \<Rightarrow> int \<Rightarrow> 'spec bus_diff \<Rightarrow> controllers_state \<Rightarrow>
    controllers_state option" where
  "emit_changes new pciKey diff st =
     (let st = st\<lparr>vc_devices := edited diff\<rparr>;
          st = fold (\<lambda>k st. st\<lparr>vc_changes := addDeviceChangeOp (vc_changes st) (vc_devices st ! k) OperationRemove\<rparr>) (toRemove diff) st
      in map_option
           (fold (\<lambda>k st. st\<lparr>vc_changes := addDeviceChangeOp (vc_changes st) (vc_devices st ! k) OperationEdit\<rparr>) (toEdit diff))
           (add_controllers new pciKey (toAdd diff) st))"

definition desired_by_bus :: "('spec \<Rightarrow> int) \<Rightarrow> 'spec list \<Rightarrow> (int \<times> 'spec) list" where
  "desired_by_bus busNumber specs = fold (\<lambda>controller. AList.update (busNumber controller) controller) specs []"

definition reconcileIDEControllers :: "range_orders \<Rightarrow> int \<Rightarrow> VirtualMachineHardwareSpec option \<Rightarrow> (int \<times> nat) list \<Rightarrow>
    controllers_state \<Rightarrow> controllers_state option" where
  "reconcileIDEControllers ord pciKey hardwareSpec existing st =
     (let desired = (case hardwareSpec of None \<Rightarrow> [] | Some hw \<Rightarrow> desired_by_bus ide_BusNumber (hw_IDEControllers hw))
      in emit_changes NewIDEController pciKey
           (diffIDEControllerByBusNumber (ord 0) (ord 1) existing desired (vc_devices st)) st)"

definition reconcileNVMEControllers :: "range_orders \<Rightarrow> int \<Rightarrow> VirtualMachineHardwareSpec option \<Rightarrow> (int \<times> nat) list \<Rightarrow>
    controllers_state \<Rightarrow> controllers_state option" where
  "reconcileNVMEControllers ord pciKey hardwareSpec existing st =
     (let desired = (case hardwareSpec of
            None \<Rightarrow> []
          | Some hw \<Rightarrow> desired_by_bus nvme_BusNumber (filter (\<lambda>controller. validateNVMEController controller = None) (hw_NVMEControllers hw)))
      in emit_changes NewNVMEController pciKey
           (diffNVMEControllerByBusNumber (ord 2) (ord 3) existing desired (vc_devices st)) st)"

definition reconcileSATAControllers :: "range_orders \<Rightarrow> int \<Rightarrow> VirtualMachineHardwareSpec option \<Rightarrow> (int \<times> nat) list \<Rightarrow>
    controllers_state \<Rightarrow> controllers_state option" where
  "reconcileSATAControllers ord pciKey hardwareSpec existing st =
     (let desired = (case hardwareSpec of None \<Rightarrow> [] | Some hw \<Rightarrow> desired_by_bus sata_BusNumber (hw_SATAControllers hw))
      in emit_changes NewSATAController pciKey
           (diffSATAControllerByBusNumber (ord 4) (ord 5) existing desired (vc_devices st)) st)"

definition reconcileSCSIControllers :: "range_orders \<Rightarrow> int \<Rightarrow> VirtualMachineHardwareSpec option \<Rightarrow> (int \<times> nat) list \<Rightarrow>
    controllers_state \<Rightarrow> controllers_state option" where
  "reconcileSCSIControllers ord pciKey hardwareSpec existing st =
     (let desired = (case hardwareSpec of None \<Rightarrow> [] | Some hw \<Rightarrow> desired_by_bus scsi_BusNumber (hw_SCSIControllers hw))
      in emit_changes NewSCSIController pciKey
           (diffSCSIControllerByBusNumber (ord 6) (ord 7) existing desired (vc_devices st)) st)"

definition InitDeviceKey :: "int \<Rightarrow> device_changes \<Rightarrow> int" where
  "InitDeviceKey newDeviceKey deviceChange =
     fold (\<lambda>bdc newDeviceKey.
       case bdc of
         None \<Rightarrow> newDeviceKey
       | Some dc \<Rightarrow>
           if dvc_Operation dc = OperationRemove then newDeviceKey
           else case dvc_Device dc of
             None \<Rightarrow> newDeviceKey
           | Some d \<Rightarrow> if dev_key d < newDeviceKey then dev_key d else newDeviceKey) deviceChange newDeviceKey"

record found_controllers =
  found_IDE :: "(int \<times> nat) list"
  found_NVME :: "(int \<times> nat) list"
  found_SATA :: "(int \<times> nat) list"
  found_SCSI :: "(int \<times> nat) list"
  found_PCI :: "int option"

definition is_scsi :: "controller_kind \<Rightarrow> bool" where
  "is_scsi kind \<longleftrightarrow> kind \<in> {ParaVirtualSCSIController, VirtualBusLogicController, VirtualLsiLogicController,
     VirtualLsiLogicSASController, VirtualSCSIController}"

definition collect_device :: "nat \<times> device \<Rightarrow> found_controllers \<Rightarrow> found_controllers" where
  "collect_device ix found =
     (case ix of (i, d) \<Rightarrow>
      case d of
        DiskController kind key bus info \<Rightarrow>
          if kind = VirtualIDEController then found\<lparr>found_IDE := AList.update bus i (found_IDE found)\<rparr>
          else if kind = VirtualNVMEController then found\<lparr>found_NVME := AList.update bus i (found_NVME found)\<rparr>
          else if kind = VirtualAHCIController then found\<lparr>found_SATA := AList.update bus i (found_SATA found)\<rparr>
          else if is_scsi kind then found\<lparr>found_SCSI := AList.update bus i (found_SCSI found)\<rparr>
          else found
      | VirtualPCIController key \<Rightarrow> found\<lparr>found_PCI := Some key\<rparr>
      | _ \<Rightarrow> found)"

text \<open>
  \<^verbatim>\<open>Reconcile\<close>: the error, the devices of the VM as the edits leave them, and the device changes. \<^verbatim>\<open>config\<close> is
  \<^verbatim>\<open>moVM.Config\<close>, as its device list.
\<close>

definition vc_Reconcile :: "range_orders \<Rightarrow> VirtualMachineHardwareSpec option \<Rightarrow> device list option \<Rightarrow> vim_PowerState \<Rightarrow>
    device_changes \<Rightarrow> (goerror option \<times> device list option \<times> device_changes) option" where
  "vc_Reconcile ord hardwareSpec config powerState deviceChange =
     (case config of
        None \<Rightarrow> Some (None, None, deviceChange)
      | Some devices \<Rightarrow>
          let found = fold collect_device (enumerate 0 devices)
                \<lparr>found_IDE = [], found_NVME = [], found_SATA = [], found_SCSI = [], found_PCI = None\<rparr>;
              oldDeviceChangeCount = length deviceChange
          in case found_PCI found of
               None \<Rightarrow> Some (Some ''PCI Controller not presented'', config, deviceChange)
             | Some pciKey \<Rightarrow>
                 let st = \<lparr>vc_changes = deviceChange, vc_newDeviceKey = InitDeviceKey 0 deviceChange, vc_devices = devices\<rparr>
                 in case Option.bind (Option.bind (Option.bind
                        (reconcileIDEControllers ord pciKey hardwareSpec (found_IDE found) st)
                        (reconcileNVMEControllers ord pciKey hardwareSpec (found_NVME found)))
                        (reconcileSATAControllers ord pciKey hardwareSpec (found_SATA found)))
                        (reconcileSCSIControllers ord pciKey hardwareSpec (found_SCSI found)) of
                      None \<Rightarrow> None
                    | Some st \<Rightarrow>
                        if list_ex (\<lambda>bdc. case bdc of None \<Rightarrow> False | Some dc \<Rightarrow> dvc_Operation dc = OperationEdit)
                             (drop oldDeviceChangeCount (vc_changes st)) \<and> powerState \<noteq> PoweredOff
                        then Some (None, Some (vc_devices st), take oldDeviceChangeCount (vc_changes st))
                        else Some (None, Some (vc_devices st), vc_changes st))"

end
