(* ===== verification/Controller_Convergence.thy ===== *)
theory Controller_Convergence
  imports Virtual_Controllers
begin

text \<open>
  The reconciler of virtual controllers converges: once vSphere has carried out its device changes, the controllers
  of the VM are those of the specification and a further reconcile asks for nothing. The four families of
  controllers share one contract, the locale \<open>controller_family\<close>.
\<close>

lemma list_all2_partner1: "list_all2 P xs ys \<Longrightarrow> x \<in> set xs \<Longrightarrow> \<exists>y \<in> set ys. P x y"
  by (induction xs ys rule: list_all2_induct) auto

lemma list_all2_partner2: "list_all2 P xs ys \<Longrightarrow> y \<in> set ys \<Longrightarrow> \<exists>x \<in> set xs. P x y"
  by (induction xs ys rule: list_all2_induct) auto

section \<open>Carrying out device changes\<close>

text \<open>What a reconfiguration does with a device change: a device is identified by its key.\<close>

fun apply_change :: "device_change option \<Rightarrow> device list \<Rightarrow> device list" where
  "apply_change None ds = ds"
| "apply_change (Some dc) ds =
     (case dvc_Device dc of
        None \<Rightarrow> ds
      | Some d \<Rightarrow>
          if dvc_Operation dc = OperationAdd then ds @ [d]
          else if dvc_Operation dc = OperationRemove then filter (\<lambda>x. dev_key x \<noteq> dev_key d) ds
          else map (\<lambda>x. if dev_key x = dev_key d then d else x) ds)"

definition apply_changes :: "device_changes \<Rightarrow> device list \<Rightarrow> device list" where
  "apply_changes dcs ds = fold apply_change dcs ds"

abbreviation change :: "string \<Rightarrow> device \<Rightarrow> device_change option" where
  "change op d \<equiv> Some \<lparr>dvc_Operation = op, dvc_Device = Some d\<rparr>"

lemma apply_changes_append: "apply_changes (xs @ ys) ds = apply_changes ys (apply_changes xs ds)"
  by (simp add: apply_changes_def)

lemma apply_removes:
  "apply_changes (map (change OperationRemove) xs) ds = filter (\<lambda>x. dev_key x \<notin> dev_key ` set xs) ds"
proof (induction xs arbitrary: ds)
  case (Cons x xs)
  have "filter (\<lambda>y. dev_key y \<notin> dev_key ` set xs) (filter (\<lambda>y. dev_key y \<noteq> dev_key x) ds) =
      filter (\<lambda>y. dev_key y \<notin> dev_key ` set (x # xs)) ds"
    by (simp add: conj_commute)
  with Cons [of "filter (\<lambda>y. dev_key y \<noteq> dev_key x) ds"] show ?case by (simp add: apply_changes_def)
qed (simp add: apply_changes_def)

lemma apply_adds: "apply_changes (map (change OperationAdd) xs) ds = ds @ xs"
  by (induction xs arbitrary: ds) (auto simp: apply_changes_def)

definition replaced :: "device list \<Rightarrow> device \<Rightarrow> device" where
  "replaced xs x = (case List.find (\<lambda>d. dev_key d = dev_key x) xs of None \<Rightarrow> x | Some d \<Rightarrow> d)"

lemma apply_edits:
  "distinct (map dev_key xs) \<Longrightarrow> apply_changes (map (change OperationEdit) xs) ds = map (replaced xs) ds"
proof (induction xs arbitrary: ds)
  case (Cons x xs)
  have "List.find (\<lambda>d. dev_key d = dev_key x) xs = None"
    using Cons.prems by (auto simp: find_None_iff image_iff)
  then have "replaced xs (if dev_key y = dev_key x then x else y) = replaced (x # xs) y" for y
    by (cases "dev_key y = dev_key x") (auto simp: replaced_def)
  then show ?case using Cons by (simp add: apply_changes_def)
qed (auto simp: apply_changes_def replaced_def intro!: map_idI [symmetric])

lemma replaced_hit:
  assumes "distinct (map dev_key xs)" "d \<in> set xs" "dev_key d = dev_key x"
  shows "replaced xs x = d"
proof -
  have "List.find (\<lambda>d. dev_key d = dev_key x) xs = Some d"
    using assms by (induction xs) (auto simp: image_iff)
  then show ?thesis by (simp add: replaced_def)
qed

lemma replaced_miss:
  assumes "dev_key x \<notin> dev_key ` set xs"
  shows "replaced xs x = x"
proof -
  have "List.find (\<lambda>d. dev_key d = dev_key x) xs = None" using assms by (auto simp: find_None_iff image_iff)
  then show ?thesis by (simp add: replaced_def)
qed

lemma replaced_key: "dev_key (replaced xs x) = dev_key x"
  by (auto simp: replaced_def find_Some_iff split: option.split)

section \<open>The difference, by cases\<close>

datatype 'spec bus_action = Keep | Remove nat | Recreate nat 'spec | Edit nat device

definition matches :: "(device \<Rightarrow> 'spec \<Rightarrow> bool) option \<Rightarrow> device \<Rightarrow> 'spec \<Rightarrow> bool" where
  "matches match d s \<longleftrightarrow> (case match of None \<Rightarrow> True | Some m \<Rightarrow> m d s)"

definition edits :: "(device \<Rightarrow> 'spec \<Rightarrow> bool \<times> device) option \<Rightarrow> device \<Rightarrow> 'spec \<Rightarrow> bool \<times> device" where
  "edits edit d s = (case edit of None \<Rightarrow> (False, d) | Some e \<Rightarrow> e d s)"

definition bus_action :: "(int \<times> nat) list \<Rightarrow> (int \<times> 'spec) list \<Rightarrow> (device \<Rightarrow> 'spec \<Rightarrow> bool) option \<Rightarrow>
    (device \<Rightarrow> 'spec \<Rightarrow> bool \<times> device) option \<Rightarrow> device list \<Rightarrow> int \<Rightarrow> 'spec bus_action" where
  "bus_action existing desired match edit devs b =
     (case map_of existing b of
        None \<Rightarrow> Keep
      | Some k \<Rightarrow>
          (case map_of desired b of
             None \<Rightarrow> Remove k
           | Some s \<Rightarrow>
               if matches match (devs ! k) s then Keep
               else (case edits edit (devs ! k) s of (recreate, d) \<Rightarrow> if recreate then Recreate k s else Edit k d)))"

fun removes :: "'spec bus_action \<Rightarrow> nat list" where
  "removes (Remove k) = [k]" | "removes (Recreate k s) = [k]" | "removes _ = []"

fun recreates :: "'spec bus_action \<Rightarrow> 'spec list" where
  "recreates (Recreate k s) = [s]" | "recreates _ = []"

fun edit_index :: "'spec bus_action \<Rightarrow> nat list" where
  "edit_index (Edit k d) = [k]" | "edit_index _ = []"

fun edit_device :: "'spec bus_action \<Rightarrow> device list \<Rightarrow> device list" where
  "edit_device (Edit k d) ds = ds[k := d]" | "edit_device _ ds = ds"

text \<open>Distinct buses name distinct devices.\<close>

definition index_inj :: "(int \<times> nat) list \<Rightarrow> bool" where
  "index_inj existing \<longleftrightarrow> (\<forall>b b' k. map_of existing b = Some k \<longrightarrow> map_of existing b' = Some k \<longrightarrow> b = b')"

lemma diff_existing_action:
  assumes "match = None \<longleftrightarrow> edit = None" "\<And>k. map_of existing b = Some k \<Longrightarrow> edited st ! k = devs ! k"
    and "\<And>d s d'. edits edit d s = (True, d') \<Longrightarrow> d' = d"
  shows "diff_existing existing desired match edit b st =
    (let a = bus_action existing desired match edit devs b
     in st\<lparr>toRemove := toRemove st @ removes a, toAdd := toAdd st @ recreates a, toEdit := toEdit st @ edit_index a,
           edited := edit_device a (edited st)\<rparr>)"
proof (cases "map_of existing b")
  case (Some k)
  have k: "edited st ! k = devs ! k" using assms(2) Some by blast
  then have same: "(edited st)[k := devs ! k] = edited st" by (metis list_update_id)
  show ?thesis
  proof (cases "map_of desired b")
    case (Some s)
    then show ?thesis using \<open>map_of existing b = Some k\<close> assms(1) assms(3) [of "devs ! k" s] k same
      by (cases match; cases edit; cases "edits edit (devs ! k) s")
        (auto simp: diff_existing_def bus_action_def matches_def edits_def Let_def)
  qed (use Some in \<open>simp add: diff_existing_def bus_action_def\<close>)
qed (simp add: diff_existing_def bus_action_def)


lemma bus_action_index:
  "bus_action existing desired match edit devs b \<in> {Remove k, Recreate k s, Edit k d} \<Longrightarrow> map_of existing b = Some k"
  by (auto simp: bus_action_def split: option.splits if_splits prod.splits)

lemma bus_action_indexD:
  "bus_action existing desired match edit devs b = Remove k \<Longrightarrow> map_of existing b = Some k"
  "bus_action existing desired match edit devs b = Recreate k s \<Longrightarrow> map_of existing b = Some k"
  "bus_action existing desired match edit devs b = Edit k d \<Longrightarrow> map_of existing b = Some k"
  using bus_action_index [of existing desired match edit devs b k] by blast+

lemma bus_action_spec: "bus_action existing desired match edit devs b = Recreate k s \<Longrightarrow> map_of desired b = Some s"
  by (auto simp: bus_action_def split: option.splits if_splits prod.splits)

lemma edit_device_other:
  "(\<And>d. a \<noteq> Edit k d) \<Longrightarrow> edit_device a ds ! k = ds ! k"
  by (cases a) (auto, metis nth_list_update_neq)

lemma length_edit_device [simp]: "length (edit_device a ds) = length ds"
  by (cases a) simp_all

lemma length_fold_edit_device [simp]: "length (fold (\<lambda>b. edit_device (act b)) bs ds) = length ds"
  by (induction bs arbitrary: ds) simp_all

lemma fold_edit_device_other:
  "(\<And>b d. b \<in> set bs \<Longrightarrow> act b \<noteq> Edit k d) \<Longrightarrow> fold (\<lambda>b. edit_device (act b)) bs ds ! k = ds ! k"
  by (induction bs arbitrary: ds) (simp_all add: edit_device_other)

lemma fold_edit_device_hit:
  assumes "act b = Edit k d" "b \<in> set bs" "k < length ds" "\<And>b' d'. b' \<noteq> b \<Longrightarrow> act b' \<noteq> Edit k d'"
  shows "fold (\<lambda>b. edit_device (act b)) bs ds ! k = d"
  using assms
proof (induction bs arbitrary: ds)
  case (Cons c bs)
  show ?case
  proof (cases "b \<in> set bs")
    case True
    with Cons show ?thesis by simp
  next
    case False
    then have "c = b" using Cons.prems(2) by simp
    moreover have "fold (\<lambda>b. edit_device (act b)) bs (edit_device (act b) ds) ! k = edit_device (act b) ds ! k"
      using False Cons.prems(4) by (intro fold_edit_device_other) metis
    ultimately show ?thesis using Cons.prems(1,3) by simp
  qed
qed simp

lemma diff_fold:
  assumes nil: "match = None \<longleftrightarrow> edit = None" and recreate: "\<And>d s d'. edits edit d s = (True, d') \<Longrightarrow> d' = d"
    and "distinct bs" "index_inj existing" "\<And>b k. b \<in> set bs \<Longrightarrow> map_of existing b = Some k \<Longrightarrow> edited st ! k = devs ! k"
    and act_def: "act = bus_action existing desired match edit devs"
  shows "fold (diff_existing existing desired match edit) bs st =
    st\<lparr>toRemove := toRemove st @ concat (map (\<lambda>b. removes (act b)) bs), toAdd := toAdd st @ concat (map (\<lambda>b. recreates (act b)) bs),
       toEdit := toEdit st @ concat (map (\<lambda>b. edit_index (act b)) bs), edited := fold (\<lambda>b. edit_device (act b)) bs (edited st)\<rparr>"
  using assms(3,5)
proof (induction bs arbitrary: st)
  case (Cons b bs)
  let ?st = "st\<lparr>toRemove := toRemove st @ removes (act b), toAdd := toAdd st @ recreates (act b),
      toEdit := toEdit st @ edit_index (act b), edited := edit_device (act b) (edited st)\<rparr>"
  have at: "edited st ! k = devs ! k" if "map_of existing b = Some k" for k by (rule Cons.prems(2) [OF _ that]) simp
  have step: "diff_existing existing desired match edit b st = ?st"
    by (subst diff_existing_action [OF nil at recreate]) (simp_all add: act_def Let_def)
  have keep: "edited ?st ! k = devs ! k" if b': "b' \<in> set bs" "map_of existing b' = Some k" for b' k
  proof -
    have "act b \<noteq> Edit k d" for d
      using bus_action_index [of existing desired match edit devs b k _ d] b' Cons.prems(1) assms(4)
      by (auto simp: act_def index_inj_def)
    then show ?thesis using Cons.prems(2) [of b' k] b' by (simp add: edit_device_other)
  qed
  show ?case using Cons.IH [of ?st] Cons.prems(1) keep by (simp add: step)
qed simp


section \<open>Families of controllers\<close>

definition in_family :: "(controller_kind \<Rightarrow> bool) \<Rightarrow> device \<Rightarrow> bool" where
  "in_family fam d \<longleftrightarrow> (case d of DiskController kind key bus info \<Rightarrow> fam kind | _ \<Rightarrow> False)"

definition dev_bus :: "device \<Rightarrow> int" where
  "dev_bus d = (case d of DiskController kind key bus info \<Rightarrow> bus | _ \<Rightarrow> 0)"

text \<open>The map of existing controllers holds the controllers of the family, each under its bus number.\<close>

definition family_found :: "(controller_kind \<Rightarrow> bool) \<Rightarrow> device list \<Rightarrow> (int \<times> nat) list \<Rightarrow> bool" where
  "family_found fam devs existing \<longleftrightarrow>
     distinct (map fst existing) \<and>
     (\<forall>b k. map_of existing b = Some k \<longrightarrow> k < length devs \<and> in_family fam (devs ! k) \<and> dev_bus (devs ! k) = b) \<and>
     (\<forall>d \<in> set devs. in_family fam d \<longrightarrow> (\<exists>k. map_of existing (dev_bus d) = Some k \<and> devs ! k = d))"

text \<open>The controllers of the family are the desired ones.\<close>

definition settled :: "(controller_kind \<Rightarrow> bool) \<Rightarrow> (device \<Rightarrow> 'spec \<Rightarrow> bool) option \<Rightarrow> (int \<times> 'spec) list \<Rightarrow> device list \<Rightarrow> bool" where
  "settled fam match desired ds \<longleftrightarrow>
     (\<forall>d \<in> set ds. in_family fam d \<longrightarrow> (\<exists>s. map_of desired (dev_bus d) = Some s \<and> matches match d s)) \<and>
     (\<forall>b s. map_of desired b = Some s \<longrightarrow> (\<exists>d \<in> set ds. in_family fam d \<and> dev_bus d = b))"

definition permutes :: "(int list \<Rightarrow> int list) \<Rightarrow> bool" where
  "permutes f \<longleftrightarrow> (\<forall>xs. mset (f xs) = mset xs)"

lemma permutes_set: "permutes f \<Longrightarrow> set (f xs) = set xs"
  unfolding permutes_def by (metis set_mset_mset)

lemma permutes_distinct: "permutes f \<Longrightarrow> distinct (f xs) = distinct xs"
  unfolding permutes_def by (metis mset_eq_imp_distinct_iff)

lemma family_found_index: "family_found fam devs existing \<Longrightarrow> index_inj existing"
  unfolding family_found_def index_inj_def by metis

text \<open>
  The contract of a family: what its match, edit and new functions promise. \<open>valid\<close> are the specifications for
  which a controller can be made.
\<close>

locale controller_family =
  fixes fam :: "controller_kind \<Rightarrow> bool" and bus_of :: "'spec \<Rightarrow> int"
    and match :: "(device \<Rightarrow> 'spec \<Rightarrow> bool) option" and edit :: "(device \<Rightarrow> 'spec \<Rightarrow> bool \<times> device) option"
    and new :: "'spec \<Rightarrow> int \<Rightarrow> int \<Rightarrow> device option \<times> int" and valid :: "'spec \<Rightarrow> bool"
  assumes nil: "match = None \<longleftrightarrow> edit = None"
    and recreate: "edits edit d s = (True, d') \<Longrightarrow> d' = d"
    and edit_ok: "in_family fam d \<Longrightarrow> edits edit d s = (False, d') \<Longrightarrow> match \<noteq> None \<Longrightarrow>
      dev_key d' = dev_key d \<and> in_family fam d' \<and> dev_bus d' = dev_bus d \<and> matches match d' s"
    and new_ok: "valid s \<Longrightarrow> \<exists>d. new s pci key = (Some d, key - 1) \<and> dev_key d = key - 1 \<and> in_family fam d \<and>
      dev_bus d = bus_of s \<and> matches match d s"
    and new_panics: "\<not> valid s \<Longrightarrow> fst (new s pci key) = None"
begin

lemma add_controllers_run:
  "(\<And>s. s \<in> set specs \<Longrightarrow> valid s) \<Longrightarrow>
     \<exists>N. add_controllers new pci specs st = Some (st\<lparr>vc_changes := vc_changes st @ map (change OperationAdd) N,
         vc_newDeviceKey := vc_newDeviceKey st - int (length N)\<rparr>) \<and>
       list_all2 (\<lambda>s d. in_family fam d \<and> dev_bus d = bus_of s \<and> matches match d s) specs N \<and> distinct (map dev_key N) \<and>
       (\<forall>d \<in> set N. vc_newDeviceKey st - int (length N) \<le> dev_key d \<and> dev_key d < vc_newDeviceKey st)"
proof (induction specs arbitrary: st)
  case (Cons s specs)
  obtain d where d: "new s pci (vc_newDeviceKey st) = (Some d, vc_newDeviceKey st - 1)" "dev_key d = vc_newDeviceKey st - 1"
      "in_family fam d" "dev_bus d = bus_of s" "matches match d s"
    using new_ok [of s pci "vc_newDeviceKey st"] Cons.prems by auto
  let ?st = "st\<lparr>vc_changes := vc_changes st @ [change OperationAdd d], vc_newDeviceKey := vc_newDeviceKey st - 1\<rparr>"
  obtain N where N: "add_controllers new pci specs ?st = Some (?st\<lparr>vc_changes := vc_changes ?st @ map (change OperationAdd) N,
         vc_newDeviceKey := vc_newDeviceKey ?st - int (length N)\<rparr>)"
      "list_all2 (\<lambda>s d. in_family fam d \<and> dev_bus d = bus_of s \<and> matches match d s) specs N" "distinct (map dev_key N)"
      "\<forall>d \<in> set N. vc_newDeviceKey ?st - int (length N) \<le> dev_key d \<and> dev_key d < vc_newDeviceKey ?st"
    using Cons.IH [of ?st] Cons.prems by auto
  have "dev_key d \<notin> dev_key ` set N" using N(4) d(2) by auto
  with N d show ?case
    by (intro exI [of _ "d # N"]) (auto simp: addDeviceChangeOp_def algebra_simps)
qed simp

text \<open>A specification for which no controller can be made ends the loop in a panic.\<close>

lemma add_controllers_panics: "add_controllers new pci specs st = None \<longleftrightarrow> (\<exists>s \<in> set specs. \<not> valid s)"
proof (induction specs arbitrary: st)
  case (Cons s specs)
  then show ?case using new_ok [of s pci "vc_newDeviceKey st"] new_panics [of s pci "vc_newDeviceKey st"]
    by (cases "valid s") (auto split: prod.split option.split)
qed simp

end


lemma emit_loop:
  "fold (\<lambda>k st. st\<lparr>vc_changes := addDeviceChangeOp (vc_changes st) (vc_devices st ! k) op\<rparr>) ks st =
     st\<lparr>vc_changes := vc_changes st @ map (change op) (map ((!) (vc_devices st)) ks)\<rparr>"
  by (induction ks arbitrary: st) (simp_all add: addDeviceChangeOp_def)

text \<open>The buses that are removed, created anew or edited are existing ones.\<close>

lemma bus_action_dom: "bus_action existing desired match edit devs b \<noteq> Keep \<Longrightarrow> b \<in> set (map fst existing)"
  by (auto simp: bus_action_def split: option.splits dest!: map_of_SomeD intro: rev_image_eqI)

lemma removes_iff: "k \<in> set (removes a) \<longleftrightarrow> a = Remove k \<or> (\<exists>s. a = Recreate k s)"
  by (cases a) auto

lemma recreates_iff: "s \<in> set (recreates a) \<longleftrightarrow> (\<exists>k. a = Recreate k s)"
  by (cases a) auto

lemma edit_index_iff: "k \<in> set (edit_index a) \<longleftrightarrow> (\<exists>d. a = Edit k d)"
  by (cases a) auto

text \<open>The difference, as sets.\<close>

lemma diffByBusNumber_sets:
  fixes desired :: "(int \<times> 'spec) list"
  assumes "controller_family fam bus_of match edit new valid" "family_found fam devs existing" "permutes o1" "permutes o2"
  defines "act \<equiv> bus_action existing desired match edit devs" and "diff \<equiv> diffByBusNumber o1 o2 existing desired match edit devs"
  shows "set (toRemove diff) = {k. \<exists>b. act b = Remove k \<or> (\<exists>s. act b = Recreate k s)}"
    and "set (toEdit diff) = {k. \<exists>b d. act b = Edit k d}" and "distinct (toEdit diff)"
    and "set (toAdd diff) = {s. \<exists>b. map_of desired b = Some s \<and> map_of existing b = None} \<union> {s. \<exists>b k. act b = Recreate k s}"
    and "length (edited diff) = length devs" and "\<And>b k d. act b = Edit k d \<Longrightarrow> edited diff ! k = d"
    and "\<And>k. (\<And>b d. act b \<noteq> Edit k d) \<Longrightarrow> edited diff ! k = devs ! k"
proof -
  let ?bs = "o2 (map fst existing)"
  have laws: "match = None \<longleftrightarrow> edit = None" "\<And>d s d'. edits edit d s = (True, d') \<Longrightarrow> d' = d"
    using controller_family.nil [OF assms(1)] controller_family.recreate [OF assms(1)] by blast+
  have inj: "index_inj existing" by (rule family_found_index [OF assms(2)])
  have dist: "distinct ?bs" using assms(2,4) by (simp add: permutes_distinct family_found_def)
  have dom: "b \<in> set ?bs" if "act b \<noteq> Keep" for b
    using bus_action_dom that assms(4) by (simp add: permutes_set act_def) blast
  have diff: "diff = \<lparr>toAdd = List.map_filter (map_of desired) (filter (\<lambda>bus. map_of existing bus = None) (o1 (map fst desired))) @
        concat (map (\<lambda>b. recreates (act b)) ?bs), toEdit = concat (map (\<lambda>b. edit_index (act b)) ?bs),
      toRemove = concat (map (\<lambda>b. removes (act b)) ?bs), edited = fold (\<lambda>b. edit_device (act b)) ?bs devs\<rparr>"
    unfolding diff_def diffByBusNumber_def by (subst diff_fold [OF laws dist inj refl]) (simp_all add: act_def)
  have idx: "map_of existing b = Some k" if "act b \<in> {Remove k, Recreate k s, Edit k d}" for b k s d
    using that unfolding act_def by (rule bus_action_index)
  have uniq: "b' = b" if "act b = Edit k d" "act b' = Edit k d'" for b b' k d d'
    using idx [of b k _ d] idx [of b' k _ d'] that inj unfolding index_inj_def by blast
  show "set (toRemove diff) = {k. \<exists>b. act b = Remove k \<or> (\<exists>s. act b = Recreate k s)}"
    using dom by (force simp: diff removes_iff)
  show "set (toEdit diff) = {k. \<exists>b d. act b = Edit k d}"
    using dom by (force simp: diff edit_index_iff)
  have "distinct (concat (map (\<lambda>b. edit_index (act b)) xs))" if "distinct xs" for xs
    using that
  proof (induction xs)
    case (Cons b xs)
    have "distinct (edit_index (act b))" by (cases "act b") simp_all
    moreover have "set (edit_index (act b)) \<inter> set (edit_index (act b')) = {}" if "b' \<in> set xs" for b'
      using that Cons.prems uniq [of b _ _ b'] by (auto simp: edit_index_iff)
    ultimately show ?case using Cons by auto
  qed simp
  then show "distinct (toEdit diff)" using dist by (simp add: diff)
  have "set (List.map_filter (map_of desired) (filter (\<lambda>bus. map_of existing bus = None) (o1 (map fst desired)))) =
      {s. \<exists>b. map_of desired b = Some s \<and> map_of existing b = None}"
    using permutes_set [OF assms(3)] by (force simp: map_filter_def image_iff dest: map_of_SomeD)
  moreover have "set (concat (map (\<lambda>b. recreates (act b)) ?bs)) = {s. \<exists>b k. act b = Recreate k s}"
    using dom by (force simp: recreates_iff)
  ultimately show "set (toAdd diff) = {s. \<exists>b. map_of desired b = Some s \<and> map_of existing b = None} \<union> {s. \<exists>b k. act b = Recreate k s}"
    by (simp add: diff)
  show "length (edited diff) = length devs" by (simp add: diff)
  show "edited diff ! k = d" if "act b = Edit k d" for b k d
  proof -
    have "k < length devs" using idx [of b k _ d] that assms(2) unfolding family_found_def by blast
    moreover have "act b' \<noteq> Edit k d'" if "b' \<noteq> b" for b' d' using uniq [OF \<open>act b = Edit k d\<close>] that by blast
    ultimately show ?thesis using fold_edit_device_hit [of act b k d ?bs devs] that dom [of b] by (simp add: diff)
  qed
  show "edited diff ! k = devs ! k" if "\<And>b d. act b \<noteq> Edit k d" for k
    using that by (simp add: diff fold_edit_device_other)
qed


lemma toAdd_desired:
  assumes "controller_family fam bus_of match edit new valid" "family_found fam devs existing" "permutes o1" "permutes o2"
    and "s \<in> set (toAdd (diffByBusNumber o1 o2 existing desired match edit devs))"
  shows "\<exists>b. map_of desired b = Some s"
  using assms(5) unfolding diffByBusNumber_sets(4) [OF assms(1-4)] by (auto dest: bus_action_spec)

section \<open>One family\<close>

text \<open>What a family's reconcile does with the devices of the server, \<^verbatim>\<open>cur\<close>.\<close>

definition family_ready :: "(controller_kind \<Rightarrow> bool) \<Rightarrow> device list \<Rightarrow> device list \<Rightarrow> bool" where
  "family_ready fam devs cur \<longleftrightarrow> (\<forall>d. in_family fam d \<longrightarrow> (d \<in> set cur \<longleftrightarrow> d \<in> set devs))"

lemma distinct_keys_inj: "distinct (map dev_key cur) \<Longrightarrow> x \<in> set cur \<Longrightarrow> y \<in> set cur \<Longrightarrow> dev_key x = dev_key y \<Longrightarrow> x = y"
  by (metis distinct_map inj_onD)

lemma family_own_key:
  assumes "family_found fam devs existing" "family_ready fam devs cur" "distinct (map dev_key cur)"
    and "map_of existing b = Some k" "map_of existing b' = Some k'" "dev_key (devs ! k) = dev_key (devs ! k')"
  shows "b' = b"
proof -
  have "devs ! k \<in> set cur" "devs ! k' \<in> set cur" "dev_bus (devs ! k) = b" "dev_bus (devs ! k') = b'"
    using assms(1,2,4,5) unfolding family_found_def family_ready_def by (metis nth_mem)+
  then show ?thesis using distinct_keys_inj [OF assms(3)] assms(6) by metis
qed

text \<open>The devices of a difference that are removed, and those that are edited.\<close>

definition removed_devices :: "'spec bus_diff \<Rightarrow> device list" where
  "removed_devices diff = map ((!) (edited diff)) (toRemove diff)"

definition edited_devices :: "'spec bus_diff \<Rightarrow> device list" where
  "edited_devices diff = map ((!) (edited diff)) (toEdit diff)"

definition family_run :: "(controller_kind \<Rightarrow> bool) \<Rightarrow> ('spec \<Rightarrow> int) \<Rightarrow> (device \<Rightarrow> 'spec \<Rightarrow> bool) option \<Rightarrow>
    (device \<Rightarrow> 'spec \<Rightarrow> bool \<times> device) option \<Rightarrow> ('spec \<Rightarrow> int \<Rightarrow> int \<Rightarrow> device option \<times> int) \<Rightarrow> ('spec \<Rightarrow> bool) \<Rightarrow>
    device list \<Rightarrow> (int \<times> nat) list \<Rightarrow> (int list \<Rightarrow> int list) \<Rightarrow> (int list \<Rightarrow> int list) \<Rightarrow> device list \<Rightarrow> bool" where
  "family_run fam bus_of match edit new valid devs existing o1 o2 cur \<longleftrightarrow>
     controller_family fam bus_of match edit new valid \<and> family_found fam devs existing \<and> permutes o1 \<and> permutes o2 \<and>
     family_ready fam devs cur \<and> distinct (map dev_key cur)"

lemma family_runD:
  assumes "family_run fam bus_of match edit new valid devs existing o1 o2 cur"
  shows "controller_family fam bus_of match edit new valid" "family_found fam devs existing" "permutes o1" "permutes o2"
    "family_ready fam devs cur" "distinct (map dev_key cur)"
  using assms by (simp_all add: family_run_def)

lemma family_run_here:
  assumes "family_run fam bus_of match edit new valid devs existing o1 o2 cur" "map_of existing b = Some k"
  shows "devs ! k \<in> set cur" "in_family fam (devs ! k)" "dev_bus (devs ! k) = b"
  using assms(2) family_runD(2,5) [OF assms(1)] unfolding family_ready_def family_found_def by (metis nth_mem)+

lemma family_run_own:
  assumes "family_run fam bus_of match edit new valid devs existing o1 o2 cur" "y \<in> set cur" "in_family fam y"
  obtains k where "map_of existing (dev_bus y) = Some k" "devs ! k = y"
  using assms(2,3) family_runD(2,5) [OF assms(1)] unfolding family_ready_def family_found_def by blast

lemma bus_action_cases:
  fixes desired :: "(int \<times> 'spec) list"
  assumes "controller_family fam bus_of match edit new valid" "map_of existing b = Some k" "in_family fam (devs ! k)"
  obtains (remove) "map_of desired b = None" "bus_action existing desired match edit devs b = Remove k"
  | (keep) s where "map_of desired b = Some s" "matches match (devs ! k) s" "bus_action existing desired match edit devs b = Keep"
  | (recreate) s where "map_of desired b = Some s" "bus_action existing desired match edit devs b = Recreate k s"
  | (edit) s d where "map_of desired b = Some s" "bus_action existing desired match edit devs b = Edit k d" "in_family fam d" "dev_bus d = dev_bus (devs ! k)" "matches match d s"
proof (cases "map_of desired b")
  case None
  then show thesis using remove assms(2) by (simp add: bus_action_def)
next
  case (Some s)
  show thesis
  proof (cases "matches match (devs ! k) s")
    case True
    then show thesis using keep Some assms(2) by (simp add: bus_action_def)
  next
    case False
    then have m: "match \<noteq> None" by (cases match) (simp_all add: matches_def)
    obtain r d where e: "edits edit (devs ! k) s = (r, d)" by (cases "edits edit (devs ! k) s")
    show thesis
    proof (cases r)
      case True
      then show thesis using recreate Some False e assms(2) by (simp add: bus_action_def)
    next
      case no: False
      then show thesis
        using edit [of s d] Some False e assms(2) controller_family.edit_ok [OF assms(1,3) _ m, of s d] by (simp add: bus_action_def)
    qed
  qed
qed

text \<open>Removed devices are as they were, and edited ones keep their key.\<close>

lemma removed_unedited:
  fixes desired :: "(int \<times> 'spec) list"
  assumes run: "family_run fam bus_of match edit new valid devs existing o1 o2 cur"
    and a: "bus_action existing desired match edit devs b = Remove k \<or> (\<exists>s. bus_action existing desired match edit devs b = Recreate k s)"
  shows "map_of existing b = Some k" "edited (diffByBusNumber o1 o2 existing desired match edit devs) ! k = devs ! k"
proof -
  show b: "map_of existing b = Some k" using a by (metis bus_action_indexD(1,2))
  show "edited (diffByBusNumber o1 o2 existing desired match edit devs) ! k = devs ! k"
  proof (rule diffByBusNumber_sets(7) [OF family_runD(1-4) [OF run]])
    fix b' d
    show "bus_action existing desired match edit devs b' \<noteq> Edit k d"
    proof
      assume e: "bus_action existing desired match edit devs b' = Edit k d"
      then have "map_of existing b' = Some k" by (rule bus_action_indexD)
      then have "b' = b" using b family_found_index [OF family_runD(2) [OF run]] by (simp add: index_inj_def)
      then show False using a e by auto
    qed
  qed
qed

lemma edited_key:
  fixes desired :: "(int \<times> 'spec) list"
  assumes run: "family_run fam bus_of match edit new valid devs existing o1 o2 cur"
    and e: "bus_action existing desired match edit devs b = Edit k d"
  shows "map_of existing b = Some k" "dev_key d = dev_key (devs ! k)"
proof -
  show b: "map_of existing b = Some k" using e by (rule bus_action_indexD)
  obtain s where "edits edit (devs ! k) s = (False, d)" "\<not> matches match (devs ! k) s"
    using e by (auto simp: bus_action_def split: option.splits if_splits prod.splits)
  moreover from this(2) have "match \<noteq> None" by (cases match) (simp_all add: matches_def)
  ultimately show "dev_key d = dev_key (devs ! k)"
    using controller_family.edit_ok [OF family_runD(1) [OF run] family_run_here(2) [OF run b]] by blast
qed

lemma edited_devices_iff:
  fixes desired :: "(int \<times> 'spec) list"
  assumes run: "family_run fam bus_of match edit new valid devs existing o1 o2 cur"
  shows "d \<in> set (edited_devices (diffByBusNumber o1 o2 existing desired match edit devs)) \<longleftrightarrow>
    (\<exists>b k. bus_action existing desired match edit devs b = Edit k d)"
    (is "d \<in> set (edited_devices ?diff) \<longleftrightarrow> (\<exists>b k. ?act b = Edit k d)")
proof
  note sets = diffByBusNumber_sets [OF family_runD(1-4) [OF run], of desired]
  assume "d \<in> set (edited_devices ?diff)"
  then obtain k where k: "k \<in> set (toEdit ?diff)" "d = edited ?diff ! k" by (auto simp: edited_devices_def)
  then obtain b d' where "?act b = Edit k d'" using sets(2) by blast
  with k(2) sets(6) [OF this] show "\<exists>b k. ?act b = Edit k d" by metis
next
  note sets = diffByBusNumber_sets [OF family_runD(1-4) [OF run], of desired]
  assume "\<exists>b k. ?act b = Edit k d"
  then obtain b k where e: "?act b = Edit k d" by blast
  then have "k \<in> set (toEdit ?diff)" using sets(2) by blast
  with sets(6) [OF e] show "d \<in> set (edited_devices ?diff)" by (auto simp: edited_devices_def)
qed

lemma removed_devices_iff:
  fixes desired :: "(int \<times> 'spec) list"
  assumes run: "family_run fam bus_of match edit new valid devs existing o1 o2 cur"
  shows "d \<in> set (removed_devices (diffByBusNumber o1 o2 existing desired match edit devs)) \<longleftrightarrow>
    (\<exists>b k. (bus_action existing desired match edit devs b = Remove k \<or>
      (\<exists>s. bus_action existing desired match edit devs b = Recreate k s)) \<and> d = devs ! k)"
proof -
  note sets = diffByBusNumber_sets [OF family_runD(1-4) [OF run], of desired]
  let ?K = "{k. \<exists>b. bus_action existing desired match edit devs b = Remove k \<or>
      (\<exists>s. bus_action existing desired match edit devs b = Recreate k s)}"
  have "(!) (edited (diffByBusNumber o1 o2 existing desired match edit devs)) ` ?K = (!) devs ` ?K"
    by (rule image_cong [OF refl]) (use removed_unedited(2) [OF run, of desired] in blast)
  then show ?thesis unfolding removed_devices_def set_map sets(1) by blast
qed

text \<open>The fate of a device: removed, edited, or neither.\<close>

lemma family_fate:
  fixes desired :: "(int \<times> 'spec) list"
  assumes run: "family_run fam bus_of match edit new valid devs existing o1 o2 cur" and b: "map_of existing b = Some k"
  defines "act \<equiv> bus_action existing desired match edit devs" and "diff \<equiv> diffByBusNumber o1 o2 existing desired match edit devs"
  shows "dev_key (devs ! k) \<in> dev_key ` set (removed_devices diff) \<longleftrightarrow> act b = Remove k \<or> (\<exists>s. act b = Recreate k s)"
    and "dev_key (devs ! k) \<in> dev_key ` set (edited_devices diff) \<longleftrightarrow> (\<exists>d. act b = Edit k d)"
    and "act b = Edit k d \<Longrightarrow> d \<in> set (edited_devices diff) \<and> dev_key d = dev_key (devs ! k)"
proof -
  have own: "b' = b \<and> k' = k" if "map_of existing b' = Some k'" "dev_key (devs ! k') = dev_key (devs ! k)" for b' k'
    using family_own_key [OF family_runD(2,5,6) [OF run] b that(1)] that b by simp
  note removed = removed_devices_iff [OF run, of _ desired, folded act_def diff_def]
  note unedited = removed_unedited [OF run, of desired, folded act_def]
  note editing = edited_devices_iff [OF run, of _ desired, folded act_def diff_def]
  note key = edited_key [OF run, of desired, folded act_def]
  show "dev_key (devs ! k) \<in> dev_key ` set (removed_devices diff) \<longleftrightarrow> act b = Remove k \<or> (\<exists>s. act b = Recreate k s)"
  proof
    assume "dev_key (devs ! k) \<in> dev_key ` set (removed_devices diff)"
    then obtain x where "x \<in> set (removed_devices diff)" "dev_key (devs ! k) = dev_key x" by (rule imageE)
    then obtain b' k' where k': "act b' = Remove k' \<or> (\<exists>s. act b' = Recreate k' s)" "dev_key (devs ! k) = dev_key (devs ! k')"
      using removed [of x] by blast
    then show "act b = Remove k \<or> (\<exists>s. act b = Recreate k s)" using own [of b' k'] unedited(1) [OF k'(1)] by simp
  next
    assume "act b = Remove k \<or> (\<exists>s. act b = Recreate k s)"
    then show "dev_key (devs ! k) \<in> dev_key ` set (removed_devices diff)" using removed by blast
  qed
  show "dev_key (devs ! k) \<in> dev_key ` set (edited_devices diff) \<longleftrightarrow> (\<exists>d. act b = Edit k d)"
  proof
    assume "dev_key (devs ! k) \<in> dev_key ` set (edited_devices diff)"
    then obtain d where "d \<in> set (edited_devices diff)" "dev_key (devs ! k) = dev_key d" by (rule imageE)
    then obtain b' k' where k': "act b' = Edit k' d" "dev_key (devs ! k) = dev_key d" using editing [of d] by blast
    have "b' = b \<and> k' = k" using own [OF key(1) [OF k'(1)]] key(2) [OF k'(1)] k'(2) by simp
    then show "\<exists>d. act b = Edit k d" using k'(1) by blast
  next
    assume "\<exists>d. act b = Edit k d"
    then obtain d where e: "act b = Edit k d" by blast
    then have "d \<in> set (edited_devices diff)" using editing by blast
    then show "dev_key (devs ! k) \<in> dev_key ` set (edited_devices diff)" using key(2) [OF e] by (intro rev_image_eqI [of d]) simp_all
  qed
  show "d \<in> set (edited_devices diff) \<and> dev_key d = dev_key (devs ! k)" if e: "act b = Edit k d"
    using e editing [of d] key(2) [OF e] by blast
qed

lemma changed_keys:
  fixes desired :: "(int \<times> 'spec) list"
  assumes run: "family_run fam bus_of match edit new valid devs existing o1 o2 cur"
  defines "diff \<equiv> diffByBusNumber o1 o2 existing desired match edit devs"
  assumes "x \<in> set (removed_devices diff) \<union> set (edited_devices diff)"
  obtains b k where "map_of existing b = Some k" "dev_key x = dev_key (devs ! k)"
proof (cases "x \<in> set (removed_devices diff)")
  case True
  then obtain b k where k: "bus_action existing desired match edit devs b = Remove k \<or>
      (\<exists>s. bus_action existing desired match edit devs b = Recreate k s)" "x = devs ! k"
    using removed_devices_iff [OF run, of x desired] unfolding diff_def by blast
  then show thesis using that [of b k] removed_unedited(1) [OF run k(1)] by simp
next
  case False
  then obtain b k where e: "bus_action existing desired match edit devs b = Edit k x"
    using assms(3) edited_devices_iff [OF run, of x desired] unfolding diff_def by blast
  then show thesis using that [of b k] edited_key [OF run e] by simp
qed

lemma edited_devices_distinct:
  fixes desired :: "(int \<times> 'spec) list"
  assumes run: "family_run fam bus_of match edit new valid devs existing o1 o2 cur"
  shows "distinct (map dev_key (edited_devices (diffByBusNumber o1 o2 existing desired match edit devs)))" (is "distinct (map _ (edited_devices ?diff))")
proof -
  note sets = diffByBusNumber_sets [OF family_runD(1-4) [OF run], of desired]
  have key: "\<exists>b. map_of existing b = Some k \<and> dev_key (edited ?diff ! k) = dev_key (devs ! k)" if "k \<in> set (toEdit ?diff)" for k
    using that sets(6) edited_key [OF run, of desired] unfolding sets(2) by blast
  have "k = k'" if k: "k \<in> set (toEdit ?diff)" "k' \<in> set (toEdit ?diff)" "dev_key (edited ?diff ! k) = dev_key (edited ?diff ! k')" for k k'
  proof -
    obtain b b' where "map_of existing b = Some k" "dev_key (edited ?diff ! k) = dev_key (devs ! k)"
        "map_of existing b' = Some k'" "dev_key (edited ?diff ! k') = dev_key (devs ! k')" using key k(1,2) by blast
    with family_own_key [OF family_runD(2,5,6) [OF run], of b k b' k'] k(3) show ?thesis by simp
  qed
  then have "inj_on (\<lambda>k. dev_key (edited ?diff ! k)) (set (toEdit ?diff))" by (rule inj_onI)
  then show ?thesis using sets(3) by (simp add: edited_devices_def distinct_map comp_def)
qed

text \<open>Devices outside the family have other keys.\<close>

lemma other_keys:
  fixes desired :: "(int \<times> 'spec) list"
  assumes run: "family_run fam bus_of match edit new valid devs existing o1 o2 cur" and y: "y \<in> set cur" "\<not> in_family fam y"
  defines "diff \<equiv> diffByBusNumber o1 o2 existing desired match edit devs"
  shows "dev_key y \<notin> dev_key ` set (removed_devices diff)" "dev_key y \<notin> dev_key ` set (edited_devices diff)"
proof -
  have "dev_key x \<noteq> dev_key y" if x: "x \<in> set (removed_devices diff) \<union> set (edited_devices diff)" for x
  proof
    assume "dev_key x = dev_key y"
    then obtain b k where k: "map_of existing b = Some k" "dev_key y = dev_key (devs ! k)"
      using changed_keys [OF run x [unfolded diff_def]] by metis
    then have "y = devs ! k" using distinct_keys_inj [OF family_runD(6) [OF run] y(1) family_run_here(1) [OF run k(1)]] by simp
    then show False using y(2) family_run_here(2) [OF run k(1)] by simp
  qed
  then show "dev_key y \<notin> dev_key ` set (removed_devices diff)" "dev_key y \<notin> dev_key ` set (edited_devices diff)" by force+
qed

lemma emit_run:
  assumes "controller_family fam bus_of match edit new valid" "\<And>s. s \<in> set (toAdd diff) \<Longrightarrow> valid s"
  shows "\<exists>N. emit_changes new pci diff st =
      Some \<lparr>vc_changes = vc_changes st @ map (change OperationRemove) (map ((!) (edited diff)) (toRemove diff)) @
          map (change OperationAdd) N @ map (change OperationEdit) (map ((!) (edited diff)) (toEdit diff)),
        vc_newDeviceKey = vc_newDeviceKey st - int (length N), vc_devices = edited diff\<rparr> \<and>
    list_all2 (\<lambda>s d. in_family fam d \<and> dev_bus d = bus_of s \<and> matches match d s) (toAdd diff) N \<and> distinct (map dev_key N) \<and>
    (\<forall>d \<in> set N. vc_newDeviceKey st - int (length N) \<le> dev_key d \<and> dev_key d < vc_newDeviceKey st)"
proof -
  let ?st = "st\<lparr>vc_devices := edited diff,
    vc_changes := vc_changes st @ map (change OperationRemove) (map ((!) (edited diff)) (toRemove diff))\<rparr>"
  obtain N where N: "add_controllers new pci (toAdd diff) ?st =
        Some (?st\<lparr>vc_changes := vc_changes ?st @ map (change OperationAdd) N, vc_newDeviceKey := vc_newDeviceKey ?st - int (length N)\<rparr>)"
      "list_all2 (\<lambda>s d. in_family fam d \<and> dev_bus d = bus_of s \<and> matches match d s) (toAdd diff) N" "distinct (map dev_key N)"
      "\<forall>d \<in> set N. vc_newDeviceKey ?st - int (length N) \<le> dev_key d \<and> dev_key d < vc_newDeviceKey ?st"
    using controller_family.add_controllers_run [OF assms(1), of "toAdd diff" pci ?st] assms(2) by auto
  show ?thesis
    by (rule exI [of _ N]) (use N in \<open>simp add: emit_changes_def Let_def emit_loop del: map_map\<close>)
qed

text \<open>
  The state between two families: the server's devices have distinct keys, none below the next new key, and for
  every family still to come the server and the reconciler see the same controllers.
\<close>

definition keys_ok :: "int \<Rightarrow> device list \<Rightarrow> bool" where
  "keys_ok key cur \<longleftrightarrow> distinct (map dev_key cur) \<and> (\<forall>d \<in> set cur. key \<le> dev_key d)"

text \<open>The devices of the server after the changes of one family.\<close>

definition family_changes :: "'spec bus_diff \<Rightarrow> device list \<Rightarrow> device_changes" where
  "family_changes diff N = map (change OperationRemove) (removed_devices diff) @ map (change OperationAdd) N @
     map (change OperationEdit) (edited_devices diff)"

definition new_devices :: "int \<Rightarrow> device list \<Rightarrow> bool" where
  "new_devices key N \<longleftrightarrow> distinct (map dev_key N) \<and> (\<forall>d \<in> set N. key - int (length N) \<le> dev_key d \<and> dev_key d < key)"

lemma family_after:
  fixes desired :: "(int \<times> 'spec) list"
  assumes run: "family_run fam bus_of match edit new valid devs existing o1 o2 cur" and keys: "keys_ok key cur" "new_devices key N"
  defines "diff \<equiv> diffByBusNumber o1 o2 existing desired match edit devs"
  shows "x \<in> set (apply_changes (family_changes diff N) cur) \<longleftrightarrow>
      x \<in> set N \<or> (\<exists>y \<in> set cur. dev_key y \<notin> dev_key ` set (removed_devices diff) \<and> x = replaced (edited_devices diff) y)"
    and "keys_ok (key - int (length N)) (apply_changes (family_changes diff N) cur)"
proof -
  let ?R = "removed_devices diff" and ?D = "edited_devices diff"
  have dist: "distinct (map dev_key cur)" and low: "\<And>d. d \<in> set cur \<Longrightarrow> key \<le> dev_key d"
    using keys(1) by (auto simp: keys_ok_def)
  have N: "distinct (map dev_key N)" "\<forall>d \<in> set N. key - int (length N) \<le> dev_key d \<and> dev_key d < key"
    using keys(2) by (auto simp: new_devices_def)
  have D: "key \<le> dev_key d" if d: "d \<in> set ?D" for d
  proof -
    obtain b k where "map_of existing b = Some k" "dev_key d = dev_key (devs ! k)"
      using changed_keys [OF run, of d desired] d unfolding diff_def by blast
    then show ?thesis using low family_run_here(1) [OF run] by metis
  qed
  have new: "replaced ?D y = y" if "y \<in> set N" for y
    by (rule replaced_miss) (use D N(2) that in force)
  have cur': "apply_changes (family_changes diff N) cur = map (replaced ?D) (filter (\<lambda>x. dev_key x \<notin> dev_key ` set ?R) cur @ N)"
    using apply_edits [OF edited_devices_distinct [OF run, of desired]]
    by (simp add: family_changes_def diff_def apply_changes_append apply_removes apply_adds)
  show "x \<in> set (apply_changes (family_changes diff N) cur) \<longleftrightarrow>
      x \<in> set N \<or> (\<exists>y \<in> set cur. dev_key y \<notin> dev_key ` set ?R \<and> x = replaced ?D y)"
    using new by (auto simp: cur' image_iff)
  have "distinct (map dev_key (filter P cur @ N))" for P
    using dist N low by (fastforce simp: distinct_map_filter)
  then have "distinct (map dev_key (apply_changes (family_changes diff N) cur))"
    by (simp add: cur' comp_def replaced_key)
  moreover have "key - int (length N) \<le> dev_key d" if "d \<in> set (apply_changes (family_changes diff N) cur)" for d
    using that low N(2) by (fastforce simp: cur' replaced_key)
  ultimately show "keys_ok (key - int (length N)) (apply_changes (family_changes diff N) cur)" by (simp add: keys_ok_def)
qed

text \<open>A controller of the family that is not removed ends up as its specification says.\<close>

lemma family_survivor:
  fixes desired :: "(int \<times> 'spec) list"
  assumes run: "family_run fam bus_of match edit new valid devs existing o1 o2 cur" and y: "y \<in> set cur" "in_family fam y"
  defines "diff \<equiv> diffByBusNumber o1 o2 existing desired match edit devs"
  assumes kept: "dev_key y \<notin> dev_key ` set (removed_devices diff)"
  defines "x \<equiv> replaced (edited_devices diff) y"
  shows "in_family fam x \<and> dev_bus x = dev_bus y \<and> (\<exists>s. map_of desired (dev_bus x) = Some s \<and> matches match x s)"
proof -
  obtain k where k: "map_of existing (dev_bus y) = Some k" "devs ! k = y" by (rule family_run_own [OF run y])
  note fate = family_fate [OF run k(1), where desired = desired, folded diff_def]
  have kf: "in_family fam (devs ! k)" using y(2) k(2) by simp
  show ?thesis
  proof (cases rule: bus_action_cases [OF family_runD(1) [OF run] k(1) kf, where desired = desired])
    case (2 s)
    then have "x = y" using fate(2) k(2) unfolding x_def by (intro replaced_miss) simp
    then show ?thesis using 2 y k by simp
  next
    case (4 s d)
    then have "x = d" using replaced_hit [OF edited_devices_distinct [OF run, of desired]] fate(3) [OF 4(2)] k(2)
      unfolding x_def diff_def by metis
    then show ?thesis using 4 k by simp
  qed (use fate(1) kept k(2) in auto)
qed

lemma family_changes_other:
  fixes desired :: "(int \<times> 'spec) list"
  assumes run: "family_run fam bus_of match edit new valid devs existing o1 o2 cur" and keys: "keys_ok key cur" "new_devices key N"
    and N: "\<And>d. d \<in> set N \<Longrightarrow> in_family fam d" and x: "\<not> in_family fam x"
  shows "x \<in> set (apply_changes (family_changes (diffByBusNumber o1 o2 existing desired match edit devs) N) cur) \<longleftrightarrow> x \<in> set cur"
    (is "x \<in> set (apply_changes (family_changes ?diff N) cur) \<longleftrightarrow> _")
proof
  note mem = family_after(1) [OF run keys, of x desired]
  assume "x \<in> set (apply_changes (family_changes ?diff N) cur)"
  then obtain y where y: "y \<in> set cur" "dev_key y \<notin> dev_key ` set (removed_devices ?diff)" "x = replaced (edited_devices ?diff) y"
    using mem N x by blast
  then have "\<not> in_family fam y" using family_survivor [OF run y(1) _ y(2)] x by blast
  then have "x = y" using y(3) replaced_miss [OF other_keys(2) [OF run y(1), of desired]] by simp
  then show "x \<in> set cur" using y(1) by simp
next
  assume "x \<in> set cur"
  then show "x \<in> set (apply_changes (family_changes ?diff N) cur)"
    using family_after(1) [OF run keys, of x desired] other_keys [OF run _ x, of desired] replaced_miss by metis
qed

lemma family_settled:
  fixes desired :: "(int \<times> 'spec) list"
  assumes run: "family_run fam bus_of match edit new valid devs existing o1 o2 cur" and keys: "keys_ok key cur" "new_devices key N"
    and desired: "\<And>b s. map_of desired b = Some s \<Longrightarrow> bus_of s = b"
  defines "diff \<equiv> diffByBusNumber o1 o2 existing desired match edit devs"
  assumes new: "list_all2 (\<lambda>s d. in_family fam d \<and> dev_bus d = bus_of s \<and> matches match d s) (toAdd diff) N"
  shows "settled fam match desired (apply_changes (family_changes diff N) cur)" (is "settled _ _ _ ?cur'")
  unfolding settled_def
proof (intro conjI ballI allI impI)
  note mem = family_after(1) [OF run keys, of _ desired, folded diff_def]
  fix x assume x: "x \<in> set ?cur'" "in_family fam x"
  show "\<exists>s. map_of desired (dev_bus x) = Some s \<and> matches match x s"
  proof (cases "x \<in> set N")
    case True
    then obtain s where s: "s \<in> set (toAdd diff)" "dev_bus x = bus_of s" "matches match x s"
      using list_all2_partner2 [OF new] by blast
    then obtain b where "map_of desired b = Some s" using toAdd_desired [OF family_runD(1-4) [OF run]] unfolding diff_def by blast
    then show ?thesis using desired s by auto
  next
    case False
    then obtain y where y: "y \<in> set cur" "dev_key y \<notin> dev_key ` set (removed_devices diff)" "x = replaced (edited_devices diff) y"
      using x mem by blast
    have "in_family fam y"
      using x(2) y(3) replaced_miss [OF other_keys(2) [OF run y(1), of desired]] unfolding diff_def by fastforce
    then show ?thesis using family_survivor [OF run y(1), of desired] y(2,3) unfolding diff_def by blast
  qed
next
  note mem = family_after(1) [OF run keys, of _ desired, folded diff_def]
  note sets = diffByBusNumber_sets [OF family_runD(1-4) [OF run], of desired, folded diff_def]
  fix b s assume s: "map_of desired b = Some s"
  have added: "\<exists>d \<in> set ?cur'. in_family fam d \<and> dev_bus d = b" if "s \<in> set (toAdd diff)"
    using list_all2_partner1 [OF new that] mem desired [OF s] by auto
  show "\<exists>d \<in> set ?cur'. in_family fam d \<and> dev_bus d = b"
  proof (cases "dev_key (devs ! the (map_of existing b)) \<in> dev_key ` set (removed_devices diff) \<or> map_of existing b = None")
    case True
    show ?thesis
    proof (cases "map_of existing b")
      case None
      then show ?thesis using s added unfolding sets(4) by blast
    next
      case (Some k)
      let ?a = "bus_action existing desired match edit devs b"
      have "?a = Remove k \<or> (\<exists>s'. ?a = Recreate k s')"
        using True Some family_fate(1) [OF run Some, of desired, folded diff_def] by simp
      moreover have "?a \<noteq> Remove k" using s Some by (auto simp: bus_action_def split: prod.splits)
      ultimately have "?a = Recreate k s" using s bus_action_spec by fastforce
      then show ?thesis using added unfolding sets(4) by blast
    qed
  next
    case False
    then obtain k where k: "map_of existing b = Some k" by blast
    note here = family_run_here [OF run k]
    have "dev_key (devs ! k) \<notin> dev_key ` set (removed_devices diff)" using False k by simp
    then show ?thesis using family_survivor [OF run here(1,2), of desired, folded diff_def] here mem by metis
  qed
qed

section \<open>Several families\<close>

lemma edited_other:
  fixes desired :: "(int \<times> 'spec) list"
  assumes fam: "controller_family fam bus_of match edit new valid" "family_found fam devs existing" "permutes o1" "permutes o2"
  shows "edited (diffByBusNumber o1 o2 existing desired match edit devs) ! k = devs ! k \<or>
    in_family fam (devs ! k) \<and> in_family fam (edited (diffByBusNumber o1 o2 existing desired match edit devs) ! k)"
proof (cases "\<exists>b d. bus_action existing desired match edit devs b = Edit k d")
  case True
  then obtain b d where e: "bus_action existing desired match edit devs b = Edit k d" by blast
  then have b: "map_of existing b = Some k" using bus_action_index [of existing desired match edit devs b k _ d] by blast
  then have k: "in_family fam (devs ! k)" using fam(2) unfolding family_found_def by blast
  have "in_family fam d" by (rule bus_action_cases [OF fam(1) b k, of desired]) (use e in auto)
  then show ?thesis using k diffByBusNumber_sets(6) [OF fam e] by simp
next
  case False
  then show ?thesis using diffByBusNumber_sets(7) [OF fam, of desired k] by blast
qed

text \<open>Families have no kind in common; a list changed in one family is as it was for the others.\<close>

definition differ_in :: "(controller_kind \<Rightarrow> bool) \<Rightarrow> device list \<Rightarrow> device list \<Rightarrow> bool" where
  "differ_in fam ds ds' \<longleftrightarrow> length ds' = length ds \<and>
     (\<forall>k < length ds. ds' ! k = ds ! k \<or> in_family fam (ds ! k) \<and> in_family fam (ds' ! k))"

lemma in_family_disjoint: "in_family f d \<Longrightarrow> in_family g d \<Longrightarrow> \<exists>kind. f kind \<and> g kind"
  by (auto simp: in_family_def split: device.splits)

lemma differ_in_set:
  assumes "differ_in fam ds ds'" "\<not> in_family fam d"
  shows "d \<in> set ds' \<longleftrightarrow> d \<in> set ds"
  using assms unfolding differ_in_def in_set_conv_nth by metis

lemma differ_in_found:
  assumes "differ_in f ds ds'" "family_found g ds existing" "\<And>kind. \<not> (f kind \<and> g kind)"
  shows "family_found g ds' existing"
proof -
  have fg: "\<not> in_family f d" if "in_family g d" for d using in_family_disjoint [of f d g] that assms(3) by blast
  have "k < length ds' \<and> in_family g (ds' ! k) \<and> dev_bus (ds' ! k) = b" if "map_of existing b = Some k" for b k
    using assms(1,2) that fg [of "ds ! k"] unfolding family_found_def differ_in_def by metis
  moreover have "\<exists>k. map_of existing (dev_bus d) = Some k \<and> ds' ! k = d" if d: "d \<in> set ds'" "in_family g d" for d
  proof -
    have "d \<in> set ds" using differ_in_set [OF assms(1) fg] d by blast
    then obtain k where k: "map_of existing (dev_bus d) = Some k" "ds ! k = d" using assms(2) d(2) unfolding family_found_def by blast
    then have "ds' ! k = d" using assms(1,2) fg d(2) unfolding family_found_def differ_in_def by metis
    then show ?thesis using k(1) by blast
  qed
  ultimately show ?thesis using assms(2) unfolding family_found_def by blast
qed

lemma settled_cong:
  assumes "settled fam match desired ds" "\<And>d. in_family fam d \<Longrightarrow> d \<in> set ds' \<longleftrightarrow> d \<in> set ds"
  shows "settled fam match desired ds'"
  using assms unfolding settled_def by blast

text \<open>
  What one of the four reconcile functions achieves with the changes \<^verbatim>\<open>C\<close>: the family is settled on the server, and
  nothing else has changed.
\<close>

definition step_ok :: "(controller_kind \<Rightarrow> bool) \<Rightarrow> (device \<Rightarrow> 'spec \<Rightarrow> bool) option \<Rightarrow> (int \<times> 'spec) list \<Rightarrow> device list \<Rightarrow>
    controllers_state \<Rightarrow> controllers_state \<Rightarrow> device_changes \<Rightarrow> bool" where
  "step_ok fam match desired cur st st' C \<longleftrightarrow>
     vc_changes st' = vc_changes st @ C \<and> keys_ok (vc_newDeviceKey st') (apply_changes C cur) \<and>
     settled fam match desired (apply_changes C cur) \<and> differ_in fam (vc_devices st) (vc_devices st') \<and>
     (\<forall>d. \<not> in_family fam d \<longrightarrow> (d \<in> set (apply_changes C cur) \<longleftrightarrow> d \<in> set cur))"

text \<open>A family that has not been reconciled yet.\<close>

definition pending :: "(controller_kind \<Rightarrow> bool) \<Rightarrow> controllers_state \<Rightarrow> device list \<Rightarrow> (int \<times> nat) list \<Rightarrow> bool" where
  "pending g st cur existing \<longleftrightarrow> family_found g (vc_devices st) existing \<and> family_ready g (vc_devices st) cur"

lemma pending_step:
  assumes "pending g st cur existing" "step_ok f match desired cur st st' C" "\<And>kind. \<not> (f kind \<and> g kind)"
  shows "pending g st' (apply_changes C cur) existing"
proof -
  have differ: "differ_in f (vc_devices st) (vc_devices st')"
      and same: "\<And>d. \<not> in_family f d \<Longrightarrow> d \<in> set (apply_changes C cur) \<longleftrightarrow> d \<in> set cur"
    using assms(2) unfolding step_ok_def by blast+
  have fg: "\<not> in_family f d" if "in_family g d" for d using in_family_disjoint [of f d g] that assms(3) by blast
  have "family_ready g (vc_devices st') (apply_changes C cur)"
    using assms(1) same fg differ_in_set [OF differ] unfolding pending_def family_ready_def by blast
  then show ?thesis using assms(1) differ_in_found [OF differ _ assms(3)] unfolding pending_def by blast
qed

lemma settled_step:
  assumes "settled g match desired cur" "step_ok f match' desired' cur st st' C" "\<And>kind. \<not> (f kind \<and> g kind)"
  shows "settled g match desired (apply_changes C cur)"
proof (rule settled_cong [OF assms(1)])
  fix d assume "in_family g d"
  then have "\<not> in_family f d" using in_family_disjoint [of f d g] assms(3) by blast
  then show "d \<in> set (apply_changes C cur) \<longleftrightarrow> d \<in> set cur" using assms(2) unfolding step_ok_def by blast
qed

lemma family_step:
  fixes desired :: "(int \<times> 'spec) list"
  assumes fam: "controller_family fam bus_of match edit new valid" and "pending fam st cur existing" and ord: "permutes o1" "permutes o2"
    and keys: "keys_ok (vc_newDeviceKey st) cur" and desired: "\<And>b s. map_of desired b = Some s \<Longrightarrow> bus_of s = b \<and> valid s"
  shows "\<exists>st' C. emit_changes new pci (diffByBusNumber o1 o2 existing desired match edit (vc_devices st)) st = Some st' \<and>
    step_ok fam match desired cur st st' C"
proof -
  let ?diff = "diffByBusNumber o1 o2 existing desired match edit (vc_devices st)"
  have run: "family_run fam bus_of match edit new valid (vc_devices st) existing o1 o2 cur"
    using assms(1-4) keys by (simp add: family_run_def pending_def keys_ok_def)
  note fam4 = family_runD(1-4) [OF run]
  have "valid s" if "s \<in> set (toAdd ?diff)" for s
    using toAdd_desired [OF fam4 that] desired by blast
  then obtain N where N: "emit_changes new pci ?diff st =
      Some \<lparr>vc_changes = vc_changes st @ family_changes ?diff N,
        vc_newDeviceKey = vc_newDeviceKey st - int (length N), vc_devices = edited ?diff\<rparr>" (is "_ = Some ?st'")
      "list_all2 (\<lambda>s d. in_family fam d \<and> dev_bus d = bus_of s \<and> matches match d s) (toAdd ?diff) N"
      "new_devices (vc_newDeviceKey st) N"
    using emit_run [OF fam] unfolding family_changes_def removed_devices_def edited_devices_def new_devices_def by blast
  have bus: "\<And>b s. map_of desired b = Some s \<Longrightarrow> bus_of s = b" using desired by blast
  have "in_family fam d" if "d \<in> set N" for d using list_all2_partner2 [OF N(2) that] by blast
  note other = family_changes_other [OF run keys N(3) this, of _ desired]
  have "differ_in fam (vc_devices st) (vc_devices ?st')"
    using diffByBusNumber_sets(5) [OF fam4, of desired] edited_other [OF fam4, of desired] by (auto simp: differ_in_def)
  with N(1) family_after(2) [OF run keys N(3), of desired] family_settled [OF run keys N(3) bus N(2)] other
  show ?thesis by (simp add: step_ok_def)
qed

end
