(* ===== verification/Controller_Reconcile.thy ===== *)
theory Controller_Reconcile
  imports Controller_Convergence
begin

text \<open>
  The four families of controllers meet the contract \<open>controller_family\<close>, and the properties of the whole
  reconcile of virtual controllers.
\<close>

section \<open>The families\<close>

definition known_scsi_type :: "SCSIControllerSpec \<Rightarrow> bool" where
  "known_scsi_type spec \<longleftrightarrow> scsi_Type spec \<in> {SCSIControllerTypeParaVirtualSCSI, SCSIControllerTypeBusLogic,
     SCSIControllerTypeLsiLogic, SCSIControllerTypeLsiLogicSAS}"

abbreviation ide_kind :: "controller_kind \<Rightarrow> bool" where "ide_kind \<equiv> \<lambda>kind. kind = VirtualIDEController"

abbreviation nvme_kind :: "controller_kind \<Rightarrow> bool" where "nvme_kind \<equiv> \<lambda>kind. kind = VirtualNVMEController"

abbreviation sata_kind :: "controller_kind \<Rightarrow> bool" where "sata_kind \<equiv> \<lambda>kind. kind = VirtualAHCIController"

lemmas family_defs = in_family_def dev_bus_def matches_def edits_def

interpretation ide: controller_family ide_kind ide_BusNumber None None NewIDEController "\<lambda>_. True"
  by unfold_locales (auto simp: family_defs NewIDEController_def Let_def)

interpretation sata: controller_family sata_kind sata_BusNumber None None NewSATAController "\<lambda>_. True"
  by unfold_locales (auto simp: family_defs NewSATAController_def Let_def)

interpretation nvme: controller_family nvme_kind nvme_BusNumber "Some nvmeDeviceMatchSpec" "Some editNVMEController"
  NewNVMEController "\<lambda>_. True"
  by unfold_locales
    (auto simp: family_defs NewNVMEController_def Let_def nvmeDeviceMatchSpec_def editNVMEController_def split: device.splits if_splits)

lemmas scsi_type_defs = SCSIControllerTypeParaVirtualSCSI_def SCSIControllerTypeBusLogic_def SCSIControllerTypeLsiLogic_def
  SCSIControllerTypeLsiLogicSAS_def

interpretation scsi: controller_family is_scsi scsi_BusNumber "Some scsiDeviceMatchSpec" "Some editSCSIController"
  NewSCSIController known_scsi_type
proof unfold_locales
  show "\<exists>d. NewSCSIController s pci key = (Some d, key - 1) \<and> dev_key d = key - 1 \<and> in_family is_scsi d \<and>
      dev_bus d = scsi_BusNumber s \<and> matches (Some scsiDeviceMatchSpec) d s" if "known_scsi_type s" for s pci key
    using that by (auto simp: family_defs NewSCSIController_def Let_def known_scsi_type_def scsiDeviceMatchSpec_def
        SCSIControllerTypeMatch_def is_scsi_def scsi_type_defs)
  show "fst (NewSCSIController s pci key) = None" if "\<not> known_scsi_type s" for s pci key
    using that by (auto simp: NewSCSIController_def Let_def known_scsi_type_def)
qed (auto simp: family_defs scsiDeviceMatchSpec_def editSCSIController_def SCSIControllerTypeMatch_def
    split: device.splits if_splits controller_kind.splits)

section \<open>The maps of existing and desired controllers\<close>

lemma desired_by_bus_spec:
  "map_of (desired_by_bus bus_of specs) b = Some s \<Longrightarrow> bus_of s = b \<and> s \<in> set specs"
proof (induction specs rule: rev_induct)
  case (snoc c specs)
  then show ?case by (auto simp: desired_by_bus_def update_conv' split: if_splits)
qed (simp add: desired_by_bus_def)

definition family_index :: "(controller_kind \<Rightarrow> bool) \<Rightarrow> device list \<Rightarrow> (int \<times> nat) list" where
  "family_index fam devs =
     fold (\<lambda>(i, d) m. if in_family fam d then AList.update (dev_bus d) i m else m) (enumerate 0 devs) []"

definition unique_buses :: "(controller_kind \<Rightarrow> bool) \<Rightarrow> device list \<Rightarrow> bool" where
  "unique_buses fam devs \<longleftrightarrow> distinct (map dev_bus (filter (in_family fam) devs))"

lemma family_index_snoc:
  "family_index fam (devs @ [d]) =
     (if in_family fam d then AList.update (dev_bus d) (length devs) (family_index fam devs) else family_index fam devs)"
  by (simp add: family_index_def enumerate_append_eq)

lemma family_index_distinct: "distinct (map fst (family_index fam devs))"
  by (induction devs rule: rev_induct) (simp_all add: family_index_snoc distinct_update, simp add: family_index_def)

lemma family_index_sound:
  "map_of (family_index fam devs) b = Some k \<Longrightarrow> k < length devs \<and> in_family fam (devs ! k) \<and> dev_bus (devs ! k) = b"
proof (induction devs rule: rev_induct)
  case (snoc d devs)
  show ?case
  proof (cases "in_family fam d \<and> b = dev_bus d")
    case True
    then show ?thesis using snoc.prems by (auto simp: family_index_snoc update_conv' nth_append simp del: map_of_eq_Some_iff)
  next
    case False
    then have "map_of (family_index fam devs) b = Some k"
      using snoc.prems by (simp add: family_index_snoc update_conv' split: if_splits del: map_of_eq_Some_iff)
    then show ?thesis using snoc.IH by (simp add: nth_append)
  qed
qed (simp add: family_index_def)

lemma family_index_complete:
  "d \<in> set devs \<Longrightarrow> in_family fam d \<Longrightarrow> \<exists>k. map_of (family_index fam devs) (dev_bus d) = Some k"
proof (induction devs rule: rev_induct)
  case (snoc x devs)
  then show ?case by (cases "d = x") (auto simp: family_index_snoc update_conv' simp del: map_of_eq_Some_iff)
qed simp

lemma family_found_index_of:
  assumes "unique_buses fam devs"
  shows "family_found fam devs (family_index fam devs)"
proof -
  have "devs ! k = d" if d: "d \<in> set devs" "in_family fam d" and k: "map_of (family_index fam devs) (dev_bus d) = Some k" for d k
  proof -
    have "k < length devs" "in_family fam (devs ! k)" "dev_bus (devs ! k) = dev_bus d" using family_index_sound [OF k] by auto
    then show ?thesis using assms d unfolding unique_buses_def by (auto simp: distinct_map inj_on_def)
  qed
  then show ?thesis
    using family_index_distinct family_index_sound family_index_complete unfolding family_found_def by metis
qed

definition found_zero :: found_controllers where
  "found_zero = \<lparr>found_IDE = [], found_NVME = [], found_SATA = [], found_SCSI = [], found_PCI = None\<rparr>"

lemma collect_found:
  "found_IDE (fold collect_device (enumerate 0 devs) found_zero) = family_index ide_kind devs \<and>
   found_NVME (fold collect_device (enumerate 0 devs) found_zero) = family_index nvme_kind devs \<and>
   found_SATA (fold collect_device (enumerate 0 devs) found_zero) = family_index sata_kind devs \<and>
   found_SCSI (fold collect_device (enumerate 0 devs) found_zero) = family_index is_scsi devs \<and>
   (found_PCI (fold collect_device (enumerate 0 devs) found_zero) = None \<longleftrightarrow> (\<forall>key. VirtualPCIController key \<notin> set devs))"
proof (induction devs rule: rev_induct)
  case (snoc d devs)
  then show ?case
    by (cases d) (auto simp: enumerate_append_eq family_index_snoc collect_device_def in_family_def dev_bus_def is_scsi_def)
qed (simp add: family_index_def found_zero_def)

section \<open>The whole reconcile\<close>

definition ide_desired :: "VirtualMachineHardwareSpec option \<Rightarrow> (int \<times> IDEControllerSpec) list" where
  "ide_desired hw = (case hw of None \<Rightarrow> [] | Some hw \<Rightarrow> desired_by_bus ide_BusNumber (hw_IDEControllers hw))"

definition nvme_desired :: "VirtualMachineHardwareSpec option \<Rightarrow> (int \<times> NVMEControllerSpec) list" where
  "nvme_desired hw = (case hw of
     None \<Rightarrow> []
   | Some hw \<Rightarrow> desired_by_bus nvme_BusNumber (filter (\<lambda>controller. validateNVMEController controller = None) (hw_NVMEControllers hw)))"

definition sata_desired :: "VirtualMachineHardwareSpec option \<Rightarrow> (int \<times> SATAControllerSpec) list" where
  "sata_desired hw = (case hw of None \<Rightarrow> [] | Some hw \<Rightarrow> desired_by_bus sata_BusNumber (hw_SATAControllers hw))"

definition scsi_desired :: "VirtualMachineHardwareSpec option \<Rightarrow> (int \<times> SCSIControllerSpec) list" where
  "scsi_desired hw = (case hw of None \<Rightarrow> [] | Some hw \<Rightarrow> desired_by_bus scsi_BusNumber (hw_SCSIControllers hw))"

text \<open>The controllers of a VM are exactly those of its specification.\<close>

definition controllers_match :: "VirtualMachineHardwareSpec option \<Rightarrow> device list \<Rightarrow> bool" where
  "controllers_match hw ds \<longleftrightarrow>
     settled ide_kind None (ide_desired hw) ds \<and>
     settled nvme_kind (Some nvmeDeviceMatchSpec) (nvme_desired hw) ds \<and>
     settled sata_kind None (sata_desired hw) ds \<and>
     settled is_scsi (Some scsiDeviceMatchSpec) (scsi_desired hw) ds"

lemma desired_bus:
  "map_of (ide_desired hw) b = Some s1 \<Longrightarrow> ide_BusNumber s1 = b \<and> True"
  "map_of (nvme_desired hw) b = Some s2 \<Longrightarrow> nvme_BusNumber s2 = b \<and> True"
  "map_of (sata_desired hw) b = Some s3 \<Longrightarrow> sata_BusNumber s3 = b \<and> True"
  "map_of (scsi_desired hw) b = Some s4 \<Longrightarrow> scsi_BusNumber s4 = b"
  using desired_by_bus_spec
  by (fastforce simp: ide_desired_def nvme_desired_def sata_desired_def scsi_desired_def split: option.splits)+

lemmas reconcile_defs = reconcileIDEControllers_def reconcileNVMEControllers_def reconcileSATAControllers_def
  reconcileSCSIControllers_def diffIDEControllerByBusNumber_def diffNVMEControllerByBusNumber_def
  diffSATAControllerByBusNumber_def diffSCSIControllerByBusNumber_def

definition orders_ok :: "range_orders \<Rightarrow> bool" where
  "orders_ok ord \<longleftrightarrow> (\<forall>n. permutes (ord n))"

lemma orders_permute: "orders_ok ord \<Longrightarrow> permutes (ord n)"
  by (simp add: orders_ok_def)

lemma scsi_desired_distinct: "distinct (map fst (scsi_desired hw))"
proof -
  have "distinct (map fst (desired_by_bus bus_of specs))" for bus_of :: "SCSIControllerSpec \<Rightarrow> int" and specs
    by (induction specs rule: rev_induct) (simp_all add: desired_by_bus_def distinct_update)
  then show ?thesis by (simp add: scsi_desired_def split: option.split)
qed

text \<open>Each of the four reconcile functions settles its family.\<close>

lemma reconcileIDEControllers_step:
  assumes ord: "orders_ok ord" and keys: "keys_ok (vc_newDeviceKey st) cur" and "pending ide_kind st cur existing"
  shows "\<exists>st' C. reconcileIDEControllers ord pci hw existing st = Some st' \<and> step_ok ide_kind None (ide_desired hw) cur st st' C"
  unfolding reconcile_defs Let_def ide_desired_def [symmetric]
  by (rule family_step [OF ide.controller_family_axioms assms(3) orders_permute [OF ord] orders_permute [OF ord] keys desired_bus(1)])

lemma reconcileNVMEControllers_step:
  assumes ord: "orders_ok ord" and keys: "keys_ok (vc_newDeviceKey st) cur" and "pending nvme_kind st cur existing"
  shows "\<exists>st' C. reconcileNVMEControllers ord pci hw existing st = Some st' \<and>
    step_ok nvme_kind (Some nvmeDeviceMatchSpec) (nvme_desired hw) cur st st' C"
  unfolding reconcile_defs Let_def nvme_desired_def [symmetric]
  by (rule family_step [OF nvme.controller_family_axioms assms(3) orders_permute [OF ord] orders_permute [OF ord] keys desired_bus(2)])

lemma reconcileSATAControllers_step:
  assumes ord: "orders_ok ord" and keys: "keys_ok (vc_newDeviceKey st) cur" and "pending sata_kind st cur existing"
  shows "\<exists>st' C. reconcileSATAControllers ord pci hw existing st = Some st' \<and> step_ok sata_kind None (sata_desired hw) cur st st' C"
  unfolding reconcile_defs Let_def sata_desired_def [symmetric]
  by (rule family_step [OF sata.controller_family_axioms assms(3) orders_permute [OF ord] orders_permute [OF ord] keys desired_bus(3)])

definition scsi_types_known :: "VirtualMachineHardwareSpec option \<Rightarrow> bool" where
  "scsi_types_known hw \<longleftrightarrow> list_all (\<lambda>(b, s). known_scsi_type s) (scsi_desired hw)"

lemma reconcileSCSIControllers_step:
  assumes ord: "orders_ok ord" and keys: "keys_ok (vc_newDeviceKey st) cur" and "pending is_scsi st cur existing"
    and "scsi_types_known hw"
  shows "\<exists>st' C. reconcileSCSIControllers ord pci hw existing st = Some st' \<and>
    step_ok is_scsi (Some scsiDeviceMatchSpec) (scsi_desired hw) cur st st' C"
  unfolding reconcile_defs Let_def scsi_desired_def [symmetric]
proof (rule family_step [OF scsi.controller_family_axioms assms(3) orders_permute [OF ord] orders_permute [OF ord] keys], rule conjI)
  fix b s assume s: "map_of (scsi_desired hw) b = Some s"
  show "scsi_BusNumber s = b" by (rule desired_bus(4) [OF s])
  show "known_scsi_type s" using map_of_SomeD [OF s] assms(4) by (auto simp: scsi_types_known_def list_all_iff)
qed

definition reconcile_all :: "range_orders \<Rightarrow> int \<Rightarrow> VirtualMachineHardwareSpec option \<Rightarrow> device list \<Rightarrow> controllers_state \<Rightarrow>
    controllers_state option" where
  "reconcile_all ord pci hw devs st = Option.bind (Option.bind (Option.bind
     (reconcileIDEControllers ord pci hw (family_index ide_kind devs) st)
     (reconcileNVMEControllers ord pci hw (family_index nvme_kind devs)))
     (reconcileSATAControllers ord pci hw (family_index sata_kind devs)))
     (reconcileSCSIControllers ord pci hw (family_index is_scsi devs))"

text \<open>Devices as vSphere numbers them: keys are distinct and not negative, and bus numbers distinct within a family.\<close>

definition devices_ok :: "device list \<Rightarrow> bool" where
  "devices_ok devs \<longleftrightarrow> distinct (map dev_key devs) \<and> (\<forall>d \<in> set devs. 0 \<le> dev_key d) \<and>
     unique_buses ide_kind devs \<and> unique_buses nvme_kind devs \<and> unique_buses sata_kind devs \<and> unique_buses is_scsi devs"

text \<open>After the first three families.\<close>

lemma reconcile_three:
  assumes ord: "orders_ok ord" and st: "vc_devices st = devs" "vc_newDeviceKey st \<le> 0" and ok: "devices_ok devs"
  shows "\<exists>st' C. Option.bind (Option.bind
      (reconcileIDEControllers ord pci hw (family_index ide_kind devs) st)
      (reconcileNVMEControllers ord pci hw (family_index nvme_kind devs)))
      (reconcileSATAControllers ord pci hw (family_index sata_kind devs)) = Some st' \<and>
    vc_changes st' = vc_changes st @ C \<and> keys_ok (vc_newDeviceKey st') (apply_changes C devs) \<and>
    pending is_scsi st' (apply_changes C devs) (family_index is_scsi devs) \<and>
    settled ide_kind None (ide_desired hw) (apply_changes C devs) \<and>
    settled nvme_kind (Some nvmeDeviceMatchSpec) (nvme_desired hw) (apply_changes C devs) \<and>
    settled sata_kind None (sata_desired hw) (apply_changes C devs) \<and>
    (\<forall>key. VirtualPCIController key \<in> set (apply_changes C devs) \<longleftrightarrow> VirtualPCIController key \<in> set devs)"
proof -
  have start: "pending fam st devs (family_index fam devs)" if "unique_buses fam devs" for fam
    using family_found_index_of [OF that] st(1) by (simp add: pending_def family_ready_def)
  have keys: "keys_ok (vc_newDeviceKey st) devs" using ok st(2) by (fastforce simp: devices_ok_def keys_ok_def)
  have buses: "unique_buses ide_kind devs" "unique_buses nvme_kind devs" "unique_buses sata_kind devs" "unique_buses is_scsi devs"
    using ok by (auto simp: devices_ok_def)
  note next_keys = step_ok_def [THEN iffD1, THEN conjunct2, THEN conjunct1]
  note fin = step_ok_def [THEN iffD1, THEN conjunct2, THEN conjunct2, THEN conjunct1]
  obtain st1 C1 where s1: "reconcileIDEControllers ord pci hw (family_index ide_kind devs) st = Some st1"
      "step_ok ide_kind None (ide_desired hw) devs st st1 C1"
    using reconcileIDEControllers_step [OF ord keys start [OF buses(1)]] by blast
  have p1: "pending fam st1 (apply_changes C1 devs) (family_index fam devs)"
    if "unique_buses fam devs" "\<not> fam VirtualIDEController" for fam
    by (rule pending_step [OF start [OF that(1)] s1(2)]) (use that(2) in auto)
  obtain st2 C2 where s2: "reconcileNVMEControllers ord pci hw (family_index nvme_kind devs) st1 = Some st2"
      "step_ok nvme_kind (Some nvmeDeviceMatchSpec) (nvme_desired hw) (apply_changes C1 devs) st1 st2 C2"
    using reconcileNVMEControllers_step [OF ord next_keys [OF s1(2)] p1 [OF buses(2)]] by blast
  have p2: "pending fam st2 (apply_changes C2 (apply_changes C1 devs)) (family_index fam devs)"
    if "unique_buses fam devs" "\<not> fam VirtualIDEController" "\<not> fam VirtualNVMEController" for fam
    by (rule pending_step [OF p1 [OF that(1,2)] s2(2)]) (use that(3) in auto)
  obtain st3 C3 where s3: "reconcileSATAControllers ord pci hw (family_index sata_kind devs) st2 = Some st3"
      "step_ok sata_kind None (sata_desired hw) (apply_changes C2 (apply_changes C1 devs)) st2 st3 C3"
    using reconcileSATAControllers_step [OF ord next_keys [OF s2(2)] p2 [OF buses(3)]] by blast
  have "pending is_scsi st3 (apply_changes (C1 @ C2 @ C3) devs) (family_index is_scsi devs)"
    unfolding apply_changes_append by (rule pending_step [OF p2 [OF buses(4)] s3(2)]) (auto simp: is_scsi_def)
  moreover have "settled ide_kind None (ide_desired hw) (apply_changes (C1 @ C2 @ C3) devs)"
    unfolding apply_changes_append by (rule settled_step [OF settled_step [OF fin [OF s1(2)] s2(2)] s3(2)]) auto
  moreover have "settled nvme_kind (Some nvmeDeviceMatchSpec) (nvme_desired hw) (apply_changes (C1 @ C2 @ C3) devs)"
    unfolding apply_changes_append by (rule settled_step [OF fin [OF s2(2)] s3(2)]) auto
  moreover note s1 s2 s3
  ultimately show ?thesis
    by (intro exI [of _ st3] exI [of _ "C1 @ C2 @ C3"]) (simp add: step_ok_def apply_changes_append in_family_def)
qed

lemma reconcile_all_settles:
  assumes ord: "orders_ok ord" and st: "vc_devices st = devs" "vc_newDeviceKey st \<le> 0"
    and ok: "devices_ok devs" "scsi_types_known hw"
  shows "\<exists>st' C. reconcile_all ord pci hw devs st = Some st' \<and> vc_changes st' = vc_changes st @ C \<and>
    controllers_match hw (apply_changes C devs) \<and>
    (\<forall>key. VirtualPCIController key \<in> set (apply_changes C devs) \<longleftrightarrow> VirtualPCIController key \<in> set devs)"
proof -
  obtain st3 C3 where s3: "Option.bind (Option.bind
      (reconcileIDEControllers ord pci hw (family_index ide_kind devs) st)
      (reconcileNVMEControllers ord pci hw (family_index nvme_kind devs)))
      (reconcileSATAControllers ord pci hw (family_index sata_kind devs)) = Some st3"
      "vc_changes st3 = vc_changes st @ C3" "keys_ok (vc_newDeviceKey st3) (apply_changes C3 devs)"
      "pending is_scsi st3 (apply_changes C3 devs) (family_index is_scsi devs)"
      "settled ide_kind None (ide_desired hw) (apply_changes C3 devs)"
      "settled nvme_kind (Some nvmeDeviceMatchSpec) (nvme_desired hw) (apply_changes C3 devs)"
      "settled sata_kind None (sata_desired hw) (apply_changes C3 devs)"
      "\<And>key. VirtualPCIController key \<in> set (apply_changes C3 devs) \<longleftrightarrow> VirtualPCIController key \<in> set devs"
    using reconcile_three [OF ord st ok(1), of pci hw] by blast
  obtain st4 C4 where s4: "reconcileSCSIControllers ord pci hw (family_index is_scsi devs) st3 = Some st4"
      "step_ok is_scsi (Some scsiDeviceMatchSpec) (scsi_desired hw) (apply_changes C3 devs) st3 st4 C4"
    using reconcileSCSIControllers_step [OF ord s3(3,4) ok(2)] by blast
  have "controllers_match hw (apply_changes (C3 @ C4) devs)"
    unfolding controllers_match_def apply_changes_append
    using settled_step [OF s3(5) s4(2)] settled_step [OF s3(6) s4(2)] settled_step [OF s3(7) s4(2)] s4(2)
    by (auto simp: is_scsi_def step_ok_def)
  then show ?thesis using s3 s4
    by (intro exI [of _ st4] exI [of _ "C3 @ C4"]) (simp add: reconcile_all_def step_ok_def apply_changes_append in_family_def)
qed

text \<open>A specification with an unknown type is always to be added, and fails.\<close>

lemma reconcile_all_panics:
  assumes ord: "orders_ok ord" and st: "vc_devices st = devs" "vc_newDeviceKey st \<le> 0"
    and ok: "devices_ok devs" "\<not> scsi_types_known hw"
  shows "reconcile_all ord pci hw devs st = None"
proof -
  obtain st3 cur where s3: "Option.bind (Option.bind
      (reconcileIDEControllers ord pci hw (family_index ide_kind devs) st)
      (reconcileNVMEControllers ord pci hw (family_index nvme_kind devs)))
      (reconcileSATAControllers ord pci hw (family_index sata_kind devs)) = Some st3"
      "pending is_scsi st3 cur (family_index is_scsi devs)"
    using reconcile_three [OF ord st ok(1), of pci hw] by blast
  note run = scsi.controller_family_axioms s3(2) [unfolded pending_def, THEN conjunct1] orders_permute [OF ord, of 6] orders_permute [OF ord, of 7]
  let ?diff = "diffByBusNumber (ord 6) (ord 7) (family_index is_scsi devs) (scsi_desired hw)
      (Some scsiDeviceMatchSpec) (Some editSCSIController) (vc_devices st3)"
  obtain b s where s: "map_of (scsi_desired hw) b = Some s" "\<not> known_scsi_type s"
    using ok(2) scsi_desired_distinct [of hw] by (auto simp: scsi_types_known_def list_all_iff)
  have "\<not> SCSIControllerTypeMatch d (scsi_Type s)" for d
    using s(2) by (auto simp: SCSIControllerTypeMatch_def known_scsi_type_def split: device.splits controller_kind.splits)
  then have "s \<in> set (toAdd ?diff)"
    unfolding diffByBusNumber_sets(4) [OF run] using s(1)
    by (cases "map_of (family_index is_scsi devs) b")
      (auto simp: bus_action_def matches_def edits_def scsiDeviceMatchSpec_def editSCSIController_def intro!: exI [of _ b])
  then have "reconcileSCSIControllers ord pci hw (family_index is_scsi devs) st3 = None"
    using s(2) scsi.add_controllers_panics
    unfolding reconcile_defs Let_def scsi_desired_def [symmetric] emit_changes_def by (simp, blast)
  then show ?thesis using s3(1) by (simp add: reconcile_all_def)
qed

text \<open>When the controllers match, no family has anything to change.\<close>

lemma settled_no_action:
  assumes "settled fam match desired devs"
  shows "bus_action (family_index fam devs) desired match edit devs b = Keep"
proof (cases "map_of (family_index fam devs) b")
  case (Some k)
  then have k: "k < length devs" "in_family fam (devs ! k)" "dev_bus (devs ! k) = b" using family_index_sound by blast+
  then obtain s where "map_of desired b = Some s" "matches match (devs ! k) s"
    using assms unfolding settled_def by (metis nth_mem)
  then show ?thesis using Some by (simp add: bus_action_def)
qed (simp add: bus_action_def)

lemma settled_diff:
  assumes "settled fam match desired devs" "match = None \<longleftrightarrow> edit = None" "permutes o1"
  shows "diffByBusNumber o1 o2 (family_index fam devs) desired match edit devs =
    \<lparr>toAdd = [], toEdit = [], toRemove = [], edited = devs\<rparr>"
proof -
  have "map_of (family_index fam devs) b \<noteq> None" if "b \<in> set (o1 (map fst desired))" for b
  proof -
    have "b \<in> fst ` set desired" using that permutes_set [OF assms(3)] by auto
    then obtain s where "map_of desired b = Some s" by (metis map_of_eq_None_iff not_None_eq)
    then obtain d where "d \<in> set devs" "in_family fam d" "dev_bus d = b" using assms(1) unfolding settled_def by blast
    then show ?thesis using family_index_complete [of d devs fam] by (simp add: ex_in_conv del: map_of_eq_Some_iff)
  qed
  then have "filter (\<lambda>bus. map_of (family_index fam devs) bus = None) (o1 (map fst desired)) = []"
    by (simp add: filter_empty_conv)
  moreover have "diff_existing (family_index fam devs) desired match edit b st = st" if "edited st = devs" for b st
    using settled_no_action [OF assms(1), of edit b] that assms(2)
    by (auto simp: diff_existing_def bus_action_def matches_def split: option.splits if_splits prod.splits)
  then have "fold (diff_existing (family_index fam devs) desired match edit) bs st = st" if "edited st = devs" for bs st
    using that by (induction bs) simp_all
  ultimately show ?thesis by (simp add: diffByBusNumber_def map_filter_simps)
qed

lemma emit_nothing: "emit_changes new pci \<lparr>toAdd = [], toEdit = [], toRemove = [], edited = vc_devices st\<rparr> st = Some st"
  by (simp add: emit_changes_def)

lemma reconcile_all_stable:
  assumes ord: "orders_ok ord" and "controllers_match hw devs" "vc_devices st = devs"
  shows "reconcile_all ord pci hw devs st = Some st"
proof -
  note keep = settled_diff [OF _ _ orders_permute [OF ord]]
  have "reconcileIDEControllers ord pci hw (family_index ide_kind devs) st = Some st"
    using assms(2) unfolding controllers_match_def reconcile_defs Let_def ide_desired_def [symmetric]
    by (simp add: keep assms(3) emit_nothing [of _ _ st, unfolded assms(3)])
  moreover have "reconcileNVMEControllers ord pci hw (family_index nvme_kind devs) st = Some st"
    using assms(2) unfolding controllers_match_def reconcile_defs Let_def nvme_desired_def [symmetric]
    by (simp add: keep assms(3) emit_nothing [of _ _ st, unfolded assms(3)])
  moreover have "reconcileSATAControllers ord pci hw (family_index sata_kind devs) st = Some st"
    using assms(2) unfolding controllers_match_def reconcile_defs Let_def sata_desired_def [symmetric]
    by (simp add: keep assms(3) emit_nothing [of _ _ st, unfolded assms(3)])
  moreover have "reconcileSCSIControllers ord pci hw (family_index is_scsi devs) st = Some st"
    using assms(2) unfolding controllers_match_def reconcile_defs Let_def scsi_desired_def [symmetric]
    by (simp add: keep assms(3) emit_nothing [of _ _ st, unfolded assms(3)])
  ultimately show ?thesis by (simp add: reconcile_all_def)
qed

section \<open>Properties\<close>

lemma fold_decreases:
  fixes f :: "'b \<Rightarrow> int \<Rightarrow> int"
  assumes "\<And>x k. f x k \<le> k"
  shows "fold f xs k \<le> k"
  using assms by (induction xs arbitrary: k) (simp, metis fold_simps(2) order.trans)

lemma InitDeviceKey_le: "InitDeviceKey key dcs \<le> key"
  unfolding InitDeviceKey_def by (rule fold_decreases) (auto split: option.split)

definition pci_of :: "device list \<Rightarrow> int" where
  "pci_of devs = the (found_PCI (fold collect_device (enumerate 0 devs) found_zero))"

definition start_state :: "device_changes \<Rightarrow> device list \<Rightarrow> controllers_state" where
  "start_state dcs devs = \<lparr>vc_changes = dcs, vc_newDeviceKey = InitDeviceKey 0 dcs, vc_devices = devs\<rparr>"

definition finish :: "device_changes \<Rightarrow> vim_PowerState \<Rightarrow> controllers_state \<Rightarrow> goerror option \<times> device list option \<times> device_changes" where
  "finish dcs pstate st =
     (if list_ex (\<lambda>bdc. case bdc of None \<Rightarrow> False | Some dc \<Rightarrow> dvc_Operation dc = OperationEdit)
          (drop (length dcs) (vc_changes st)) \<and> pstate \<noteq> PoweredOff
      then (None, Some (vc_devices st), take (length dcs) (vc_changes st))
      else (None, Some (vc_devices st), vc_changes st))"

lemma vc_Reconcile_all:
  assumes "VirtualPCIController p \<in> set devs"
  shows "vc_Reconcile ord hw (Some devs) pstate dcs =
    map_option (finish dcs pstate) (reconcile_all ord (pci_of devs) hw devs (start_state dcs devs))"
proof -
  obtain pci where "found_PCI (fold collect_device (enumerate 0 devs) found_zero) = Some pci"
    using collect_found [of devs] assms by (metis option.exhaust)
  then show ?thesis using collect_found [of devs]
    by (simp add: vc_Reconcile_def Let_def reconcile_all_def found_zero_def pci_of_def start_state_def finish_def
        split: option.split)
qed

lemma start_state_simps [simp]:
  "vc_devices (start_state dcs devs) = devs" "vc_newDeviceKey (start_state dcs devs) \<le> 0" "vc_changes (start_state dcs devs) = dcs"
  using InitDeviceKey_le [of 0 dcs] by (simp_all add: start_state_def)

text \<open>
  C5. On a powered off VM the reconciler of virtual controllers converges, in whatever order Go visits the maps: once
  vSphere has carried out the device changes it asks for, the controllers of the VM are those of the specification,
  with their types and sharing modes, and a further reconcile asks for nothing.
\<close>

theorem vc_Reconcile_converges:
  assumes "orders_ok ord" "orders_ok ord'" "devices_ok devs" "scsi_types_known hw" "VirtualPCIController p \<in> set devs"
  shows "\<exists>devs' new. vc_Reconcile ord hw (Some devs) PoweredOff dcs = Some (None, Some devs', dcs @ new) \<and>
    controllers_match hw (apply_changes new devs) \<and>
    (\<forall>pstate dcs'. vc_Reconcile ord' hw (Some (apply_changes new devs)) pstate dcs' =
      Some (None, Some (apply_changes new devs), dcs'))"
proof -
  obtain st C where st: "reconcile_all ord (pci_of devs) hw devs (start_state dcs devs) = Some st"
      "vc_changes st = dcs @ C" "controllers_match hw (apply_changes C devs)" "VirtualPCIController p \<in> set (apply_changes C devs)"
    using reconcile_all_settles [OF assms(1) start_state_simps(1,2) [of dcs devs] assms(3,4), where pci = "pci_of devs"] assms(5) by auto
  have "vc_Reconcile ord hw (Some devs) PoweredOff dcs = Some (None, Some (vc_devices st), dcs @ C)"
    by (simp add: vc_Reconcile_all [OF assms(5)] st finish_def)
  moreover have "vc_Reconcile ord' hw (Some (apply_changes C devs)) pstate dcs' = Some (None, Some (apply_changes C devs), dcs')"
    for pstate dcs'
    by (simp add: vc_Reconcile_all [OF st(4)] reconcile_all_stable [OF assms(2) st(3)] finish_def)
  ultimately show ?thesis using st(3) by blast
qed

text \<open>
  C33. The reconcile panics exactly when the VM has a PCI controller and some SCSI controller of the specification has
  a type that is none of the four of the API: its new controller is nil and fails the type assertion.
\<close>

theorem vc_Reconcile_panics_iff:
  assumes "orders_ok ord" "devices_ok devs"
  shows "vc_Reconcile ord hw (Some devs) pstate dcs = None \<longleftrightarrow>
    (\<exists>p. VirtualPCIController p \<in> set devs) \<and> \<not> scsi_types_known hw"
proof (cases "\<exists>p. VirtualPCIController p \<in> set devs")
  case True
  then obtain p where p: "VirtualPCIController p \<in> set devs" by blast
  have "reconcile_all ord (pci_of devs) hw devs (start_state dcs devs) = None \<longleftrightarrow> \<not> scsi_types_known hw"
    using reconcile_all_settles [OF assms(1) start_state_simps(1,2) [of dcs devs] assms(2), where hw = hw and pci = "pci_of devs"]
      reconcile_all_panics [OF assms(1) start_state_simps(1,2) [of dcs devs] assms(2), where hw = hw and pci = "pci_of devs"] by auto
  then show ?thesis using True by (simp add: vc_Reconcile_all [OF p])
next
  case False
  then show ?thesis using collect_found [of devs] by (simp add: vc_Reconcile_def Let_def found_zero_def)
qed

text \<open>The device changes are only ever added to.\<close>

lemma emit_changes_appends:
  assumes "emit_changes new pci diff st = Some st'"
  shows "\<exists>C. vc_changes st' = vc_changes st @ C"
proof -
  have adds: "\<exists>C. vc_changes st' = vc_changes st @ C" if "add_controllers new pci specs st = Some st'" for specs st st'
    using that
  proof (induction specs arbitrary: st)
    case (Cons s specs)
    then obtain d key where "add_controllers new pci specs
        (st\<lparr>vc_changes := addDeviceChangeOp (vc_changes st) d OperationAdd, vc_newDeviceKey := key\<rparr>) = Some st'"
      by (auto split: prod.splits option.splits)
    from Cons.IH [OF this] show ?case by (auto simp: addDeviceChangeOp_def)
  qed simp
  show ?thesis using assms adds by (fastforce simp: emit_changes_def Let_def emit_loop)
qed

text \<open>
  On a VM that is not powered off the reconcile adds no edit of a controller to the device changes, and keeps the
  changes that were there.
\<close>

theorem vc_Reconcile_no_hot_edit:
  assumes "vc_Reconcile ord hw (Some devs) pstate dcs = Some (err, devs', dcs')" "pstate \<noteq> PoweredOff"
  shows "\<exists>new. dcs' = dcs @ new \<and> (\<forall>d. change OperationEdit d \<notin> set new)"
proof (cases "\<exists>p. VirtualPCIController p \<in> set devs")
  case True
  then obtain p where p: "VirtualPCIController p \<in> set devs" by blast
  obtain st where st: "reconcile_all ord (pci_of devs) hw devs (start_state dcs devs) = Some st" "finish dcs pstate st = (err, devs', dcs')"
    using assms(1) by (auto simp: vc_Reconcile_all [OF p])
  obtain C where C: "vc_changes st = dcs @ C"
    using st(1) emit_changes_appends
    by (fastforce simp: reconcile_all_def reconcile_defs Let_def Option.bind_eq_Some_conv dest!: emit_changes_appends)
  show ?thesis
  proof (cases "list_ex (\<lambda>bdc. case bdc of None \<Rightarrow> False | Some dc \<Rightarrow> dvc_Operation dc = OperationEdit) C")
    case True
    then show ?thesis using st(2) C assms(2) by (auto simp: finish_def)
  next
    case False
    then have "change OperationEdit d \<notin> set C" for d by (auto simp: list_ex_iff)
    moreover have "dcs' = dcs @ C" using st(2) C False by (simp add: finish_def)
    ultimately show ?thesis by blast
  qed
next
  case False
  then show ?thesis using assms(1) collect_found [of devs] by (auto simp: vc_Reconcile_def Let_def found_zero_def)
qed

section \<open>An example\<close>

text \<open>
  A VM with an IDE, a SCSI and an NVME controller, whose specification asks for another type of SCSI controller, another
  sharing mode of the NVME controller and a SATA controller.
\<close>

definition example_hw :: "VirtualMachineHardwareSpec option" where
  "example_hw = Some (hardware_zero\<lparr>hw_IDEControllers := [\<lparr>ide_BusNumber = 0\<rparr>],
     hw_NVMEControllers := [\<lparr>nvme_BusNumber = 0, nvme_SharingMode = ''Physical''\<rparr>],
     hw_SATAControllers := [\<lparr>sata_BusNumber = 0\<rparr>],
     hw_SCSIControllers := [\<lparr>scsi_BusNumber = 0, scsi_SharingMode = ''None'', scsi_Type = ''ParaVirtual''\<rparr>]\<rparr>)"

definition example_devices :: "device list" where
  "example_devices =
     (let info = \<lparr>ctl_ControllerKey = 100, ctl_SharedBus = ''noSharing'', ctl_HotAddRemove = None\<rparr>
      in [VirtualPCIController 100, DiskController VirtualIDEController 200 0 (info\<lparr>ctl_SharedBus := []\<rparr>),
          DiskController VirtualLsiLogicController 1000 0 info, DiskController VirtualNVMEController 31000 0 info])"

lemma example_orders: "orders_ok (\<lambda>n ks. ks)"
  by (simp add: orders_ok_def permutes_def)

lemma example_devices_ok: "devices_ok example_devices"
  by (simp add: devices_ok_def example_devices_def unique_buses_def in_family_def dev_bus_def is_scsi_def Let_def)

lemma example_types_known: "scsi_types_known example_hw"
  by (simp add: scsi_types_known_def example_hw_def scsi_desired_def desired_by_bus_def known_scsi_type_def
      SCSIControllerTypeParaVirtualSCSI_def)

lemma example_pci: "VirtualPCIController 100 \<in> set example_devices"
  by (simp add: example_devices_def Let_def)

theorem vc_Reconcile_converges_witness:
  "\<exists>devs' new. vc_Reconcile (\<lambda>n ks. ks) example_hw (Some example_devices) PoweredOff [] = Some (None, Some devs', [] @ new) \<and>
    controllers_match example_hw (apply_changes new example_devices) \<and>
    (\<forall>pstate dcs'. vc_Reconcile (\<lambda>n ks. ks) example_hw (Some (apply_changes new example_devices)) pstate dcs' =
      Some (None, Some (apply_changes new example_devices), dcs'))"
  by (rule vc_Reconcile_converges [OF example_orders example_orders example_devices_ok example_types_known example_pci])

theorem vc_Reconcile_panics_iff_witness:
  "vc_Reconcile (\<lambda>n ks. ks) example_hw (Some example_devices) PoweredOn [] = None \<longleftrightarrow>
    (\<exists>p. VirtualPCIController p \<in> set example_devices) \<and> \<not> scsi_types_known example_hw"
  by (rule vc_Reconcile_panics_iff [OF example_orders example_devices_ok])

lemma example_hot_edit:
  "vc_Reconcile (\<lambda>n ks. ks) example_hw (Some example_devices) PoweredOn [] =
     Some (None, Some (example_devices[3 := DiskController VirtualNVMEController 31000 0
       \<lparr>ctl_ControllerKey = 100, ctl_SharedBus = ''physicalSharing'', ctl_HotAddRemove = None\<rparr>]), [])"
  by code_simp

theorem vc_Reconcile_no_hot_edit_witness:
  "\<exists>new. [] = [] @ new \<and> (\<forall>d. change OperationEdit d \<notin> set new)"
  by (rule vc_Reconcile_no_hot_edit [OF example_hot_edit]) code_simp

end
