(* ===== verification/Condition_Merge.thy ===== *)
theory Condition_Merge
  imports Conditions
begin

text \<open>
  Merging conditions: \<^verbatim>\<open>merge.go\<close>, \<^verbatim>\<open>merge_strategies.go\<close>, and \<^verbatim>\<open>summary\<close>, \<^verbatim>\<open>mirror\<close> and
  \<^verbatim>\<open>aggregate\<close> of \<^verbatim>\<open>getter.go\<close> with the setters built on them. A nil condition of a localized
  condition is \<open>None\<close>; a slice that may be nil is an option. The theorems say which status the
  merged condition has (\<open>combined_status\<close>), where its reason comes from and what the step counter
  of its message counts.
\<close>

section \<open>Groups\<close>

type_synonym localizedCondition = "condition option \<times> getter"

record conditionGroup =
  gstatus :: string
  gconditions :: "(condition \<times> getter) list"

definition mergePriority :: "conditionGroup \<Rightarrow> nat" where
  "mergePriority g =
     (if gstatus g = ConditionFalse then 2
      else if gstatus g = ConditionTrue then 3
      else if gstatus g = ConditionUnknown then 4
      else 99)"

definition conditionGroups_Less :: "conditionGroup \<Rightarrow> conditionGroup \<Rightarrow> bool" where
  "conditionGroups_Less a b \<longleftrightarrow> mergePriority a < mergePriority b"

fun TopGroup :: "conditionGroup list \<Rightarrow> conditionGroup option" where
  "TopGroup [] = None"
| "TopGroup (g # _) = Some g"

fun getByStatusAndSeverity :: "conditionGroup list \<Rightarrow> string \<Rightarrow> conditionGroup option" where
  "getByStatusAndSeverity [] st = None"
| "getByStatusAndSeverity (g # gs) st =
     (if gstatus g = st then Some g else getByStatusAndSeverity gs st)"

definition TrueGroup :: "conditionGroup list \<Rightarrow> conditionGroup option" where
  "TrueGroup gs = getByStatusAndSeverity gs ConditionTrue"

definition FalseGroup :: "conditionGroup list \<Rightarrow> conditionGroup option" where
  "FalseGroup gs = getByStatusAndSeverity gs ConditionFalse"

text \<open>The body of the grouping loop: append to the group of the same status or open a new one.\<close>

fun add_to_groups :: "conditionGroup list \<Rightarrow> condition \<times> getter \<Rightarrow> conditionGroup list" where
  "add_to_groups [] c = [\<lparr>gstatus = cstatus (fst c), gconditions = [c]\<rparr>]"
| "add_to_groups (g # gs) c =
     (if gstatus g = cstatus (fst c) then g\<lparr>gconditions := gconditions g @ [c]\<rparr> # gs
      else g # add_to_groups gs c)"

fun group_loop :: "conditionGroup list \<Rightarrow> localizedCondition list \<Rightarrow> conditionGroup list" where
  "group_loop gs [] = gs"
| "group_loop gs ((None, g) # cs) = group_loop gs cs"
| "group_loop gs ((Some c, g) # cs) = group_loop (add_to_groups gs (c, g)) cs"

text \<open>The order of the conditions of the top group: by type, then by the name of the source.\<close>

definition topGroup_Less :: "condition \<times> getter \<Rightarrow> condition \<times> getter \<Rightarrow> bool" where
  "topGroup_Less a b =
     (if ctype (fst a) \<noteq> ctype (fst b) then lexicographicLess (fst a) (fst b)
      else (case (objName (snd a), objName (snd b)) of
              (Some na, Some nb) \<Rightarrow> na < nb
            | (None, Some _) \<Rightarrow> True
            | _ \<Rightarrow> False))"

definition getConditionGroups :: "localizedCondition list \<Rightarrow> conditionGroup list" where
  "getConditionGroups cs =
     (case go_sort conditionGroups_Less (group_loop [] cs) of
        [] \<Rightarrow> []
      | g # gs \<Rightarrow> g\<lparr>gconditions := go_sort topGroup_Less (gconditions g)\<rparr> # gs)"

section \<open>Strategies\<close>

record mergeOptions =
  conditionTypes :: "string list option"
  addSourceRef :: bool
  addStepCounter :: bool
  addStepCounterIfOnlyConditionTypes :: "string list option"
  stepCounter :: int

type_synonym MergeOption = "mergeOptions \<Rightarrow> mergeOptions"

definition mergeOptions_zero :: mergeOptions where
  "mergeOptions_zero =
     \<lparr>conditionTypes = None, addSourceRef = False, addStepCounter = False,
      addStepCounterIfOnlyConditionTypes = None, stepCounter = 0\<rparr>"

definition WithConditions :: "string list option \<Rightarrow> MergeOption" where
  "WithConditions t c = c\<lparr>conditionTypes := t\<rparr>"

definition WithStepCounter :: MergeOption where
  "WithStepCounter c = c\<lparr>addStepCounter := True\<rparr>"

definition WithStepCounterIf :: "bool \<Rightarrow> MergeOption" where
  "WithStepCounterIf v c = c\<lparr>addStepCounter := v\<rparr>"

definition WithStepCounterIfOnly :: "string list option \<Rightarrow> MergeOption" where
  "WithStepCounterIfOnly t c = c\<lparr>addStepCounterIfOnlyConditionTypes := t\<rparr>"

definition AddSourceRef :: MergeOption where
  "AddSourceRef c = c\<lparr>addSourceRef := True\<rparr>"

fun find_first_type :: "(condition \<times> getter) list \<Rightarrow> string \<Rightarrow> (condition \<times> getter) option" where
  "find_first_type [] p = None"
| "find_first_type (c # cs) p = (if ctype (fst c) = p then Some c else find_first_type cs p)"

fun find_by_priority :: "string list \<Rightarrow> (condition \<times> getter) list \<Rightarrow> (condition \<times> getter) option" where
  "find_by_priority [] cs = None"
| "find_by_priority (p # ps) cs =
     (case find_first_type cs p of Some c \<Rightarrow> Some c | None \<Rightarrow> find_by_priority ps cs)"

definition getFirstCondition ::
    "conditionGroup list \<Rightarrow> string list option \<Rightarrow> (condition \<times> getter) option" where
  "getFirstCondition g priority =
     (case TopGroup g of
        None \<Rightarrow> None
      | Some tg \<Rightarrow>
          (case gconditions tg of
             [] \<Rightarrow> None
           | [c] \<Rightarrow> Some c
           | c # cs \<Rightarrow>
               (case find_by_priority (case priority of None \<Rightarrow> [] | Some ps \<Rightarrow> ps) (c # cs) of
                  Some d \<Rightarrow> Some d
                | None \<Rightarrow> Some c)))"

definition localizeReason :: "string \<Rightarrow> getter \<Rightarrow> string" where
  "localizeReason r from =
     (if CHR ''@'' \<in> set r then r
      else (case (objKind from, objName from) of
              (Some kind, Some name) \<Rightarrow> r @ '' @ '' @ kind @ ''/'' @ name
            | _ \<Rightarrow> r))"

definition getFirstReason :: "conditionGroup list \<Rightarrow> string list option \<Rightarrow> bool \<Rightarrow> string" where
  "getFirstReason g order addRef =
     (case getFirstCondition g order of
        Some (c, from) \<Rightarrow> if addRef then localizeReason (reason c) from else reason c
      | None \<Rightarrow> [])"

definition getReason :: "conditionGroup list \<Rightarrow> mergeOptions \<Rightarrow> string" where
  "getReason groups opts = getFirstReason groups (conditionTypes opts) (addSourceRef opts)"

definition getStepCounterMessage :: "conditionGroup list \<Rightarrow> int \<Rightarrow> string" where
  "getStepCounterMessage groups to =
     (let ct = (case TrueGroup groups of Some g \<Rightarrow> length (gconditions g) | None \<Rightarrow> 0)
      in show_int (int ct) @ '' of '' @ show_int to @ '' completed'')"

definition getFirstMessage :: "conditionGroup list \<Rightarrow> string list option \<Rightarrow> string" where
  "getFirstMessage groups order =
     (case getFirstCondition groups order of Some c \<Rightarrow> message (fst c) | None \<Rightarrow> [])"

definition getMessage :: "conditionGroup list \<Rightarrow> mergeOptions \<Rightarrow> string" where
  "getMessage groups opts =
     (if addStepCounter opts then getStepCounterMessage groups (stepCounter opts)
      else getFirstMessage groups (conditionTypes opts))"

section \<open>Merge, summary, mirror and aggregate\<close>

definition merge :: "localizedCondition list \<Rightarrow> string \<Rightarrow> mergeOptions \<Rightarrow> condition option" where
  "merge cs target opts =
     (let g = getConditionGroups cs in
      case TopGroup g of
        None \<Rightarrow> None
      | Some tg \<Rightarrow>
          if gstatus tg = ConditionTrue then Some (TrueCondition target)
          else
            (let r = getReason g opts; m = getMessage g opts in
             if gstatus tg = ConditionFalse then Some (FalseCondition target r m)
             else Some (UnknownCondition target r m)))"

definition apply_options :: "('o \<Rightarrow> 'o) list \<Rightarrow> 'o \<Rightarrow> 'o" where
  "apply_options opts o0 = fold (\<lambda>f x. f x) opts o0"

definition summary_in_scope :: "mergeOptions \<Rightarrow> conditions \<Rightarrow> conditions" where
  "summary_in_scope opts cs =
     filter (\<lambda>c. ctype c \<noteq> ReadyConditionType \<and>
       (case conditionTypes opts of None \<Rightarrow> True | Some ts \<Rightarrow> ctype c \<in> set ts)) cs"

definition summary_step_options :: "mergeOptions \<Rightarrow> conditions \<Rightarrow> mergeOptions" where
  "summary_step_options opts scope =
     (let opts1 =
        (case addStepCounterIfOnlyConditionTypes opts of
           Some ts \<Rightarrow> if \<exists>c \<in> set scope. ctype c \<notin> set ts
                      then opts\<lparr>addStepCounter := False\<rparr> else opts
         | None \<Rightarrow> opts)
      in if addStepCounter opts1 then
           opts1\<lparr>stepCounter :=
             (case addStepCounterIfOnlyConditionTypes opts1 of
                Some ts \<Rightarrow> int (length ts)
              | None \<Rightarrow> (case conditionTypes opts1 of
                          Some ts \<Rightarrow> int (length ts)
                        | None \<Rightarrow> int (length scope)))\<rparr>
         else opts1)"

definition summary :: "getter \<Rightarrow> MergeOption list \<Rightarrow> condition option" where
  "summary from options =
     (let cs = GetConditions from;
          opts = apply_options options mergeOptions_zero;
          scope = summary_in_scope opts cs
      in merge (map (\<lambda>c. (Some c, from)) scope) ReadyConditionType (summary_step_options opts scope))"

record mirrorOptions =
  fallbackTo :: "bool option"
  fallbackReason :: string
  fallbackMessage :: string

definition WithFallbackValue :: "bool \<Rightarrow> string \<Rightarrow> string \<Rightarrow> mirrorOptions \<Rightarrow> mirrorOptions" where
  "WithFallbackValue v r m c = c\<lparr>fallbackTo := Some v, fallbackReason := r, fallbackMessage := m\<rparr>"

definition mirror ::
    "getter \<Rightarrow> string \<Rightarrow> (mirrorOptions \<Rightarrow> mirrorOptions) list \<Rightarrow> condition option" where
  "mirror from target options =
     (let opt = apply_options options \<lparr>fallbackTo = None, fallbackReason = [], fallbackMessage = []\<rparr>;
          c = (case (fallbackTo opt, Get from ReadyConditionType) of
                 (Some True, None) \<Rightarrow> Some (TrueCondition target)
               | (Some False, None) \<Rightarrow>
                   Some (FalseCondition target (fallbackReason opt) (fallbackMessage opt))
               | (_, r) \<Rightarrow> r)
      in map_option (\<lambda>c. c\<lparr>ctype := target\<rparr>) c)"

definition aggregate :: "getter list \<Rightarrow> string \<Rightarrow> MergeOption list \<Rightarrow> condition option" where
  "aggregate from target options =
     (let scope = map (\<lambda>g. (Get g ReadyConditionType, g)) from;
          opts = apply_options options
            (mergeOptions_zero\<lparr>addStepCounter := True, stepCounter := int (length from)\<rparr>)
      in merge scope target opts)"

text \<open>
  The slice is itself a \<^verbatim>\<open>Getter\<close> that implements neither \<^verbatim>\<open>metav1.Object\<close> nor
  \<^verbatim>\<open>runtime.Object\<close>.
\<close>

definition slice_getter :: "conditions \<Rightarrow> getter" where
  "slice_getter l = \<lparr>conds = l, objName = None, objKind = None\<rparr>"

definition Conditions_SetSummary :: "gotime \<Rightarrow> conditions \<Rightarrow> MergeOption list \<Rightarrow> conditions" where
  "Conditions_SetSummary now l options = Conditions_Set now l (summary (slice_getter l) options)"

definition Conditions_SetMirror ::
    "gotime \<Rightarrow> conditions \<Rightarrow> string \<Rightarrow> getter \<Rightarrow> (mirrorOptions \<Rightarrow> mirrorOptions) list \<Rightarrow> conditions"
where
  "Conditions_SetMirror now l target from options =
     Conditions_Set now l (mirror from target options)"

definition Conditions_SetAggregate ::
    "gotime \<Rightarrow> conditions \<Rightarrow> string \<Rightarrow> getter list \<Rightarrow> MergeOption list \<Rightarrow> conditions" where
  "Conditions_SetAggregate now l target from options =
     Conditions_Set now l (aggregate from target options)"

definition SetSummary :: "gotime \<Rightarrow> getter \<Rightarrow> MergeOption list \<Rightarrow> getter" where
  "SetSummary now to options = SetConditions to (Conditions_SetSummary now (c4g to) options)"

definition SetMirror ::
    "gotime \<Rightarrow> getter \<Rightarrow> string \<Rightarrow> getter \<Rightarrow> (mirrorOptions \<Rightarrow> mirrorOptions) list \<Rightarrow> getter" where
  "SetMirror now to target from options =
     SetConditions to (Conditions_SetMirror now (c4g to) target from options)"

definition SetAggregate ::
    "gotime \<Rightarrow> getter \<Rightarrow> string \<Rightarrow> getter list \<Rightarrow> MergeOption list \<Rightarrow> getter" where
  "SetAggregate now to target from options =
     SetConditions to (Conditions_SetAggregate now (c4g to) target from options)"

section \<open>What a merge computes\<close>

text \<open>The status of a merge, from the statuses of the merged conditions.\<close>

definition combined_status :: "string set \<Rightarrow> string" where
  "combined_status S =
     (if ConditionFalse \<in> S then ConditionFalse
      else if ConditionTrue \<in> S then ConditionTrue
      else ConditionUnknown)"

definition merged_conditions :: "localizedCondition list \<Rightarrow> (condition \<times> getter) list" where
  "merged_conditions cs = List.map_filter (\<lambda>(c, g). map_option (\<lambda>d. (d, g)) c) cs"

definition with_status :: "string \<Rightarrow> (condition \<times> getter) list \<Rightarrow> (condition \<times> getter) list" where
  "with_status st ms = filter (\<lambda>m. cstatus (fst m) = st) ms"

lemma status_constants [simp]:
  "ConditionTrue \<noteq> ConditionFalse" "ConditionFalse \<noteq> ConditionTrue"
  "ConditionTrue \<noteq> ConditionUnknown" "ConditionUnknown \<noteq> ConditionTrue"
  "ConditionFalse \<noteq> ConditionUnknown" "ConditionUnknown \<noteq> ConditionFalse"
  by (simp_all add: ConditionTrue_def ConditionFalse_def ConditionUnknown_def)

lemma merged_conditions_simps [simp]:
  "merged_conditions [] = []"
  "merged_conditions ((None, g) # cs) = merged_conditions cs"
  "merged_conditions ((Some c, g) # cs) = (c, g) # merged_conditions cs"
  by (simp_all add: merged_conditions_def map_filter_simps)

lemma getByStatus_find_by: "getByStatusAndSeverity gs st = find_by gstatus gs st"
  by (induction gs) auto

interpretation group_order: strict_weak_order conditionGroups_Less mergePriority
  by unfold_locales (auto simp: conditionGroups_Less_def)

lemma add_to_groups_lookup:
  "find_by gstatus (add_to_groups gs c) st =
     (if st = cstatus (fst c) then
        Some (case find_by gstatus gs st of
                None \<Rightarrow> \<lparr>gstatus = st, gconditions = [c]\<rparr>
              | Some g \<Rightarrow> g\<lparr>gconditions := gconditions g @ [c]\<rparr>)
      else find_by gstatus gs st)"
  by (induction gs) auto

lemma add_to_groups_statuses:
  "gstatus ` set (add_to_groups gs c) = insert (cstatus (fst c)) (gstatus ` set gs)"
  by (induction gs) auto

lemma add_to_groups_distinct:
  "distinct (map gstatus gs) \<Longrightarrow> distinct (map gstatus (add_to_groups gs c))"
proof (induction gs)
  case Nil
  then show ?case by simp
next
  case (Cons g gs)
  then show ?case using add_to_groups_statuses [of gs c] by (auto simp: image_iff)
qed

lemma group_loop_distinct:
  "distinct (map gstatus gs) \<Longrightarrow> distinct (map gstatus (group_loop gs cs))"
  by (induction gs cs rule: group_loop.induct) (auto simp: add_to_groups_distinct)

lemma group_loop_statuses:
  "gstatus ` set (group_loop gs cs) = gstatus ` set gs \<union> (cstatus \<circ> fst) ` set (merged_conditions cs)"
  by (induction gs cs rule: group_loop.induct) (auto simp: add_to_groups_statuses)

lemma group_loop_lookup:
  "find_by gstatus (group_loop gs cs) st =
     (case find_by gstatus gs st of
        Some g \<Rightarrow> Some (g\<lparr>gconditions := gconditions g @ with_status st (merged_conditions cs)\<rparr>)
      | None \<Rightarrow> if with_status st (merged_conditions cs) = [] then None
                else Some \<lparr>gstatus = st, gconditions = with_status st (merged_conditions cs)\<rparr>)"
  by (induction gs cs rule: group_loop.induct)
    (auto simp: with_status_def add_to_groups_lookup split: option.splits)

lemma mergePriority_cong: "gstatus g = gstatus h \<Longrightarrow> mergePriority g = mergePriority h"
  by (simp add: mergePriority_def)

lemma sorted_groups_lookup:
  "find_by gstatus (go_sort conditionGroups_Less (group_loop [] cs)) st =
     (if with_status st (merged_conditions cs) = [] then None
      else Some \<lparr>gstatus = st, gconditions = with_status st (merged_conditions cs)\<rparr>)"
proof -
  have "find_by gstatus (go_sort conditionGroups_Less (group_loop [] cs)) st =
      find_by gstatus (group_loop [] cs) st"
    by (rule find_by_mset) (simp_all add: group_loop_distinct)
  then show ?thesis by (simp add: group_loop_lookup)
qed

lemma sorted_groups_statuses:
  "gstatus ` set (go_sort conditionGroups_Less (group_loop [] cs)) =
     (cstatus \<circ> fst) ` set (merged_conditions cs)"
  by (simp add: group_loop_statuses)

lemma sorted_groups_Nil:
  "go_sort conditionGroups_Less (group_loop [] cs) = [] \<longleftrightarrow> merged_conditions cs = []"
  using sorted_groups_statuses [of cs] by (metis image_is_empty set_empty)

text \<open>The top group holds exactly the conditions of its status, and no status precedes it.\<close>

lemma getConditionGroups_top:
  assumes "merged_conditions cs \<noteq> []"
  obtains g where "TopGroup (getConditionGroups cs) = Some g"
    and "mset (gconditions g) = mset (with_status (gstatus g) (merged_conditions cs))"
    and "gstatus g \<in> (cstatus \<circ> fst) ` set (merged_conditions cs)"
    and "\<And>c. c \<in> set (merged_conditions cs) \<Longrightarrow>
           mergePriority g \<le> mergePriority \<lparr>gstatus = cstatus (fst c), gconditions = []\<rparr>"
proof -
  obtain g gs where srt: "go_sort conditionGroups_Less (group_loop [] cs) = g # gs"
    using assms by (metis list.exhaust sorted_groups_Nil)
  define g' where "g' = g\<lparr>gconditions := go_sort topGroup_Less (gconditions g)\<rparr>"
  have prio: "mergePriority g \<le> mergePriority \<lparr>gstatus = cstatus (fst c), gconditions = []\<rparr>"
    if "c \<in> set (merged_conditions cs)" for c
  proof -
    from that have "cstatus (fst c) \<in> gstatus ` set (g # gs)"
      using sorted_groups_statuses [of cs] srt by auto
    then obtain h where h: "h \<in> set (g # gs)" "gstatus h = cstatus (fst c)"
      by (metis imageE)
    have "sorted_by conditionGroups_Less (g # gs)"
      using group_order.go_sort_sorted [of "group_loop [] cs"] srt by simp
    with h(1) have "mergePriority g \<le> mergePriority h"
      by (auto simp: conditionGroups_Less_def)
    moreover have "mergePriority h = mergePriority \<lparr>gstatus = cstatus (fst c), gconditions = []\<rparr>"
      by (rule mergePriority_cong) (simp add: h(2))
    ultimately show ?thesis by simp
  qed
  have "find_by gstatus (g # gs) (gstatus g) = Some g" by simp
  then have "g = \<lparr>gstatus = gstatus g, gconditions = with_status (gstatus g) (merged_conditions cs)\<rparr>"
    using sorted_groups_lookup [of cs "gstatus g"] srt
    by (metis option.distinct(1) option.inject)
  from arg_cong [OF this, of gconditions]
  have conds: "gconditions g = with_status (gstatus g) (merged_conditions cs)"
    by (simp only: conditionGroup.select_convs)
  show thesis
  proof (rule that)
    show "TopGroup (getConditionGroups cs) = Some g'"
      by (simp add: getConditionGroups_def srt g'_def)
    show "mset (gconditions g') = mset (with_status (gstatus g') (merged_conditions cs))"
      using conds by (simp add: g'_def)
    show "gstatus g' \<in> (cstatus \<circ> fst) ` set (merged_conditions cs)"
      using sorted_groups_statuses [of cs] srt by (auto simp: g'_def)
    show "mergePriority g' \<le> mergePriority \<lparr>gstatus = cstatus (fst c), gconditions = []\<rparr>"
      if "c \<in> set (merged_conditions cs)" for c
      using prio [OF that] mergePriority_cong [of g' g] by (simp add: g'_def)
  qed
qed

lemma getConditionGroups_Nil: "merged_conditions cs = [] \<Longrightarrow> getConditionGroups cs = []"
  using sorted_groups_Nil [of cs] by (simp add: getConditionGroups_def)

lemma getConditionGroups_count:
  "(case getByStatusAndSeverity (getConditionGroups cs) st of
      Some g \<Rightarrow> length (gconditions g) | None \<Rightarrow> 0) = length (with_status st (merged_conditions cs))"
proof (cases "go_sort conditionGroups_Less (group_loop [] cs)")
  case Nil
  then show ?thesis
    using sorted_groups_Nil [of cs] by (simp add: getConditionGroups_def with_status_def)
next
  case (Cons g gs)
  then show ?thesis
    using sorted_groups_lookup [of cs st]
    by (auto simp: getConditionGroups_def getByStatus_find_by split: if_splits)
qed

lemma combined_status_top:
  assumes "gstatus g \<in> S"
    and "\<And>st. st \<in> S \<Longrightarrow> mergePriority g \<le> mergePriority \<lparr>gstatus = st, gconditions = []\<rparr>"
  shows "combined_status S =
    (if gstatus g = ConditionTrue \<or> gstatus g = ConditionFalse then gstatus g else ConditionUnknown)"
  using assms(1) assms(2) [of ConditionFalse] assms(2) [of ConditionTrue]
  by (auto simp: combined_status_def mergePriority_def split: if_splits)

lemma top_group_status:
  assumes "merged_conditions cs \<noteq> []"
  obtains g where "TopGroup (getConditionGroups cs) = Some g"
    and "mset (gconditions g) = mset (with_status (gstatus g) (merged_conditions cs))"
    and "combined_status ((cstatus \<circ> fst) ` set (merged_conditions cs)) =
      (if gstatus g = ConditionTrue \<or> gstatus g = ConditionFalse then gstatus g else ConditionUnknown)"
    and "gconditions g \<noteq> []"
proof (rule getConditionGroups_top [OF assms])
  fix g
  assume top: "TopGroup (getConditionGroups cs) = Some g"
    and ms: "mset (gconditions g) = mset (with_status (gstatus g) (merged_conditions cs))"
    and st: "gstatus g \<in> (cstatus \<circ> fst) ` set (merged_conditions cs)"
    and prio: "\<And>c. c \<in> set (merged_conditions cs) \<Longrightarrow>
       mergePriority g \<le> mergePriority \<lparr>gstatus = cstatus (fst c), gconditions = []\<rparr>"
  have "with_status (gstatus g) (merged_conditions cs) \<noteq> []"
    using st unfolding with_status_def filter_empty_conv by fastforce
  with ms have "gconditions g \<noteq> []" by (metis mset_zero_iff)
  moreover have "combined_status ((cstatus \<circ> fst) ` set (merged_conditions cs)) =
      (if gstatus g = ConditionTrue \<or> gstatus g = ConditionFalse then gstatus g else ConditionUnknown)"
    using st prio by (intro combined_status_top) auto
  ultimately show thesis using that top ms by blast
qed

lemma merge_by_top:
  assumes "TopGroup (getConditionGroups cs) = Some g"
  shows "merge cs t opts = Some
    (if gstatus g = ConditionTrue then TrueCondition t
     else if gstatus g = ConditionFalse
       then FalseCondition t (getReason (getConditionGroups cs) opts) (getMessage (getConditionGroups cs) opts)
     else UnknownCondition t (getReason (getConditionGroups cs) opts) (getMessage (getConditionGroups cs) opts))"
  using assms by (simp add: merge_def Let_def)

lemmas new_condition_defs = TrueCondition_def FalseCondition_def UnknownCondition_def

lemma merge_status:
  "map_option (\<lambda>d. (ctype d, cstatus d)) (merge cs t opts) =
     (if merged_conditions cs = [] then None
      else Some (t, combined_status ((cstatus \<circ> fst) ` set (merged_conditions cs))))"
proof (cases "merged_conditions cs = []")
  case True
  then show ?thesis by (simp add: merge_def getConditionGroups_Nil)
next
  case False
  then obtain g where "TopGroup (getConditionGroups cs) = Some g"
    and "combined_status ((cstatus \<circ> fst) ` set (merged_conditions cs)) =
      (if gstatus g = ConditionTrue \<or> gstatus g = ConditionFalse then gstatus g else ConditionUnknown)"
    by (rule top_group_status)
  with False show ?thesis by (auto simp: merge_by_top new_condition_defs)
qed

lemma merged_conditions_Some [simp]:
  "merged_conditions (map (\<lambda>c. (Some c, g)) cs) = map (\<lambda>c. (c, g)) cs"
  by (induction cs) auto

lemma merged_conditions_ready:
  "map fst (merged_conditions (map (\<lambda>g. (Get g t, g)) gs)) = List.map_filter (\<lambda>g. Get g t) gs"
proof (induction gs)
  case Nil
  then show ?case by (simp add: map_filter_simps)
next
  case (Cons g gs)
  then show ?case by (cases "Get g t") (auto simp: map_filter_simps)
qed

lemma find_first_type_find_by: "find_first_type cs p = find_by (ctype \<circ> fst) cs p"
  by (induction cs) auto

lemma find_by_priority_None: "find_by_priority ps cs = None \<longleftrightarrow> (\<forall>p \<in> set ps. p \<notin> (ctype \<circ> fst) ` set cs)"
proof (induction ps)
  case Nil
  then show ?case by simp
next
  case (Cons p ps)
  show ?case
  proof (cases "find_first_type cs p")
    case None
    then have "p \<notin> (ctype \<circ> fst) ` set cs"
      by (simp add: find_first_type_find_by find_by_None)
    with None Cons show ?thesis by simp
  next
    case (Some d)
    then have "p \<in> (ctype \<circ> fst) ` set cs"
      using find_by_SomeD [of "ctype \<circ> fst" cs p d] by (auto simp: find_first_type_find_by)
    with Some show ?thesis by simp
  qed
qed

lemma find_by_priority_Some:
  "find_by_priority ps cs = Some c \<Longrightarrow>
     c \<in> set cs \<and> List.find (\<lambda>p. p \<in> (ctype \<circ> fst) ` set cs) ps = Some (ctype (fst c))"
proof (induction ps)
  case Nil
  then show ?case by simp
next
  case (Cons p ps)
  show ?case
  proof (cases "find_first_type cs p")
    case None
    then have "p \<notin> (ctype \<circ> fst) ` set cs"
      by (simp add: find_first_type_find_by find_by_None)
    with None Cons show ?thesis by simp
  next
    case (Some d)
    with Cons.prems have "c = d" by simp
    with Some show ?thesis
      using find_by_SomeD [of "ctype \<circ> fst" cs p d] by (auto simp: find_first_type_find_by)
  qed
qed

text \<open>
  The condition the reason and the message come from: one of the top group, of the first type of
  the priority list that the group has.
\<close>

lemma getFirstCondition_top:
  assumes "TopGroup gs = Some g" and "gconditions g \<noteq> []"
  obtains c where "getFirstCondition gs priority = Some c" and "c \<in> set (gconditions g)"
    and "\<And>ps p. priority = Some ps \<Longrightarrow>
      List.find (\<lambda>p. p \<in> (ctype \<circ> fst) ` set (gconditions g)) ps = Some p \<Longrightarrow> ctype (fst c) = p"
proof (cases "gconditions g")
  case Nil
  with assms(2) show thesis by simp
next
  case (Cons c cs)
  define ps where "ps = (case priority of None \<Rightarrow> [] | Some ps \<Rightarrow> ps)"
  show thesis
  proof (cases "cs = []")
    case True
    with Cons assms(1) have "getFirstCondition gs priority = Some c"
      by (simp add: getFirstCondition_def)
    then show thesis by (rule that) (auto simp: Cons True find_Some_iff)
  next
    case False
    then obtain c2 cs2 where cs: "cs = c2 # cs2" by (cases cs) auto
    show thesis
    proof (cases "find_by_priority ps (gconditions g)")
      case None
      with Cons cs assms(1) have "getFirstCondition gs priority = Some c"
        by (simp add: getFirstCondition_def ps_def)
      then show thesis
      proof (rule that)
        show "c \<in> set (gconditions g)" using Cons by simp
        fix qs p
        assume q: "priority = Some qs"
          and f: "List.find (\<lambda>p. p \<in> (ctype \<circ> fst) ` set (gconditions g)) qs = Some p"
        from None q have "List.find (\<lambda>p. p \<in> (ctype \<circ> fst) ` set (gconditions g)) qs = None"
          by (simp only: ps_def option.case find_by_priority_None find_None_iff) blast
        with f show "ctype (fst c) = p" by simp
      qed
    next
      case (Some d)
      with Cons cs assms(1) have "getFirstCondition gs priority = Some d"
        by (simp add: getFirstCondition_def ps_def)
      then show thesis
        by (rule that) (use find_by_priority_Some [OF Some] in \<open>auto simp: ps_def\<close>)
    qed
  qed
qed

section \<open>Properties\<close>

lemma set_group: "mset (gconditions g) = mset cs \<Longrightarrow> set (gconditions g) = set cs"
  by (metis set_mset_mset)

lemma merge_false_origin:
  assumes "merge cs t opts = Some d" and "cstatus d = ConditionFalse"
  obtains g c where "TopGroup (getConditionGroups cs) = Some g" and "gstatus g = ConditionFalse"
    and "set (gconditions g) = set (with_status ConditionFalse (merged_conditions cs))"
    and "getFirstCondition (getConditionGroups cs) (conditionTypes opts) = Some c"
    and "c \<in> set (with_status ConditionFalse (merged_conditions cs))"
    and "\<And>ps p. conditionTypes opts = Some ps \<Longrightarrow>
      List.find (\<lambda>p. p \<in> (ctype \<circ> fst) ` set (with_status ConditionFalse (merged_conditions cs))) ps
        = Some p \<Longrightarrow> ctype (fst c) = p"
    and "d = FalseCondition t (getReason (getConditionGroups cs) opts)
      (getMessage (getConditionGroups cs) opts)"
proof -
  from assms(1) have "merged_conditions cs \<noteq> []"
    using merge_status [of cs t opts] by auto
  then obtain g where g: "TopGroup (getConditionGroups cs) = Some g"
    and ms: "mset (gconditions g) = mset (with_status (gstatus g) (merged_conditions cs))"
    and ne: "gconditions g \<noteq> []"
    by (rule top_group_status)
  from assms g have st: "gstatus g = ConditionFalse"
    by (auto simp: merge_by_top new_condition_defs split: if_splits)
  obtain c where "getFirstCondition (getConditionGroups cs) (conditionTypes opts) = Some c"
    and "c \<in> set (gconditions g)"
    and "\<And>ps p. conditionTypes opts = Some ps \<Longrightarrow>
      List.find (\<lambda>p. p \<in> (ctype \<circ> fst) ` set (gconditions g)) ps = Some p \<Longrightarrow> ctype (fst c) = p"
    using getFirstCondition_top [OF g ne] by metis
  moreover have "set (gconditions g) = set (with_status ConditionFalse (merged_conditions cs))"
    using set_group [OF ms] st by simp
  moreover have "d = FalseCondition t (getReason (getConditionGroups cs) opts)
      (getMessage (getConditionGroups cs) opts)"
    using assms(1) g st by (simp add: merge_by_top)
  ultimately show thesis using that [OF g st] by simp
qed

text \<open>
  C26. A summary over the conditions of an object is False when one of the conditions in scope is
  False, otherwise True when one of them is True, otherwise Unknown; it is the Ready condition, and
  there is none exactly when no condition is in scope.
\<close>

theorem summary_status:
  "map_option (\<lambda>d. (ctype d, cstatus d)) (summary from options) =
     (let scope = summary_in_scope (apply_options options mergeOptions_zero) (conds from)
      in if scope = [] then None
         else Some (ReadyConditionType, combined_status (cstatus ` set scope)))"
  by (simp add: summary_def merge_status GetConditions_def Let_def image_image)

text \<open>
  Aggregating the Ready conditions of dependent objects yields False as soon as one of them is
  not ready, True when none is and one is ready, and nothing when no object has a Ready condition.
\<close>

theorem aggregate_status:
  "map_option (\<lambda>d. (ctype d, cstatus d)) (aggregate from target options) =
     (let ready = List.map_filter (\<lambda>g. Get g ReadyConditionType) from
      in if ready = [] then None else Some (target, combined_status (cstatus ` set ready)))"
proof -
  let ?ms = "merged_conditions (map (\<lambda>g. (Get g ReadyConditionType, g)) from)"
  have "(cstatus \<circ> fst) ` set ?ms = cstatus ` set (map fst ?ms)" by (simp add: image_comp)
  moreover have "?ms = [] \<longleftrightarrow> map fst ?ms = []" by simp
  ultimately show ?thesis
    by (simp add: aggregate_def merge_status Let_def merged_conditions_ready del: map_is_Nil_conv set_map)
qed

text \<open>
  When a merge without source references yields a False condition, its reason is that of a
  False condition among the merged ones, and with a priority list it is one of the first type of
  the list that some False condition has.
\<close>

theorem merge_false_reason:
  assumes "merge cs t opts = Some d" and "cstatus d = ConditionFalse" and "\<not> addSourceRef opts"
  shows "\<exists>c \<in> set (merged_conditions cs). cstatus (fst c) = ConditionFalse \<and>
    reason d = (if reason (fst c) = [] then ConditionFalse else reason (fst c)) \<and>
    (\<forall>ps p. conditionTypes opts = Some ps \<longrightarrow>
       List.find (\<lambda>p. p \<in> (ctype \<circ> fst) ` set (with_status ConditionFalse (merged_conditions cs))) ps
         = Some p \<longrightarrow> ctype (fst c) = p)"
proof (rule merge_false_origin [OF assms(1,2)])
  fix g c
  assume c: "getFirstCondition (getConditionGroups cs) (conditionTypes opts) = Some c"
    "c \<in> set (with_status ConditionFalse (merged_conditions cs))"
    and prio: "\<And>ps p. conditionTypes opts = Some ps \<Longrightarrow>
      List.find (\<lambda>p. p \<in> (ctype \<circ> fst) ` set (with_status ConditionFalse (merged_conditions cs))) ps
        = Some p \<Longrightarrow> ctype (fst c) = p"
    and d: "d = FalseCondition t (getReason (getConditionGroups cs) opts)
      (getMessage (getConditionGroups cs) opts)"
  have "getReason (getConditionGroups cs) opts = reason (fst c)"
    using c(1) assms(3) by (simp add: getReason_def getFirstReason_def split: prod.split)
  with c d prio show ?thesis
    by (intro bexI [of _ c]) (auto simp: with_status_def FalseCondition_def)
qed

theorem merge_false_reason_witness:
  "\<exists>c \<in> set (merged_conditions [(Some (FalseCondition ''B'' ''Late'' []), \<lparr>conds = [], objName = Some ''vm'', objKind = Some ''VM''\<rparr>),
      (Some (FalseCondition ''A'' ''Down'' []), \<lparr>conds = [], objName = Some ''vm'', objKind = Some ''VM''\<rparr>)]).
     ctype (fst c) = ''B''"
proof -
  let ?g = "\<lparr>conds = [], objName = Some ''vm'', objKind = Some ''VM''\<rparr>"
  let ?cs = "[(Some (FalseCondition ''B'' ''Late'' []), ?g), (Some (FalseCondition ''A'' ''Down'' []), ?g)]"
  let ?opts = "mergeOptions_zero\<lparr>conditionTypes := Some [''C'', ''B'']\<rparr>"
  have h: "merge ?cs ''Ready'' ?opts = Some (FalseCondition ''Ready'' ''Late'' [])"
    "cstatus (FalseCondition ''Ready'' ''Late'' []) = ConditionFalse" "\<not> addSourceRef ?opts"
    by code_simp+
  have f: "List.find (\<lambda>p. p \<in> (ctype \<circ> fst) ` set (with_status ConditionFalse (merged_conditions ?cs)))
      [''C'', ''B''] = Some ''B''" by code_simp
  show ?thesis using merge_false_reason [OF h] f by fastforce
qed

text \<open>
  The step counter of a summary counts the conditions in scope that are True, out of all the
  conditions in scope, whenever the summary is not itself True.
\<close>

theorem summary_step_counter:
  assumes "summary from [WithStepCounter] = Some d" and "cstatus d \<noteq> ConditionTrue"
  shows "message d =
    (let scope = filter (\<lambda>c. ctype c \<noteq> ReadyConditionType) (conds from)
     in show_int (int (length (filter (\<lambda>c. cstatus c = ConditionTrue) scope))) @ '' of '' @
        show_int (int (length scope)) @ '' completed'')"
proof -
  let ?scope = "filter (\<lambda>c. ctype c \<noteq> ReadyConditionType) (conds from)"
  let ?cs = "map (\<lambda>c. (Some c, from)) ?scope"
  let ?opts = "mergeOptions_zero\<lparr>addStepCounter := True, stepCounter := int (length ?scope)\<rparr>"
  have sum: "summary from [WithStepCounter] = merge ?cs ReadyConditionType ?opts"
    by (simp add: summary_def summary_in_scope_def summary_step_options_def apply_options_def
        WithStepCounter_def mergeOptions_zero_def GetConditions_def Let_def)
  with assms(1) have "merged_conditions ?cs \<noteq> []"
    using merge_status [of ?cs ReadyConditionType ?opts] by auto
  then obtain g where "TopGroup (getConditionGroups ?cs) = Some g"
    by (rule top_group_status)
  with sum assms have "message d = getMessage (getConditionGroups ?cs) ?opts"
    by (auto simp: merge_by_top new_condition_defs split: if_splits)
  moreover have "length (with_status ConditionTrue (map (\<lambda>c. (c, from)) ?scope)) =
      length (filter (\<lambda>c. cstatus c = ConditionTrue) ?scope)"
    by (simp add: with_status_def filter_map comp_def)
  ultimately show ?thesis
    using getConditionGroups_count [of ?cs ConditionTrue]
    by (simp add: getMessage_def getStepCounterMessage_def TrueGroup_def Let_def)
qed

theorem summary_step_counter_witness:
  "message (FalseCondition ''Ready'' ''Down'' ''1 of 2 completed'') =
     (let scope = filter (\<lambda>c. ctype c \<noteq> ReadyConditionType) [FalseCondition ''A'' ''Down'' [], TrueCondition ''B'']
      in show_int (int (length (filter (\<lambda>c. cstatus c = ConditionTrue) scope))) @ '' of '' @
        show_int (int (length scope)) @ '' completed'')"
proof -
  let ?g = "\<lparr>conds = [FalseCondition ''A'' ''Down'' [], TrueCondition ''B''], objName = Some ''vm'', objKind = Some ''VM''\<rparr>"
  have h: "summary ?g [WithStepCounter] = Some (FalseCondition ''Ready'' ''Down'' ''1 of 2 completed'')"
    "cstatus (FalseCondition ''Ready'' ''Down'' ''1 of 2 completed'') \<noteq> ConditionTrue"
    by code_simp+
  show ?thesis using summary_step_counter [OF h] by simp
qed

end
