(* ===== verification/Go_Time.thy ===== *)
theory Go_Time
  imports VMOp_Prelude "HOL-Library.Monad_Syntax"
begin

text \<open>
  Times of the Go standard library as the operator writes them into annotations: \<^verbatim>\<open>Format\<close> and
  \<^verbatim>\<open>Parse\<close> with the layout \<^verbatim>\<open>time.RFC3339Nano\<close>. A time is an instant, in nanoseconds since the
  beginning of the year 1 in UTC, and the offset of its zone in seconds. The main result is the round trip:
  a time of the years 0 to 9999 with an offset of whole minutes below a day is parsed from its text.
\<close>

section \<open>The calendar\<close>

definition is_leap :: "int \<Rightarrow> bool" where
  "is_leap y \<longleftrightarrow> y mod 4 = 0 \<and> (y mod 100 \<noteq> 0 \<or> y mod 400 = 0)"

text \<open>Days from the beginning of the year 1 to the beginning of a year.\<close>

definition days_before_year :: "int \<Rightarrow> int" where
  "days_before_year y = 365 * (y - 1) + (y - 1) div 4 - (y - 1) div 100 + (y - 1) div 400"

definition month_lengths :: "int \<Rightarrow> int list" where
  "month_lengths y = [31, if is_leap y then 29 else 28, 31, 30, 31, 30, 31, 31, 30, 31, 30, 31]"

text \<open>\<^verbatim>\<open>daysIn\<close>: months count from 1.\<close>

definition daysIn :: "int \<Rightarrow> nat \<Rightarrow> int" where
  "daysIn y m = month_lengths y ! (m - 1)"

definition days_of_date :: "int \<Rightarrow> nat \<Rightarrow> int \<Rightarrow> int" where
  "days_of_date y m d = days_before_year y + sum_list (take (m - 1) (month_lengths y)) + (d - 1)"

text \<open>The year and the day of the year, from zero, by cycles of 400, 100, 4 and 1 years.\<close>

definition year_of_days :: "int \<Rightarrow> int \<times> int" where
  "year_of_days d =
     (let n400 = d div 146097; r400 = d mod 146097;
          n100 = min 3 (r400 div 36524); r100 = r400 - 36524 * n100;
          n4 = r100 div 1461; r4 = r100 mod 1461;
          n1 = min 3 (r4 div 365)
      in (400 * n400 + 100 * n100 + 4 * n4 + n1 + 1, r4 - 365 * n1))"

fun month_of_day :: "int list \<Rightarrow> nat \<Rightarrow> int \<Rightarrow> nat \<times> int" where
  "month_of_day [] m d = (m, d + 1)"
| "month_of_day (l # ls) m d = (if d < l then (m, d + 1) else month_of_day ls (m + 1) (d - l))"

definition date_of_days :: "int \<Rightarrow> int \<times> nat \<times> int" where
  "date_of_days d = (case year_of_days d of (y, yday) \<Rightarrow> (y, month_of_day (month_lengths y) 1 yday))"

lemma cycles_year:
  fixes a b c e :: int
  assumes "0 \<le> b" "b \<le> 3" "0 \<le> c" "c \<le> 24" "0 \<le> e" "e \<le> 3"
  shows "days_before_year (400 * a + 100 * b + 4 * c + e + 1) = 146097 * a + 36524 * b + 1461 * c + 365 * e"
    and "is_leap (400 * a + 100 * b + 4 * c + e + 1) \<longleftrightarrow> e = 3 \<and> (c \<noteq> 24 \<or> b = 3)"
proof -
  let ?y = "400 * a + 100 * b + 4 * c + e"
  have "?y div 4 = 100 * a + 25 * b + c"
    using assms by (intro int_div_pos_eq [where r = e]) auto
  moreover have "?y div 100 = 4 * a + b"
    using assms by (intro int_div_pos_eq [where r = "4 * c + e"]) auto
  moreover have "?y div 400 = a"
    using assms by (intro int_div_pos_eq [where r = "100 * b + 4 * c + e"]) auto
  ultimately show "days_before_year (?y + 1) = 146097 * a + 36524 * b + 1461 * c + 365 * e"
    by (simp add: days_before_year_def)
  have mod: "(?y + 1) mod k = 0 \<longleftrightarrow> r + 1 = k" if "?y = k * q + r" "0 \<le> r" "r < k" for k q r
  proof (cases "r + 1 = k")
    case True
    with that have "?y + 1 = k * (q + 1)" by (simp add: distrib_left)
    with True show ?thesis by simp
  next
    case False
    with that have "(?y + 1) mod k = r + 1" by (intro int_mod_pos_eq [where q = q]) auto
    with False that show ?thesis by simp
  qed
  have last: "4 * c + e = 99 \<longleftrightarrow> c = 24 \<and> e = 3" "100 * b + (4 * c + e) = 399 \<longleftrightarrow> b = 3 \<and> c = 24 \<and> e = 3"
    using assms by linarith+
  have "(?y + 1) mod 4 = 0 \<longleftrightarrow> e = 3"
    using mod [of 4 "100 * a + 25 * b + c" e] assms by auto
  moreover have "(?y + 1) mod 100 = 0 \<longleftrightarrow> c = 24 \<and> e = 3"
    using mod [of 100 "4 * a + b" "4 * c + e"] assms last(1) by simp
  moreover have "(?y + 1) mod 400 = 0 \<longleftrightarrow> b = 3 \<and> c = 24 \<and> e = 3"
    using mod [of 400 a "100 * b + 4 * c + e"] assms last(2) by simp
  ultimately show "is_leap (?y + 1) \<longleftrightarrow> e = 3 \<and> (c \<noteq> 24 \<or> b = 3)"
    by (auto simp: is_leap_def)
qed

text \<open>The bounded quotient of a step of the cycles.\<close>

lemma min_quotient:
  fixes r k :: int
  assumes "0 \<le> r" and "0 < k" and "b = min 3 (r div k)"
  shows "0 \<le> b \<and> b \<le> 3 \<and> 0 \<le> r - k * b \<and> (b < 3 \<longrightarrow> r - k * b < k)"
proof -
  have q: "0 \<le> r div k" and r: "k * (r div k) + r mod k = r" "0 \<le> r mod k" "r mod k < k"
    using assms by (simp_all add: pos_imp_zdiv_nonneg_iff)
  show ?thesis
  proof (cases "r div k \<le> 3")
    case True
    with assms(3) have "b = r div k" by simp
    moreover have "r - k * (r div k) = r mod k" using r(1) by linarith
    ultimately show ?thesis using True q r(2,3) by simp
  next
    case False
    with assms(3) have b: "b = 3" by simp
    have "k * 3 \<le> k * (r div k)" using False assms(2) by simp
    with r have "k * 3 \<le> r" by linarith
    with b show ?thesis by simp
  qed
qed

lemma year_of_days_inverse:
  assumes "year_of_days d = (y, yday)"
  shows "days_before_year y + yday = d \<and> 0 \<le> yday \<and> yday < (if is_leap y then 366 else 365)"
proof -
  define a where "a = d div 146097"
  define r where "r = d mod 146097"
  define b where "b = min 3 (r div 36524)"
  define s where "s = r - 36524 * b"
  define c where "c = s div 1461"
  define t where "t = s mod 1461"
  define e where "e = min 3 (t div 365)"
  have r: "0 \<le> r" "r < 146097" and d: "d = 146097 * a + r" by (simp_all add: r_def a_def)
  have b: "0 \<le> b" "b \<le> 3" and s: "0 \<le> s" "b < 3 \<longrightarrow> s < 36524" "s < 36525"
    using min_quotient [OF r(1), of 36524 b] r b_def by (auto simp: s_def)
  have c: "0 \<le> c" "c \<le> 24" and t: "0 \<le> t" "t < 1461" and s': "s = 1461 * c + t"
    using s unfolding c_def t_def by (auto simp: pos_imp_zdiv_nonneg_iff)
  have t24: "c = 24 \<Longrightarrow> b < 3 \<Longrightarrow> t < 1460" using s s' by auto
  have e: "0 \<le> e" "e \<le> 3" and u: "0 \<le> t - 365 * e" "e < 3 \<longrightarrow> t - 365 * e < 365" "t - 365 * e < 366"
    using min_quotient [OF t(1), of 365 e] t e_def by auto
  have y: "y = 400 * a + 100 * b + 4 * c + e + 1" and yday: "yday = t - 365 * e"
    using assms by (auto simp: year_of_days_def Let_def a_def r_def b_def s_def c_def t_def e_def)
  show ?thesis
    unfolding y yday cycles_year [OF b c e] using d s' s_def u t24 b c e by auto
qed

lemma month_of_day_inverse:
  assumes "month_of_day ls m d = (m', d')" and "0 \<le> d" and "d < sum_list ls"
  shows "\<exists>i < length ls. m' = m + i \<and> 1 \<le> d' \<and> d' \<le> ls ! i \<and> sum_list (take i ls) + (d' - 1) = d"
  using assms
proof (induction ls m d rule: month_of_day.induct)
  case (1 m d)
  then show ?case by simp
next
  case (2 l ls m d)
  show ?case
  proof (cases "d < l")
    case True
    with 2 show ?thesis by (intro exI [of _ 0]) auto
  next
    case False
    with 2 obtain i where "i < length ls" "m' = m + 1 + i" "1 \<le> d'" "d' \<le> ls ! i"
      "sum_list (take i ls) + (d' - 1) = d - l" by auto
    then show ?thesis by (intro exI [of _ "Suc i"]) auto
  qed
qed

text \<open>Every day has a valid date, which names it.\<close>

lemma date_of_days_inverse:
  assumes "date_of_days n = (y, m, d)"
  shows "days_of_date y m d = n \<and> 1 \<le> m \<and> m \<le> 12 \<and> 1 \<le> d \<and> d \<le> daysIn y m \<and> d \<le> 31"
proof -
  obtain yday where ys: "year_of_days n = (y, yday)" and ms: "month_of_day (month_lengths y) 1 yday = (m, d)"
    using assms by (auto simp: date_of_days_def split: prod.splits)
  note yr = year_of_days_inverse [OF ys]
  have "yday < sum_list (month_lengths y)" using yr by (auto simp: month_lengths_def split: if_splits)
  then obtain i where i: "i < length (month_lengths y)" "m = 1 + i" "1 \<le> d" "d \<le> month_lengths y ! i"
      "sum_list (take i (month_lengths y)) + (d - 1) = yday"
    using month_of_day_inverse [OF ms] yr by auto
  have "\<forall>l \<in> set (month_lengths y). l \<le> 31" by (simp add: month_lengths_def)
  then have "d \<le> 31" using i(1,4) by (metis nth_mem order_trans)
  with i yr show ?thesis by (simp add: days_of_date_def daysIn_def month_lengths_def)
qed

section \<open>Format\<close>

record go_Time =
  instant :: int
  zone_offset :: int

definition time_After :: "go_Time \<Rightarrow> go_Time \<Rightarrow> bool" where
  "time_After t u \<longleftrightarrow> instant t > instant u"

definition time_Add :: "go_Time \<Rightarrow> int \<Rightarrow> go_Time" where
  "time_Add t d = t\<lparr>instant := instant t + d\<rparr>"

text \<open>The zero value of \<^verbatim>\<open>time.Time\<close>, and a time of the clock in UTC.\<close>

definition time_Zero :: go_Time where
  "time_Zero = \<lparr>instant = 0, zone_offset = 0\<rparr>"

definition time_UTC :: "gotime \<Rightarrow> go_Time" where
  "time_UTC now = \<lparr>instant = int now, zone_offset = 0\<rparr>"

definition appendInt :: "int \<Rightarrow> nat \<Rightarrow> string" where
  "appendInt x w =
     (let ds = show_nat (nat \<bar>x\<bar>)
      in (if x < 0 then ''-'' else []) @ replicate (w - length ds) CHR ''0'' @ ds)"

definition appendNano :: "int \<Rightarrow> string" where
  "appendNano ns =
     (if ns = 0 then []
      else CHR ''.'' # rev (dropWhile (\<lambda>c. c = CHR ''0'') (rev (appendInt ns 9))))"

definition format_zone :: "int \<Rightarrow> string" where
  "format_zone off =
     (if off = 0 then ''Z''
      else let z = \<bar>off\<bar> div 60
           in (if off < 0 then CHR ''-'' else CHR ''+'') # appendInt (z div 60) 2 @ CHR '':'' # appendInt (z mod 60) 2)"

definition time_Format :: "go_Time \<Rightarrow> string" where
  "time_Format t =
     (let abs = instant t div 1000000000 + zone_offset t;
          secs = abs mod 86400
      in case date_of_days (abs div 86400) of (y, m, d) \<Rightarrow>
           appendInt y 4 @ CHR ''-'' # appendInt (int m) 2 @ CHR ''-'' # appendInt d 2 @ CHR ''T'' #
           appendInt (secs div 3600) 2 @ CHR '':'' # appendInt (secs mod 3600 div 60) 2 @ CHR '':'' #
           appendInt (secs mod 60) 2 @ appendNano (instant t mod 1000000000) @ format_zone (zone_offset t))"

section \<open>Parse\<close>

definition is_digit :: "char \<Rightarrow> bool" where
  "is_digit c \<longleftrightarrow> 48 \<le> (of_char c :: nat) \<and> (of_char c :: nat) \<le> 57"

fun skip_char :: "char \<Rightarrow> string \<Rightarrow> string option" where
  "skip_char c [] = None"
| "skip_char c (x # s) = (if x = c then Some s else None)"

text \<open>\<^verbatim>\<open>getnum\<close>: one digit is enough unless the field is fixed.\<close>

fun getnum :: "bool \<Rightarrow> string \<Rightarrow> (nat \<times> string) option" where
  "getnum fixed [] = None"
| "getnum fixed (a # s) =
     (if \<not> is_digit a then None
      else case s of
        b # s' \<Rightarrow> if is_digit b then Some (10 * digit_val a + digit_val b, s')
                  else if fixed then None else Some (digit_val a, s)
      | [] \<Rightarrow> if fixed then None else Some (digit_val a, s))"

fun get_year :: "string \<Rightarrow> (nat \<times> string) option" where
  "get_year (a # b # c # d # s) =
     (if is_digit a \<and> is_digit b \<and> is_digit c \<and> is_digit d then Some (read_digits 0 [a, b, c, d], s) else None)"
| "get_year s = None"

definition parseNanoseconds :: "string \<Rightarrow> nat" where
  "parseNanoseconds ds = (let ds = take 9 ds in read_digits 0 ds * 10 ^ (9 - length ds))"

text \<open>The fraction is optional, and starts with a period or a comma that a digit follows.\<close>

definition get_fraction :: "string \<Rightarrow> nat \<times> string" where
  "get_fraction s =
     (case s of
        p # d # s' \<Rightarrow> if (p = CHR ''.'' \<or> p = CHR '','') \<and> is_digit d
                      then (parseNanoseconds (takeWhile is_digit (d # s')), dropWhile is_digit (d # s'))
                      else (0, s)
      | _ \<Rightarrow> (0, s))"

fun get_zone :: "string \<Rightarrow> (int \<times> string) option" where
  "get_zone [] = None"
| "get_zone (c # s) =
     (if c = CHR ''Z'' then Some (0, s)
      else case s of
        [] \<Rightarrow> None
      | _ \<Rightarrow>
          (case getnum True s of
             None \<Rightarrow> None
           | Some (hr, s) \<Rightarrow>
               (case skip_char CHR '':'' s of
                  None \<Rightarrow> None
                | Some s \<Rightarrow>
                    (case getnum True s of
                       None \<Rightarrow> None
                     | Some (mm, s) \<Rightarrow>
                         if hr > 24 \<or> mm > 60 then None
                         else if c = CHR ''+'' then Some (int ((hr * 60 + mm) * 60), s)
                         else if c = CHR ''-'' then Some (- int ((hr * 60 + mm) * 60), s)
                         else None))))"

definition parse_date :: "string \<Rightarrow> ((int \<times> nat \<times> int) \<times> string) option" where
  "parse_date s =
     do {
       (y, s) \<leftarrow> get_year s; s \<leftarrow> skip_char CHR ''-'' s;
       (m, s) \<leftarrow> getnum True s; s \<leftarrow> skip_char CHR ''-'' s;
       (d, s) \<leftarrow> getnum True s;
       if m = 0 \<or> m > 12 then None else Some ((int y, m, int d), s)
     }"

definition parse_clock :: "string \<Rightarrow> (int \<times> string) option" where
  "parse_clock s =
     do {
       (h, s) \<leftarrow> getnum False s; s \<leftarrow> skip_char CHR '':'' s;
       (mi, s) \<leftarrow> getnum True s; s \<leftarrow> skip_char CHR '':'' s;
       (sec, s) \<leftarrow> getnum True s;
       if h \<ge> 24 \<or> mi \<ge> 60 \<or> sec \<ge> 60 then None else Some (int ((h * 60 + mi) * 60 + sec), s)
     }"

definition time_Parse :: "string \<Rightarrow> go_Time option" where
  "time_Parse s =
     do {
       ((y, m, d), s) \<leftarrow> parse_date s;
       s \<leftarrow> skip_char CHR ''T'' s;
       (secs, s) \<leftarrow> parse_clock s;
       (off, rest) \<leftarrow> get_zone (snd (get_fraction s));
       if rest \<noteq> [] \<or> d < 1 \<or> d > daysIn y m then None
       else Some \<lparr>instant = (days_of_date y m d * 86400 + secs - off) * 1000000000 + int (fst (get_fraction s)),
                  zone_offset = off\<rparr>
     }"

section \<open>The round trip\<close>

fun digs :: "nat \<Rightarrow> nat \<Rightarrow> string" where
  "digs 0 n = []"
| "digs (Suc w) n = digs w (n div 10) @ [digit_char (n mod 10)]"

lemma digit_char_0: "digit_char 0 = CHR ''0''"
  by code_simp

lemma digs_0: "digs w 0 = replicate w CHR ''0''"
  by (induction w) (simp_all add: digit_char_0 replicate_append_same)

lemma length_digs [simp]: "length (digs w n) = w"
  by (induction w arbitrary: n) auto

lemma read_digs: "n < 10 ^ w \<Longrightarrow> read_digits 0 (digs w n) = n"
  by (induction w arbitrary: n) (auto simp: read_digits_append digit_val_char)

lemma is_digit_char: "d < 10 \<Longrightarrow> is_digit (digit_char d)"
  by (simp add: is_digit_def digit_char_def)

lemma digs_digits: "c \<in> set (digs w n) \<Longrightarrow> is_digit c"
  by (induction w arbitrary: n) (auto simp: is_digit_char)

lemma pad_digs: "n < 10 ^ Suc w \<Longrightarrow>
    length (show_nat n) \<le> Suc w \<and>
    replicate (Suc w - length (show_nat n)) CHR ''0'' @ show_nat n = digs (Suc w) n"
proof (induction w arbitrary: n)
  case 0
  then show ?case by (simp add: show_nat.simps [of n])
next
  case (Suc w)
  show ?case
  proof (cases "n < 10")
    case True
    then show ?thesis
      by (simp add: show_nat.simps [of n] digs_0)
  next
    case False
    from Suc.prems have "n div 10 < 10 ^ Suc w" by simp
    note ih = Suc.IH [OF this]
    then have "replicate (Suc w - length (show_nat (n div 10))) CHR ''0'' @ show_nat (n div 10) @ [digit_char (n mod 10)] =
        digs (Suc w) (n div 10) @ [digit_char (n mod 10)]"
      by (metis append_assoc)
    with False ih show ?thesis by (simp add: show_nat.simps [of n])
  qed
qed

lemma appendInt_digs: "0 \<le> x \<Longrightarrow> x < 10 ^ w \<Longrightarrow> 0 < w \<Longrightarrow> appendInt x w = digs w (nat x)"
proof (cases w)
  case (Suc v)
  assume "0 \<le> x" "x < 10 ^ w"
  then have "nat x < 10 ^ Suc v" by (simp add: Suc nat_less_iff)
  from pad_digs [OF this] \<open>0 \<le> x\<close> show ?thesis by (simp add: appendInt_def Suc Let_def del: digs.simps)
qed simp

lemma getnum_appendInt: "0 \<le> x \<Longrightarrow> x < 100 \<Longrightarrow> getnum fixed (appendInt x 2 @ s) = Some (nat x, s)"
  by (simp add: appendInt_digs numeral_2_eq_2 is_digit_char digit_val_char nat_less_iff div_less_iff_less_mult)

lemma get_year_appendInt: "0 \<le> x \<Longrightarrow> x < 10000 \<Longrightarrow> get_year (appendInt x 4 @ s) = Some (nat x, s)"
proof -
  assume x: "0 \<le> x" "x < 10000"
  have a: "appendInt x 4 = digs 4 (nat x)" using x by (simp add: appendInt_digs)
  have l: "length (digs 4 (nat x)) = 4" by simp
  then obtain p q r t where d: "digs 4 (nat x) = [p, q, r, t]"
    by (auto simp: length_Suc_conv numeral_eq_Suc simp del: length_digs digs.simps)
  have "\<forall>c \<in> set [p, q, r, t]. is_digit c" using digs_digits [of _ 4 "nat x"] d by metis
  moreover have "read_digits 0 [p, q, r, t] = nat x" using read_digs [of "nat x" 4] d x by simp
  ultimately show ?thesis by (simp add: a d del: read_digits.simps digs.simps)
qed

lemma strip_zeros:
  "\<exists>k. s = rev (dropWhile (\<lambda>c. c = CHR ''0'') (rev s)) @ replicate k CHR ''0''"
proof -
  have "rev s = takeWhile (\<lambda>c. c = CHR ''0'') (rev s) @ dropWhile (\<lambda>c. c = CHR ''0'') (rev s)" by simp
  then have "s = rev (dropWhile (\<lambda>c. c = CHR ''0'') (rev s)) @ rev (takeWhile (\<lambda>c. c = CHR ''0'') (rev s))"
    by (metis rev_append rev_rev_ident)
  moreover obtain k where "takeWhile (\<lambda>c. c = CHR ''0'') (rev s) = replicate k CHR ''0''"
    using replicate_eqI [of "takeWhile (\<lambda>c. c = CHR ''0'') (rev s)" _ "CHR ''0''"] by (auto dest: set_takeWhileD)
  ultimately show ?thesis by (metis rev_replicate)
qed

lemma read_zeros: "read_digits n (replicate k CHR ''0'') = n * 10 ^ k"
  by (induction k arbitrary: n) (simp_all add: digit_val_def)

lemma parseNanoseconds_stripped:
  assumes "digs 9 n = ds @ replicate k CHR ''0''" and "n < 10 ^ 9"
  shows "parseNanoseconds ds = n"
proof -
  have len: "length ds + k = 9" using arg_cong [OF assms(1), of length] by simp
  have "n = read_digits 0 ds * 10 ^ k"
    using read_digs [OF assms(2)] assms(1) by (simp add: read_digits_append read_zeros del: digs.simps)
  moreover from len have "9 - length ds = k" and "take 9 ds = ds" by simp_all
  ultimately show ?thesis by (simp add: parseNanoseconds_def Let_def)
qed

lemma get_fraction_appendNano:
  assumes ns: "0 \<le> ns" "ns < 1000000000" and z: "z \<noteq> []" "hd z \<in> {CHR ''Z'', CHR ''+'', CHR ''-''}"
  shows "get_fraction (appendNano ns @ z) = (nat ns, z)"
proof (cases "ns = 0")
  case True
  with z show ?thesis by (cases z) (auto simp: appendNano_def get_fraction_def split: list.splits)
next
  case False
  define ds where "ds = rev (dropWhile (\<lambda>c. c = CHR ''0'') (rev (digs 9 (nat ns))))"
  have a: "appendNano ns = CHR ''.'' # ds"
    using ns False by (simp add: appendNano_def appendInt_digs ds_def)
  obtain k where k: "digs 9 (nat ns) = ds @ replicate k CHR ''0''" unfolding ds_def using strip_zeros by blast
  have n9: "nat ns < 10 ^ 9" using ns by (simp add: nat_less_iff)
  have val: "parseNanoseconds ds = nat ns" by (rule parseNanoseconds_stripped [OF k n9])
  have "set ds \<subseteq> set (digs 9 (nat ns))" unfolding k by simp
  then have dig: "\<forall>c \<in> set ds. is_digit c" using digs_digits by blast
  have "parseNanoseconds [] = 0" by (simp add: parseNanoseconds_def)
  then have "ds \<noteq> []" using val False ns(1) by auto
  then obtain d ds' where ds: "ds = d # ds'" by (cases ds) auto
  obtain c z' where zc: "z = c # z'" "\<not> is_digit c" using z by (cases z) (auto simp: is_digit_def)
  have run: "takeWhile is_digit (ds @ z) = ds" "dropWhile is_digit (ds @ z) = z"
    using dig zc by (simp_all add: takeWhile_append2 dropWhile_append2)
  show ?thesis
    using run val dig unfolding a ds by (simp add: get_fraction_def)
qed

lemma get_zone_format:
  assumes "off mod 60 = 0" and "\<bar>off\<bar> < 86400"
  shows "get_zone (format_zone off) = Some (off, [])"
proof (cases "off = 0")
  case True
  then show ?thesis by (simp add: format_zone_def)
next
  case False
  define h where "h = \<bar>off\<bar> div 60 div 60"
  define m where "m = \<bar>off\<bar> div 60 mod 60"
  have h: "0 \<le> h" "h < 24" and m: "0 \<le> m" "m < 60"
    using assms(2) by (simp_all add: h_def m_def div_less_iff_less_mult pos_imp_zdiv_nonneg_iff)
  have "60 dvd \<bar>off\<bar>" using assms(1) by (simp add: mod_eq_0_iff_dvd)
  then have sum: "(h * 60 + m) * 60 = \<bar>off\<bar>" by (simp add: h_def m_def)
  obtain c s where cs: "appendInt h 2 = c # s"
    using h by (cases "appendInt h 2") (auto simp: appendInt_digs numeral_2_eq_2)
  have g: "getnum True (c # s @ CHR '':'' # appendInt m 2) = Some (nat h, CHR '':'' # appendInt m 2)"
    using getnum_appendInt [of h True "CHR '':'' # appendInt m 2"] h cs by simp
  have g': "getnum True (appendInt m 2) = Some (nat m, [])"
    using getnum_appendInt [of m True "[]"] m by simp
  have n: "int ((nat h * 60 + nat m) * 60) = \<bar>off\<bar>" using sum h m by simp
  show ?thesis
    using False g g' n h m
    by (auto simp: format_zone_def Let_def cs h_def [symmetric] m_def [symmetric] simp del: getnum.simps)
qed

text \<open>The years the layout has room for, and the offsets of whole minutes below a day.\<close>

definition printable :: "go_Time \<Rightarrow> bool" where
  "printable t \<longleftrightarrow>
     (let y = fst (date_of_days ((instant t div 1000000000 + zone_offset t) div 86400)) in 0 \<le> y \<and> y \<le> 9999) \<and>
     zone_offset t mod 60 = 0 \<and> \<bar>zone_offset t\<bar> < 86400"

lemma parse_clock_fields:
  assumes "0 \<le> h" "h < 24" "0 \<le> m" "m < 60" "0 \<le> s" "s < 60"
  shows "parse_clock (appendInt h 2 @ CHR '':'' # appendInt m 2 @ CHR '':'' # appendInt s 2 @ r) =
    Some ((h * 60 + m) * 60 + s, r)"
  using assms by (simp add: parse_clock_def getnum_appendInt not_le nat_less_iff)

lemma parse_clock_format:
  assumes "0 \<le> secs" and "secs < 86400"
  shows "parse_clock (appendInt (secs div 3600) 2 @ CHR '':'' # appendInt (secs mod 3600 div 60) 2 @ CHR '':'' #
    appendInt (secs mod 60) 2 @ r) = Some (secs, r)"
proof -
  have b: "0 \<le> secs div 3600" "secs div 3600 < 24" "0 \<le> secs mod 3600 div 60" "secs mod 3600 div 60 < 60"
    "0 \<le> secs mod 60" "secs mod 60 < 60"
    using assms by (simp_all add: div_less_iff_less_mult pos_imp_zdiv_nonneg_iff)
  have "secs mod 3600 mod 60 = secs mod 60" by (rule mod_mod_cancel) simp
  then have "secs mod 3600 div 60 * 60 + secs mod 60 = secs mod 3600"
    using div_mult_mod_eq [of "secs mod 3600" 60] by simp
  moreover have "(h * 60 + m) * 60 + s = h * 3600 + (m * 60 + s)" for h m s :: int by simp
  ultimately show ?thesis by (simp only: parse_clock_fields [OF b] div_mult_mod_eq)
qed

lemma time_Parse_Format:
  assumes "printable t"
  shows "time_Parse (time_Format t) = Some t"
proof -
  define abs where "abs = instant t div 1000000000 + zone_offset t"
  define secs where "secs = abs mod 86400"
  obtain y m d where date: "date_of_days (abs div 86400) = (y, m, d)" by (metis prod.exhaust)
  note dt = date_of_days_inverse [OF date]
  have y: "0 \<le> y" "y < 10000" and off: "zone_offset t mod 60 = 0" "\<bar>zone_offset t\<bar> < 86400"
    using assms date by (auto simp: printable_def abs_def Let_def)
  have secs: "0 \<le> secs" "secs < 86400" and split: "abs div 86400 * 86400 + secs = abs" by (simp_all add: secs_def)
  define ns where "ns = instant t mod 1000000000"
  have ns: "0 \<le> ns" "ns < 1000000000" by (simp_all add: ns_def)
  let ?z = "format_zone (zone_offset t)"
  have z: "?z \<noteq> []" "hd ?z \<in> {CHR ''Z'', CHR ''+'', CHR ''-''}" by (auto simp: format_zone_def Let_def)
  have "time_Format t = appendInt y 4 @ CHR ''-'' # appendInt (int m) 2 @ CHR ''-'' # appendInt d 2 @ CHR ''T'' #
      appendInt (secs div 3600) 2 @ CHR '':'' # appendInt (secs mod 3600 div 60) 2 @ CHR '':'' #
      appendInt (secs mod 60) 2 @ appendNano ns @ ?z"
    by (simp add: time_Format_def Let_def date secs_def abs_def [symmetric] ns_def)
  moreover have "parse_date (appendInt y 4 @ CHR ''-'' # appendInt (int m) 2 @ CHR ''-'' # appendInt d 2 @ r) =
      Some ((y, m, d), r)" for r
    using y dt by (simp add: parse_date_def get_year_appendInt getnum_appendInt)
  moreover have "(abs - zone_offset t) * 1000000000 + ns = instant t" by (simp add: abs_def ns_def)
  ultimately show ?thesis
    using dt split parse_clock_format [OF secs] get_fraction_appendNano [OF ns z] get_zone_format [OF off] ns
    by (simp add: time_Parse_def)
qed

text \<open>Times of the clock are printable up to the end of the year 9999.\<close>

lemma year_bounds:
  assumes "days_before_year y \<le> n" and "n < days_before_year y + 366" and "0 \<le> n" and "n < 3652059"
  shows "0 < y \<and> y < 10000"
proof -
  define a where "a = (y - 1) div 400"
  define b where "b = (y - 1) mod 400 div 100"
  define c where "c = (y - 1) mod 100 div 4"
  define e where "e = (y - 1) mod 4"
  have r: "0 \<le> b" "b \<le> 3" "0 \<le> c" "c \<le> 24" "0 \<le> e" "e \<le> 3"
    using zdiv_mono1 [of "(y - 1) mod 400" 399 100] zdiv_mono1 [of "(y - 1) mod 100" 99 4]
      pos_mod_bound [of 400 "y - 1"] pos_mod_bound [of 100 "y - 1"] pos_mod_bound [of 4 "y - 1"]
    by (simp_all add: b_def c_def e_def pos_imp_zdiv_nonneg_iff)
  define r4 where "r4 = (y - 1) mod 400"
  define r1 where "r1 = (y - 1) mod 100"
  have "r4 mod 100 = r1" "r1 mod 4 = e"
    by (simp_all add: r4_def r1_def e_def mod_mod_cancel)
  then have "100 * b + r1 = r4" "4 * c + e = r1"
    using mult_div_mod_eq [of 100 r4] mult_div_mod_eq [of 4 r1] by (simp_all add: r4_def r1_def b_def c_def)
  moreover have "400 * a + r4 = y - 1" by (simp add: a_def r4_def)
  ultimately have y: "y = 400 * a + 100 * b + 4 * c + e + 1" by simp
  have "days_before_year y = 146097 * a + 36524 * b + 1461 * c + 365 * e"
    unfolding y by (rule cycles_year [OF r])
  with assms r have "0 \<le> a" and "a < 25" by linarith+
  moreover have "y \<noteq> 10000" using assms(1,4) by (auto simp: days_before_year_def)
  ultimately show ?thesis using r y by auto
qed

lemma printable_UTC:
  assumes "now < 315537897600000000000"
  shows "printable (time_UTC now)"
proof -
  define n where "n = int now div 1000000000 div 86400"
  have n: "0 \<le> n" "n < 3652059"
    using assms by (simp_all add: n_def div_less_iff_less_mult pos_imp_zdiv_nonneg_iff)
  obtain y yday where ys: "year_of_days n = (y, yday)" by fastforce
  have "0 < y \<and> y < 10000"
    using year_of_days_inverse [OF ys] n by (intro year_bounds) (auto split: if_splits)
  moreover have "fst (date_of_days n) = y" by (simp add: date_of_days_def ys)
  ultimately show ?thesis by (simp add: printable_def time_UTC_def n_def [symmetric])
qed

end
