(* ===== verification/Kube_Objects.thy ===== *)
theory Kube_Objects
  imports VMOp_Prelude
begin

text \<open>
  The parts of the Kubernetes object model the controllers share: owner references, label and annotation maps, the
  errors of the API server, and the label tests of \<^verbatim>\<open>pkg/util/kube/label.go\<close>.
\<close>

record OwnerReference =
  ref_Kind :: string
  ref_Name :: string
  ref_UID :: string

text \<open>Reading a key of a Go map of strings that has no entry gives the empty string.\<close>

definition map_value :: "labels option \<Rightarrow> string \<Rightarrow> string" where
  "map_value m k = (case labels_of m k of Some v \<Rightarrow> v | None \<Rightarrow> [])"

lemma map_value_update [simp]:
  "map_value (Some ((labels_of m)(k \<mapsto> v))) k' = (if k' = k then v else map_value m k')"
  by (simp add: map_value_def labels_of_def)

text \<open>\<^verbatim>\<open>metav1.SetMetaDataLabel\<close> of the Kubernetes library: the map is allocated when it is nil.\<close>

definition SetMetaDataLabel :: "string \<Rightarrow> string \<Rightarrow> labels option \<Rightarrow> labels option" where
  "SetMetaDataLabel k v ls = Some ((labels_of ls)(k \<mapsto> v))"

section \<open>Errors of the API server\<close>

datatype api_error = NotFound goerror | OtherError goerror

fun api_error_text :: "api_error \<Rightarrow> goerror" where
  "api_error_text (NotFound e) = e"
| "api_error_text (OtherError e) = e"

fun IsNotFound :: "api_error \<Rightarrow> bool" where
  "IsNotFound (NotFound e) = True"
| "IsNotFound (OtherError e) = False"

section \<open>Label tests\<close>

definition LabelTopologyZone :: string where "LabelTopologyZone = ''topology.kubernetes.io/zone''"

definition CAPWClusterRoleLabelKey :: string where "CAPWClusterRoleLabelKey = ''capw.vmware.com/cluster.role''"

definition CAPVClusterRoleLabelKey :: string where "CAPVClusterRoleLabelKey = ''capv.vmware.com/cluster.role''"

definition HasCAPILabels :: "labels option \<Rightarrow> bool" where
  "HasCAPILabels ls \<longleftrightarrow> labels_of ls CAPWClusterRoleLabelKey \<noteq> None \<or> labels_of ls CAPVClusterRoleLabelKey \<noteq> None"

definition HasZoneLabel :: "labels option \<Rightarrow> bool" where
  "HasZoneLabel ls \<longleftrightarrow> (case labels_of ls LabelTopologyZone of None \<Rightarrow> False | Some v \<Rightarrow> v \<noteq> [])"

end
