(* ===== verification/VM_Group.thy ===== *)
theory VM_Group
  imports Condition_Merge VM_Types Go_Time Kube_Objects
begin

text \<open>
  Groups of VMs: the API types of \<^verbatim>\<open>api/v1alpha6/virtualmachinegroup_types.go\<close> and the functions of
  \<^verbatim>\<open>pkg/util/vmopv1/vmgroup.go\<close> on the link between a member and its group. A member is a VM or a group, the
  interface \<^verbatim>\<open>VirtualMachineOrGroup\<close>. Objects of one namespace are read by name through the record
  \<open>group_client\<close>, whose fields are the answers of the API server. Annotations, labels and owner references
  are those of the object metadata; fields that no modelled code uses are left out.
\<close>

section \<open>Objects\<close>

definition vmKind :: string where "vmKind = ''VirtualMachine''"

definition vmgKind :: string where "vmgKind = ''VirtualMachineGroup''"

lemma vmKind_neq [simp]: "vmgKind \<noteq> vmKind" "vmKind \<noteq> vmgKind"
  by (simp_all add: vmKind_def vmgKind_def)

definition VirtualMachineGroupMemberConditionGroupLinked :: string where
  "VirtualMachineGroupMemberConditionGroupLinked = ''GroupLinked''"

definition VirtualMachineGroupMemberConditionPowerStateSynced :: string where
  "VirtualMachineGroupMemberConditionPowerStateSynced = ''PowerStateSynced''"

definition VirtualMachineGroupMemberConditionPlacementReady :: string where
  "VirtualMachineGroupMemberConditionPlacementReady = ''PlacementReady''"

definition VirtualMachineConditionPlacementReady :: string where
  "VirtualMachineConditionPlacementReady = ''VirtualMachineConditionPlacementReady''"

definition LastUpdatedPowerStateTimeAnnotation :: string where
  "LastUpdatedPowerStateTimeAnnotation = ''vmoperator.vmware.com.protected/last-updated-power-state-time''"

definition ApplyPowerStateTimeAnnotation :: string where
  "ApplyPowerStateTimeAnnotation = ''vmoperator.vmware.com.protected/apply-power-state-time''"

lemmas group_conditions =
  VirtualMachineGroupMemberConditionGroupLinked_def VirtualMachineGroupMemberConditionPowerStateSynced_def
  VirtualMachineGroupMemberConditionPlacementReady_def ReadyConditionType_def

record GroupMember =
  gm_Name :: string
  gm_Kind :: string

text \<open>A delay is a \<^verbatim>\<open>metav1.Duration\<close>, in nanoseconds.\<close>

record VirtualMachineGroupBootOrderGroup =
  bo_Members :: "GroupMember list"
  bo_PowerOnDelay :: "int option"
  bo_PowerOffDelay :: "int option"

record VirtualMachineGroupMemberStatus =
  ms_Name :: string
  ms_Kind :: string
  ms_UID :: string
  ms_PowerState :: "string option"
  ms_Conditions :: conditions

record VirtualMachineGroup =
  vmg_Name :: string
  vmg_UID :: string
  vmg_Annotations :: "labels option"
  vmg_OwnerReferences :: "OwnerReference list"
  vmg_Finalizers :: "string list"
  vmg_DeletionTimestamp :: gotime
  vmg_GroupName :: string
  vmg_BootOrder :: "VirtualMachineGroupBootOrderGroup list"
  vmg_PowerState :: string
  vmg_NextForcePowerStateSyncTime :: string
  vmg_PowerOffMode :: string
  vmg_SuspendMode :: string
  vmg_Members :: "VirtualMachineGroupMemberStatus list"
  vmg_LastUpdatedPowerStateTime :: "gotime option"
  vmg_Conditions :: conditions

text \<open>What the group code reads and writes of a \<^verbatim>\<open>VirtualMachine\<close>.\<close>

record group_VM =
  gvm_Name :: string
  gvm_UID :: string
  gvm_Labels :: "labels option"
  gvm_Annotations :: "labels option"
  gvm_OwnerReferences :: "OwnerReference list"
  gvm_GroupName :: string
  gvm_PowerState :: string
  gvm_PowerOffMode :: string
  gvm_SuspendMode :: string
  gvm_StatusPowerState :: string
  gvm_UniqueID :: string
  gvm_Zone :: string
  gvm_Conditions :: conditions

datatype VirtualMachineOrGroup = MemberVM group_VM | MemberGroup VirtualMachineGroup

fun OrGroup_GetName :: "VirtualMachineOrGroup \<Rightarrow> string" where
  "OrGroup_GetName (MemberVM vm) = gvm_Name vm"
| "OrGroup_GetName (MemberGroup g) = vmg_Name g"

fun GetMemberKind :: "VirtualMachineOrGroup \<Rightarrow> string" where
  "GetMemberKind (MemberVM vm) = ''VirtualMachine''"
| "GetMemberKind (MemberGroup g) = ''VirtualMachineGroup''"

fun GetGroupName :: "VirtualMachineOrGroup \<Rightarrow> string" where
  "GetGroupName (MemberVM vm) = gvm_GroupName vm"
| "GetGroupName (MemberGroup g) = vmg_GroupName g"

fun SetGroupName :: "VirtualMachineOrGroup \<Rightarrow> string \<Rightarrow> VirtualMachineOrGroup" where
  "SetGroupName (MemberVM vm) v = MemberVM (vm\<lparr>gvm_GroupName := v\<rparr>)"
| "SetGroupName (MemberGroup g) v = MemberGroup (g\<lparr>vmg_GroupName := v\<rparr>)"

text \<open>A group has no power state in its status.\<close>

fun OrGroup_GetPowerState :: "VirtualMachineOrGroup \<Rightarrow> string" where
  "OrGroup_GetPowerState (MemberVM vm) = gvm_StatusPowerState vm"
| "OrGroup_GetPowerState (MemberGroup g) = []"

fun OrGroup_SetPowerState :: "VirtualMachineOrGroup \<Rightarrow> string \<Rightarrow> VirtualMachineOrGroup" where
  "OrGroup_SetPowerState (MemberVM vm) v = MemberVM (vm\<lparr>gvm_PowerState := v\<rparr>)"
| "OrGroup_SetPowerState (MemberGroup g) v = MemberGroup (g\<lparr>vmg_PowerState := v\<rparr>)"

fun OrGroup_GetConditions :: "VirtualMachineOrGroup \<Rightarrow> conditions" where
  "OrGroup_GetConditions (MemberVM vm) = gvm_Conditions vm"
| "OrGroup_GetConditions (MemberGroup g) = vmg_Conditions g"

fun OrGroup_SetConditions :: "VirtualMachineOrGroup \<Rightarrow> conditions \<Rightarrow> VirtualMachineOrGroup" where
  "OrGroup_SetConditions (MemberVM vm) cs = MemberVM (vm\<lparr>gvm_Conditions := cs\<rparr>)"
| "OrGroup_SetConditions (MemberGroup g) cs = MemberGroup (g\<lparr>vmg_Conditions := cs\<rparr>)"

fun GetOwnerReferences :: "VirtualMachineOrGroup \<Rightarrow> OwnerReference list" where
  "GetOwnerReferences (MemberVM vm) = gvm_OwnerReferences vm"
| "GetOwnerReferences (MemberGroup g) = vmg_OwnerReferences g"

fun SetOwnerReferences :: "VirtualMachineOrGroup \<Rightarrow> OwnerReference list \<Rightarrow> VirtualMachineOrGroup" where
  "SetOwnerReferences (MemberVM vm) refs = MemberVM (vm\<lparr>gvm_OwnerReferences := refs\<rparr>)"
| "SetOwnerReferences (MemberGroup g) refs = MemberGroup (g\<lparr>vmg_OwnerReferences := refs\<rparr>)"

section \<open>The API server\<close>

record group_client =
  cl_GetVM :: "string \<Rightarrow> api_error + group_VM"
  cl_GetGroup :: "string \<Rightarrow> api_error + VirtualMachineGroup"

text \<open>The server returns an object under the name it was asked for.\<close>

definition client_names :: "group_client \<Rightarrow> bool" where
  "client_names cl \<longleftrightarrow>
     (\<forall>n vm. cl_GetVM cl n = Inr vm \<longrightarrow> gvm_Name vm = n) \<and>
     (\<forall>n g. cl_GetGroup cl n = Inr g \<longrightarrow> vmg_Name g = n)"

section \<open>Reconcile requests\<close>

text \<open>A reconcile request is the name of an object in the namespace of the event.\<close>

definition member_request ::
    "group_client \<Rightarrow> string \<Rightarrow> VirtualMachineGroup \<Rightarrow> VirtualMachineGroupMemberStatus \<Rightarrow> string option" where
  "member_request cl memberKind vmGroup groupMember =
     (if ms_Kind groupMember \<noteq> memberKind then None
      else if \<not> Conditions_IsTrue (ms_Conditions groupMember) VirtualMachineGroupMemberConditionGroupLinked then None
      else if memberKind = vmKind then
        (case cl_GetVM cl (ms_Name groupMember) of
           Inl err \<Rightarrow> None
         | Inr vm \<Rightarrow>
             if gvm_GroupName vm \<noteq> vmg_Name vmGroup then None
             else if \<not> Conditions_IsTrue (gvm_Conditions vm) VirtualMachineGroupMemberConditionGroupLinked \<or>
                     \<not> Conditions_IsTrue (gvm_Conditions vm) VirtualMachineConditionPlacementReady
             then Some (ms_Name groupMember) else None)
      else if memberKind = vmgKind then
        (case cl_GetGroup cl (ms_Name groupMember) of
           Inl err \<Rightarrow> None
         | Inr vmg \<Rightarrow>
             if vmg_GroupName vmg \<noteq> vmg_Name vmGroup then None
             else if \<not> Conditions_IsTrue (vmg_Conditions vmg) VirtualMachineGroupMemberConditionGroupLinked
             then Some (ms_Name groupMember) else None)
      else None)"

definition GroupToMembersMapperFn :: "group_client \<Rightarrow> string \<Rightarrow> VirtualMachineGroup \<Rightarrow> string list" where
  "GroupToMembersMapperFn cl memberKind vmGroup = List.map_filter (member_request cl memberKind vmGroup) (vmg_Members vmGroup)"

definition MemberToGroupMapperFn :: "VirtualMachineOrGroup \<Rightarrow> string list" where
  "MemberToGroupMapperFn memberObj =
     (if GetGroupName memberObj \<noteq> [] \<and>
         Conditions_IsTrue (OrGroup_GetConditions memberObj) VirtualMachineGroupMemberConditionGroupLinked
      then [GetGroupName memberObj] else [])"

record PolicyEvaluation =
  pe_Generation :: int
  pe_ObservedGeneration :: int
  pe_Conditions :: conditions
  pe_OwnerReferences :: "OwnerReference list"

text \<open>\<open>controllerOf\<close> is \<^verbatim>\<open>metav1.GetControllerOfNoCopy\<close> of the Kubernetes library.\<close>

definition PolicyEvalToVMToVMGroupMapperFunc ::
    "(OwnerReference list \<Rightarrow> OwnerReference option) \<Rightarrow> group_client \<Rightarrow> PolicyEvaluation \<Rightarrow> string list" where
  "PolicyEvalToVMToVMGroupMapperFunc controllerOf cl policyEval =
     (if pe_Generation policyEval \<noteq> pe_ObservedGeneration policyEval then []
      else if \<not> Conditions_IsTrue (pe_Conditions policyEval) ''Ready'' then []
      else case controllerOf (pe_OwnerReferences policyEval) of
        None \<Rightarrow> []
      | Some ownerRef \<Rightarrow>
          if ref_Kind ownerRef \<noteq> ''VirtualMachine'' then []
          else case cl_GetVM cl (ref_Name ownerRef) of
            Inl err \<Rightarrow> []
          | Inr vm \<Rightarrow>
              if gvm_GroupName vm = [] then []
              else if Conditions_IsTrue (gvm_Conditions vm) VirtualMachineGroupMemberConditionGroupLinked \<and>
                      \<not> Conditions_IsTrue (gvm_Conditions vm) VirtualMachineConditionPlacementReady
              then [gvm_GroupName vm] else [])"

section \<open>The link of a member to its group\<close>

text \<open>The two nested loops over \<^verbatim>\<open>obj.Spec.BootOrder\<close>.\<close>

definition in_boot_order :: "VirtualMachineGroup \<Rightarrow> string \<Rightarrow> string \<Rightarrow> bool" where
  "in_boot_order obj kind name \<longleftrightarrow>
     list_ex (\<lambda>bo. list_ex (\<lambda>m. gm_Kind m = kind \<and> gm_Name m = name) (bo_Members bo)) (vmg_BootOrder obj)"

definition UpdateGroupLinkedCondition ::
    "gotime \<Rightarrow> group_client \<Rightarrow> VirtualMachineOrGroup \<Rightarrow> api_error option \<times> VirtualMachineOrGroup" where
  "UpdateGroupLinkedCondition now cl member =
     (let linked = VirtualMachineGroupMemberConditionGroupLinked;
          cs = OrGroup_GetConditions member
      in if GetGroupName member = [] then (None, OrGroup_SetConditions member (Conditions_Delete cs linked))
         else case cl_GetGroup cl (GetGroupName member) of
           Inl err \<Rightarrow>
             if \<not> IsNotFound err
             then (Some err, OrGroup_SetConditions member (Conditions_MarkError now cs linked ''Error'' (api_error_text err)))
             else (None, OrGroup_SetConditions member (Conditions_MarkFalse now cs linked ''NotFound'' []))
         | Inr obj \<Rightarrow>
             if in_boot_order obj (GetMemberKind member) (OrGroup_GetName member)
             then (None, OrGroup_SetConditions member (Conditions_MarkTrue now cs linked))
             else (None, OrGroup_SetConditions member (Conditions_MarkFalse now cs linked ''NotMember'' [])))"

definition RemoveStaleGroupOwnerRef ::
    "VirtualMachineOrGroup \<Rightarrow> VirtualMachineOrGroup \<Rightarrow> bool \<times> VirtualMachineOrGroup" where
  "RemoveStaleGroupOwnerRef newObj oldObj =
     (let oldGroupName = GetGroupName oldObj;
          newGroupName = GetGroupName newObj
      in if oldGroupName = [] \<or> oldGroupName = newGroupName then (False, newObj)
         else
           let stale = (\<lambda>ref. ref_Kind ref = vmgKind \<and> ref_Name ref = oldGroupName);
               filteredRefs = filter (\<lambda>ref. \<not> stale ref) (GetOwnerReferences newObj)
           in if list_ex stale (GetOwnerReferences newObj) then (True, SetOwnerReferences newObj filteredRefs)
              else (False, newObj))"

end
