(* ===== verification/Group_Members.thy ===== *)
theory Group_Members
  imports VM_Group
begin

text \<open>
  \<^verbatim>\<open>RetrieveVMGroupMembers\<close> of \<^verbatim>\<open>pkg/util/vmopv1/vmgroup.go\<close>: the VMs of a group and of the groups nested in
  it. The groups of the namespace are a list \<open>gs\<close> of named groups; \<open>fail\<close> is the error of the API server for a
  name that it does not return. The set of visited groups, which the recursive calls share through a pointer, is
  returned next to the VMs. The function terminates on every input, because each call either fails or visits a
  group of \<open>gs\<close> for the first time; it succeeds exactly on hierarchies that are trees.
\<close>

section \<open>The function\<close>

datatype retrieve_error = GroupLoop string | GetFailed goerror | DuplicateMember string
  | DuplicateMembers "string set" | UnknownKind string string

definition linked_member :: "VirtualMachineGroupMemberStatus \<Rightarrow> bool" where
  "linked_member m \<longleftrightarrow> Conditions_IsTrue (ms_Conditions m) VirtualMachineGroupMemberConditionGroupLinked"

function (sequential)
  RetrieveVMGroupMembers ::
    "(string \<Rightarrow> goerror) \<Rightarrow> (string \<times> VirtualMachineGroup) list \<Rightarrow> string \<Rightarrow> string set \<Rightarrow>
     retrieve_error + string set \<times> string set" and
  retrieve_loop ::
    "(string \<Rightarrow> goerror) \<Rightarrow> (string \<times> VirtualMachineGroup) list \<Rightarrow> string \<Rightarrow>
     VirtualMachineGroupMemberStatus list \<Rightarrow> string set \<Rightarrow> string set \<Rightarrow> retrieve_error + string set \<times> string set"
where
  "RetrieveVMGroupMembers fail gs name visited =
     (if name \<in> visited then Inl (GroupLoop name)
      else case map_of gs name of
        None \<Rightarrow> Inl (GetFailed (fail name))
      | Some g \<Rightarrow> retrieve_loop fail gs (vmg_Name g) (vmg_Members g) {} (insert name visited))"
| "retrieve_loop fail gs vmGroup [] vmSet visited = Inr (vmSet, visited)"
| "retrieve_loop fail gs vmGroup (m # ms) vmSet visited =
     (if \<not> linked_member m then retrieve_loop fail gs vmGroup ms vmSet visited
      else if ms_Kind m = vmKind then
        if ms_Name m \<in> vmSet then Inl (DuplicateMember (ms_Name m))
        else retrieve_loop fail gs vmGroup ms (insert (ms_Name m) vmSet) visited
      else if ms_Kind m = vmgKind then
        (case RetrieveVMGroupMembers fail gs (ms_Name m) visited of
           Inl err \<Rightarrow> Inl err
         | Inr (childVMSet, visited') \<Rightarrow>
             let dupVMs = childVMSet \<inter> vmSet
             in if dupVMs \<noteq> {} then Inl (DuplicateMembers dupVMs)
                else retrieve_loop fail gs vmGroup ms (vmSet \<union> childVMSet) visited')
      else Inl (UnknownKind vmGroup (ms_Kind m)))"
  by pat_completeness auto

lemma retrieve_visited_partial:
  "RetrieveVMGroupMembers_retrieve_loop_dom (Inl (fail, gs, name, visited)) \<Longrightarrow>
     RetrieveVMGroupMembers fail gs name visited = Inr (S, visited') \<Longrightarrow> visited \<subseteq> visited'"
  "RetrieveVMGroupMembers_retrieve_loop_dom (Inr (fail, gs, vmGroup, ms, vmSet, visited)) \<Longrightarrow>
     retrieve_loop fail gs vmGroup ms vmSet visited = Inr (S, visited') \<Longrightarrow> visited \<subseteq> visited'"
proof (induction arbitrary: S visited' and S visited' rule: RetrieveVMGroupMembers_retrieve_loop.pinduct)
  case (1 fail gs name visited)
  then show ?case
    by (auto simp: RetrieveVMGroupMembers.psimps split: if_splits option.splits)
next
  case (2 fail gs vmGroup vmSet visited)
  then show ?case by (simp add: retrieve_loop.psimps)
next
  case (3 fail gs vmGroup m ms vmSet visited)
  then show ?case
    by (fastforce simp: retrieve_loop.psimps Let_def split: if_splits sum.splits prod.splits)
qed

text \<open>The groups that are still to be visited, then the members that are still to be read.\<close>

definition unvisited :: "(string \<times> VirtualMachineGroup) list \<Rightarrow> string set \<Rightarrow> nat" where
  "unvisited gs visited = card (fst ` set gs - visited)"

lemma unvisited_mono: "visited \<subseteq> visited' \<Longrightarrow> unvisited gs visited' \<le> unvisited gs visited"
  unfolding unvisited_def by (intro card_mono) auto

lemma unvisited_insert:
  assumes "name \<notin> visited" and "map_of gs name = Some g"
  shows "unvisited gs (insert name visited) < unvisited gs visited"
  unfolding unvisited_def
proof (rule psubset_card_mono)
  have "name \<in> fst ` set gs" using assms(2) by (metis domI dom_map_of_conv_image_fst)
  with assms(1) show "fst ` set gs - insert name visited \<subset> fst ` set gs - visited" by auto
qed simp

termination RetrieveVMGroupMembers
proof (relation "measures
    [case_sum (\<lambda>(fail, gs, name, visited). unvisited gs visited)
              (\<lambda>(fail, gs, vmGroup, ms, vmSet, visited). unvisited gs visited),
     case_sum (\<lambda>x. 0) (\<lambda>(fail, gs, vmGroup, ms, vmSet, visited). Suc (length ms))]", goal_cases)
  case (6 fail gs vmGroup m ms vmSet visited x child visited')
  then have "visited \<subseteq> visited'" by (metis retrieve_visited_partial(1))
  then show ?case using unvisited_mono [of visited visited' gs] by auto
qed (auto simp: unvisited_insert)

lemmas retrieve_simps [simp del] = RetrieveVMGroupMembers.simps retrieve_loop.simps

section \<open>Hierarchies\<close>

text \<open>
  \<open>group_hierarchy gs n G V\<close>: the links below the group \<open>n\<close> unfold to a finite tree of existing groups, whose
  groups are \<open>G\<close> and whose VMs are \<open>V\<close>, in the order of a depth-first traversal and with repetitions.
\<close>

inductive
  group_hierarchy :: "(string \<times> VirtualMachineGroup) list \<Rightarrow> string \<Rightarrow> string list \<Rightarrow> string list \<Rightarrow> bool" and
  member_forest ::
    "(string \<times> VirtualMachineGroup) list \<Rightarrow> VirtualMachineGroupMemberStatus list \<Rightarrow> string list \<Rightarrow> string list \<Rightarrow> bool"
  for gs
where
  hierarchy_node: "map_of gs n = Some g \<Longrightarrow> member_forest gs (filter linked_member (vmg_Members g)) G V \<Longrightarrow>
    group_hierarchy gs n (n # G) V"
| forest_Nil: "member_forest gs [] [] []"
| forest_VM: "ms_Kind m = vmKind \<Longrightarrow> member_forest gs ms G V \<Longrightarrow> member_forest gs (m # ms) G (ms_Name m # V)"
| forest_group: "ms_Kind m = vmgKind \<Longrightarrow> group_hierarchy gs (ms_Name m) G V \<Longrightarrow> member_forest gs ms G' V' \<Longrightarrow>
    member_forest gs (m # ms) (G @ G') (V @ V')"

lemma retrieve_sound:
  "RetrieveVMGroupMembers fail gs name visited = Inr (S, visited') \<Longrightarrow>
     \<exists>G V. group_hierarchy gs name G V \<and> distinct G \<and> set G \<inter> visited = {} \<and> visited' = visited \<union> set G \<and>
       distinct V \<and> S = set V"
  "retrieve_loop fail gs vmGroup ms vmSet visited = Inr (S, visited') \<Longrightarrow>
     \<exists>G V. member_forest gs (filter linked_member ms) G V \<and> distinct G \<and> set G \<inter> visited = {} \<and>
       visited' = visited \<union> set G \<and> distinct V \<and> set V \<inter> vmSet = {} \<and> S = vmSet \<union> set V"
proof (induction fail gs name visited and fail gs vmGroup ms vmSet visited
    arbitrary: S visited' and S visited' rule: RetrieveVMGroupMembers_retrieve_loop.induct)
  case (1 fail gs name visited)
  then obtain g where n: "name \<notin> visited" and g: "map_of gs name = Some g"
    and r: "retrieve_loop fail gs (vmg_Name g) (vmg_Members g) {} (insert name visited) = Inr (S, visited')"
    by (auto simp: RetrieveVMGroupMembers.simps split: if_splits option.splits)
  from "1.IH" [OF n g r] obtain G V where "member_forest gs (filter linked_member (vmg_Members g)) G V"
    "distinct G" "set G \<inter> insert name visited = {}" "visited' = insert name visited \<union> set G" "distinct V" "S = set V"
    by auto
  with n g show ?case by (intro exI [of _ "name # G"] exI [of _ V]) (auto intro: hierarchy_node)
next
  case (2 fail gs vmGroup vmSet visited)
  then show ?case using forest_Nil by (fastforce simp: retrieve_loop.simps)
next
  case (3 fail gs vmGroup m ms vmSet visited)
  consider (skip) "\<not> linked_member m" | (vm) "linked_member m" "ms_Kind m = vmKind"
    | (vmg) "linked_member m" "ms_Kind m = vmgKind"
    using "3.prems" by (auto simp: retrieve_loop.simps split: if_splits)
  then show ?case
  proof cases
    case skip
    with 3 show ?thesis by (simp add: retrieve_loop.simps)
  next
    case vm
    with "3.prems" have new: "ms_Name m \<notin> vmSet"
      and r: "retrieve_loop fail gs vmGroup ms (insert (ms_Name m) vmSet) visited = Inr (S, visited')"
      by (auto simp: retrieve_loop.simps split: if_splits)
    from "3.IH"(2) [OF _ _ new r] vm obtain G V where "member_forest gs (filter linked_member ms) G V" "distinct G"
      "set G \<inter> visited = {}" "visited' = visited \<union> set G" "distinct V" "set V \<inter> insert (ms_Name m) vmSet = {}"
      "S = insert (ms_Name m) vmSet \<union> set V" by auto
    with vm new show ?thesis by (intro exI [of _ G] exI [of _ "ms_Name m # V"]) (auto intro: forest_VM)
  next
    case vmg
    with "3.prems" obtain child visited'' where c: "RetrieveVMGroupMembers fail gs (ms_Name m) visited = Inr (child, visited'')"
      and dis: "child \<inter> vmSet = {}"
      and r: "retrieve_loop fail gs vmGroup ms (vmSet \<union> child) visited'' = Inr (S, visited')"
      by (auto simp: retrieve_loop.simps Let_def split: if_splits sum.splits prod.splits)
    from "3.IH"(3) [OF _ _ _ c] vmg obtain G V where h: "group_hierarchy gs (ms_Name m) G V" "distinct G"
      "set G \<inter> visited = {}" "visited'' = visited \<union> set G" "distinct V" "child = set V" by auto
    from "3.IH"(4) [OF _ _ _ c refl refl _ r] vmg dis obtain G' V' where
      "member_forest gs (filter linked_member ms) G' V'" "distinct G'" "set G' \<inter> visited'' = {}"
      "visited' = visited'' \<union> set G'" "distinct V'" "set V' \<inter> (vmSet \<union> child) = {}" "S = vmSet \<union> child \<union> set V'" by auto
    with vmg h dis show ?thesis by (intro exI [of _ "G @ G'"] exI [of _ "V @ V'"]) (auto intro: forest_group)
  qed
qed

lemma retrieve_loop_filter:
  "retrieve_loop fail gs vmGroup (filter linked_member ms) vmSet visited = retrieve_loop fail gs vmGroup ms vmSet visited"
proof (induction ms arbitrary: vmSet visited)
  case (Cons m ms)
  then show ?case by (auto simp: retrieve_loop.simps Let_def split: sum.split)
qed simp

lemma retrieve_complete:
  "group_hierarchy gs name G V \<Longrightarrow> distinct G \<Longrightarrow> set G \<inter> visited = {} \<Longrightarrow> distinct V \<Longrightarrow>
     RetrieveVMGroupMembers fail gs name visited = Inr (set V, visited \<union> set G)"
  "member_forest gs ms G V \<Longrightarrow> list_all linked_member ms \<Longrightarrow> distinct G \<Longrightarrow> set G \<inter> visited = {} \<Longrightarrow> distinct V \<Longrightarrow>
     set V \<inter> vmSet = {} \<Longrightarrow> retrieve_loop fail gs vmGroup ms vmSet visited = Inr (vmSet \<union> set V, visited \<union> set G)"
proof (induction name G V and ms G V arbitrary: visited and visited vmSet vmGroup
    rule: group_hierarchy_member_forest.inducts)
  case (hierarchy_node n g G V)
  have "list_all linked_member (filter linked_member (vmg_Members g))" by (simp add: list_all_iff)
  from hierarchy_node(3) [OF this, of "insert n visited" "{}" "vmg_Name g"] hierarchy_node(1,4-)
  show ?case by (auto simp: RetrieveVMGroupMembers.simps retrieve_loop_filter)
next
  case forest_Nil
  then show ?case by (simp add: retrieve_loop.simps)
next
  case (forest_VM m ms G V)
  then show ?case by (auto simp: retrieve_loop.simps)
next
  case (forest_group m G V ms G' V')
  have "RetrieveVMGroupMembers fail gs (ms_Name m) visited = Inr (set V, visited \<union> set G)"
    using forest_group(6-) by (intro forest_group(3)) auto
  moreover have "retrieve_loop fail gs vmGroup ms (vmSet \<union> set V) (visited \<union> set G) =
      Inr (vmSet \<union> set V \<union> set V', visited \<union> set G \<union> set G')"
    using forest_group(6-) by (intro forest_group(5)) auto
  moreover have "set V \<inter> vmSet = {}" using forest_group(6-) by auto
  ultimately show ?case using forest_group(1,6-) by (simp add: retrieve_loop.simps Un_assoc)
qed

section \<open>Reachability\<close>

definition group_links :: "(string \<times> VirtualMachineGroup) list \<Rightarrow> (string \<times> string) set" where
  "group_links gs = {(n, n'). \<exists>g m. map_of gs n = Some g \<and> m \<in> set (vmg_Members g) \<and> linked_member m \<and>
     ms_Kind m = vmgKind \<and> n' = ms_Name m}"

definition linked_VMs :: "(string \<times> VirtualMachineGroup) list \<Rightarrow> string \<Rightarrow> string set" where
  "linked_VMs gs n = {v. \<exists>g m. map_of gs n = Some g \<and> m \<in> set (vmg_Members g) \<and> linked_member m \<and>
     ms_Kind m = vmKind \<and> v = ms_Name m}"

lemma rtrancl_Image_step: "r\<^sup>* `` {n} = insert n (\<Union>n' \<in> r `` {n}. r\<^sup>* `` {n'})"
  by (auto elim: converse_rtranclE intro: converse_rtrancl_into_rtrancl)

lemma hierarchy_reachable:
  "group_hierarchy gs n G V \<Longrightarrow> set G = (group_links gs)\<^sup>* `` {n} \<and> set V = (\<Union>n' \<in> set G. linked_VMs gs n')"
  "member_forest gs ms G V \<Longrightarrow>
     set G = (\<Union>m \<in> {m \<in> set ms. ms_Kind m = vmgKind}. (group_links gs)\<^sup>* `` {ms_Name m}) \<and>
     set V = (\<Union>n' \<in> set G. linked_VMs gs n') \<union> ms_Name ` {m \<in> set ms. ms_Kind m = vmKind}"
proof (induction n G V and ms G V rule: group_hierarchy_member_forest.inducts)
  case (hierarchy_node n g G V)
  have "group_links gs `` {n} = ms_Name ` {m \<in> set (filter linked_member (vmg_Members g)). ms_Kind m = vmgKind}"
    using hierarchy_node(1) by (auto simp: group_links_def)
  then have "set (n # G) = (group_links gs)\<^sup>* `` {n}"
    using hierarchy_node(3) by (simp add: rtrancl_Image_step [of _ n])
  moreover have "linked_VMs gs n = ms_Name ` {m \<in> set (filter linked_member (vmg_Members g)). ms_Kind m = vmKind}"
    using hierarchy_node(1) by (auto simp: linked_VMs_def)
  then have "set V = linked_VMs gs n \<union> (\<Union>n' \<in> set G. linked_VMs gs n')"
    using hierarchy_node(3) by (metis Un_commute)
  then have "set V = (\<Union>n' \<in> set (n # G). linked_VMs gs n')" by simp
  ultimately show ?case by (simp only: simp_thms)
next
  case forest_Nil
  then show ?case by simp
next
  case (forest_VM m ms G V)
  have "{x \<in> set (m # ms). ms_Kind x = vmgKind} = {x \<in> set ms. ms_Kind x = vmgKind}"
    "{x \<in> set (m # ms). ms_Kind x = vmKind} = insert m {x \<in> set ms. ms_Kind x = vmKind}"
    using forest_VM(1) by auto
  with forest_VM(3) show ?case by simp
next
  case (forest_group m G V ms G' V')
  have "{x \<in> set (m # ms). ms_Kind x = vmgKind} = insert m {x \<in> set ms. ms_Kind x = vmgKind}"
    "{x \<in> set (m # ms). ms_Kind x = vmKind} = {x \<in> set ms. ms_Kind x = vmKind}"
    using forest_group(1) by auto
  with forest_group(3,5) show ?case by auto
qed

section \<open>Properties\<close>

text \<open>
  C8. Retrieving the members of a VM group succeeds exactly when the links below the group unfold to a finite tree
  of existing groups, in which no group and no VM occurs twice; it then returns the VMs of that tree and has
  visited its groups.
\<close>

theorem RetrieveVMGroupMembers_iff:
  "RetrieveVMGroupMembers fail gs name {} = Inr (vmSet, visited) \<longleftrightarrow>
     (\<exists>G V. group_hierarchy gs name G V \<and> distinct G \<and> distinct V \<and> vmSet = set V \<and> visited = set G)"
proof
  assume "RetrieveVMGroupMembers fail gs name {} = Inr (vmSet, visited)"
  then show "\<exists>G V. group_hierarchy gs name G V \<and> distinct G \<and> distinct V \<and> vmSet = set V \<and> visited = set G"
    using retrieve_sound(1) by fastforce
next
  assume "\<exists>G V. group_hierarchy gs name G V \<and> distinct G \<and> distinct V \<and> vmSet = set V \<and> visited = set G"
  then show "RetrieveVMGroupMembers fail gs name {} = Inr (vmSet, visited)"
    using retrieve_complete(1) [where visited = "{}"] by auto
qed

text \<open>
  When it succeeds, the groups visited are those reachable from the group over linked members, and the VMs
  returned are the VMs linked in one of them.
\<close>

theorem RetrieveVMGroupMembers_reachable:
  assumes "RetrieveVMGroupMembers fail gs name {} = Inr (vmSet, visited)"
  shows "visited = (group_links gs)\<^sup>* `` {name} \<and> vmSet = (\<Union>n \<in> visited. linked_VMs gs n)"
proof -
  obtain G V where h: "group_hierarchy gs name G V" and "vmSet = set V" "visited = set G"
    using retrieve_sound(1) [OF assms] by auto
  with hierarchy_reachable(1) [OF h] show ?thesis by (simp only: simp_thms)
qed

definition sample_member :: "string \<Rightarrow> string \<Rightarrow> VirtualMachineGroupMemberStatus" where
  "sample_member kind name = \<lparr>ms_Name = name, ms_Kind = kind, ms_UID = [], ms_PowerState = None,
     ms_Conditions = [TrueCondition VirtualMachineGroupMemberConditionGroupLinked]\<rparr>"

definition sample_group :: "string \<Rightarrow> VirtualMachineGroupMemberStatus list \<Rightarrow> VirtualMachineGroup" where
  "sample_group name ms = \<lparr>vmg_Name = name, vmg_UID = [], vmg_Annotations = None, vmg_OwnerReferences = [],
     vmg_Finalizers = [], vmg_DeletionTimestamp = 0, vmg_GroupName = [], vmg_BootOrder = [], vmg_PowerState = [],
     vmg_NextForcePowerStateSyncTime = [], vmg_PowerOffMode = [], vmg_SuspendMode = [], vmg_Members = ms,
     vmg_LastUpdatedPowerStateTime = None, vmg_Conditions = []\<rparr>"

definition sample_groups :: "(string \<times> VirtualMachineGroup) list" where
  "sample_groups =
     [(''g'', sample_group ''g'' [sample_member vmKind ''a'', sample_member vmgKind ''h'']),
      (''h'', sample_group ''h'' [sample_member vmKind ''b''])]"

lemma sample_retrieve: "RetrieveVMGroupMembers id sample_groups ''g'' {} = Inr ({''a'', ''b''}, {''g'', ''h''})"
  by (simp add: retrieve_simps sample_groups_def sample_group_def sample_member_def linked_member_def
      Conditions_IsTrue_def TrueCondition_def vmKind_def vmgKind_def insert_commute)

theorem RetrieveVMGroupMembers_reachable_witness:
  "{''g'', ''h''} = (group_links sample_groups)\<^sup>* `` {''g''} \<and> {''a'', ''b''} = (\<Union>n \<in> {''g'', ''h''}. linked_VMs sample_groups n)"
  using RetrieveVMGroupMembers_reachable [OF sample_retrieve] .

end
