(* ===== verification/Group_Webhooks.thy ===== *)
theory Group_Webhooks
  imports VM_Group Field_Errors Features
begin

text \<open>
  The admission webhooks of VM groups: \<^verbatim>\<open>webhooks/virtualmachinegroup/mutation/virtualmachinegroup_mutator.go\<close>
  and \<^verbatim>\<open>webhooks/virtualmachinegroup/validation/virtualmachinegroup_validator.go\<close>. The object of a create
  request has no old version, the value \<^verbatim>\<open>None\<close>. The decoding of the request and the JSON patch of the answer
  are left out: the mutation returns whether the object changed and the object.
\<close>

section \<open>Mutation\<close>

text \<open>The zero value of the type, which stands for the old object of a creation.\<close>

definition VirtualMachineGroup_zero :: VirtualMachineGroup where
  "VirtualMachineGroup_zero = \<lparr>vmg_Name = [], vmg_UID = [], vmg_Annotations = None, vmg_OwnerReferences = [],
     vmg_Finalizers = [], vmg_DeletionTimestamp = 0, vmg_GroupName = [], vmg_BootOrder = [], vmg_PowerState = [],
     vmg_NextForcePowerStateSyncTime = [], vmg_PowerOffMode = [], vmg_SuspendMode = [], vmg_Members = [],
     vmg_LastUpdatedPowerStateTime = None, vmg_Conditions = []\<rparr>"

definition old_group :: "VirtualMachineGroup option \<Rightarrow> VirtualMachineGroup" where
  "old_group oldVMG = (case oldVMG of None \<Rightarrow> VirtualMachineGroup_zero | Some g \<Rightarrow> g)"

text \<open>The first \<^verbatim>\<open>switch\<close>: an error, or the group, whether it was mutated and whether to force a sync.\<close>

definition process_force_sync ::
    "string \<Rightarrow> VirtualMachineGroup \<Rightarrow> string \<Rightarrow> field_Error + VirtualMachineGroup \<times> bool \<times> bool" where
  "process_force_sync now newVMG oldForceSyncVal =
     (let newForceSyncVal = vmg_NextForcePowerStateSyncTime newVMG
      in if newForceSyncVal = []
         then Inr (newVMG\<lparr>vmg_NextForcePowerStateSyncTime := oldForceSyncVal\<rparr>, oldForceSyncVal \<noteq> [], False)
         else if ToLower newForceSyncVal = ''now''
         then Inr (newVMG\<lparr>vmg_NextForcePowerStateSyncTime := now\<rparr>, True, True)
         else if newForceSyncVal \<noteq> oldForceSyncVal
         then Inl (field_Invalid ''spec.nextForcePowerStateSyncTime'' newForceSyncVal
           (''may only be set to '' @ go_quote ''now''))
         else Inr (newVMG, False, False))"

definition ProcessPowerState ::
    "gotime \<Rightarrow> VirtualMachineGroup \<Rightarrow> VirtualMachineGroup option \<Rightarrow> field_Error + bool \<times> VirtualMachineGroup" where
  "ProcessPowerState clock newVMG oldVMG =
     (let oldVMG = old_group oldVMG;
          now = time_Format (time_UTC clock)
      in case process_force_sync now newVMG (vmg_NextForcePowerStateSyncTime oldVMG) of
        Inl err \<Rightarrow> Inl err
      | Inr (newVMG, wasMutated, shouldForceSync) \<Rightarrow>
          let shouldUpdateAnnotation = (shouldForceSync \<or> vmg_PowerState newVMG \<noteq> vmg_PowerState oldVMG);
              (newVMG, wasMutated) =
                (if shouldUpdateAnnotation
                 then (newVMG\<lparr>vmg_Annotations :=
                         Some ((labels_of (vmg_Annotations newVMG))(LastUpdatedPowerStateTimeAnnotation \<mapsto> now))\<rparr>, True)
                 else (newVMG, wasMutated));
              oldAnnoTime = map_value (vmg_Annotations oldVMG) ApplyPowerStateTimeAnnotation;
              newAnnoTime = map_value (vmg_Annotations newVMG) ApplyPowerStateTimeAnnotation
          in if oldAnnoTime \<noteq> newAnnoTime then Inr (wasMutated, newVMG)
             else if shouldUpdateAnnotation \<and> newAnnoTime \<noteq> []
             then Inr (True, newVMG\<lparr>vmg_Annotations :=
                    Some ((labels_of (vmg_Annotations newVMG))(ApplyPowerStateTimeAnnotation := None))\<rparr>)
             else Inr (wasMutated, newVMG))"

definition vmg_Mutate ::
    "gotime \<Rightarrow> VirtualMachineGroup \<Rightarrow> VirtualMachineGroup option \<Rightarrow> field_Error + bool \<times> VirtualMachineGroup" where
  "vmg_Mutate clock modified oldVMGroup =
     (case ProcessPowerState clock modified oldVMGroup of
        Inl err \<Rightarrow> Inl err
      | Inr (wasMutated, modified) \<Rightarrow>
          (case oldVMGroup of
             None \<Rightarrow> Inr (wasMutated, modified)
           | Some old \<Rightarrow>
               (case RemoveStaleGroupOwnerRef (MemberGroup modified) (MemberGroup old) of
                  (ok, MemberGroup modified) \<Rightarrow> Inr (ok \<or> wasMutated, modified)
                | (ok, MemberVM vm) \<Rightarrow> Inr (wasMutated, modified))))"

section \<open>Validation\<close>

definition vmg_validatePowerState ::
    "bool \<Rightarrow> VirtualMachineGroup \<Rightarrow> VirtualMachineGroup option \<Rightarrow> field_Error list" where
  "vmg_validatePowerState isPrivilegedAccount newVMGroup oldVMGroup =
     (let oldVMGroup = old_group oldVMGroup;
          annotationPath = field_Key ''metadata.annotations'' LastUpdatedPowerStateTimeAnnotation;
          oldAnnotationTime = map_value (vmg_Annotations oldVMGroup) LastUpdatedPowerStateTimeAnnotation;
          newAnnotationTime = map_value (vmg_Annotations newVMGroup) LastUpdatedPowerStateTimeAnnotation
      in (if \<not> isPrivilegedAccount \<and> oldAnnotationTime \<noteq> newAnnotationTime \<and>
             vmg_PowerState oldVMGroup = vmg_PowerState newVMGroup \<and>
             vmg_NextForcePowerStateSyncTime oldVMGroup = vmg_NextForcePowerStateSyncTime newVMGroup
          then [field_Forbidden annotationPath ''modifying this annotation is not allowed for non-admin users'']
          else []) @
         (if newAnnotationTime \<noteq> [] \<and> time_Parse newAnnotationTime = None
          then [field_Invalid annotationPath newAnnotationTime ''time must be in RFC3339Nano format''] else []) @
         (if vmg_PowerState oldVMGroup \<noteq> [] \<and> vmg_PowerState newVMGroup = []
          then [field_Forbidden ''spec.powerState'' ''cannot set powerState to empty once it's been set''] else []))"

text \<open>The loops over the boot orders and their members, with the members seen so far.\<close>

fun validate_members ::
    "string \<Rightarrow> string \<Rightarrow> nat \<Rightarrow> GroupMember list \<Rightarrow> string set \<Rightarrow> string set \<times> field_Error list" where
  "validate_members groupName path i [] seen = (seen, [])"
| "validate_members groupName path i (m # ms) seen =
     (let memberKey = gm_Kind m @ ''/'' @ gm_Name m;
          memberPath = field_Index (field_Child path ''members'') i;
          dup = (if memberKey \<in> seen then [field_Duplicate memberPath memberKey] else []);
          self = (if gm_Kind m = ''VirtualMachineGroup'' \<and> gm_Name m = groupName
                  then [field_Invalid memberPath memberKey ''group cannot have itself as a member or group name''] else []);
          (seen', errs) = validate_members groupName path (i + 1) ms (insert memberKey seen)
      in (seen', dup @ self @ errs))"

fun validate_boot_orders ::
    "string \<Rightarrow> nat \<Rightarrow> VirtualMachineGroupBootOrderGroup list \<Rightarrow> string set \<Rightarrow> field_Error list" where
  "validate_boot_orders groupName i [] seen = []"
| "validate_boot_orders groupName i (bo # bos) seen =
     (let (seen', errs) = validate_members groupName (field_Index ''spec.bootOrder'' i) 0 (bo_Members bo) seen
      in errs @ validate_boot_orders groupName (i + 1) bos seen')"

definition validateBootOrderMembers :: "VirtualMachineGroup \<Rightarrow> field_Error list" where
  "validateBootOrderMembers vmGroup = validate_boot_orders (vmg_Name vmGroup) 0 (vmg_BootOrder vmGroup) {}"

definition validateGroupName :: "VirtualMachineGroup \<Rightarrow> field_Error list" where
  "validateGroupName vmGroup =
     (if vmg_GroupName vmGroup = vmg_Name vmGroup
      then [field_Invalid ''spec.groupName'' (vmg_GroupName vmGroup) ''group cannot have itself as a member or group name'']
      else [])"

definition validatePowerOffDelay :: "pkgcfg_Config \<Rightarrow> VirtualMachineGroup \<Rightarrow> field_Error list" where
  "validatePowerOffDelay cfg vmGroup =
     (if VMServiceClasslessVM (FeatureStates cfg) then []
      else List.map_filter
        (\<lambda>(i, bo). if bo_PowerOffDelay bo \<noteq> None
           then Some (field_Forbidden (field_Child (field_Index ''spec.bootOrder'' i) ''powerOffDelay'')
             ''specifying powerOffDelay is not supported'')
           else None)
        (enumerate 0 (vmg_BootOrder vmGroup)))"

definition vmg_Validate ::
    "pkgcfg_Config \<Rightarrow> bool \<Rightarrow> VirtualMachineGroup \<Rightarrow> VirtualMachineGroup option \<Rightarrow> field_Error list" where
  "vmg_Validate cfg isPrivilegedAccount vmGroup oldVMGroup =
     vmg_validatePowerState isPrivilegedAccount vmGroup oldVMGroup @
     validateBootOrderMembers vmGroup @ validateGroupName vmGroup @ validatePowerOffDelay cfg vmGroup"

definition vmg_ValidateCreate :: "pkgcfg_Config \<Rightarrow> bool \<Rightarrow> VirtualMachineGroup \<Rightarrow> field_Error list" where
  "vmg_ValidateCreate cfg isPrivilegedAccount vmGroup = vmg_Validate cfg isPrivilegedAccount vmGroup None"

definition vmg_ValidateUpdate ::
    "pkgcfg_Config \<Rightarrow> bool \<Rightarrow> VirtualMachineGroup \<Rightarrow> VirtualMachineGroup \<Rightarrow> field_Error list" where
  "vmg_ValidateUpdate cfg isPrivilegedAccount vmGroup oldVMGroup =
     vmg_Validate cfg isPrivilegedAccount vmGroup (Some oldVMGroup)"

section \<open>What the validation accepts\<close>

definition member_key :: "GroupMember \<Rightarrow> string" where
  "member_key m = gm_Kind m @ ''/'' @ gm_Name m"

lemma validate_members_result:
  "validate_members groupName path i ms seen = (seen', errs) \<Longrightarrow>
     seen' = seen \<union> member_key ` set ms \<and>
     (errs = [] \<longleftrightarrow> distinct (map member_key ms) \<and> member_key ` set ms \<inter> seen = {} \<and>
        \<lparr>gm_Name = groupName, gm_Kind = vmgKind\<rparr> \<notin> set ms)"
proof (induction ms arbitrary: i seen seen' errs)
  case Nil
  then show ?case by simp
next
  case (Cons m ms)
  obtain s es where rest: "validate_members groupName path (i + 1) ms (insert (member_key m) seen) = (s, es)" by fastforce
  from Cons.IH [OF rest] Cons.prems rest show ?case
    by (cases m) (auto simp: Let_def member_key_def vmgKind_def split: if_splits)
qed

lemma validate_boot_orders_result:
  "validate_boot_orders groupName i bos seen = [] \<longleftrightarrow>
     (let ms = concat (map bo_Members bos)
      in distinct (map member_key ms) \<and> member_key ` set ms \<inter> seen = {} \<and>
         \<lparr>gm_Name = groupName, gm_Kind = vmgKind\<rparr> \<notin> set ms)"
proof (induction bos arbitrary: i seen)
  case Nil
  then show ?case by simp
next
  case (Cons bo bos)
  obtain s es where r: "validate_members groupName (field_Index ''spec.bootOrder'' i) 0 (bo_Members bo) seen = (s, es)"
    by fastforce
  define A where "A = member_key ` set (bo_Members bo)"
  define B where "B = member_key ` set (concat (map bo_Members bos))"
  note here = validate_members_result [OF r, folded A_def]
  have "distinct (map member_key (concat (map bo_Members (bo # bos)))) \<longleftrightarrow>
      distinct (map member_key (bo_Members bo)) \<and> distinct (map member_key (concat (map bo_Members bos))) \<and> A \<inter> B = {}"
    by (simp add: A_def B_def)
  moreover have "member_key ` set (concat (map bo_Members (bo # bos))) = A \<union> B"
    by (simp only: A_def B_def list.map concat.simps set_append image_Un)
  moreover have "B \<inter> (seen \<union> A) = {} \<and> A \<inter> seen = {} \<longleftrightarrow> A \<inter> B = {} \<and> (A \<union> B) \<inter> seen = {}" by blast
  ultimately show ?case
    using here Cons.IH [of "i + 1" s, folded B_def] unfolding Let_def B_def [symmetric]
    by (simp add: r) blast
qed

text \<open>Kinds have no slash, so that the key of a member determines it.\<close>

definition kinds_ok :: "GroupMember list \<Rightarrow> bool" where
  "kinds_ok ms \<longleftrightarrow> (\<forall>m \<in> set ms. gm_Kind m \<in> {vmKind, vmgKind})"

lemma append_slash_inject:
  "CHR ''/'' \<notin> set a \<Longrightarrow> CHR ''/'' \<notin> set b \<Longrightarrow> a @ ''/'' @ x = b @ ''/'' @ y \<longleftrightarrow> a = b \<and> x = y"
  by (induction a arbitrary: b) (case_tac [!] b, auto)

lemma member_key_inj: "kinds_ok ms \<Longrightarrow> inj_on member_key (set ms)"
proof (rule inj_onI)
  fix m m' :: GroupMember
  assume "kinds_ok ms" "m \<in> set ms" "m' \<in> set ms" and eq: "member_key m = member_key m'"
  then have "CHR ''/'' \<notin> set (gm_Kind m)" "CHR ''/'' \<notin> set (gm_Kind m')"
    by (auto simp: kinds_ok_def vmKind_def vmgKind_def)
  then have "gm_Kind m = gm_Kind m' \<and> gm_Name m = gm_Name m'"
    using eq append_slash_inject [of "gm_Kind m" "gm_Kind m'"] unfolding member_key_def by blast
  then show "m = m'" by simp
qed

lemma validateBootOrderMembers_iff:
  assumes "kinds_ok (concat (map bo_Members (vmg_BootOrder g)))"
  shows "validateBootOrderMembers g = [] \<longleftrightarrow>
    distinct (concat (map bo_Members (vmg_BootOrder g))) \<and>
    \<lparr>gm_Name = vmg_Name g, gm_Kind = vmgKind\<rparr> \<notin> set (concat (map bo_Members (vmg_BootOrder g)))"
  using member_key_inj [OF assms]
  by (simp add: validateBootOrderMembers_def validate_boot_orders_result Let_def distinct_map)

lemma validatePowerOffDelay_iff:
  "validatePowerOffDelay cfg g = [] \<longleftrightarrow>
     VMServiceClasslessVM (FeatureStates cfg) \<or> list_all (\<lambda>bo. bo_PowerOffDelay bo = None) (vmg_BootOrder g)"
proof -
  have loop: "List.map_filter (\<lambda>(i, bo). if bo_PowerOffDelay bo \<noteq> None then Some (f i) else None) (enumerate n bos) = [] \<longleftrightarrow>
      list_all (\<lambda>bo. bo_PowerOffDelay bo = None) bos" for f :: "nat \<Rightarrow> field_Error" and n bos
    by (induction bos arbitrary: n) (simp_all add: List.map_filter_simps)
  show ?thesis by (simp add: validatePowerOffDelay_def loop del: not_None_eq)
qed

section \<open>The mutation\<close>

lemma annotation_keys_neq [simp]:
  "LastUpdatedPowerStateTimeAnnotation \<noteq> ApplyPowerStateTimeAnnotation"
  "ApplyPowerStateTimeAnnotation \<noteq> LastUpdatedPowerStateTimeAnnotation"
  by (simp_all add: LastUpdatedPowerStateTimeAnnotation_def ApplyPowerStateTimeAnnotation_def)

lemma map_value_delete [simp]:
  "map_value (Some ((labels_of m)(k := None))) k' = (if k' = k then [] else map_value m k')"
  by (simp add: map_value_def labels_of_def)

text \<open>A request for a sync of the power state: the group asks for it or its power state changes.\<close>

definition sync_requested :: "VirtualMachineGroup \<Rightarrow> VirtualMachineGroup option \<Rightarrow> bool" where
  "sync_requested g old \<longleftrightarrow>
     ToLower (vmg_NextForcePowerStateSyncTime g) = ''now'' \<or> vmg_PowerState g \<noteq> vmg_PowerState (old_group old)"

lemma process_force_sync_result:
  assumes "process_force_sync now g oldv = Inr (g', b, force)"
  shows "force \<longleftrightarrow> ToLower (vmg_NextForcePowerStateSyncTime g) = ''now''"
    and "g' = g\<lparr>vmg_NextForcePowerStateSyncTime := if force then now else oldv\<rparr>"
  using assms by (auto simp: process_force_sync_def Let_def ToLower_def split: if_splits)

lemma ProcessPowerState_result:
  assumes "ProcessPowerState clock g old = Inr (b, g')"
  defines "now \<equiv> time_Format (time_UTC clock)"
  shows "g' = g\<lparr>vmg_NextForcePowerStateSyncTime := vmg_NextForcePowerStateSyncTime g', vmg_Annotations := vmg_Annotations g'\<rparr> \<and>
    map_value (vmg_Annotations g') LastUpdatedPowerStateTimeAnnotation =
      (if sync_requested g old then now else map_value (vmg_Annotations g) LastUpdatedPowerStateTimeAnnotation) \<and>
    vmg_NextForcePowerStateSyncTime g' =
      (if ToLower (vmg_NextForcePowerStateSyncTime g) = ''now'' then now
       else vmg_NextForcePowerStateSyncTime (old_group old))"
proof -
  from assms(1) obtain g1 b1 force where f:
      "process_force_sync now g (vmg_NextForcePowerStateSyncTime (old_group old)) = Inr (g1, b1, force)"
    by (auto simp: ProcessPowerState_def Let_def now_def split: sum.splits)
  note pf = process_force_sync_result [OF f]
  from assms(1) f show ?thesis
    by (auto simp: ProcessPowerState_def Let_def now_def [symmetric] pf sync_requested_def split: if_splits prod.splits)
qed

lemma RemoveStale_group:
  "\<exists>refs. snd (RemoveStaleGroupOwnerRef (MemberGroup g) old) = MemberGroup (g\<lparr>vmg_OwnerReferences := refs\<rparr>)"
  by (auto simp: RemoveStaleGroupOwnerRef_def Let_def intro: exI [of _ "vmg_OwnerReferences g"])

lemma vmg_Mutate_Process:
  assumes "vmg_Mutate clock g old = Inr (b, g')"
  shows "\<exists>b1 g1 refs. ProcessPowerState clock g old = Inr (b1, g1) \<and> g' = g1\<lparr>vmg_OwnerReferences := refs\<rparr>"
proof -
  from assms obtain b1 g1 where p: "ProcessPowerState clock g old = Inr (b1, g1)"
    by (auto simp: vmg_Mutate_def split: sum.splits)
  show ?thesis
  proof (cases old)
    case None
    with assms p have "g' = g1\<lparr>vmg_OwnerReferences := vmg_OwnerReferences g1\<rparr>" by (simp add: vmg_Mutate_def)
    with p show ?thesis by blast
  next
    case (Some o')
    obtain refs where "snd (RemoveStaleGroupOwnerRef (MemberGroup g1) (MemberGroup o')) =
        MemberGroup (g1\<lparr>vmg_OwnerReferences := refs\<rparr>)" using RemoveStale_group by blast
    with assms p Some have "g' = g1\<lparr>vmg_OwnerReferences := refs\<rparr>"
      by (auto simp: vmg_Mutate_def split: prod.splits)
    with p show ?thesis by blast
  qed
qed

section \<open>Properties\<close>

text \<open>
  C37. What the two webhooks together make of a request to change the power state of a VM group by a user who is not
  privileged: the mutated group passes the check of the power state exactly when the request asks for a sync (by
  the value now, or by changing the power state) or leaves the time of the last update, which is a valid time, alone,
  and does not clear a power state that was set. Whoever asks for a sync gets the current time as the time of the
  last update.
\<close>

theorem group_power_state_admission:
  assumes "vmg_Mutate clock g old = Inr (b, g')" and "clock < 315537897600000000000"
    and "time_Format (time_UTC clock) \<noteq> vmg_NextForcePowerStateSyncTime (old_group old)"
  defines "anno \<equiv> \<lambda>g. map_value (vmg_Annotations g) LastUpdatedPowerStateTimeAnnotation"
  shows "(vmg_validatePowerState False g' old = [] \<longleftrightarrow>
      (sync_requested g old \<or> (anno g = anno (old_group old) \<and> (anno g = [] \<or> time_Parse (anno g) \<noteq> None))) \<and>
      (vmg_PowerState (old_group old) = [] \<or> vmg_PowerState g \<noteq> [])) \<and>
    (sync_requested g old \<longrightarrow> time_Parse (anno g') = Some (time_UTC clock))"
proof -
  obtain b1 g1 refs where p: "ProcessPowerState clock g old = Inr (b1, g1)" and g': "g' = g1\<lparr>vmg_OwnerReferences := refs\<rparr>"
    using vmg_Mutate_Process [OF assms(1)] by blast
  note r = ProcessPowerState_result [OF p]
  have now: "time_Parse (time_Format (time_UTC clock)) = Some (time_UTC clock)"
    using assms(2) by (intro time_Parse_Format printable_UTC)
  from r have "vmg_PowerState g1 =
      vmg_PowerState (g\<lparr>vmg_NextForcePowerStateSyncTime := vmg_NextForcePowerStateSyncTime g1, vmg_Annotations := vmg_Annotations g1\<rparr>)"
    by (rule conjE) (erule arg_cong)
  then have same: "vmg_PowerState g1 = vmg_PowerState g" by simp
  show ?thesis
    using r now assms(3) same unfolding g' anno_def
    by (auto simp: vmg_validatePowerState_def Let_def sync_requested_def)
qed

definition webhook_sample :: VirtualMachineGroup where
  "webhook_sample = VirtualMachineGroup_zero\<lparr>vmg_Name := ''g'', vmg_PowerState := ''PoweredOn''\<rparr>"

definition webhook_result :: VirtualMachineGroup where
  "webhook_result = webhook_sample\<lparr>vmg_Annotations := Some [LastUpdatedPowerStateTimeAnnotation \<mapsto> time_Format (time_UTC 7)]\<rparr>"

theorem group_power_state_admission_witness:
  "vmg_validatePowerState False webhook_result None = [] \<and>
   time_Parse (map_value (vmg_Annotations webhook_result) LastUpdatedPowerStateTimeAnnotation) = Some (time_UTC 7)"
proof -
  have mutate: "vmg_Mutate 7 webhook_sample None = Inr (True, webhook_result)"
    by (simp add: vmg_Mutate_def ProcessPowerState_def process_force_sync_def Let_def webhook_sample_def webhook_result_def
        VirtualMachineGroup_zero_def old_group_def labels_of_def map_value_def)
  have now: "time_Format (time_UTC 7) \<noteq> vmg_NextForcePowerStateSyncTime (old_group None)"
    by code_simp
  have "sync_requested webhook_sample None" by code_simp
  with group_power_state_admission [OF mutate _ now] show ?thesis
    by (simp add: webhook_sample_def VirtualMachineGroup_zero_def old_group_def)
qed

end
