(* ===== verification/Group_Placement.thy ===== *)
theory Group_Placement
  imports VM_Group
begin

text \<open>
  The placement of the members of a VM group and of the groups nested in it, in
  \<^verbatim>\<open>controllers/virtualmachinegroup/virtualmachinegroup_controller.go\<close>: \<^verbatim>\<open>reconcilePlacement\<close> and what it
  calls. The code mutates the statuses of the groups it has read through pointers; here the groups read so far
  are a store, a list of pairs of the group as it was read (the base of its patch) and as it is now, and a pointer
  is an index into it. Index 0 is the root group. The answers of the cache, the API reader, the provider
  and the patches are fields of the record \<open>placement_api\<close>.

  The recursion over nested groups has no bound in the code, so the model takes fuel; running out of it is the value
  \<^verbatim>\<open>None\<close>. Fuel as large as the depth of the hierarchy is enough. No fuel is when the first members of the groups
  lead round a cycle of linked groups.
\<close>

section \<open>Definitions\<close>

record placement_api = group_client +
  pl_Read :: "string \<Rightarrow> api_error + VirtualMachineGroup"
  pl_Place :: "VirtualMachineGroup list \<Rightarrow> (nat \<times> group_VM list) list \<Rightarrow> goerror option \<times> VirtualMachineGroup list"
  pl_PatchData :: "VirtualMachineGroup \<Rightarrow> VirtualMachineGroup \<Rightarrow> goerror + bool"
  pl_StatusPatch :: "VirtualMachineGroup \<Rightarrow> goerror option"
  pl_VMAffinityDuringExecution :: bool

text \<open>The index of the first status of the name and kind.\<close>

fun findMemberStatus :: "string \<Rightarrow> string \<Rightarrow> VirtualMachineGroupMemberStatus list \<Rightarrow> nat option" where
  "findMemberStatus name kind [] = None"
| "findMemberStatus name kind (m # ms) =
     (if ms_Name m = name \<and> ms_Kind m = kind then Some 0 else map_option Suc (findMemberStatus name kind ms))"

definition set_member :: "VirtualMachineGroup \<Rightarrow> nat \<Rightarrow> VirtualMachineGroupMemberStatus \<Rightarrow> VirtualMachineGroup" where
  "set_member g i m = g\<lparr>vmg_Members := (vmg_Members g)[i := m]\<rparr>"

definition AlreadyPlaced_condition :: "string \<Rightarrow> condition" where
  "AlreadyPlaced_condition zone = \<lparr>ctype = VirtualMachineGroupMemberConditionPlacementReady, cstatus = ConditionTrue,
     observedGeneration = 0, lastTransitionTime = 0, reason = ''AlreadyPlaced'', message = zone\<rparr>"

text \<open>
  The body of \<^verbatim>\<open>getVMForPlacement\<close> on the status of the member: the result and the status, on which the deferred
  function has run.
\<close>

definition place_status ::
    "placement_api \<Rightarrow> gotime \<Rightarrow> VirtualMachineGroup \<Rightarrow> string \<Rightarrow> VirtualMachineGroupMemberStatus \<Rightarrow>
     (goerror + group_VM option) \<times> VirtualMachineGroupMemberStatus" where
  "place_status api now vmGroup vmName memberStatus =
     (let ready = VirtualMachineGroupMemberConditionPlacementReady;
          failed = (\<lambda>err. (Inl err, memberStatus\<lparr>ms_Conditions :=
            Conditions_MarkError now (ms_Conditions memberStatus) ready ''Error'' err\<rparr>))
      in if \<not> Conditions_IsTrue (ms_Conditions memberStatus) VirtualMachineGroupMemberConditionGroupLinked
         then failed (''VM '' @ go_quote vmName @ '' is not linked for group '' @ go_quote (vmg_Name vmGroup))
         else case cl_GetVM api vmName of
           Inl err \<Rightarrow> failed (''failed to get group member VM '' @ go_quote vmName @ '': '' @ api_error_text err)
         | Inr vm \<Rightarrow>
             if gvm_GroupName vm \<noteq> vmg_Name vmGroup
             then failed (''VM '' @ go_quote vmName @ '' is assigned to group '' @ go_quote (gvm_GroupName vm) @
               '' instead of expected '' @ go_quote (vmg_Name vmGroup))
             else if gvm_UID vm = ms_UID memberStatus \<and> Conditions_IsTrue (ms_Conditions memberStatus) ready
             then (Inr None, memberStatus)
             else
               let memberStatus = memberStatus\<lparr>ms_UID := gvm_UID vm\<rparr>
               in if gvm_UniqueID vm \<noteq> []
                  then (Inr None, memberStatus\<lparr>ms_Conditions :=
                    Conditions_Set now (ms_Conditions memberStatus) (Some (AlreadyPlaced_condition (gvm_Zone vm)))\<rparr>)
                  else if map_value (gvm_Labels vm) LabelTopologyZone \<noteq> [] \<and>
                    (\<not> pl_VMAffinityDuringExecution api \<or> HasCAPILabels (gvm_Labels vm))
                  then (Inr None, memberStatus)
                  else (Inr (Some vm), memberStatus))"

definition getVMForPlacement ::
    "placement_api \<Rightarrow> gotime \<Rightarrow> VirtualMachineGroup \<Rightarrow> string \<Rightarrow> (goerror + group_VM option) \<times> VirtualMachineGroup" where
  "getVMForPlacement api now vmGroup vmName =
     (case findMemberStatus vmName vmKind (vmg_Members vmGroup) of
        None \<Rightarrow> (Inl (''VM '' @ go_quote vmName @ '' is not in group member status''), vmGroup)
      | Some i \<Rightarrow>
          (case place_status api now vmGroup vmName (vmg_Members vmGroup ! i) of
             (result, memberStatus) \<Rightarrow> (result, set_member vmGroup i memberStatus)))"

definition spec_members :: "VirtualMachineGroup \<Rightarrow> GroupMember list" where
  "spec_members g = concat (map bo_Members (vmg_BootOrder g))"

text \<open>A VM of the specification is ready when the last status of its name has the condition.\<close>

definition status_ready :: "VirtualMachineGroup \<Rightarrow> string \<Rightarrow> bool" where
  "status_ready g name =
     (case map_of (rev (map (\<lambda>m. (ms_Name m, m)) (filter (\<lambda>m. ms_Kind m = vmKind) (vmg_Members g)))) name of
        None \<Rightarrow> False
      | Some m \<Rightarrow> Conditions_IsTrue (ms_Conditions m) VirtualMachineGroupMemberConditionPlacementReady)"

definition ensurePlacementStatusUpToDate ::
    "placement_api \<Rightarrow> VirtualMachineGroup \<Rightarrow> (api_error \<times> goerror) + VirtualMachineGroup" where
  "ensurePlacementStatusUpToDate api vmGroup =
     (if vmg_BootOrder vmGroup = [] then Inr vmGroup
      else if list_all (\<lambda>m. gm_Kind m = vmKind \<longrightarrow> status_ready vmGroup (gm_Name m)) (spec_members vmGroup) then Inr vmGroup
      else case pl_Read api (vmg_Name vmGroup) of
        Inl err \<Rightarrow> Inl (err, ''failed to get group from API reader: '' @ api_error_text err)
      | Inr freshGroup \<Rightarrow> Inr freshGroup)"

type_synonym group_store = "(VirtualMachineGroup \<times> VirtualMachineGroup) list"

type_synonym placements = "(nat \<times> group_VM list) list"

text \<open>
  The reading of a child group in \<^verbatim>\<open>getGroupsForPlacement\<close>. Its test for a cycle looks up the pointer of the
  object it has just allocated in the map of patches, which never contains it, so the test has no branch here.
\<close>

definition read_child ::
    "placement_api \<Rightarrow> VirtualMachineGroup \<Rightarrow> string \<Rightarrow> goerror + VirtualMachineGroup" where
  "read_child api parentVMGroup groupName =
     (case findMemberStatus groupName vmgKind (vmg_Members parentVMGroup) of
        None \<Rightarrow> Inl (''VM Group '' @ go_quote groupName @ '' is not in parent group '' @
          go_quote (vmg_Name parentVMGroup) @ '' member status'')
      | Some i \<Rightarrow>
          if \<not> Conditions_IsTrue (ms_Conditions (vmg_Members parentVMGroup ! i)) VirtualMachineGroupMemberConditionGroupLinked
          then Inl (''VM Group '' @ go_quote groupName @ '' is not linked for parent group '' @
            go_quote (vmg_Name parentVMGroup))
          else case cl_GetGroup api groupName of
            Inl err \<Rightarrow> Inl (''failed to get group member group '' @ groupName @ '': '' @ api_error_text err)
          | Inr vmGroup \<Rightarrow>
              (case ensurePlacementStatusUpToDate api vmGroup of
                 Inl (_, err) \<Rightarrow> Inl err
               | Inr vmGroup \<Rightarrow> Inr vmGroup))"

definition store_group :: "group_store \<Rightarrow> nat \<Rightarrow> VirtualMachineGroup" where
  "store_group st i = snd (st ! i)"

definition store_update :: "group_store \<Rightarrow> nat \<Rightarrow> VirtualMachineGroup \<Rightarrow> group_store" where
  "store_update st i g = st[i := (fst (st ! i), g)]"

function (sequential)
  getPlacementMembers ::
    "placement_api \<Rightarrow> gotime \<Rightarrow> nat \<Rightarrow> group_store \<Rightarrow> nat \<Rightarrow> ((goerror + placements) \<times> group_store) option" and
  placement_loop ::
    "placement_api \<Rightarrow> gotime \<Rightarrow> nat \<Rightarrow> group_store \<Rightarrow> nat \<Rightarrow> GroupMember list \<Rightarrow> group_VM list \<Rightarrow> placements \<Rightarrow>
     ((goerror + placements) \<times> group_store) option" and
  getGroupsForPlacement ::
    "placement_api \<Rightarrow> gotime \<Rightarrow> nat \<Rightarrow> group_store \<Rightarrow> nat \<Rightarrow> string \<Rightarrow> ((goerror + placements) \<times> group_store) option"
where
  "getPlacementMembers api now fuel st i = placement_loop api now fuel st i (spec_members (store_group st i)) [] []"
| "placement_loop api now fuel st i [] vms pls = Some (Inr (if vms \<noteq> [] then pls @ [(i, vms)] else pls), st)"
| "placement_loop api now fuel st i (m # ms) vms pls =
     (if gm_Kind m = vmKind then
        (case getVMForPlacement api now (store_group st i) (gm_Name m) of
           (result, g) \<Rightarrow>
             let st = store_update st i g
             in (case result of
                   Inl err \<Rightarrow> Some (Inl err, st)
                 | Inr None \<Rightarrow> placement_loop api now fuel st i ms vms pls
                 | Inr (Some vm) \<Rightarrow> placement_loop api now fuel st i ms (vms @ [vm]) pls))
      else if gm_Kind m = vmgKind then
        (case getGroupsForPlacement api now fuel st i (gm_Name m) of
           None \<Rightarrow> None
         | Some (Inl err, st) \<Rightarrow> Some (Inl err, st)
         | Some (Inr pls', st) \<Rightarrow> placement_loop api now fuel st i ms vms (pls @ pls'))
      else placement_loop api now fuel st i ms vms pls)"
| "getGroupsForPlacement api now fuel st i groupName =
     (case read_child api (store_group st i) groupName of
        Inl err \<Rightarrow> Some (Inl err, st)
      | Inr vmGroup \<Rightarrow>
          (case fuel of
             0 \<Rightarrow> None
           | Suc fuel' \<Rightarrow> getPlacementMembers api now fuel' (st @ [(vmGroup, vmGroup)]) (length st)))"
  by pat_completeness auto

termination
  by (relation "measures
    [case_sum (\<lambda>(api, now, fuel, st, i). 3 * fuel + 2)
       (case_sum (\<lambda>(api, now, fuel, st, i, ms, vms, pls). 3 * fuel + 1) (\<lambda>(api, now, fuel, st, i, name). 3 * fuel)),
     case_sum (\<lambda>x. 0) (case_sum (\<lambda>(api, now, fuel, st, i, ms, vms, pls). length ms) (\<lambda>x. 0))]") auto

text \<open>The patches of the child groups: those whose status changed, unless they have the name of the root.\<close>

definition patch_children :: "placement_api \<Rightarrow> string \<Rightarrow> group_store \<Rightarrow> goerror list \<times> VirtualMachineGroup list" where
  "patch_children api root children =
     (let patched = filter (\<lambda>(old, g). vmg_Name g \<noteq> root) children;
          data = map (\<lambda>(old, g). (g, pl_PatchData api old g)) patched;
          errs = List.map_filter (\<lambda>(g, d).
            (case d of
               Inl err \<Rightarrow> Some (''failed to calculate placement status patch for child group '' @ go_quote (vmg_Name g) @
                 '': '' @ err)
             | Inr False \<Rightarrow> None
             | Inr True \<Rightarrow> map_option (\<lambda>err. ''failed to patch placement status for child group '' @ go_quote (vmg_Name g) @
                 '': '' @ err) (pl_StatusPatch api g))) data
      in (errs, map fst (filter (\<lambda>(g, d). d = Inr True) data)))"

text \<open>
  \<^verbatim>\<open>reconcilePlacement\<close>: the errors it joins, the group and the child groups whose status it patches. \<open>order\<close> is the
  order in which Go iterates over the map of patches.
\<close>

definition reconcilePlacement ::
    "placement_api \<Rightarrow> (group_store \<Rightarrow> group_store) \<Rightarrow> gotime \<Rightarrow> nat \<Rightarrow> VirtualMachineGroup \<Rightarrow>
     (goerror list \<times> VirtualMachineGroup \<times> VirtualMachineGroup list) option" where
  "reconcilePlacement api order now fuel vmGroup =
     (if vmg_GroupName vmGroup \<noteq> [] then Some ([], vmGroup, [])
      else case getPlacementMembers api now fuel [(vmGroup, vmGroup)] 0 of
        None \<Rightarrow> None
      | Some (Inl err, st) \<Rightarrow> Some ([''failed to get all placement members: '' @ err], store_group st 0, [])
      | Some (Inr pls, st) \<Rightarrow>
          if pls = [] then Some ([], store_group st 0, [])
          else
            (case pl_Place api (map snd st) pls of
               (err, groups) \<Rightarrow>
                 let st = zip (map fst st) groups;
                     placeErrs = (case err of None \<Rightarrow> [] | Some e \<Rightarrow> [''failed to place group members: '' @ e]);
                     (patchErrs, patched) = patch_children api (vmg_Name vmGroup) (order (tl st))
                 in Some (placeErrs @ patchErrs, store_group st 0, patched)))"

lemmas placement_simps [simp del] = getPlacementMembers.simps placement_loop.simps getGroupsForPlacement.simps

section \<open>The store\<close>

lemma store_group_update: "i < length st \<Longrightarrow> store_group (store_update st i g) j = (if j = i then g else store_group st j)"
  by (simp add: store_group_def store_update_def nth_list_update)

lemma length_store_update [simp]: "length (store_update st i g) = length st"
  by (simp add: store_update_def)

text \<open>A group of the store keeps its specification, so that a member is read once for every entry of the boot order.\<close>

lemma getVMForPlacement_spec:
  "getVMForPlacement api now g name = (r, g') \<Longrightarrow>
     vmg_BootOrder g' = vmg_BootOrder g \<and> vmg_Name g' = vmg_Name g \<and> vmg_GroupName g' = vmg_GroupName g"
  by (auto simp: getVMForPlacement_def set_member_def split: option.splits prod.splits)

text \<open>The search changes the statuses of members, never the conditions of a group.\<close>

definition keeps_conditions :: "group_store \<Rightarrow> group_store \<Rightarrow> bool" where
  "keeps_conditions st st' \<longleftrightarrow> length st \<le> length st' \<and>
     (\<forall>j < length st. vmg_Conditions (store_group st' j) = vmg_Conditions (store_group st j))"

lemma keeps_conditions_refl [simp]: "keeps_conditions st st"
  by (simp add: keeps_conditions_def)

lemma keeps_conditions_trans [trans]: "keeps_conditions st st' \<Longrightarrow> keeps_conditions st' st'' \<Longrightarrow> keeps_conditions st st''"
  by (auto simp: keeps_conditions_def)

lemma keeps_conditions_append: "keeps_conditions st (st @ xs)"
  by (simp add: keeps_conditions_def store_group_def nth_append)

lemma keeps_conditions_VM:
  assumes "getVMForPlacement api now (store_group st i) name = (r, g)" and "i < length st"
  shows "keeps_conditions st (store_update st i g)"
proof -
  have "vmg_Conditions g = vmg_Conditions (store_group st i)"
    using assms(1) by (auto simp: getVMForPlacement_def set_member_def split: option.splits prod.splits)
  then show ?thesis using assms(2) by (simp add: keeps_conditions_def store_group_update)
qed

lemma placement_conditions:
  "getPlacementMembers api now fuel st i = Some (r, st') \<Longrightarrow> i < length st \<Longrightarrow> keeps_conditions st st'"
  "placement_loop api now fuel st i ms vms pls = Some (r, st') \<Longrightarrow> i < length st \<Longrightarrow> keeps_conditions st st'"
  "getGroupsForPlacement api now fuel st i n = Some (r, st') \<Longrightarrow> i < length st \<Longrightarrow> keeps_conditions st st'"
proof (induction api now fuel st i and api now fuel st i ms vms pls and api now fuel st i n
    arbitrary: r st' and r st' and r st' rule: getPlacementMembers_placement_loop_getGroupsForPlacement.induct)
  case (1 api now fuel st i)
  then show ?case by (simp add: getPlacementMembers.simps)
next
  case (2 api now fuel st i vms pls)
  then show ?case by (simp add: placement_loop.simps)
next
  case (3 api now fuel st i m ms vms pls)
  consider (vm) "gm_Kind m = vmKind" | (vmg) "gm_Kind m \<noteq> vmKind" "gm_Kind m = vmgKind"
    | (other) "gm_Kind m \<noteq> vmKind" "gm_Kind m \<noteq> vmgKind" by blast
  then show ?case
  proof cases
    case vm
    obtain res g where g: "getVMForPlacement api now (store_group st i) (gm_Name m) = (res, g)" by fastforce
    note step = keeps_conditions_VM [OF g "3.prems"(2)]
    show ?thesis
      using "3.prems" vm g step 3(1,2) [OF vm g [symmetric] refl]
      by (cases res) (auto simp: placement_loop.simps Let_def intro: keeps_conditions_trans split: option.splits)
  next
    case vmg
    then obtain res st1 where st1: "getGroupsForPlacement api now fuel st i (gm_Name m) = Some (res, st1)"
      using "3.prems"(1) by (auto simp: placement_loop.simps split: option.splits)
    have step: "keeps_conditions st st1" by (rule 3(3) [OF vmg st1 "3.prems"(2)])
    then have "i < length st1" using "3.prems"(2) by (simp add: keeps_conditions_def)
    with "3.prems"(1) vmg st1 step 3(4) [OF vmg st1 refl] show ?thesis
      by (cases res) (auto simp: placement_loop.simps intro: keeps_conditions_trans)
  next
    case other
    with "3.prems" 3(5) [OF other] show ?thesis by (simp add: placement_loop.simps)
  qed
next
  case (4 api now fuel st i n)
  show ?case
  proof (cases "read_child api (store_group st i) n")
    case (Inr c)
    with "4.prems"(1) obtain fuel' where f: "fuel = Suc fuel'"
      and run: "getPlacementMembers api now fuel' (st @ [(c, c)]) (length st) = Some (r, st')"
      by (auto simp: getGroupsForPlacement.simps split: nat.splits)
    from 4(1) [OF Inr f run] show ?thesis using keeps_conditions_append keeps_conditions_trans by fastforce
  qed (use "4.prems" in \<open>simp add: getGroupsForPlacement.simps\<close>)
qed

section \<open>Termination\<close>

text \<open>\<open>fetched api n g\<close>: reading the group \<open>n\<close> for its placement gives \<open>g\<close>.\<close>

definition fetched :: "placement_api \<Rightarrow> string \<Rightarrow> VirtualMachineGroup \<Rightarrow> bool" where
  "fetched api n g \<longleftrightarrow> (\<exists>g0. cl_GetGroup api n = Inr g0 \<and> ensurePlacementStatusUpToDate api g0 = Inr g)"

lemma read_child_fetched: "read_child api g n = Inr c \<Longrightarrow> fetched api n c"
  by (auto simp: read_child_def fetched_def split: option.splits if_splits sum.splits)

text \<open>Groups are nested below a group at most to a depth.\<close>

fun nested_within :: "placement_api \<Rightarrow> nat \<Rightarrow> VirtualMachineGroup \<Rightarrow> bool" where
  "nested_within api 0 g \<longleftrightarrow> (\<forall>m \<in> set (spec_members g). gm_Kind m = vmgKind \<longrightarrow> (\<nexists>c. fetched api (gm_Name m) c))"
| "nested_within api (Suc d) g \<longleftrightarrow>
     (\<forall>m \<in> set (spec_members g). gm_Kind m = vmgKind \<longrightarrow> (\<forall>c. fetched api (gm_Name m) c \<longrightarrow> nested_within api d c))"

lemma placement_loop_total:
  assumes "\<forall>m \<in> set ms. gm_Kind m = vmgKind \<longrightarrow> (\<forall>st i. getGroupsForPlacement api now fuel st i (gm_Name m) \<noteq> None)"
  shows "placement_loop api now fuel st i ms vms pls \<noteq> None"
  using assms
proof (induction ms arbitrary: st vms pls)
  case Nil
  then show ?case by (simp add: placement_loop.simps)
next
  case (Cons m ms)
  then have rest: "placement_loop api now fuel st i ms vms pls \<noteq> None" for st vms pls by simp
  consider (vm) "gm_Kind m = vmKind" | (vmg) "gm_Kind m = vmgKind" | (other) "gm_Kind m \<noteq> vmKind" "gm_Kind m \<noteq> vmgKind"
    by blast
  then show ?case
  proof cases
    case vm
    with rest show ?thesis
      by (simp add: placement_loop.simps Let_def del: not_None_eq split: prod.split sum.split option.split)
  next
    case vmg
    with Cons.prems obtain r st' where "getGroupsForPlacement api now fuel st i (gm_Name m) = Some (r, st')"
      by (metis list.set_intros(1) not_None_eq old.prod.exhaust)
    with vmg rest show ?thesis by (cases r) (simp_all add: placement_loop.simps del: not_None_eq)
  next
    case other
    with rest show ?thesis by (simp add: placement_loop.simps del: not_None_eq)
  qed
qed

lemma getPlacementMembers_enough:
  "nested_within api fuel (store_group st i) \<Longrightarrow> getPlacementMembers api now fuel st i \<noteq> None"
proof (induction fuel arbitrary: st i)
  case 0
  then have "getGroupsForPlacement api now 0 st' i' (gm_Name m) \<noteq> None"
    if "m \<in> set (spec_members (store_group st i))" "gm_Kind m = vmgKind" for m st' i'
    using that by (auto simp: getGroupsForPlacement.simps dest: read_child_fetched split: sum.splits)
  then show ?case unfolding getPlacementMembers.simps by (intro placement_loop_total) auto
next
  case (Suc fuel)
  have "getGroupsForPlacement api now (Suc fuel) st' i' (gm_Name m) \<noteq> None"
    if "m \<in> set (spec_members (store_group st i))" "gm_Kind m = vmgKind" for m st' i'
  proof (cases "read_child api (store_group st' i') (gm_Name m)")
    case (Inr c)
    with Suc.prems that have "nested_within api fuel c" by (auto dest: read_child_fetched)
    then have "getPlacementMembers api now fuel (st' @ [(c, c)]) (length st') \<noteq> None"
      by (intro Suc.IH) (simp add: store_group_def)
    with Inr show ?thesis by (simp add: getGroupsForPlacement.simps)
  qed (simp add: getGroupsForPlacement.simps)
  then show ?case unfolding getPlacementMembers.simps by (intro placement_loop_total) auto
qed

text \<open>More fuel does not change a result.\<close>

lemma placement_more_fuel:
  "getPlacementMembers api now fuel st i = Some r \<Longrightarrow> getPlacementMembers api now (Suc fuel) st i = Some r"
  "placement_loop api now fuel st i ms vms pls = Some r \<Longrightarrow> placement_loop api now (Suc fuel) st i ms vms pls = Some r"
  "getGroupsForPlacement api now fuel st i n = Some r \<Longrightarrow> getGroupsForPlacement api now (Suc fuel) st i n = Some r"
proof (induction api now fuel st i and api now fuel st i ms vms pls and api now fuel st i n
    arbitrary: r and r and r rule: getPlacementMembers_placement_loop_getGroupsForPlacement.induct)
  case (1 api now fuel st i)
  then show ?case by (simp add: getPlacementMembers.simps)
next
  case (2 api now fuel st i vms pls)
  then show ?case by (simp add: placement_loop.simps)
next
  case (3 api now fuel st i m ms vms pls)
  then show ?case
    by (auto simp: placement_loop.simps Let_def split: if_splits prod.splits sum.splits option.splits)
next
  case (4 api now fuel st i n)
  then show ?case by (auto simp: getGroupsForPlacement.simps split: sum.splits nat.splits)
qed

lemma reconcilePlacement_enough:
  "nested_within api fuel g \<Longrightarrow> reconcilePlacement api order now fuel g \<noteq> None"
  using getPlacementMembers_enough [of api fuel "[(g, g)]" 0 now]
  by (auto simp: reconcilePlacement_def store_group_def Let_def split: prod.splits sum.splits)

section \<open>Cycles\<close>

text \<open>A set of groups each of which starts with a linked member group of the set.\<close>

definition placement_cycle :: "placement_api \<Rightarrow> string set \<Rightarrow> bool" where
  "placement_cycle api C \<longleftrightarrow>
     (\<forall>n \<in> C. \<forall>g. fetched api n g \<longrightarrow>
        (\<exists>n' ms c. n' \<in> C \<and> spec_members g = \<lparr>gm_Name = n', gm_Kind = vmgKind\<rparr> # ms \<and> read_child api g n' = Inr c))"

lemma placement_cycle_diverges:
  assumes "placement_cycle api C"
  shows "n \<in> C \<Longrightarrow> fetched api n (store_group st i) \<Longrightarrow> getPlacementMembers api now fuel st i = None"
proof (induction fuel arbitrary: n st i)
  case 0
  then obtain n' ms c where "spec_members (store_group st i) = \<lparr>gm_Name = n', gm_Kind = vmgKind\<rparr> # ms"
    "read_child api (store_group st i) n' = Inr c" using assms unfolding placement_cycle_def by blast
  then show ?case by (simp add: placement_simps)
next
  case (Suc fuel)
  then obtain n' ms c where n': "n' \<in> C" and ms: "spec_members (store_group st i) = \<lparr>gm_Name = n', gm_Kind = vmgKind\<rparr> # ms"
    and c: "read_child api (store_group st i) n' = Inr c" using assms unfolding placement_cycle_def by blast
  have "getPlacementMembers api now fuel (st @ [(c, c)]) (length st) = None"
    using n' read_child_fetched [OF c] by (intro Suc.IH [OF n']) (simp add: store_group_def)
  with ms c show ?case
    by (simp add: getPlacementMembers.simps [of _ _ "Suc fuel"] placement_loop.simps getGroupsForPlacement.simps)
qed

section \<open>Properties\<close>

text \<open>
  C38. The placement of a group returns, with fuel for their depth, when groups are nested below it to a bounded depth.
  It never returns, whatever the fuel, for a root group, one without a group name, whose first member is a
  linked group of a set of groups each of which has a linked group of the set as its first member: the search
  recurses without end, and its test for a cycle does not see it.
\<close>

theorem placement_termination:
  "(nested_within api fuel g \<longrightarrow> (\<exists>r. reconcilePlacement api order now fuel g = Some r)) \<and>
   (placement_cycle api C \<and> n \<in> C \<and> vmg_GroupName g = [] \<and>
    spec_members g = \<lparr>gm_Name = n, gm_Kind = vmgKind\<rparr> # ms \<and> read_child api g n = Inr c \<longrightarrow>
      reconcilePlacement api order now fuel' g = None)"
proof (intro conjI impI)
  assume "nested_within api fuel g"
  then show "\<exists>r. reconcilePlacement api order now fuel g = Some r" using reconcilePlacement_enough by blast
next
  assume a: "placement_cycle api C \<and> n \<in> C \<and> vmg_GroupName g = [] \<and>
    spec_members g = \<lparr>gm_Name = n, gm_Kind = vmgKind\<rparr> # ms \<and> read_child api g n = Inr c"
  have "getPlacementMembers api now fuel ([(g, g)] @ [(c, c)]) 1 = None" for fuel
    using a read_child_fetched [of api g n c] by (intro placement_cycle_diverges [of api C n]) (auto simp: store_group_def)
  then have "getPlacementMembers api now fuel' [(g, g)] 0 = None"
    using a by (cases fuel') (simp_all add: getPlacementMembers.simps [of _ _ _ _ 0] placement_loop.simps
        getGroupsForPlacement.simps store_group_def)
  then show "reconcilePlacement api order now fuel' g = None" using a by (simp add: reconcilePlacement_def)
qed

definition placed_group :: "string \<Rightarrow> GroupMember list \<Rightarrow> VirtualMachineGroup" where
  "placed_group name ms = \<lparr>vmg_Name = name, vmg_UID = [], vmg_Annotations = None, vmg_OwnerReferences = [],
     vmg_Finalizers = [], vmg_DeletionTimestamp = 0, vmg_GroupName = [],
     vmg_BootOrder = (if ms = [] then [] else [\<lparr>bo_Members = ms, bo_PowerOnDelay = None, bo_PowerOffDelay = None\<rparr>]),
     vmg_PowerState = [], vmg_NextForcePowerStateSyncTime = [], vmg_PowerOffMode = [], vmg_SuspendMode = [],
     vmg_Members = map (\<lambda>m. \<lparr>ms_Name = gm_Name m, ms_Kind = gm_Kind m, ms_UID = [], ms_PowerState = None,
       ms_Conditions = [TrueCondition VirtualMachineGroupMemberConditionGroupLinked]\<rparr>) ms,
     vmg_LastUpdatedPowerStateTime = None, vmg_Conditions = []\<rparr>"

definition placed_VM :: "string \<Rightarrow> string \<Rightarrow> group_VM" where
  "placed_VM name groupName = \<lparr>gvm_Name = name, gvm_UID = ''u'', gvm_Labels = None, gvm_Annotations = None,
     gvm_OwnerReferences = [], gvm_GroupName = groupName, gvm_PowerState = [], gvm_PowerOffMode = [],
     gvm_SuspendMode = [], gvm_StatusPowerState = [], gvm_UniqueID = ''vm-1'', gvm_Zone = ''z'', gvm_Conditions = []\<rparr>"

definition sample_placement_api :: "(string \<Rightarrow> GroupMember list) \<Rightarrow> placement_api" where
  "sample_placement_api members = \<lparr>cl_GetVM = \<lambda>n. Inr (placed_VM n ''a''), cl_GetGroup = \<lambda>n. Inr (placed_group n (members n)),
     pl_Read = \<lambda>n. Inr (placed_group n (members n)), pl_Place = \<lambda>gs ps. (None, gs), pl_PatchData = \<lambda>old g. Inr True,
     pl_StatusPatch = \<lambda>g. None, pl_VMAffinityDuringExecution = False\<rparr>"

abbreviation group_member :: "string \<Rightarrow> GroupMember" where
  "group_member n \<equiv> \<lparr>gm_Name = n, gm_Kind = vmgKind\<rparr>"

text \<open>The groups a and b name each other.\<close>

definition cyclic_members :: "string \<Rightarrow> GroupMember list" where
  "cyclic_members n = (if n = ''a'' then [group_member ''b''] else [group_member ''a''])"

lemma sample_ensure [simp]:
  "ensurePlacementStatusUpToDate (sample_placement_api ms) (placed_group n (ms n)) = Inr (placed_group n (ms n))"
  by (simp add: ensurePlacementStatusUpToDate_def sample_placement_api_def placed_group_def)

lemma spec_members_placed [simp]: "spec_members (placed_group n ms) = ms"
  by (simp add: spec_members_def placed_group_def)

lemma sample_read_child:
  "ms n = [group_member m] \<Longrightarrow>
     read_child (sample_placement_api ms) (placed_group n (ms n)) m = Inr (placed_group m (ms m))"
proof -
  assume "ms n = [group_member m]"
  then have "findMemberStatus m vmgKind (vmg_Members (placed_group n (ms n))) = Some 0"
    "Conditions_IsTrue (ms_Conditions (vmg_Members (placed_group n (ms n)) ! 0)) VirtualMachineGroupMemberConditionGroupLinked"
    by (simp_all add: placed_group_def Conditions_IsTrue_def TrueCondition_def)
  moreover have "cl_GetGroup (sample_placement_api ms) m = Inr (placed_group m (ms m))"
    by (simp add: sample_placement_api_def)
  ultimately show ?thesis by (simp add: read_child_def)
qed

lemma sample_fetched: "fetched (sample_placement_api ms) n g \<longleftrightarrow> g = placed_group n (ms n)"
  by (auto simp: fetched_def sample_placement_api_def)
    (auto simp: ensurePlacementStatusUpToDate_def placed_group_def sample_placement_api_def split: if_splits sum.splits)

theorem placement_termination_witness:
  "(\<exists>r. reconcilePlacement (sample_placement_api (\<lambda>n. [])) id 5 0 (placed_group ''r'' []) = Some r) \<and>
   reconcilePlacement (sample_placement_api cyclic_members) id 5 7 (placed_group ''r'' (cyclic_members ''r'')) = None"
proof -
  have within: "nested_within (sample_placement_api (\<lambda>n. [])) 0 (placed_group ''r'' [])" by simp
  have cycle: "placement_cycle (sample_placement_api cyclic_members) {''a'', ''b''}"
    unfolding placement_cycle_def sample_fetched
    by (auto simp: sample_read_child cyclic_members_def)
      (metis (no_types, lifting) sample_read_child cyclic_members_def list.inject one_neq_zero)+
  have child: "read_child (sample_placement_api cyclic_members) (placed_group ''r'' (cyclic_members ''r'')) ''a'' =
      Inr (placed_group ''a'' (cyclic_members ''a''))"
    by (rule sample_read_child) (simp add: cyclic_members_def)
  have root: "vmg_GroupName (placed_group ''r'' (cyclic_members ''r'')) = []" by (simp add: placed_group_def)
  show ?thesis
    using placement_termination [where fuel = 0 and g = "placed_group ''r'' []" and api = "sample_placement_api (\<lambda>n. [])"
        and order = id and now = 5] within
      placement_termination [where fuel' = 7 and g = "placed_group ''r'' (cyclic_members ''r'')" and n = "''a''" and ms = "[]"
        and api = "sample_placement_api cyclic_members" and C = "{''a'', ''b''}" and order = id and now = 5] cycle child root
    by (simp add: cyclic_members_def)
qed

text \<open>
  A nested group whose VM is already placed does not get to know: the search marks the member as placed in its copy
  of the nested group, but when no VM is left to place the reconcile of the root ends without writing that status.
\<close>

theorem nested_already_placed_lost:
  assumes "vmg_GroupName g = []" and "spec_members g = [group_member n]" and "read_child api g n = Inr c"
    and "spec_members c = [\<lparr>gm_Name = v, gm_Kind = vmKind\<rparr>]" and "findMemberStatus v vmKind (vmg_Members c) = Some i"
    and "i < length (vmg_Members c)" and "wf_conditions (ms_Conditions (vmg_Members c ! i))"
    and "Conditions_IsTrue (ms_Conditions (vmg_Members c ! i)) VirtualMachineGroupMemberConditionGroupLinked"
    and "\<not> Conditions_IsTrue (ms_Conditions (vmg_Members c ! i)) VirtualMachineGroupMemberConditionPlacementReady"
    and "cl_GetVM api v = Inr vm" and "gvm_GroupName vm = vmg_Name c" and "gvm_UniqueID vm \<noteq> []"
  shows "(\<exists>c'. getVMForPlacement api now c v = (Inr None, c') \<and>
      Conditions_IsTrue (ms_Conditions (vmg_Members c' ! i)) VirtualMachineGroupMemberConditionPlacementReady) \<and>
    reconcilePlacement api order now (Suc fuel) g = Some ([], g, [])"
proof -
  define m where "m = vmg_Members c ! i"
  define m' where "m' = m\<lparr>ms_UID := gvm_UID vm, ms_Conditions :=
    Conditions_Set now (ms_Conditions m) (Some (AlreadyPlaced_condition (gvm_Zone vm)))\<rparr>"
  have "place_status api now c v m = (Inr None, m')"
    using assms(8-12) by (simp add: place_status_def Let_def m_def [symmetric] m'_def)
  then have vm: "getVMForPlacement api now c v = (Inr None, set_member c i m')"
    using assms(5) by (simp add: getVMForPlacement_def m_def)
  have "Conditions_Get (ms_Conditions m') VirtualMachineGroupMemberConditionPlacementReady =
      Some (updated now (Conditions_Get (ms_Conditions m) VirtualMachineGroupMemberConditionPlacementReady)
        (AlreadyPlaced_condition (gvm_Zone vm)))"
    using slice.getc_setc [of "ms_Conditions m" now "AlreadyPlaced_condition (gvm_Zone vm)"] assms(7)
    by (simp add: m'_def m_def AlreadyPlaced_condition_def)
  then have "Conditions_IsTrue (ms_Conditions m') VirtualMachineGroupMemberConditionPlacementReady"
    using updated_state [of now _ "AlreadyPlaced_condition (gvm_Zone vm)"]
    by (simp add: Conditions_IsTrue_def hasSameState_def AlreadyPlaced_condition_def)
  moreover have "getPlacementMembers api now (Suc fuel) [(g, g)] 0 = Some (Inr [], [(g, g), (c, set_member c i m')])"
    using assms(2-4) vm
    by (simp add: placement_simps store_group_def store_update_def Let_def)
  ultimately show ?thesis
    using vm assms(1,6) by (simp add: reconcilePlacement_def set_member_def store_group_def)
qed

theorem nested_already_placed_lost_witness:
  "reconcilePlacement (sample_placement_api (\<lambda>n. if n = ''a'' then [\<lparr>gm_Name = ''v'', gm_Kind = vmKind\<rparr>] else [group_member ''a'']))
     id 5 1 (placed_group ''r'' [group_member ''a'']) = Some ([], placed_group ''r'' [group_member ''a''], [])"
proof -
  let ?ms = "\<lambda>n. if n = ''a'' then [\<lparr>gm_Name = ''v'', gm_Kind = vmKind\<rparr>] else [group_member ''a'']"
  let ?c = "placed_group ''a'' [\<lparr>gm_Name = ''v'', gm_Kind = vmKind\<rparr>]"
  have child: "read_child (sample_placement_api ?ms) (placed_group ''r'' [group_member ''a'']) ''a'' = Inr ?c"
    using sample_read_child [of ?ms "''r''" "''a''"] by simp
  have st: "vmg_Members ?c = [\<lparr>ms_Name = ''v'', ms_Kind = vmKind, ms_UID = [], ms_PowerState = None,
      ms_Conditions = [TrueCondition VirtualMachineGroupMemberConditionGroupLinked]\<rparr>]"
    by (simp add: placed_group_def)
  show ?thesis
    using nested_already_placed_lost [where g = "placed_group ''r'' [group_member ''a'']" and n = "''a''" and c = ?c
        and v = "''v''" and i = 0 and vm = "placed_VM ''v'' ''a''" and api = "sample_placement_api ?ms" and fuel = 0
        and order = id and now = 5] child st
    by (simp add: wf_conditions_def Conditions_IsTrue_def TrueCondition_def group_conditions)
      (simp add: placed_group_def sample_placement_api_def placed_VM_def)
qed

end
