(* ===== verification/Group_Reconcile.thy ===== *)
theory Group_Reconcile
  imports Group_Placement
begin

text \<open>
  The VM group controller, \<^verbatim>\<open>controllers/virtualmachinegroup/virtualmachinegroup_controller.go\<close>: the link of a
  group to its parent, the reconcile of its members with the propagation of the power state, the Ready condition and
  the whole reconcile. The answers of the API server and of the Kubernetes library are the record \<open>group_api\<close>; the
  requests that change members are collected in a list. An error carries whether it forbids a requeue. A time that
  cannot be parsed is reported with the error of the standard library, the field \<open>ga_ParseError\<close>.
\<close>

section \<open>Errors and answers\<close>

record group_error =
  ge_Text :: goerror
  ge_NoRequeue :: bool

abbreviation requeue_error :: "goerror \<Rightarrow> group_error" where
  "requeue_error e \<equiv> \<lparr>ge_Text = e, ge_NoRequeue = False\<rparr>"

abbreviation no_requeue_error :: "goerror \<Rightarrow> group_error" where
  "no_requeue_error e \<equiv> \<lparr>ge_Text = e, ge_NoRequeue = True\<rparr>"

text \<open>\<^verbatim>\<open>fmt.Errorf\<close> with the verb \<^verbatim>\<open>%w\<close> wraps an error.\<close>

definition wrap_error :: "string \<Rightarrow> group_error \<Rightarrow> group_error" where
  "wrap_error prefix e = e\<lparr>ge_Text := prefix @ ge_Text e\<rparr>"

text \<open>
  \<open>ga_GetOther\<close> answers a read without an object, for a kind outside the enumeration of the API; \<open>ga_PatchMember\<close>
  answers with an error or with the object as the server has it; \<open>ga_Aggregate\<close> and \<open>ga_Join\<close> combine errors.
\<close>

record group_api = placement_api +
  ga_GetOther :: "string \<Rightarrow> string \<Rightarrow> api_error"
  ga_SetOwnerReference :: "VirtualMachineGroup \<Rightarrow> OwnerReference list \<Rightarrow> goerror + OwnerReference list"
  ga_PatchMember :: "VirtualMachineOrGroup \<Rightarrow> goerror + VirtualMachineOrGroup"
  ga_Aggregate :: "group_error list \<Rightarrow> group_error"
  ga_Join :: "goerror list \<Rightarrow> goerror"
  ga_ParseError :: "string \<Rightarrow> goerror"
  ga_PatchOrder :: "group_store \<Rightarrow> group_store"

section \<open>Power state\<close>

definition shouldUpdatePowerState :: "group_api \<Rightarrow> VirtualMachineGroup \<Rightarrow> group_error + bool \<times> go_Time" where
  "shouldUpdatePowerState api g =
     (if vmg_PowerState g = [] then Inr (False, time_Zero)
      else
        let val = map_value (vmg_Annotations g) LastUpdatedPowerStateTimeAnnotation
        in case (if val = [] then Some time_Zero else time_Parse val) of
          None \<Rightarrow> Inl (requeue_error (ga_ParseError api val))
        | Some lastUpdateAnnotation \<Rightarrow>
            (case vmg_LastUpdatedPowerStateTime g of
               Some t \<Rightarrow> if time_After (time_UTC t) lastUpdateAnnotation then Inr (False, lastUpdateAnnotation)
                         else Inr (True, lastUpdateAnnotation)
             | None \<Rightarrow> Inr (True, lastUpdateAnnotation)))"

definition reverseBootOrder :: "VirtualMachineGroupBootOrderGroup list \<Rightarrow> VirtualMachineGroupBootOrderGroup list" where
  "reverseBootOrder bootOrders = rev bootOrders"

definition apply_annotation :: "string \<Rightarrow> labels option \<Rightarrow> go_Time \<Rightarrow> labels option" where
  "apply_annotation ps annotations t =
     (if ps = VirtualMachinePowerStateOn \<or> ps = VirtualMachinePowerStateOff
      then Some ((labels_of annotations)(ApplyPowerStateTimeAnnotation \<mapsto> time_Format t)) else annotations)"

fun updateMemberPowerState :: "VirtualMachineGroup \<Rightarrow> VirtualMachineOrGroup \<Rightarrow> go_Time \<Rightarrow> VirtualMachineOrGroup" where
  "updateMemberPowerState g (MemberVM obj) t =
     MemberVM (obj\<lparr>gvm_PowerState := vmg_PowerState g, gvm_PowerOffMode := vmg_PowerOffMode g,
       gvm_SuspendMode := vmg_SuspendMode g, gvm_Annotations := apply_annotation (vmg_PowerState g) (gvm_Annotations obj) t\<rparr>)"
| "updateMemberPowerState g (MemberGroup obj) t =
     MemberGroup (obj\<lparr>vmg_PowerState := vmg_PowerState g, vmg_PowerOffMode := vmg_PowerOffMode g,
       vmg_SuspendMode := vmg_SuspendMode g, vmg_Annotations := apply_annotation (vmg_PowerState g) (vmg_Annotations obj) t\<rparr>)"

section \<open>Members\<close>

definition read_member :: "group_api \<Rightarrow> GroupMember \<Rightarrow> api_error + VirtualMachineOrGroup" where
  "read_member api member =
     (if gm_Kind member = vmKind then map_sum id MemberVM (cl_GetVM api (gm_Name member))
      else if gm_Kind member = vmgKind then map_sum id MemberGroup (cl_GetGroup api (gm_Name member))
      else Inl (ga_GetOther api (gm_Kind member) (gm_Name member)))"

definition mark_linked ::
    "gotime \<Rightarrow> VirtualMachineGroupMemberStatus \<Rightarrow> string \<Rightarrow> goerror \<Rightarrow> VirtualMachineGroupMemberStatus" where
  "mark_linked now ms r msg = ms\<lparr>ms_Conditions :=
     Conditions_MarkFalse now (ms_Conditions ms) VirtualMachineGroupMemberConditionGroupLinked r msg\<rparr>"

text \<open>The part of \<^verbatim>\<open>reconcileMember\<close> between the owner reference and the label \<^verbatim>\<open>patchMember\<close>.\<close>

definition sync_member ::
    "gotime \<Rightarrow> VirtualMachineGroup \<Rightarrow> bool \<Rightarrow> go_Time \<Rightarrow> VirtualMachineGroupMemberStatus \<Rightarrow> VirtualMachineOrGroup \<Rightarrow>
     VirtualMachineGroupMemberStatus \<times> VirtualMachineOrGroup" where
  "sync_member now g updatePowerState t ms obj =
     (let synced = VirtualMachineGroupMemberConditionPowerStateSynced
      in case obj of
        MemberVM vm \<Rightarrow>
          let vmStatusPowerState = OrGroup_GetPowerState obj;
              ms = ms\<lparr>ms_PowerState := (if vmStatusPowerState = [] then None else Some vmStatusPowerState)\<rparr>
          in if vmg_PowerState g = []
             then (ms\<lparr>ms_Conditions := Conditions_Delete (ms_Conditions ms) synced\<rparr>, obj)
             else if vmStatusPowerState = vmg_PowerState g
             then (ms\<lparr>ms_Conditions := Conditions_MarkTrue now (ms_Conditions ms) synced\<rparr>, obj)
             else
               let vmSpecMatchGroup = (gvm_PowerState vm = vmg_PowerState g);
                   ms = ms\<lparr>ms_Conditions := Conditions_MarkFalse now (ms_Conditions ms) synced
                     (if updatePowerState \<or> vmSpecMatchGroup then ''Pending'' else ''NotSynced'') []\<rparr>
               in (ms, if updatePowerState then updateMemberPowerState g obj t else obj)
      | MemberGroup vmg \<Rightarrow> (ms, if updatePowerState then updateMemberPowerState g obj t else obj))"

definition patch_member ::
    "group_api \<Rightarrow> gotime \<Rightarrow> bool \<Rightarrow> string \<Rightarrow> VirtualMachineGroupMemberStatus \<Rightarrow> VirtualMachineOrGroup \<Rightarrow>
     group_error option \<times> VirtualMachineGroupMemberStatus" where
  "patch_member api now updatePowerState memberKindAndName ms obj =
     (case ga_PatchMember api obj of
        Inl err \<Rightarrow>
          let ms = mark_linked now ms ''OwnerRefPatchError'' err;
              ms = (if updatePowerState
                then ms\<lparr>ms_Conditions := Conditions_MarkError now (ms_Conditions ms)
                  VirtualMachineGroupMemberConditionPowerStateSynced ''PowerStatePatchError'' err\<rparr>
                else ms)
          in (Some (requeue_error (''failed to patch group member '' @ go_quote memberKindAndName @ '': '' @ err)), ms)
      | Inr obj \<Rightarrow>
          let ms = ms\<lparr>ms_Conditions :=
            Conditions_MarkTrue now (ms_Conditions ms) VirtualMachineGroupMemberConditionGroupLinked\<rparr>
          in (None,
            (case obj of
               MemberGroup vmg \<Rightarrow> ms\<lparr>ms_Conditions := Conditions_SetMirror now (ms_Conditions ms) ReadyConditionType
                 \<lparr>conds = vmg_Conditions vmg, objName = Some (vmg_Name vmg), objKind = Some vmgKind\<rparr> []\<rparr>
             | MemberVM vm \<Rightarrow> ms)))"

text \<open>\<^verbatim>\<open>reconcileMember\<close>: the error, the status of the member, and the object it sends to the server.\<close>

definition reconcileMember ::
    "group_api \<Rightarrow> gotime \<Rightarrow> VirtualMachineGroup \<Rightarrow> GroupMember \<Rightarrow> VirtualMachineGroupMemberStatus \<Rightarrow> bool \<Rightarrow> go_Time \<Rightarrow>
     group_error option \<times> VirtualMachineGroupMemberStatus \<times> VirtualMachineOrGroup option" where
  "reconcileMember api now g member ms updatePowerState applyPowerStateTime =
     (let memberKindAndName = gm_Kind member @ ''/'' @ gm_Name member
      in case read_member api member of
        Inl err \<Rightarrow>
          if \<not> IsNotFound err
          then (Some (requeue_error (api_error_text err)), mark_linked now ms ''Error'' (api_error_text err), None)
          else (Some (no_requeue_error (''member '' @ go_quote memberKindAndName @ '' not found'')),
                mark_linked now ms ''NotFound'' [], None)
      | Inr obj \<Rightarrow>
          if GetGroupName obj \<noteq> vmg_Name g then
            let groupNameErr =
              (if GetGroupName obj = [] then ''member '' @ go_quote memberKindAndName @ '' has no group name''
               else ''member '' @ go_quote memberKindAndName @ '' has different group name: '' @ go_quote (GetGroupName obj))
            in (Some (no_requeue_error groupNameErr), mark_linked now ms ''NotMember'' groupNameErr, None)
          else case ga_SetOwnerReference api g (GetOwnerReferences obj) of
            Inl err \<Rightarrow>
              (Some (requeue_error (''failed to set owner reference to member '' @ go_quote memberKindAndName @ '': '' @ err)),
               mark_linked now ms ''SetOwnerRefError'' err, None)
          | Inr refs \<Rightarrow>
              (case sync_member now g updatePowerState applyPowerStateTime ms (SetOwnerReferences obj refs) of
                 (ms, obj) \<Rightarrow>
                   (case patch_member api now updatePowerState memberKindAndName ms obj of
                      (err, ms) \<Rightarrow> (err, ms, Some obj))))"

definition aggregateOrNoRequeue :: "group_api \<Rightarrow> group_error list \<Rightarrow> group_error option" where
  "aggregateOrNoRequeue api errs =
     (if errs = [] then None
      else
        let agg = ga_Aggregate api errs
        in if list_all ge_NoRequeue errs then Some (no_requeue_error (ge_Text agg)) else Some agg)"

text \<open>The status to start from: the last one of the kind and name, or a new one.\<close>

definition existing_status :: "VirtualMachineGroup \<Rightarrow> GroupMember \<Rightarrow> VirtualMachineGroupMemberStatus" where
  "existing_status g member =
     (case map_of (rev (map (\<lambda>m. (ms_Kind m @ ''/'' @ ms_Name m, m)) (vmg_Members g)))
         (gm_Kind member @ ''/'' @ gm_Name member) of
        Some m \<Rightarrow> m
      | None \<Rightarrow> \<lparr>ms_Name = gm_Name member, ms_Kind = gm_Kind member, ms_UID = [], ms_PowerState = None, ms_Conditions = []\<rparr>)"

definition boot_order_delay :: "string \<Rightarrow> VirtualMachineGroupBootOrderGroup \<Rightarrow> int" where
  "boot_order_delay ps bo =
     (if ps = VirtualMachinePowerStateOn then (case bo_PowerOnDelay bo of Some d \<Rightarrow> d | None \<Rightarrow> 0)
      else if ps = VirtualMachinePowerStateOff then (case bo_PowerOffDelay bo of Some d \<Rightarrow> d | None \<Rightarrow> 0)
      else 0)"

type_synonym member_results =
  "(group_error option \<times> VirtualMachineGroupMemberStatus \<times> VirtualMachineOrGroup option) list"

text \<open>The loop over the boot orders, with the time that accumulates their delays.\<close>

fun boot_order_loop ::
    "group_api \<Rightarrow> gotime \<Rightarrow> VirtualMachineGroup \<Rightarrow> bool \<Rightarrow> VirtualMachineGroupBootOrderGroup list \<Rightarrow> go_Time \<Rightarrow> member_results" where
  "boot_order_loop api now g updatePowerState [] t = []"
| "boot_order_loop api now g updatePowerState (bo # bos) t =
     (let t = (if updatePowerState then time_Add t (boot_order_delay (vmg_PowerState g) bo) else t)
      in map (\<lambda>member. reconcileMember api now g member (existing_status g member) updatePowerState t) (bo_Members bo) @
         boot_order_loop api now g updatePowerState bos t)"

text \<open>The time that the members' delays count from: set by the parent group, or the time of the last update.\<close>

definition base_time :: "group_api \<Rightarrow> VirtualMachineGroup \<Rightarrow> bool \<Rightarrow> go_Time \<Rightarrow> group_error + go_Time" where
  "base_time api g updatePowerState lastUpdateAnnoTime =
     (let v = map_value (vmg_Annotations g) ApplyPowerStateTimeAnnotation
      in case (if updatePowerState \<and>
                  (vmg_PowerState g = VirtualMachinePowerStateOn \<or> vmg_PowerState g = VirtualMachinePowerStateOff) \<and> v \<noteq> []
               then time_Parse v else Some time_Zero) of
        None \<Rightarrow> Inl (requeue_error (ga_ParseError api v))
      | Some t \<Rightarrow> Inr (if instant t = 0 then lastUpdateAnnoTime else t))"

text \<open>Powering off goes through the boot orders from the last to the first.\<close>

definition processing_order :: "VirtualMachineGroup \<Rightarrow> VirtualMachineGroupBootOrderGroup list" where
  "processing_order g =
     (if vmg_PowerState g = VirtualMachinePowerStateOff then reverseBootOrder (vmg_BootOrder g) else vmg_BootOrder g)"

definition reconcileMembers ::
    "group_api \<Rightarrow> gotime \<Rightarrow> VirtualMachineGroup \<Rightarrow> group_error option \<times> VirtualMachineGroup \<times> VirtualMachineOrGroup list" where
  "reconcileMembers api now g =
     (case shouldUpdatePowerState api g of
        Inl err \<Rightarrow> (Some err, g, [])
      | Inr (updatePowerState, lastUpdateAnnoTime) \<Rightarrow>
          (case base_time api g updatePowerState lastUpdateAnnoTime of
             Inl err \<Rightarrow> (Some err, g, [])
           | Inr t \<Rightarrow>
               let results = boot_order_loop api now g updatePowerState (processing_order g) t;
                   memberErrs = List.map_filter fst results;
                   g = (if updatePowerState \<and> memberErrs = [] then g\<lparr>vmg_LastUpdatedPowerStateTime := Some now\<rparr> else g);
                   g = g\<lparr>vmg_Members := map (fst \<circ> snd) results\<rparr>
               in (aggregateOrNoRequeue api memberErrs, g, List.map_filter (snd \<circ> snd) results)))"

section \<open>The group\<close>

definition vmg_finalizerName :: string where
  "vmg_finalizerName = ''vmoperator.vmware.com/virtualmachinegroup''"

definition reconcileGroupName :: "group_api \<Rightarrow> gotime \<Rightarrow> VirtualMachineGroup \<Rightarrow> group_error option \<times> VirtualMachineGroup" where
  "reconcileGroupName api now g =
     (case UpdateGroupLinkedCondition now (group_client.truncate api) (MemberGroup g) of
        (Some err, MemberGroup g) \<Rightarrow>
          (Some (requeue_error (''failed to update group linked condition: '' @ api_error_text err)), g)
      | (None, MemberGroup g) \<Rightarrow>
          if Conditions_IsFalse (vmg_Conditions g) VirtualMachineGroupMemberConditionGroupLinked
          then (Some (requeue_error ''group is not linked to its parent group''), g) else (None, g)
      | (_, MemberVM vm) \<Rightarrow> (None, g))"

definition last_condition :: "conditions \<Rightarrow> string \<Rightarrow> condition option" where
  "last_condition cs t = map_of (rev (map (\<lambda>c. (ctype c, c)) cs)) t"

fun first_not_true :: "string \<Rightarrow> conditions \<Rightarrow> string option" where
  "first_not_true memberKey [] = None"
| "first_not_true memberKey (c # cs) =
     (if cstatus c \<noteq> ConditionTrue then Some (memberKey @ '' condition '' @ ctype c @ '' is '' @ cstatus c)
      else first_not_true memberKey cs)"

fun first_unexpected :: "string \<Rightarrow> conditions \<Rightarrow> string list \<Rightarrow> string option" where
  "first_unexpected memberKey cs [] = None"
| "first_unexpected memberKey cs (t # ts) =
     (case last_condition cs t of
        None \<Rightarrow> Some (memberKey @ '' missing condition '' @ t)
      | Some c \<Rightarrow>
          if cstatus c \<noteq> ConditionTrue then Some (memberKey @ '' condition '' @ t @ '' is '' @ cstatus c)
          else first_unexpected memberKey cs ts)"

definition expected_conditions :: "string \<Rightarrow> string list" where
  "expected_conditions kind =
     (if kind = vmKind
      then [VirtualMachineGroupMemberConditionGroupLinked, VirtualMachineGroupMemberConditionPlacementReady]
      else if kind = vmgKind then [VirtualMachineGroupMemberConditionGroupLinked, ReadyConditionType]
      else [])"

text \<open>The reason for which a member is not ready, if any.\<close>

definition isMemberReady :: "VirtualMachineGroupMemberStatus \<Rightarrow> string option" where
  "isMemberReady ms =
     (let memberKey = ms_Kind ms @ ''/'' @ ms_Name ms
      in case first_unexpected memberKey (ms_Conditions ms) (expected_conditions (ms_Kind ms)) of
        Some r \<Rightarrow> Some r
      | None \<Rightarrow> first_not_true memberKey (ms_Conditions ms))"

definition setReadyCondition :: "gotime \<Rightarrow> VirtualMachineGroup \<Rightarrow> group_error option \<Rightarrow> VirtualMachineGroup" where
  "setReadyCondition now g err =
     (let cs = vmg_Conditions g;
          failureReasons = List.map_filter isMemberReady (vmg_Members g)
      in if err = None \<and> vmg_Members g = [] then g\<lparr>vmg_Conditions := Conditions_MarkTrue now cs ReadyConditionType\<rparr>
         else if failureReasons \<noteq> []
         then g\<lparr>vmg_Conditions := Conditions_MarkFalse now cs ReadyConditionType ''MembersNotReady''
           (show_nat (length failureReasons) @ '' of '' @ show_nat (length (vmg_Members g)) @ '' members not ready'' @
            '': '' @ go_join ''; '' failureReasons)\<rparr>
         else case err of
           None \<Rightarrow> g\<lparr>vmg_Conditions := Conditions_MarkTrue now cs ReadyConditionType\<rparr>
         | Some e \<Rightarrow> g\<lparr>vmg_Conditions := Conditions_MarkError now cs ReadyConditionType ''Error'' (ge_Text e)\<rparr>)"

text \<open>
  The steps of \<^verbatim>\<open>ReconcileNormal\<close> before the deferred Ready condition: the error, the group, the members patched and
  the child groups patched.
\<close>

definition reconcile_steps ::
    "group_api \<Rightarrow> gotime \<Rightarrow> nat \<Rightarrow> VirtualMachineGroup \<Rightarrow>
     (group_error option \<times> VirtualMachineGroup \<times> VirtualMachineOrGroup list \<times> VirtualMachineGroup list) option" where
  "reconcile_steps api now fuel g =
     (case reconcileGroupName api now g of
        (Some err, g) \<Rightarrow> Some (Some (wrap_error ''failed to reconcile group name: '' err), g, [], [])
      | (None, g) \<Rightarrow>
          (case reconcileMembers api now g of
             (Some err, g, patched) \<Rightarrow> Some (Some (wrap_error ''failed to reconcile group members: '' err), g, patched, [])
           | (None, g, patched) \<Rightarrow>
               (case reconcilePlacement (placement_api.truncate api) (ga_PatchOrder api) now fuel g of
                  None \<Rightarrow> None
                | Some (errs, g, children) \<Rightarrow>
                    Some (if errs = [] then None
                          else Some (requeue_error (''failed to reconcile group placement: '' @ ga_Join api errs)),
                          g, patched, children))))"

definition vmg_ReconcileNormal ::
    "group_api \<Rightarrow> gotime \<Rightarrow> nat \<Rightarrow> VirtualMachineGroup \<Rightarrow>
     (group_error option \<times> VirtualMachineGroup \<times> VirtualMachineOrGroup list \<times> VirtualMachineGroup list) option" where
  "vmg_ReconcileNormal api now fuel g =
     (if vmg_finalizerName \<notin> set (vmg_Finalizers g)
      then Some (None, g\<lparr>vmg_Finalizers := vmg_Finalizers g @ [vmg_finalizerName]\<rparr>, [], [])
      else map_option (\<lambda>(err, g, patched, children). (err, setReadyCondition now g err, patched, children))
        (reconcile_steps api now fuel g))"

definition vmg_ReconcileDelete :: "VirtualMachineGroup \<Rightarrow> VirtualMachineGroup" where
  "vmg_ReconcileDelete g = g\<lparr>vmg_Finalizers := filter (\<lambda>f. f \<noteq> vmg_finalizerName) (vmg_Finalizers g)\<rparr>"

text \<open>
  \<^verbatim>\<open>Reconcile\<close>, from the read of the group to the patch of the object: the error and what is written, if anything. The
  reads of the group are the fields \<open>cl_GetGroup\<close> and \<open>pl_Read\<close>.
\<close>

definition vmg_Reconcile ::
    "group_api \<Rightarrow> gotime \<Rightarrow> nat \<Rightarrow> string \<Rightarrow>
     (group_error option \<times> (VirtualMachineGroup \<times> VirtualMachineOrGroup list \<times> VirtualMachineGroup list) option) option" where
  "vmg_Reconcile api now fuel name =
     (case cl_GetGroup api name of
        Inl err \<Rightarrow> Some (if IsNotFound err then None else Some (requeue_error (api_error_text err)), None)
      | Inr g \<Rightarrow>
          (case ensurePlacementStatusUpToDate (placement_api.truncate api) g of
             Inl (err, text) \<Rightarrow> Some (if IsNotFound err then None else Some (requeue_error text), None)
           | Inr g \<Rightarrow>
               if \<not> time_IsZero (vmg_DeletionTimestamp g) then Some (None, Some (vmg_ReconcileDelete g, [], []))
               else map_option (\<lambda>(err, g, patched, children). (err, Some (g, patched, children)))
                 (vmg_ReconcileNormal api now fuel g)))"

end
