(* ===== verification/Group_Sync.thy ===== *)
theory Group_Sync
  imports Group_Reconcile
begin

text \<open>
  Properties of the VM group controller: the times at which the members of a group change their power state, that a
  change of the group's power state is applied once, that a group and its member agree on their link, and
  what the Ready condition of a group says.
\<close>

section \<open>Members\<close>

lemma OrGroup_Set_GetOwner [simp]:
  "OrGroup_GetName (SetOwnerReferences obj refs) = OrGroup_GetName obj"
  "GetMemberKind (SetOwnerReferences obj refs) = GetMemberKind obj"
  "GetGroupName (SetOwnerReferences obj refs) = GetGroupName obj"
  "OrGroup_GetPowerState (SetOwnerReferences obj refs) = OrGroup_GetPowerState obj"
  by (cases obj; simp)+

text \<open>What a group sets of the power state of a member.\<close>

fun power_spec :: "VirtualMachineOrGroup \<Rightarrow> string \<times> string \<times> string" where
  "power_spec (MemberVM vm) = (gvm_PowerState vm, gvm_PowerOffMode vm, gvm_SuspendMode vm)"
| "power_spec (MemberGroup g) = (vmg_PowerState g, vmg_PowerOffMode g, vmg_SuspendMode g)"

fun member_annotations :: "VirtualMachineOrGroup \<Rightarrow> labels option" where
  "member_annotations (MemberVM vm) = gvm_Annotations vm"
| "member_annotations (MemberGroup g) = vmg_Annotations g"

lemma SetOwner_power [simp]:
  "power_spec (SetOwnerReferences obj refs) = power_spec obj"
  "member_annotations (SetOwnerReferences obj refs) = member_annotations obj"
  by (cases obj; simp)+

lemma updateMemberPowerState_simps [simp]:
  "power_spec (updateMemberPowerState g obj t) = (vmg_PowerState g, vmg_PowerOffMode g, vmg_SuspendMode g)"
  "member_annotations (updateMemberPowerState g obj t) = apply_annotation (vmg_PowerState g) (member_annotations obj) t"
  "OrGroup_GetName (updateMemberPowerState g obj t) = OrGroup_GetName obj"
  "GetMemberKind (updateMemberPowerState g obj t) = GetMemberKind obj"
  "GetGroupName (updateMemberPowerState g obj t) = GetGroupName obj"
  "OrGroup_GetPowerState (updateMemberPowerState g obj t) = OrGroup_GetPowerState obj"
  by (cases obj; simp)+

text \<open>The two outcomes of the synchronisation for the object: it is left alone, or the power state is set.\<close>

lemma sync_member_object:
  "snd (sync_member now g update t ms obj) =
     (if update \<and> (GetMemberKind obj = vmKind \<longrightarrow> vmg_PowerState g \<noteq> [] \<and> OrGroup_GetPowerState obj \<noteq> vmg_PowerState g)
      then updateMemberPowerState g obj t else obj)"
  by (cases obj) (auto simp: sync_member_def Let_def vmKind_def)

text \<open>The object sent for a member, in terms of the object read.\<close>

definition sent_object ::
    "group_api \<Rightarrow> VirtualMachineGroup \<Rightarrow> bool \<Rightarrow> go_Time \<Rightarrow> VirtualMachineOrGroup \<Rightarrow> VirtualMachineOrGroup \<Rightarrow> bool" where
  "sent_object api g update t obj obj' \<longleftrightarrow>
     GetGroupName obj = vmg_Name g \<and>
     (\<exists>refs. ga_SetOwnerReference api g (GetOwnerReferences obj) = Inr refs \<and>
       obj' = (let obj = SetOwnerReferences obj refs
         in if update \<and> (GetMemberKind obj = vmKind \<longrightarrow> vmg_PowerState g \<noteq> [] \<and> OrGroup_GetPowerState obj \<noteq> vmg_PowerState g)
            then updateMemberPowerState g obj t else obj))"

lemma reconcileMember_sent:
  assumes "reconcileMember api now g m ms update t = (err, ms', Some obj')"
  shows "\<exists>obj. read_member api m = Inr obj \<and> sent_object api g update t obj obj'"
proof -
  from assms obtain obj refs where r: "read_member api m = Inr obj" "GetGroupName obj = vmg_Name g"
      "ga_SetOwnerReference api g (GetOwnerReferences obj) = Inr refs"
    and ob: "obj' = snd (sync_member now g update t ms (SetOwnerReferences obj refs))"
    by (auto simp: reconcileMember_def Let_def split: sum.splits if_splits prod.splits)
  then show ?thesis by (intro exI [of _ obj]) (simp add: sent_object_def Let_def sync_member_object)
qed

lemma read_member_kind:
  assumes "client_names (group_client.truncate api)" and "read_member api m = Inr obj"
  shows "GetMemberKind obj = gm_Kind m \<and> OrGroup_GetName obj = gm_Name m"
  using assms
  by (cases "cl_GetVM api (gm_Name m)"; cases "cl_GetGroup api (gm_Name m)")
    (auto simp: read_member_def client_names_def group_client.defs vmKind_def vmgKind_def split: if_splits)

lemma sent_object_power:
  assumes "sent_object api g True t obj obj'"
    and "vmg_PowerState g \<in> {VirtualMachinePowerStateOn, VirtualMachinePowerStateOff}"
  shows "GetMemberKind obj' = GetMemberKind obj \<and> OrGroup_GetName obj' = OrGroup_GetName obj \<and>
    (if GetMemberKind obj = vmKind \<and> OrGroup_GetPowerState obj = vmg_PowerState g
     then power_spec obj' = power_spec obj \<and> member_annotations obj' = member_annotations obj
     else power_spec obj' = (vmg_PowerState g, vmg_PowerOffMode g, vmg_SuspendMode g) \<and>
       map_value (member_annotations obj') ApplyPowerStateTimeAnnotation = time_Format t)"
proof -
  obtain refs where o': "obj' = (let obj = SetOwnerReferences obj refs
      in if GetMemberKind obj = vmKind \<longrightarrow> vmg_PowerState g \<noteq> [] \<and> OrGroup_GetPowerState obj \<noteq> vmg_PowerState g
         then updateMemberPowerState g obj t else obj)"
    using assms(1) by (auto simp: sent_object_def Let_def)
  have "vmg_PowerState g \<noteq> []" using assms(2) by (auto simp: VirtualMachinePowerStateOn_def VirtualMachinePowerStateOff_def)
  then show ?thesis
    using assms(2) unfolding o'
    by (cases "GetMemberKind obj = vmKind \<and> OrGroup_GetPowerState obj = vmg_PowerState g")
      (simp_all add: Let_def apply_annotation_def)
qed

section \<open>Times\<close>

definition delay_until :: "string \<Rightarrow> VirtualMachineGroupBootOrderGroup list \<Rightarrow> nat \<Rightarrow> int" where
  "delay_until ps bos k = sum_list (map (boot_order_delay ps) (take (Suc k) bos))"

lemma boot_order_loop_in:
  "r \<in> set (boot_order_loop api now g update bos t) \<Longrightarrow>
     \<exists>k < length bos. \<exists>m \<in> set (bo_Members (bos ! k)).
       r = reconcileMember api now g m (existing_status g m) update
         (if update then time_Add t (delay_until (vmg_PowerState g) bos k) else t)"
proof (induction bos arbitrary: t)
  case Nil
  then show ?case by simp
next
  case (Cons bo bos)
  let ?t = "if update then time_Add t (boot_order_delay (vmg_PowerState g) bo) else t"
  from Cons.prems consider (here) m where "m \<in> set (bo_Members bo)" "r = reconcileMember api now g m (existing_status g m) update ?t"
    | (there) "r \<in> set (boot_order_loop api now g update bos ?t)"
    by (auto simp: Let_def)
  then show ?case
  proof cases
    case here
    then show ?thesis by (intro exI [of _ 0]) (auto simp: delay_until_def)
  next
    case there
    from Cons.IH [OF this] obtain k m where k: "k < length bos" "m \<in> set (bo_Members (bos ! k))"
      "r = reconcileMember api now g m (existing_status g m) update
         (if update then time_Add ?t (delay_until (vmg_PowerState g) bos k) else ?t)" by blast
    then show ?thesis
      by (intro exI [of _ "Suc k"]) (auto simp: delay_until_def time_Add_def add.assoc)
  qed
qed

lemma reconcileMembers_sent:
  assumes "reconcileMembers api now g = (err, g', patched)" and "obj' \<in> set patched"
  shows "\<exists>update lastUpdate t k m obj. shouldUpdatePowerState api g = Inr (update, lastUpdate) \<and> base_time api g update lastUpdate = Inr t \<and>
    k < length (processing_order g) \<and> m \<in> set (bo_Members (processing_order g ! k)) \<and> read_member api m = Inr obj \<and>
    sent_object api g update (if update then time_Add t (delay_until (vmg_PowerState g) (processing_order g) k) else t) obj obj'"
proof -
  from assms obtain update lastUpdate t where u: "shouldUpdatePowerState api g = Inr (update, lastUpdate)" "base_time api g update lastUpdate = Inr t"
    and p: "patched = List.map_filter (snd \<circ> snd) (boot_order_loop api now g update (processing_order g) t)"
    by (auto simp: reconcileMembers_def Let_def split: sum.splits prod.splits)
  from assms(2) p obtain r where "r \<in> set (boot_order_loop api now g update (processing_order g) t)" "snd (snd r) = Some obj'"
    by (auto simp: List.map_filter_def)
  with u show ?thesis
    using boot_order_loop_in [of r] reconcileMember_sent by (metis prod.collapse)
qed

text \<open>
  The delay of the members of a boot order: powering on waits for the delays of the orders up to it, powering off
  for those of the orders from it on.
\<close>

definition boot_delay :: "VirtualMachineGroup \<Rightarrow> nat \<Rightarrow> int" where
  "boot_delay g k =
     (if vmg_PowerState g = VirtualMachinePowerStateOn
      then sum_list (map (\<lambda>bo. case bo_PowerOnDelay bo of Some d \<Rightarrow> d | None \<Rightarrow> 0) (take (Suc k) (vmg_BootOrder g)))
      else sum_list (map (\<lambda>bo. case bo_PowerOffDelay bo of Some d \<Rightarrow> d | None \<Rightarrow> 0) (drop k (vmg_BootOrder g))))"

lemma processing_order_index:
  assumes "k < length (processing_order g)" and "vmg_PowerState g \<in> {VirtualMachinePowerStateOn, VirtualMachinePowerStateOff}"
  obtains k' where "k' < length (vmg_BootOrder g)" "processing_order g ! k = vmg_BootOrder g ! k'"
    "delay_until (vmg_PowerState g) (processing_order g) k = boot_delay g k'"
proof (cases "vmg_PowerState g = VirtualMachinePowerStateOff")
  case True
  have neq: "VirtualMachinePowerStateOff \<noteq> VirtualMachinePowerStateOn"
    by (simp add: VirtualMachinePowerStateOff_def VirtualMachinePowerStateOn_def)
  let ?n = "length (vmg_BootOrder g)"
  have k: "k < ?n" "processing_order g = rev (vmg_BootOrder g)"
    using assms(1) True by (simp_all add: processing_order_def reverseBootOrder_def)
  have "delay_until (vmg_PowerState g) (processing_order g) k = boot_delay g (?n - Suc k)"
    using True neq
    by (simp add: k(2) delay_until_def boot_delay_def take_rev rev_map [symmetric] boot_order_delay_def [abs_def])
  with k that [of "?n - Suc k"] show thesis by (simp add: rev_nth)
next
  case False
  with assms(2) have on: "vmg_PowerState g = VirtualMachinePowerStateOn" by simp
  with False have "delay_until (vmg_PowerState g) (processing_order g) k = boot_delay g k"
    by (simp add: processing_order_def delay_until_def boot_delay_def boot_order_delay_def [abs_def])
  with False assms(1) that [of k] show thesis by (simp add: processing_order_def)
qed

lemma boot_order_loop_all:
  "bo \<in> set bos \<Longrightarrow> m \<in> set (bo_Members bo) \<Longrightarrow>
     \<exists>t'. reconcileMember api now g m (existing_status g m) update t' \<in> set (boot_order_loop api now g update bos t)"
proof (induction bos arbitrary: t)
  case (Cons b bos)
  let ?t = "if update then time_Add t (boot_order_delay (vmg_PowerState g) b) else t"
  show ?case
  proof (cases "bo = b")
    case True
    with Cons.prems(2) show ?thesis by (auto simp: Let_def)
  next
    case False
    with Cons.prems obtain t' where "reconcileMember api now g m (existing_status g m) update t' \<in>
        set (boot_order_loop api now g update bos ?t)" using Cons.IH [of ?t] by auto
    then show ?thesis by (auto simp: Let_def)
  qed
qed simp

lemma reconcileMembers_all:
  assumes "reconcileMembers api now g = (err, g', patched)" and "shouldUpdatePowerState api g = Inr (update, lastUpdate)"
    and "base_time api g update lastUpdate = Inr t" and "m \<in> set (spec_members g)" and "read_member api m = Inr rd"
    and "GetGroupName rd = vmg_Name g" and "ga_SetOwnerReference api g (GetOwnerReferences rd) = Inr refs"
  shows "\<exists>obj \<in> set patched. \<exists>t'. sent_object api g update t' rd obj"
proof -
  have p: "patched = List.map_filter (snd \<circ> snd) (boot_order_loop api now g update (processing_order g) t)"
    using assms(1-3) by (auto simp: reconcileMembers_def Let_def)
  obtain bo where "bo \<in> set (processing_order g)" "m \<in> set (bo_Members bo)"
    using assms(4) by (auto simp: spec_members_def processing_order_def reverseBootOrder_def)
  then obtain t' where r: "reconcileMember api now g m (existing_status g m) update t' \<in>
      set (boot_order_loop api now g update (processing_order g) t)" using boot_order_loop_all by blast
  obtain ms1 obj where "sync_member now g update t' (existing_status g m) (SetOwnerReferences rd refs) = (ms1, obj)" by fastforce
  moreover obtain err' ms' where "patch_member api now update (gm_Kind m @ ''/'' @ gm_Name m) ms1 obj = (err', ms')" by fastforce
  ultimately have run: "reconcileMember api now g m (existing_status g m) update t' = (err', ms', Some obj)"
    using assms(5-7) by (simp add: reconcileMember_def Let_def)
  then have "obj \<in> set patched" using r unfolding p List.map_filter_def by force
  with reconcileMember_sent [OF run] assms(5) show ?thesis by auto
qed

section \<open>The recorded update\<close>

text \<open>The API server keeps times of a status to the second.\<close>

definition stored_group :: "VirtualMachineGroup \<Rightarrow> VirtualMachineGroup" where
  "stored_group g = g\<lparr>vmg_LastUpdatedPowerStateTime := map_option time_TruncateSecond (vmg_LastUpdatedPowerStateTime g)\<rparr>"

lemma reconcileMembers_None:
  assumes "reconcileMembers api now g = (None, g', patched)" and "shouldUpdatePowerState api g = Inr (True, lastUpdate)"
  shows "\<exists>ms. g' = g\<lparr>vmg_LastUpdatedPowerStateTime := Some now, vmg_Members := ms\<rparr>"
  using assms
  by (auto simp: reconcileMembers_def aggregateOrNoRequeue_def Let_def split: sum.splits if_splits)

lemma shouldUpdate_stored:
  assumes "shouldUpdatePowerState api g = Inr (True, lastUpdate)"
    and "g' = g\<lparr>vmg_LastUpdatedPowerStateTime := Some now, vmg_Members := ms\<rparr>"
  shows "shouldUpdatePowerState api' (stored_group g') =
    Inr (\<not> time_After (time_UTC (time_TruncateSecond now)) lastUpdate, lastUpdate)"
  using assms
  by (auto simp: shouldUpdatePowerState_def stored_group_def Let_def split: if_splits option.splits)

section \<open>The Ready condition\<close>

lemma last_condition_None: "last_condition cs t = None \<longleftrightarrow> t \<notin> ctype ` set cs"
  by (auto simp: last_condition_def map_of_eq_None_iff image_iff)

lemma last_condition_in: "last_condition cs t = Some c \<Longrightarrow> c \<in> set cs \<and> ctype c = t"
  by (auto simp: last_condition_def dest!: map_of_SomeD)

lemma first_not_true_None: "first_not_true k cs = None \<longleftrightarrow> (\<forall>c \<in> set cs. cstatus c = ConditionTrue)"
  by (induction cs) auto

lemma first_unexpected_None:
  "(\<forall>c \<in> set cs. cstatus c = ConditionTrue) \<Longrightarrow> first_unexpected k cs ts = None \<longleftrightarrow> set ts \<subseteq> ctype ` set cs"
proof (induction ts)
  case (Cons t ts)
  show ?case
  proof (cases "last_condition cs t")
    case None
    then show ?thesis using last_condition_None [of cs t] by simp
  next
    case (Some c)
    then have "cstatus c = ConditionTrue" "t \<in> ctype ` set cs" using Cons.prems last_condition_in by fastforce+
    with Some Cons show ?thesis by simp
  qed
qed simp

definition member_ready :: "VirtualMachineGroupMemberStatus \<Rightarrow> bool" where
  "member_ready ms \<longleftrightarrow>
     (\<forall>c \<in> set (ms_Conditions ms). cstatus c = ConditionTrue) \<and>
     (ms_Kind ms = vmKind \<longrightarrow>
        {VirtualMachineGroupMemberConditionGroupLinked, VirtualMachineGroupMemberConditionPlacementReady} \<subseteq> ctype ` set (ms_Conditions ms)) \<and>
     (ms_Kind ms = vmgKind \<longrightarrow>
        {VirtualMachineGroupMemberConditionGroupLinked, ReadyConditionType} \<subseteq> ctype ` set (ms_Conditions ms))"

lemma member_ready_expected:
  "member_ready ms \<longleftrightarrow> set (expected_conditions (ms_Kind ms)) \<subseteq> ctype ` set (ms_Conditions ms) \<and>
     (\<forall>c \<in> set (ms_Conditions ms). cstatus c = ConditionTrue)"
  by (auto simp: member_ready_def expected_conditions_def vmKind_def vmgKind_def)

lemma isMemberReady_None: "isMemberReady ms = None \<longleftrightarrow> member_ready ms"
proof (cases "\<forall>c \<in> set (ms_Conditions ms). cstatus c = ConditionTrue")
  case True
  then have "first_unexpected k (ms_Conditions ms) ts = None \<longleftrightarrow> set ts \<subseteq> ctype ` set (ms_Conditions ms)" for k ts
    by (rule first_unexpected_None)
  moreover have "first_not_true k (ms_Conditions ms) = None" for k using True by (simp add: first_not_true_None)
  ultimately show ?thesis
    using True by (simp add: isMemberReady_def member_ready_expected Let_def split: option.split) (metis option.distinct(1))
next
  case False
  then show ?thesis
    by (auto simp: isMemberReady_def member_ready_expected Let_def first_not_true_None split: option.splits)
qed

lemma not_ready_members: "List.map_filter isMemberReady ms = [] \<longleftrightarrow> (\<forall>m \<in> set ms. member_ready m)"
  by (induction ms) (auto simp: List.map_filter_simps isMemberReady_None [symmetric] split: option.splits)

lemmas IsTrue_Mark = Mark_status(1,2) MarkError_status Delete_status

lemma setReadyCondition_iff:
  assumes "wf_conditions (vmg_Conditions g)"
  shows "Conditions_IsTrue (vmg_Conditions (setReadyCondition now g err)) ReadyConditionType \<longleftrightarrow>
    err = None \<and> (\<forall>ms \<in> set (vmg_Members g). member_ready ms)"
  using assms
  by (auto simp: setReadyCondition_def Let_def not_ready_members IsTrue_Mark split: option.splits)

lemma setReadyCondition_members [simp]: "vmg_Members (setReadyCondition now g err) = vmg_Members g"
  by (simp add: setReadyCondition_def Let_def split: option.split)

text \<open>The provider that places VMs writes the statuses of members; the conditions of the groups stay as they are.\<close>

definition provider_keeps_conditions :: "('x) placement_api_scheme \<Rightarrow> bool" where
  "provider_keeps_conditions api \<longleftrightarrow>
     (\<forall>groups pls. map vmg_Conditions (snd (pl_Place api groups pls)) = map vmg_Conditions groups)"

lemma reconcilePlacement_conditions:
  assumes "reconcilePlacement api order now fuel g = Some (errs, g', children)" and "provider_keeps_conditions api"
  shows "vmg_Conditions g' = vmg_Conditions g"
proof (cases "vmg_GroupName g = []")
  case True
  then obtain r st where run: "getPlacementMembers api now fuel [(g, g)] 0 = Some (r, st)"
    using assms(1) by (auto simp: reconcilePlacement_def split: option.splits)
  have st: "st \<noteq> []" "vmg_Conditions (store_group st 0) = vmg_Conditions g"
    using placement_conditions(1) [OF run] by (auto simp: keeps_conditions_def store_group_def)
  have "vmg_Conditions (store_group (zip (map fst st) groups) 0) = vmg_Conditions g"
    if "pl_Place api (map snd st) pls = (err, groups)" for pls err groups
  proof -
    have "map vmg_Conditions groups = map vmg_Conditions (map snd st)"
      using assms(2) that unfolding provider_keeps_conditions_def by (metis snd_conv)
    with st show ?thesis by (cases st; cases groups) (auto simp: store_group_def)
  qed
  with st(2) assms(1) True run show ?thesis
    by (cases r) (auto simp: reconcilePlacement_def Let_def split: if_splits prod.splits)
qed (use assms(1) in \<open>simp add: reconcilePlacement_def\<close>)

lemma reconcileGroupName_wf:
  "reconcileGroupName api now g = (err, g') \<Longrightarrow> wf_conditions (vmg_Conditions g) \<Longrightarrow> wf_conditions (vmg_Conditions g')"
  by (auto simp: reconcileGroupName_def UpdateGroupLinkedCondition_def Let_def Conditions_MarkTrue_def
      Conditions_MarkFalse_def Conditions_MarkError_def slice.inv_setc slice.inv_delc split: sum.splits if_splits)

lemma reconcileMembers_conditions:
  "reconcileMembers api now g = (err, g', patched) \<Longrightarrow> vmg_Conditions g' = vmg_Conditions g"
  by (auto simp: reconcileMembers_def Let_def split: sum.splits if_splits prod.splits)

lemma reconcile_steps_wf:
  assumes "reconcile_steps api now fuel g = Some (err, g', patched, children)" and "wf_conditions (vmg_Conditions g)"
    and "provider_keeps_conditions api"
  shows "wf_conditions (vmg_Conditions g')"
proof -
  obtain e1 g1 where g1: "reconcileGroupName api now g = (e1, g1)" by fastforce
  obtain e2 g2 p2 where g2: "reconcileMembers api now g1 = (e2, g2, p2)" using prod_cases3 by blast
  have wf: "wf_conditions (vmg_Conditions g1)" "wf_conditions (vmg_Conditions g2)"
    using reconcileGroupName_wf [OF g1 assms(2)] reconcileMembers_conditions [OF g2] by simp_all
  have keep: "provider_keeps_conditions (placement_api.truncate api)"
    using assms(3) by (simp add: provider_keeps_conditions_def placement_api.defs)
  show ?thesis
  proof (cases "e1 = None \<and> e2 = None")
    case True
    then obtain errs where "reconcilePlacement (placement_api.truncate api) (ga_PatchOrder api) now fuel g2 =
        Some (errs, g', children)"
      using assms(1) g1 g2 by (auto simp: reconcile_steps_def split: option.splits)
    from reconcilePlacement_conditions [OF this keep] wf(2) show ?thesis by simp
  next
    case False
    then have "g' = g1 \<or> g' = g2" using assms(1) g1 g2 by (auto simp: reconcile_steps_def split: option.splits)
    with wf show ?thesis by auto
  qed
qed

section \<open>Links\<close>

text \<open>A server that carries out the requests.\<close>

definition healthy :: "group_api \<Rightarrow> bool" where
  "healthy api \<longleftrightarrow> client_names (group_client.truncate api) \<and>
     (\<forall>g refs. \<exists>refs'. ga_SetOwnerReference api g refs = Inr refs') \<and> (\<forall>obj. ga_PatchMember api obj = Inr obj)"

lemma wf_sync_member:
  assumes "wf_conditions (ms_Conditions ms)"
  shows "wf_conditions (ms_Conditions (fst (sync_member now g update t ms obj)))"
  using assms
  by (cases obj) (auto simp: sync_member_def Let_def Conditions_MarkTrue_def Conditions_MarkFalse_def
      slice.inv_setc slice.inv_delc)

lemma linked_neq [simp]:
  "VirtualMachineGroupMemberConditionGroupLinked \<noteq> ReadyConditionType"
  "ReadyConditionType \<noteq> VirtualMachineGroupMemberConditionGroupLinked"
  by (simp_all add: group_conditions)

lemma IsTrue_SetMirror_other:
  assumes "wf_conditions cs" and "t' \<noteq> t"
  shows "Conditions_IsTrue (Conditions_SetMirror now cs t from opts) t' = Conditions_IsTrue cs t'"
proof (cases "mirror from t opts")
  case None
  then show ?thesis by (simp add: Conditions_SetMirror_def Conditions_Set_def)
next
  case (Some c)
  then have "ctype c = t" by (auto simp: mirror_def Let_def)
  with Some assms show ?thesis
    by (simp add: Conditions_SetMirror_def Conditions_IsTrue_def slice.getc_setc)
qed

lemma reconcileMember_linked:
  assumes "healthy api" and "read_member api m = Inr obj" and "wf_conditions (ms_Conditions ms)"
  shows "Conditions_IsTrue (ms_Conditions (fst (snd (reconcileMember api now g m ms update t))))
      VirtualMachineGroupMemberConditionGroupLinked \<longleftrightarrow> GetGroupName obj = vmg_Name g"
proof (cases "GetGroupName obj = vmg_Name g")
  case False
  with assms(2,3) show ?thesis
    by (simp add: reconcileMember_def Let_def mark_linked_def IsTrue_Mark)
next
  case True
  obtain refs where refs: "ga_SetOwnerReference api g (GetOwnerReferences obj) = Inr refs"
    using assms(1) unfolding healthy_def by metis
  obtain ms' obj' where sync: "sync_member now g update t ms (SetOwnerReferences obj refs) = (ms', obj')" by fastforce
  have wf: "wf_conditions (ms_Conditions ms')" using wf_sync_member [OF assms(3)] sync by (metis fst_conv)
  have wf': "wf_conditions (Conditions_MarkTrue now (ms_Conditions ms') VirtualMachineGroupMemberConditionGroupLinked)"
    using wf by (simp add: Conditions_MarkTrue_def slice.inv_setc)
  have "ga_PatchMember api obj' = Inr obj'" using assms(1) by (simp add: healthy_def)
  then have "Conditions_IsTrue (ms_Conditions (snd (patch_member api now update n ms' obj')))
      VirtualMachineGroupMemberConditionGroupLinked" for n
    using IsTrue_Mark(1) [OF wf] wf'
    by (cases obj') (simp_all add: patch_member_def Let_def IsTrue_SetMirror_other)
  with True assms(2) refs sync show ?thesis
    by (simp add: reconcileMember_def Let_def split: prod.split) (metis snd_conv)
qed

lemma OrGroup_Get_SetConditions [simp]: "OrGroup_GetConditions (OrGroup_SetConditions obj cs) = cs"
  by (cases obj) simp_all

lemma UpdateGroupLinkedCondition_linked:
  assumes "wf_conditions (OrGroup_GetConditions obj)"
  shows "Conditions_IsTrue (OrGroup_GetConditions (snd (UpdateGroupLinkedCondition now cl obj)))
      VirtualMachineGroupMemberConditionGroupLinked \<longleftrightarrow>
    GetGroupName obj \<noteq> [] \<and>
    (\<exists>g. cl_GetGroup cl (GetGroupName obj) = Inr g \<and> in_boot_order g (GetMemberKind obj) (OrGroup_GetName obj))"
  using assms by (auto simp: UpdateGroupLinkedCondition_def Let_def IsTrue_Mark split: sum.splits)

lemma in_boot_order_iff: "in_boot_order g kind name \<longleftrightarrow> \<lparr>gm_Name = name, gm_Kind = kind\<rparr> \<in> set (spec_members g)"
proof -
  have "(\<exists>m \<in> set ms. gm_Kind m = kind \<and> gm_Name m = name) \<longleftrightarrow> \<lparr>gm_Name = name, gm_Kind = kind\<rparr> \<in> set ms" for ms
    by (metis (full_types) GroupMember.equality GroupMember.select_convs unit_eq)
  then show ?thesis by (auto simp: in_boot_order_def spec_members_def list_ex_iff)
qed

section \<open>An example\<close>

definition example_VM :: "string \<Rightarrow> group_VM" where
  "example_VM name = \<lparr>gvm_Name = name, gvm_UID = name, gvm_Labels = None, gvm_Annotations = None,
     gvm_OwnerReferences = [], gvm_GroupName = ''g'', gvm_PowerState = ''PoweredOff'', gvm_PowerOffMode = [],
     gvm_SuspendMode = [], gvm_StatusPowerState = ''PoweredOff'', gvm_UniqueID = [], gvm_Zone = [], gvm_Conditions = []\<rparr>"

text \<open>A group with two boot orders, powered on at the beginning of the year 2, whose second order waits for a second.\<close>

definition example_group :: VirtualMachineGroup where
  "example_group = \<lparr>vmg_Name = ''g'', vmg_UID = [],
     vmg_Annotations = Some [LastUpdatedPowerStateTimeAnnotation \<mapsto> ''0002-01-01T00:00:00Z''], vmg_OwnerReferences = [],
     vmg_Finalizers = [], vmg_DeletionTimestamp = 0, vmg_GroupName = [],
     vmg_BootOrder = [\<lparr>bo_Members = [\<lparr>gm_Name = ''a'', gm_Kind = vmKind\<rparr>], bo_PowerOnDelay = None, bo_PowerOffDelay = None\<rparr>,
       \<lparr>bo_Members = [\<lparr>gm_Name = ''b'', gm_Kind = vmKind\<rparr>], bo_PowerOnDelay = Some 1000000000, bo_PowerOffDelay = None\<rparr>],
     vmg_PowerState = VirtualMachinePowerStateOn, vmg_NextForcePowerStateSyncTime = [], vmg_PowerOffMode = [],
     vmg_SuspendMode = [], vmg_Members = [], vmg_LastUpdatedPowerStateTime = None, vmg_Conditions = []\<rparr>"

definition example_api :: group_api where
  "example_api = \<lparr>cl_GetVM = \<lambda>n. Inr (example_VM n), cl_GetGroup = \<lambda>n. Inr (example_group\<lparr>vmg_Name := n\<rparr>),
     pl_Read = \<lambda>n. Inr (example_group\<lparr>vmg_Name := n\<rparr>), pl_Place = \<lambda>gs ps. (None, gs), pl_PatchData = \<lambda>old g. Inr True,
     pl_StatusPatch = \<lambda>g. None, pl_VMAffinityDuringExecution = False, ga_GetOther = \<lambda>k n. NotFound [],
     ga_SetOwnerReference = \<lambda>g refs. Inr refs, ga_PatchMember = Inr, ga_Aggregate = hd, ga_Join = concat,
     ga_ParseError = id, ga_PatchOrder = id\<rparr>"

abbreviation example_time :: go_Time where
  "example_time \<equiv> \<lparr>instant = 31536000000000000, zone_offset = 0\<rparr>"

lemma example_should: "shouldUpdatePowerState example_api example_group = Inr (True, example_time)"
  by code_simp

lemma example_base: "base_time example_api example_group True example_time = Inr example_time"
  by code_simp

lemma example_names: "client_names (group_client.truncate example_api)"
  by (simp add: client_names_def group_client.defs example_api_def example_VM_def)

lemma example_healthy: "healthy example_api"
  using example_names by (simp add: healthy_def example_api_def)

lemma example_errors: "fst (reconcileMembers example_api now example_group) = None"
  using example_should example_base
  by (simp add: reconcileMembers_def Let_def aggregateOrNoRequeue_def)
    (simp add: example_group_def example_api_def processing_order_def reverseBootOrder_def VirtualMachinePowerStateOn_def
      VirtualMachinePowerStateOff_def reconcileMember_def read_member_def example_VM_def sync_member_def patch_member_def
      Let_def List.map_filter_def)

text \<open>What the group sends for its second VM.\<close>

abbreviation example_sent :: VirtualMachineOrGroup where
  "example_sent \<equiv> updateMemberPowerState example_group (MemberVM (example_VM ''b'')) (time_Add example_time 1000000000)"

lemma example_patched: "example_sent \<in> set (snd (snd (reconcileMembers example_api now example_group)))"
  using example_should example_base
  by (simp add: reconcileMembers_def Let_def)
    (simp add: example_group_def example_api_def processing_order_def reverseBootOrder_def VirtualMachinePowerStateOn_def
      VirtualMachinePowerStateOff_def reconcileMember_def read_member_def example_VM_def sync_member_def patch_member_def
      Let_def List.map_filter_def boot_order_delay_def time_Add_def)

section \<open>Properties\<close>

text \<open>
  C7. The times of a power state change. While a group that is to be powered on or off updates its members, it sends
  an object for every member that can be read, names the group and can be owned, and nothing else. A VM that is
  observed in the desired power state keeps the power state and the annotations of its own specification. Every
  other member is sent the desired power state with the time at which to apply it: the base time plus the delays of
  the boot orders up to its own when powering on, and of those from its own to the last when powering off.
\<close>

theorem boot_order_times:
  assumes "reconcileMembers api now g = (err, g', patched)" and "client_names (group_client.truncate api)"
    and "shouldUpdatePowerState api g = Inr (True, lastUpdate)" and "base_time api g True lastUpdate = Inr t"
    and "vmg_PowerState g \<in> {VirtualMachinePowerStateOn, VirtualMachinePowerStateOff}"
  shows "(\<forall>obj \<in> set patched. \<exists>k < length (vmg_BootOrder g). \<exists>m \<in> set (bo_Members (vmg_BootOrder g ! k)). \<exists>rd.
      read_member api m = Inr rd \<and> GetMemberKind obj = gm_Kind m \<and> OrGroup_GetName obj = gm_Name m \<and>
      (if gm_Kind m = vmKind \<and> OrGroup_GetPowerState rd = vmg_PowerState g
       then power_spec obj = power_spec rd \<and> member_annotations obj = member_annotations rd
       else power_spec obj = (vmg_PowerState g, vmg_PowerOffMode g, vmg_SuspendMode g) \<and>
         map_value (member_annotations obj) ApplyPowerStateTimeAnnotation = time_Format (time_Add t (boot_delay g k)))) \<and>
    (\<forall>m \<in> set (spec_members g). \<forall>rd refs. read_member api m = Inr rd \<and> GetGroupName rd = vmg_Name g \<and>
      ga_SetOwnerReference api g (GetOwnerReferences rd) = Inr refs \<longrightarrow>
      (\<exists>obj \<in> set patched. GetMemberKind obj = gm_Kind m \<and> OrGroup_GetName obj = gm_Name m))"
proof (intro conjI ballI allI impI)
  fix obj assume "obj \<in> set patched"
  from reconcileMembers_sent [OF assms(1) this] assms(3,4) obtain k m rd where
    k: "k < length (processing_order g)" "m \<in> set (bo_Members (processing_order g ! k))" "read_member api m = Inr rd"
      "sent_object api g True (time_Add t (delay_until (vmg_PowerState g) (processing_order g) k)) rd obj"
    by auto
  obtain k' where k': "k' < length (vmg_BootOrder g)" "processing_order g ! k = vmg_BootOrder g ! k'"
    "delay_until (vmg_PowerState g) (processing_order g) k = boot_delay g k'"
    using processing_order_index [OF k(1) assms(5)] by blast
  show "\<exists>k < length (vmg_BootOrder g). \<exists>m \<in> set (bo_Members (vmg_BootOrder g ! k)). \<exists>rd.
      read_member api m = Inr rd \<and> GetMemberKind obj = gm_Kind m \<and> OrGroup_GetName obj = gm_Name m \<and>
      (if gm_Kind m = vmKind \<and> OrGroup_GetPowerState rd = vmg_PowerState g
       then power_spec obj = power_spec rd \<and> member_annotations obj = member_annotations rd
       else power_spec obj = (vmg_PowerState g, vmg_PowerOffMode g, vmg_SuspendMode g) \<and>
         map_value (member_annotations obj) ApplyPowerStateTimeAnnotation = time_Format (time_Add t (boot_delay g k)))"
    using k k' sent_object_power [OF k(4) assms(5)] read_member_kind [OF assms(2) k(3)]
    by (intro exI [of _ k'] conjI bexI [of _ m] exI [of _ rd]) simp_all
next
  fix m rd refs
  assume "m \<in> set (spec_members g)" and rd: "read_member api m = Inr rd \<and> GetGroupName rd = vmg_Name g \<and>
    ga_SetOwnerReference api g (GetOwnerReferences rd) = Inr refs"
  then obtain obj t' where "obj \<in> set patched" "sent_object api g True t' rd obj"
    using reconcileMembers_all [OF assms(1,3,4)] by blast
  with sent_object_power [OF this(2) assms(5)] read_member_kind [OF assms(2)] rd
  show "\<exists>obj \<in> set patched. GetMemberKind obj = gm_Kind m \<and> OrGroup_GetName obj = gm_Name m" by metis
qed

theorem boot_order_times_witness:
  "\<exists>k < 2. \<exists>m \<in> set (bo_Members (vmg_BootOrder example_group ! k)). \<exists>rd. read_member example_api m = Inr rd \<and>
     GetMemberKind example_sent = gm_Kind m \<and> OrGroup_GetName example_sent = gm_Name m \<and>
     (if gm_Kind m = vmKind \<and> OrGroup_GetPowerState rd = vmg_PowerState example_group
      then power_spec example_sent = power_spec rd \<and> member_annotations example_sent = member_annotations rd
      else power_spec example_sent = (vmg_PowerState example_group, vmg_PowerOffMode example_group, vmg_SuspendMode example_group) \<and>
        map_value (member_annotations example_sent) ApplyPowerStateTimeAnnotation =
          time_Format (time_Add example_time (boot_delay example_group k)))"
proof -
  obtain err g' patched where r: "reconcileMembers example_api 40000000000000000 example_group = (err, g', patched)"
    using prod_cases3 by blast
  have on: "vmg_PowerState example_group \<in> {VirtualMachinePowerStateOn, VirtualMachinePowerStateOff}"
    by (simp add: example_group_def)
  have two: "length (vmg_BootOrder example_group) = 2" by (simp add: example_group_def)
  have "example_sent \<in> set patched" using example_patched [of 40000000000000000] r by simp
  with boot_order_times [OF r example_names example_should example_base on] show ?thesis unfolding two by blast
qed

text \<open>
  C14. A change of the power state of a group is applied once. After a reconcile of the members that succeeded, the group
  as the API server keeps it asks for another update exactly when the recorded second is not after the time of the
  change; otherwise a later reconcile leaves the power state and the annotations of its members as it finds them.
\<close>

theorem power_state_applied_once:
  assumes "reconcileMembers api now g = (None, g', patched)" and "shouldUpdatePowerState api g = Inr (True, lastUpdate)"
    and "reconcileMembers api' now' (stored_group g') = (err, g'', patched')"
  shows "shouldUpdatePowerState api' (stored_group g') =
      Inr (\<not> time_After (time_UTC (time_TruncateSecond now)) lastUpdate, lastUpdate) \<and>
    (time_After (time_UTC (time_TruncateSecond now)) lastUpdate \<longrightarrow>
      (\<forall>obj' \<in> set patched'. \<exists>m obj. read_member api' m = Inr obj \<and> power_spec obj' = power_spec obj \<and>
         member_annotations obj' = member_annotations obj))"
proof -
  obtain ms where g': "g' = g\<lparr>vmg_LastUpdatedPowerStateTime := Some now, vmg_Members := ms\<rparr>"
    using reconcileMembers_None [OF assms(1,2)] by blast
  note again = shouldUpdate_stored [OF assms(2) g', of api']
  have "\<exists>m obj. read_member api' m = Inr obj \<and> power_spec obj' = power_spec obj \<and>
      member_annotations obj' = member_annotations obj"
    if after: "time_After (time_UTC (time_TruncateSecond now)) lastUpdate" and "obj' \<in> set patched'" for obj'
  proof -
    from reconcileMembers_sent [OF assms(3) that(2)] again after obtain t m obj where
      "read_member api' m = Inr obj" "sent_object api' (stored_group g') False t obj obj'" by auto
    then show ?thesis by (intro exI [of _ m] exI [of _ obj]) (auto simp: sent_object_def Let_def)
  qed
  with again show ?thesis by blast
qed

theorem power_state_applied_once_witness:
  "shouldUpdatePowerState example_api
     (stored_group (fst (snd (reconcileMembers example_api 40000000000000000 example_group)))) = Inr (False, example_time) \<and>
   shouldUpdatePowerState example_api
     (stored_group (fst (snd (reconcileMembers example_api 31536000000000007 example_group)))) = Inr (True, example_time)"
proof -
  have "shouldUpdatePowerState example_api (stored_group (fst (snd (reconcileMembers example_api now example_group)))) =
      Inr (\<not> time_After (time_UTC (time_TruncateSecond now)) example_time, example_time)" for now
  proof -
    obtain g' patched where r: "reconcileMembers example_api now example_group = (None, g', patched)"
      using example_errors [of now] by (metis prod.collapse)
    obtain err g'' patched' where "reconcileMembers example_api now (stored_group g') = (err, g'', patched')"
      using prod_cases3 by blast
    from power_state_applied_once [OF r example_should this] r show ?thesis by simp
  qed
  note this [of 40000000000000000] this [of 31536000000000007]
  then show ?thesis by (simp add: time_After_def time_UTC_def time_TruncateSecond_def)
qed

text \<open>
  C13. With a server that carries out the requests, a member and the groups of its namespace agree on their link. The
  member reports itself linked exactly when some group lists it and marks it as linked in its own status, and the
  only group that marks it is the one it names: a group that lists a member of another group does not.
\<close>

theorem group_links_agree:
  assumes "healthy api" and "read_member api m = Inr obj" and "wf_conditions (OrGroup_GetConditions obj)"
    and "wf_conditions (ms_Conditions ms)"
  shows "(Conditions_IsTrue (OrGroup_GetConditions (snd (UpdateGroupLinkedCondition now (group_client.truncate api) obj)))
      VirtualMachineGroupMemberConditionGroupLinked \<longleftrightarrow>
    (\<exists>n g. n \<noteq> [] \<and> cl_GetGroup api n = Inr g \<and> m \<in> set (spec_members g) \<and>
       Conditions_IsTrue (ms_Conditions (fst (snd (reconcileMember api now g m ms update t))))
         VirtualMachineGroupMemberConditionGroupLinked)) \<and>
    (\<forall>n g. cl_GetGroup api n = Inr g \<and>
       Conditions_IsTrue (ms_Conditions (fst (snd (reconcileMember api now g m ms update t))))
         VirtualMachineGroupMemberConditionGroupLinked \<longrightarrow> GetGroupName obj = n)"
proof -
  have names: "client_names (group_client.truncate api)" using assms(1) by (simp add: healthy_def)
  have m: "\<lparr>gm_Name = OrGroup_GetName obj, gm_Kind = GetMemberKind obj\<rparr> = m"
    using read_member_kind [OF names assms(2)] by simp
  have get: "cl_GetGroup (group_client.truncate api) = cl_GetGroup api" by (simp add: group_client.defs)
  have "vmg_Name g = n" if "cl_GetGroup api n = Inr g" for n g
    using names that get by (simp add: client_names_def)
  then show ?thesis
    unfolding UpdateGroupLinkedCondition_linked [OF assms(3)] reconcileMember_linked [OF assms(1,2,4)] get in_boot_order_iff m
    by metis
qed

theorem group_links_agree_witness:
  "Conditions_IsTrue (OrGroup_GetConditions (snd (UpdateGroupLinkedCondition 5 (group_client.truncate example_api)
     (MemberVM (example_VM ''a''))))) VirtualMachineGroupMemberConditionGroupLinked \<and>
   \<not> Conditions_IsTrue (ms_Conditions (fst (snd (reconcileMember example_api 5 (example_group\<lparr>vmg_Name := ''h''\<rparr>)
     \<lparr>gm_Name = ''a'', gm_Kind = vmKind\<rparr> (existing_status example_group \<lparr>gm_Name = ''a'', gm_Kind = vmKind\<rparr>) False example_time))))
     VirtualMachineGroupMemberConditionGroupLinked"
proof -
  have read: "read_member example_api \<lparr>gm_Name = ''a'', gm_Kind = vmKind\<rparr> = Inr (MemberVM (example_VM ''a''))"
    by (simp add: read_member_def example_api_def)
  have wf: "wf_conditions (OrGroup_GetConditions (MemberVM (example_VM ''a'')))"
    "wf_conditions (ms_Conditions (existing_status example_group \<lparr>gm_Name = ''a'', gm_Kind = vmKind\<rparr>))"
    by (simp_all add: wf_conditions_def example_VM_def existing_status_def example_group_def)
  note agree = group_links_agree [OF example_healthy read wf, of 5 False example_time]
  have "example_group\<lparr>vmg_Name := ''g''\<rparr> = example_group" by (simp add: example_group_def)
  then have g: "cl_GetGroup example_api ''g'' = Inr example_group" by (simp add: example_api_def)
  moreover have "\<lparr>gm_Name = ''a'', gm_Kind = vmKind\<rparr> \<in> set (spec_members example_group)"
    by (simp add: spec_members_def example_group_def)
  moreover have "Conditions_IsTrue (ms_Conditions (fst (snd (reconcileMember example_api 5 example_group
      \<lparr>gm_Name = ''a'', gm_Kind = vmKind\<rparr> (existing_status example_group \<lparr>gm_Name = ''a'', gm_Kind = vmKind\<rparr>) False example_time))))
      VirtualMachineGroupMemberConditionGroupLinked"
    using reconcileMember_linked [OF example_healthy read wf(2)] by (simp add: example_VM_def example_group_def)
  moreover have "''g'' \<noteq> []" by simp
  moreover have "cl_GetGroup example_api ''h'' = Inr (example_group\<lparr>vmg_Name := ''h''\<rparr>)" by (simp add: example_api_def)
  moreover have "GetGroupName (MemberVM (example_VM ''a'')) \<noteq> ''h''" by (simp add: example_VM_def)
  ultimately show ?thesis using agree by blast
qed

text \<open>
  C36. What the Ready condition of a group says after a reconcile that returns. Once the group has the finalizer, the
  condition is True exactly when this reconcile ends without an error and every member in the status has only
  conditions that are True, among them the link and the placement for a VM and the link and the readiness for a
  group. The reconcile that adds the finalizer leaves all conditions alone. The provider is assumed to leave the
  conditions of the groups to the controller.
\<close>

theorem group_ready_iff:
  assumes "vmg_ReconcileNormal api now fuel g = Some (err, g', patched, children)" and "wf_conditions (vmg_Conditions g)"
    and "provider_keeps_conditions api"
  shows "if vmg_finalizerName \<in> set (vmg_Finalizers g)
    then Conditions_IsTrue (vmg_Conditions g') ReadyConditionType \<longleftrightarrow>
      err = None \<and> (\<forall>ms \<in> set (vmg_Members g'). member_ready ms)
    else err = None \<and> vmg_Conditions g' = vmg_Conditions g \<and> vmg_finalizerName \<in> set (vmg_Finalizers g')"
proof (cases "vmg_finalizerName \<in> set (vmg_Finalizers g)")
  case True
  then obtain g1 where run: "reconcile_steps api now fuel g = Some (err, g1, patched, children)"
    and g': "g' = setReadyCondition now g1 err"
    using assms(1) by (auto simp: vmg_ReconcileNormal_def)
  from reconcile_steps_wf [OF run assms(2,3)] True show ?thesis by (simp add: g' setReadyCondition_iff)
qed (use assms(1) in \<open>auto simp: vmg_ReconcileNormal_def\<close>)

lemma empty_group_run:
  "case vmg_ReconcileNormal example_api 5 0 (example_group\<lparr>vmg_BootOrder := [], vmg_Finalizers := [vmg_finalizerName]\<rparr>) of
     Some (None, g', patched, children) \<Rightarrow> vmg_Members g' = []
   | _ \<Rightarrow> False"
  by code_simp

theorem group_ready_iff_witness:
  "\<exists>g' patched children. vmg_ReconcileNormal example_api 5 0
      (example_group\<lparr>vmg_BootOrder := [], vmg_Finalizers := [vmg_finalizerName]\<rparr>) = Some (None, g', patched, children) \<and>
    Conditions_IsTrue (vmg_Conditions g') ReadyConditionType"
proof -
  let ?g = "example_group\<lparr>vmg_BootOrder := [], vmg_Finalizers := [vmg_finalizerName]\<rparr>"
  obtain g' patched children where run: "vmg_ReconcileNormal example_api 5 0 ?g = Some (None, g', patched, children)"
    and "vmg_Members g' = []"
    using empty_group_run by (auto split: option.splits)
  moreover have "wf_conditions (vmg_Conditions ?g)" "provider_keeps_conditions example_api"
    by (simp_all add: wf_conditions_def example_group_def provider_keeps_conditions_def example_api_def)
  ultimately show ?thesis using group_ready_iff [OF run] by auto
qed

end
