(* ===== verification/Snapshot.thy ===== *)
theory Snapshot
  imports Conditions VM_Types Field_Errors Kube_Objects
begin

text \<open>
  Snapshots of a virtual machine: the API types of \<^verbatim>\<open>api/v1alpha6/virtualmachinesnapshot_types.go\<close>, the capacity a
  snapshot reserves in each storage class (\<^verbatim>\<open>pkg/util/kube/vmsnapshot.go\<close>) and the number format of a byte count
  (\<^verbatim>\<open>pkg/util/kube/resources.go\<close>).

  \<^verbatim>\<open>resource.Quantity\<close> belongs to the Kubernetes library. The model is generic in its type \<^typ>\<open>'q\<close>: the class
  \<^verbatim>\<open>comm_monoid_add\<close> stands for \<^verbatim>\<open>Add\<close>, an exact addition, and the zero quantity. The objects are those of one
  namespace, so a key is a name. A \<^verbatim>\<open>None\<close> result of an operation is a panic (a nil pointer is dereferenced).
\<close>

section \<open>Types\<close>

definition VirtualMachineSnapshotReadyCondition :: string where
  "VirtualMachineSnapshotReadyCondition = ''VirtualMachineSnapshotReady''"

definition VirtualMachineSnapshotWaitingForCreationReason :: string where
  "VirtualMachineSnapshotWaitingForCreationReason = ''VirtualMachineSnapshotWaitingForCreation''"

definition VirtualMachineSnapshotWaitingForCSISyncReason :: string where
  "VirtualMachineSnapshotWaitingForCSISyncReason = ''VirtualMachineSnapshotWaitingForCSISync''"

definition VirtualMachineSnapshotCreatedCondition :: string where
  "VirtualMachineSnapshotCreatedCondition = ''VirtualMachineSnapshotCreated''"

definition VirtualMachineSnapshotWaitingForDiskRegistrationReason :: string where
  "VirtualMachineSnapshotWaitingForDiskRegistrationReason = ''VirtualMachineSnapshotWaitingForDiskRegistration''"

definition VirtualMachineSnapshotCSIVolumeSyncedCondition :: string where
  "VirtualMachineSnapshotCSIVolumeSyncedCondition = ''VirtualMachineSnapshotCSISynced''"

definition VirtualMachineSnapshotCSIVolumeSyncInProgressReason :: string where
  "VirtualMachineSnapshotCSIVolumeSyncInProgressReason = ''VirtualMachineSnapshotCSISyncInProgress''"

lemmas snapshot_conditions =
  VirtualMachineSnapshotReadyCondition_def VirtualMachineSnapshotCreatedCondition_def
  VirtualMachineSnapshotCSIVolumeSyncedCondition_def

definition VMNameForSnapshotLabel :: string where
  "VMNameForSnapshotLabel = ''snapshot.vmoperator.vmware.com/vm-name''"

definition CSIVSphereVolumeSyncAnnotationKey :: string where
  "CSIVSphereVolumeSyncAnnotationKey = ''csi.vsphere.volume.sync''"

definition CSIVSphereVolumeSyncAnnotationValueRequested :: string where
  "CSIVSphereVolumeSyncAnnotationValueRequested = ''requested''"

definition CSIVSphereVolumeSyncAnnotationValueCompleted :: string where
  "CSIVSphereVolumeSyncAnnotationValueCompleted = ''completed''"

definition VolumeTypeClassic :: string where "VolumeTypeClassic = ''Classic''"

definition VolumeTypeManaged :: string where "VolumeTypeManaged = ''Managed''"

record 'q VirtualMachineSnapshotStorageStatusRequested =
  req_StorageClass :: string
  req_Total :: "'q option"

record 'q VirtualMachineSnapshotStorageStatus =
  st_Used :: "'q option"
  st_Requested :: "'q VirtualMachineSnapshotStorageStatusRequested list option"

text \<open>
  \<^verbatim>\<open>snap_Quiesce\<close> is the quiesce specification with its timeout (in nanoseconds), and \<^verbatim>\<open>snap_DeletionTimestamp\<close> is
  zero when the object is not being deleted.
\<close>

record 'q VirtualMachineSnapshot =
  snap_Namespace :: string
  snap_Name :: string
  snap_Labels :: "labels option"
  snap_Annotations :: "labels option"
  snap_Finalizers :: "string list"
  snap_OwnerReferences :: "OwnerReference list"
  snap_DeletionTimestamp :: gotime
  snap_Memory :: bool
  snap_Quiesce :: "int option option"
  snap_Description :: string
  snap_VMName :: string
  snap_PowerState :: string
  snap_Quiesced :: bool
  snap_UniqueID :: string
  snap_Disks :: "(string \<times> string) list"
  snap_Conditions :: conditions
  snap_Storage :: "'q VirtualMachineSnapshotStorageStatus option"

record 'q InstanceVolumeClaimVolumeSource =
  ivc_StorageClass :: string
  ivc_Size :: 'q

record 'q PersistentVolumeClaimVolumeSource =
  pvs_ClaimName :: string
  pvs_InstanceVolumeClaim :: "'q InstanceVolumeClaimVolumeSource option"

record 'q VirtualMachineVolumeStatus =
  vs_Name :: string
  vs_Type :: string
  vs_Limit :: "'q option"
  vs_Requested :: "'q option"

text \<open>
  What the snapshot and storage code reads of a \<^verbatim>\<open>VirtualMachine\<close>: \<^verbatim>\<open>svm_Volumes\<close> are the names of the volumes of the
  specification with their claims, \<^verbatim>\<open>svm_Image\<close> is the kind and the name of the image, \<^verbatim>\<open>svm_SCSIControllers\<close> is
  \<^verbatim>\<open>None\<close> for a nil \<^verbatim>\<open>spec.hardware\<close>, \<^verbatim>\<open>svm_Memory\<close> is \<^verbatim>\<open>None\<close> when \<^verbatim>\<open>status.hardware\<close> or its memory is nil
  and otherwise the total, and \<^verbatim>\<open>svm_Storage\<close> the total of \<^verbatim>\<open>status.storage\<close>.
\<close>

record 'q snap_VM =
  svm_Name :: string
  svm_Labels :: "labels option"
  svm_DeletionTimestamp :: gotime
  svm_StorageClass :: string
  svm_ClassName :: string
  svm_Image :: "(string \<times> string) option"
  svm_BootDiskCapacity :: "'q option"
  svm_Volumes :: "(string \<times> 'q PersistentVolumeClaimVolumeSource option) list"
  svm_SCSIControllers :: "SCSIControllerSpec list option"
  svm_UniqueID :: string
  svm_Memory :: "'q option option"
  svm_StatusVolumes :: "'q VirtualMachineVolumeStatus list"
  svm_Storage :: "'q option option"
  svm_Conditions :: conditions

text \<open>
  A claim, with \<^verbatim>\<open>pvc_Storage\<close> the value of \<^verbatim>\<open>Spec.Resources.Requests.Storage()\<close>, or \<^verbatim>\<open>None\<close> for nil requests.
\<close>

record 'q PersistentVolumeClaim =
  pvc_Name :: string
  pvc_StorageClassName :: "string option"
  pvc_Storage :: "'q option option"

record 'q snap_client =
  sc_GetVM :: "string \<Rightarrow> api_error + 'q snap_VM"
  sc_GetPVC :: "string \<Rightarrow> api_error + 'q PersistentVolumeClaim"

section \<open>The format of a byte count (\<^verbatim>\<open>resources.go\<close>)\<close>

datatype quantity_format = BinarySI | DecimalSI

text \<open>\<^verbatim>\<open>go_rem\<close> is Go's remainder, which has the sign of the dividend.\<close>

definition go_rem :: "int \<Rightarrow> int \<Rightarrow> int" where
  "go_rem a b = sgn a * (\<bar>a\<bar> mod \<bar>b\<bar>)"

function isBinarySI :: "int \<Rightarrow> int \<Rightarrow> bool" where
  "isBinarySI b r =
     (if r > 0 then False
      else if b = 1024 then True
      else if b < 1024 then r = 0
      else isBinarySI (b div 1024) (go_rem b 1024))"
  by pat_completeness auto

termination by (relation "measure (\<lambda>(b, r). nat b)") auto

declare isBinarySI.simps [simp del]

text \<open>\<open>NewQuantity\<close> is \<^verbatim>\<open>resource.NewQuantity\<close> of the Kubernetes library.\<close>

definition BytesToResource :: "(int \<Rightarrow> quantity_format \<Rightarrow> 'q) \<Rightarrow> int \<Rightarrow> 'q" where
  "BytesToResource NewQuantity b =
     (if isBinarySI b (go_rem b 1024) then NewQuantity b BinarySI else NewQuantity b DecimalSI)"

section \<open>The capacity a snapshot reserves (\<^verbatim>\<open>vmsnapshot.go\<close>)\<close>

definition VMSnapshotVMNameIndexerFunc :: "'q VirtualMachineSnapshot \<Rightarrow> string list" where
  "VMSnapshotVMNameIndexerFunc s = (if snap_VMName s = [] then [] else [snap_VMName s])"

text \<open>An entry of \<^verbatim>\<open>requestedMap\<close> is created with a zero quantity the first time its class is met.\<close>

definition add_request :: "string \<Rightarrow> 'q::comm_monoid_add \<Rightarrow> (string \<rightharpoonup> 'q) \<Rightarrow> (string \<rightharpoonup> 'q)" where
  "add_request sc q m = (case m sc of None \<Rightarrow> m(sc \<mapsto> 0 + q) | Some amount \<Rightarrow> m(sc \<mapsto> amount + q))"

fun volumePVCMap ::
    "(string \<times> 'q PersistentVolumeClaimVolumeSource option) list \<Rightarrow>
     (string \<rightharpoonup> 'q PersistentVolumeClaimVolumeSource) \<Rightarrow> (string \<rightharpoonup> 'q PersistentVolumeClaimVolumeSource)" where
  "volumePVCMap [] m = m"
| "volumePVCMap ((name, pvc) # vols) m =
     volumePVCMap vols (case pvc of None \<Rightarrow> m | Some p \<Rightarrow> m(name \<mapsto> p))"

definition reserve_claim ::
    "'q::comm_monoid_add snap_client \<Rightarrow> string \<Rightarrow> 'q PersistentVolumeClaimVolumeSource \<Rightarrow> (string \<rightharpoonup> 'q) \<Rightarrow>
     goerror + (string \<rightharpoonup> 'q)" where
  "reserve_claim cl volume pvcSpec m =
     (case pvs_InstanceVolumeClaim pvcSpec of
        Some ivc \<Rightarrow> Inr (add_request (ivc_StorageClass ivc) (ivc_Size ivc) m)
      | None \<Rightarrow>
          (case sc_GetPVC cl (pvs_ClaimName pvcSpec) of
             Inl err \<Rightarrow> Inl (''failed to get pvc '' @ pvs_ClaimName pvcSpec @ '' for volume '' @ volume @ '': '' @
               api_error_text err)
           | Inr pvc \<Rightarrow>
               (case pvc_StorageClassName pvc of
                  None \<Rightarrow> Inl (''storage class is not set for pvc '' @ pvc_Name pvc)
                | Some sc \<Rightarrow>
                    (case pvc_Storage pvc of
                       Some (Some q) \<Rightarrow> Inr (add_request sc q m)
                     | _ \<Rightarrow> Inl (''requests is not set for pvc '' @ pvc_Name pvc)))))"

fun reserve_volumes ::
    "'q::comm_monoid_add snap_client \<Rightarrow> string \<Rightarrow> (string \<rightharpoonup> 'q PersistentVolumeClaimVolumeSource) \<Rightarrow>
     'q VirtualMachineVolumeStatus list \<Rightarrow> (string \<rightharpoonup> 'q) \<Rightarrow> goerror + (string \<rightharpoonup> 'q)" where
  "reserve_volumes cl vmClass pvcs [] m = Inr m"
| "reserve_volumes cl vmClass pvcs (v # vs) m =
     (if vs_Type v = VolumeTypeClassic then
        (case vs_Requested v of
           None \<Rightarrow> Inl ''requested is not set for classic disk''
         | Some q \<Rightarrow> reserve_volumes cl vmClass pvcs vs (add_request vmClass q m))
      else if vs_Type v = VolumeTypeManaged then
        (case pvcs (vs_Name v) of
           None \<Rightarrow> reserve_volumes cl vmClass pvcs vs m
         | Some pvcSpec \<Rightarrow>
             (case reserve_claim cl (vs_Name v) pvcSpec m of
                Inl err \<Rightarrow> Inl err
              | Inr m \<Rightarrow> reserve_volumes cl vmClass pvcs vs m))
      else Inl (''unsupported volume type '' @ vs_Type v))"

definition reserve_memory ::
    "'q::comm_monoid_add VirtualMachineSnapshot \<Rightarrow> 'q snap_VM \<Rightarrow> (goerror + (string \<rightharpoonup> 'q)) option" where
  "reserve_memory s vm =
     (if snap_Memory s then
        (case svm_Memory vm of
           None \<Rightarrow> Some (Inl (''failed to calculate reserved storage capacity for snapshot '' @
             ''since VM does not have memory usage set''))
         | Some memory \<Rightarrow> map_option (\<lambda>q. Inr (add_request (svm_StorageClass vm) q Map.empty)) memory)
      else Some (Inr Map.empty))"

text \<open>\<open>order\<close> is the order in which Go iterates over the keys of \<^verbatim>\<open>requestedMap\<close>.\<close>

definition CalculateReservedForSnapshotPerStorageClass ::
    "((string \<rightharpoonup> 'q) \<Rightarrow> string list) \<Rightarrow> 'q::comm_monoid_add snap_client \<Rightarrow> 'q VirtualMachineSnapshot \<Rightarrow>
     (goerror + 'q VirtualMachineSnapshotStorageStatusRequested list) option" where
  "CalculateReservedForSnapshotPerStorageClass order cl s =
     (if snap_VMName s = [] then Some (Inl ''vmName is not set'')
      else case sc_GetVM cl (snap_VMName s) of
        Inl err \<Rightarrow> Some (Inl (''failed to get VM '' @ snap_VMName s @ '': '' @ api_error_text err))
      | Inr vm \<Rightarrow>
          map_option (\<lambda>requestedMap. case requestedMap of
              Inl err \<Rightarrow> Inl err
            | Inr m \<Rightarrow>
                (case reserve_volumes cl (svm_StorageClass vm) (volumePVCMap (svm_Volumes vm) Map.empty)
                    (svm_StatusVolumes vm) m of
                   Inl err \<Rightarrow> Inl err
                 | Inr m \<Rightarrow> Inr (map (\<lambda>sc. \<lparr>req_StorageClass = sc, req_Total = m sc\<rparr>) (order m))))
            (reserve_memory s vm))"

text \<open>
  The status of a created snapshot: \<open>node\<close> is the identifier and the power state of the snapshot in vSphere,
  \<open>ConvertPowerState\<close> the conversion of \<^verbatim>\<open>vmopv1util\<close> and \<open>patch\<close> the write of the status. The first assignment of
  the power state is overwritten.
\<close>

definition PatchSnapshotSuccessStatus ::
    "(string \<Rightarrow> string) \<Rightarrow> ('q VirtualMachineSnapshot \<Rightarrow> goerror option) \<Rightarrow> gotime \<Rightarrow> 'q VirtualMachineSnapshot \<Rightarrow>
     string \<times> string \<Rightarrow> string \<Rightarrow> (string \<times> string) list \<Rightarrow> goerror option \<times> 'q VirtualMachineSnapshot" where
  "PatchSnapshotSuccessStatus ConvertPowerState patch now s node vmPowerState disks =
     (let s = s\<lparr>snap_UniqueID := fst node\<rparr>;
          s = s\<lparr>snap_Quiesced := (snap_Quiesce s \<noteq> None)\<rparr>;
          s = s\<lparr>snap_PowerState := vmPowerState\<rparr>;
          s = s\<lparr>snap_PowerState := ConvertPowerState (snd node)\<rparr>;
          s = s\<lparr>snap_Disks := disks\<rparr>;
          s = s\<lparr>snap_Conditions := Conditions_MarkTrue now (snap_Conditions s) VirtualMachineSnapshotCreatedCondition\<rparr>
      in (case patch s of
            Some err \<Rightarrow> Some (''failed to patch snapshot status resource '' @ snap_Name s @ ''/'' @ snap_Namespace s @
              '': err: '' @ err)
          | None \<Rightarrow> None, s))"

section \<open>Objects for the examples\<close>

definition nightly :: "int VirtualMachineSnapshot" where
  "nightly = \<lparr>snap_Namespace = ''ns'', snap_Name = ''nightly'', snap_Labels = None, snap_Annotations = None,
     snap_Finalizers = [], snap_OwnerReferences = [], snap_DeletionTimestamp = 0, snap_Memory = True,
     snap_Quiesce = None, snap_Description = [], snap_VMName = ''db'', snap_PowerState = [], snap_Quiesced = False,
     snap_UniqueID = [], snap_Disks = [], snap_Conditions = [], snap_Storage = None\<rparr>"

text \<open>A machine with 4 units of memory, a classic disk of 10 units and a claim of 20 units in another class.\<close>

definition db_VM :: "int snap_VM" where
  "db_VM = \<lparr>svm_Name = ''db'', svm_Labels = None, svm_DeletionTimestamp = 0, svm_StorageClass = ''gold'',
     svm_ClassName = ''small'', svm_Image = Some (''VirtualMachineImage'', ''photon''), svm_BootDiskCapacity = None,
     svm_Volumes = [(''data'', Some \<lparr>pvs_ClaimName = ''claim'', pvs_InstanceVolumeClaim = None\<rparr>)],
     svm_SCSIControllers = None, svm_UniqueID = ''vm-1'', svm_Memory = Some (Some 4),
     svm_StatusVolumes = [\<lparr>vs_Name = ''boot'', vs_Type = VolumeTypeClassic, vs_Limit = Some 10, vs_Requested = Some 10\<rparr>,
       \<lparr>vs_Name = ''data'', vs_Type = VolumeTypeManaged, vs_Limit = Some 20, vs_Requested = Some 20\<rparr>],
     svm_Storage = Some (Some 12), svm_Conditions = []\<rparr>"

definition db_client :: "int snap_client" where
  "db_client = \<lparr>sc_GetVM = \<lambda>n. if n = ''db'' then Inr db_VM else Inl (NotFound n),
     sc_GetPVC = \<lambda>n. if n = ''claim''
       then Inr \<lparr>pvc_Name = n, pvc_StorageClassName = Some ''silver'', pvc_Storage = Some (Some 20)\<rparr>
       else Inl (NotFound n)\<rparr>"

definition sorted_keys :: "(string \<rightharpoonup> 'q) \<Rightarrow> string list" where
  "sorted_keys m = sorted_list_of_set (dom m)"

end
