(* ===== verification/Snapshot_Webhooks.thy ===== *)
theory Snapshot_Webhooks
  imports Snapshot
begin

text \<open>
  The admission webhooks of snapshots: \<^verbatim>\<open>webhooks/virtualmachinesnapshot/mutation/virtualmachinesnapshot_mutator.go\<close>
  and \<^verbatim>\<open>webhooks/virtualmachinesnapshot/validation/virtualmachinesnapshot_validator.go\<close>. The decoding
  of a request and the JSON patch of the answer are left out.
\<close>

section \<open>Mutation\<close>

definition SetVMNameLabel :: "'q VirtualMachineSnapshot \<Rightarrow> bool \<times> 'q VirtualMachineSnapshot" where
  "SetVMNameLabel s =
     (if snap_VMName s = [] then (False, s)
      else if labels_of (snap_Labels s) VMNameForSnapshotLabel = None
      then (True, s\<lparr>snap_Labels := SetMetaDataLabel VMNameForSnapshotLabel (snap_VMName s) (snap_Labels s)\<rparr>)
      else (False, s))"

datatype operation = Create | Update | Delete_op | Connect

text \<open>The answer carries the modified object, or nothing when the request is allowed as it is.\<close>

definition snap_Mutate :: "operation \<Rightarrow> 'q VirtualMachineSnapshot \<Rightarrow> 'q VirtualMachineSnapshot option" where
  "snap_Mutate op s =
     (if op \<noteq> Create \<and> op \<noteq> Update then None
      else let (wasMutated, modified) = SetVMNameLabel s
           in if \<not> wasMutated then None else Some modified)"

section \<open>Validation\<close>

definition vmNameLabelMismatchErr :: "'q VirtualMachineSnapshot \<Rightarrow> field_Error list" where
  "vmNameLabelMismatchErr s =
     (case labels_of (snap_Labels s) VMNameForSnapshotLabel of
        None \<Rightarrow> []
      | Some label \<Rightarrow>
          if label = snap_VMName s then []
          else [field_Invalid (field_Key ''metadata.labels'' VMNameForSnapshotLabel) label
                  (''must match spec.vmName '' @ go_quote (snap_VMName s))])"

definition validateVMNotVKSNode :: "'q snap_VM \<Rightarrow> goerror option" where
  "validateVMNotVKSNode vm =
     (if HasCAPILabels (svm_Labels vm) then Some ''snapshots are not allowed for VKS/TKG nodes'' else None)"

fun sharing_mode_errs :: "string \<Rightarrow> SCSIControllerSpec list \<Rightarrow> field_Error list" where
  "sharing_mode_errs vmNameField [] = []"
| "sharing_mode_errs vmNameField (c # cs) =
     (if scsi_SharingMode c \<noteq> VirtualControllerSharingModeNone
      then [field_NotSupported vmNameField
              (''controller type SCSIControllers bus '' @ show_int (scsi_BusNumber c) @
               '' is using unsupported sharingMode for snapshot: '' @ scsi_SharingMode c)
              [VirtualControllerSharingModeNone]]
      else []) @ sharing_mode_errs vmNameField cs"

definition validateVMControllerSharingMode :: "'q snap_VM \<Rightarrow> string \<Rightarrow> field_Error list" where
  "validateVMControllerSharingMode vm vmNameField =
     (case svm_SCSIControllers vm of None \<Rightarrow> [] | Some cs \<Rightarrow> sharing_mode_errs vmNameField cs)"

text \<open>The zero value of the type, which is validated when the machine cannot be read.\<close>

definition snap_VM_zero :: "'q snap_VM" where
  "snap_VM_zero = \<lparr>svm_Name = [], svm_Labels = None, svm_DeletionTimestamp = 0, svm_StorageClass = [],
     svm_ClassName = [], svm_Image = None, svm_BootDiskCapacity = None, svm_Volumes = [],
     svm_SCSIControllers = None, svm_UniqueID = [], svm_Memory = None, svm_StatusVolumes = [],
     svm_Storage = None, svm_Conditions = []\<rparr>"

definition vm_field_errs :: "'q snap_VM \<Rightarrow> string \<Rightarrow> field_Error list" where
  "vm_field_errs vm vmNameField =
     (case validateVMNotVKSNode vm of None \<Rightarrow> [] | Some err \<Rightarrow> [field_Forbidden vmNameField err]) @
     validateVMControllerSharingMode vm vmNameField"

definition validateVMFields :: "'q snap_client \<Rightarrow> string \<Rightarrow> string \<Rightarrow> field_Error list" where
  "validateVMFields cl vmName vmNameField =
     (case sc_GetVM cl vmName of
        Inl err \<Rightarrow>
          if IsNotFound err then []
          else field_Invalid vmNameField vmName (api_error_text err) # vm_field_errs (snap_VM_zero :: 'q snap_VM) vmNameField
      | Inr vm \<Rightarrow> vm_field_errs vm vmNameField)"

definition snap_ValidateCreate :: "'q snap_client \<Rightarrow> 'q VirtualMachineSnapshot \<Rightarrow> field_Error list" where
  "snap_ValidateCreate cl s =
     (let vmNameField = ''spec.vmName''
      in if snap_VMName s = [] then [field_Required vmNameField ''vmName must be provided'']
         else vmNameLabelMismatchErr s @ validateVMFields cl (snap_VMName s) vmNameField)"

text \<open>\<^verbatim>\<open>validation.ValidateImmutableField\<close> of the Kubernetes library; \<open>show\<close> prints the rejected value.\<close>

definition ValidateImmutableField :: "('a \<Rightarrow> string) \<Rightarrow> 'a \<Rightarrow> 'a \<Rightarrow> string \<Rightarrow> field_Error list" where
  "ValidateImmutableField show newVal oldVal path =
     (if newVal \<noteq> oldVal then [field_Invalid path (show newVal) ''field is immutable''] else [])"

definition show_bool :: "bool \<Rightarrow> string" where
  "show_bool b = (if b then ''true'' else ''false'')"

definition snap_ValidateUpdate ::
    "(int option option \<Rightarrow> string) \<Rightarrow> 'q VirtualMachineSnapshot \<Rightarrow> 'q VirtualMachineSnapshot \<Rightarrow> field_Error list" where
  "snap_ValidateUpdate showQuiesce s old =
     ValidateImmutableField show_bool (snap_Memory s) (snap_Memory old) ''spec.memory'' @
     ValidateImmutableField showQuiesce (snap_Quiesce s) (snap_Quiesce old) ''spec.quiesce'' @
     ValidateImmutableField (\<lambda>n. n) (snap_VMName s) (snap_VMName old) ''spec.vmName'' @
     vmNameLabelMismatchErr s"

lemma ValidateImmutableField_Nil [simp]: "ValidateImmutableField show a b path = [] \<longleftrightarrow> a = b"
  by (simp add: ValidateImmutableField_def)

end
