(* ===== verification/Snapshot_Controller.thy ===== *)
theory Snapshot_Controller
  imports Snapshot_Webhooks
begin

text \<open>
  The controller of snapshots, \<^verbatim>\<open>controllers/virtualmachinesnapshot/virtualmachinesnapshot_controller.go\<close>. The
  context of a reconcile carries the snapshot, the machine and the storage classes whose usage is to be
  recomputed; the deferred block of \<^verbatim>\<open>Reconcile\<close> sends one event for each of them and patches the snapshot.
\<close>

definition snap_Finalizer :: string where
  "snap_Finalizer = ''vmoperator.vmware.com/virtualmachinesnapshot''"

record 'q VirtualMachineSnapshotContext =
  sctx_VirtualMachineSnapshot :: "'q VirtualMachineSnapshot"
  sctx_VM :: "'q snap_VM option"
  sctx_StorageClassesToSync :: "string set"

text \<open>
  What the controller calls: the API server, the owner references of the Kubernetes library, the provider of the
  machines, \<^verbatim>\<open>resource.NewQuantity\<close> and the order of a map iteration.
\<close>

record 'q snap_api = "'q snap_client" +
  sa_Get :: "string \<Rightarrow> api_error + 'q VirtualMachineSnapshot"
  sa_SetOwnerReference :: "'q snap_VM \<Rightarrow> OwnerReference list \<Rightarrow> goerror + OwnerReference list"
  sa_GetSnapshotSize :: "string \<Rightarrow> 'q snap_VM \<Rightarrow> goerror + int"
  sa_DeleteSnapshot :: "'q VirtualMachineSnapshot \<Rightarrow> 'q snap_VM \<Rightarrow> goerror + bool"
  sa_SyncVMSnapshotTreeStatus :: "'q snap_VM \<Rightarrow> goerror + 'q snap_VM"
  sa_PatchVMStatus :: "'q snap_VM \<Rightarrow> goerror option"
  sa_Patch :: "'q VirtualMachineSnapshot \<Rightarrow> goerror option"
  sa_NewQuantity :: "int \<Rightarrow> quantity_format \<Rightarrow> 'q"
  sa_Order :: "(string \<rightharpoonup> 'q) \<Rightarrow> string list"

abbreviation sync_insert :: "string set \<Rightarrow> 'q VirtualMachineSnapshotContext \<Rightarrow> 'q VirtualMachineSnapshotContext" where
  "sync_insert scs ctx \<equiv> ctx\<lparr>sctx_StorageClassesToSync := sctx_StorageClassesToSync ctx \<union> scs\<rparr>"

abbreviation set_snapshot ::
    "'q VirtualMachineSnapshot \<Rightarrow> 'q VirtualMachineSnapshotContext \<Rightarrow> 'q VirtualMachineSnapshotContext" where
  "set_snapshot s ctx \<equiv> ctx\<lparr>sctx_VirtualMachineSnapshot := s\<rparr>"

section \<open>Labels, annotations and conditions\<close>

definition ensureVMNameLabel :: "'q VirtualMachineSnapshot \<Rightarrow> 'q VirtualMachineSnapshot" where
  "ensureVMNameLabel s = s\<lparr>snap_Labels := SetMetaDataLabel VMNameForSnapshotLabel (snap_VMName s) (snap_Labels s)\<rparr>"

definition ensureCSIVolumeSyncAnnotation :: "'q VirtualMachineSnapshot \<Rightarrow> 'q VirtualMachineSnapshot" where
  "ensureCSIVolumeSyncAnnotation s =
     (let s = (if snap_Annotations s = None then s\<lparr>snap_Annotations := Some Map.empty\<rparr> else s)
      in if map_value (snap_Annotations s) CSIVSphereVolumeSyncAnnotationKey \<noteq> CSIVSphereVolumeSyncAnnotationValueCompleted
         then s\<lparr>snap_Annotations := Some ((labels_of (snap_Annotations s))
                  (CSIVSphereVolumeSyncAnnotationKey \<mapsto> CSIVSphereVolumeSyncAnnotationValueRequested))\<rparr>
         else s)"

definition reconcileSnapshotReadyCondition :: "gotime \<Rightarrow> 'q VirtualMachineSnapshot \<Rightarrow> 'q VirtualMachineSnapshot" where
  "reconcileSnapshotReadyCondition now s =
     (if \<not> time_IsZero (snap_DeletionTimestamp s) then s
      else
        let cs = snap_Conditions s;
            created = Conditions_IsTrue cs VirtualMachineSnapshotCreatedCondition;
            synced = Conditions_IsTrue cs VirtualMachineSnapshotCSIVolumeSyncedCondition;
            createdReason = Conditions_GetReason cs VirtualMachineSnapshotCreatedCondition
        in if \<not> created \<and> createdReason = VirtualMachineSnapshotWaitingForDiskRegistrationReason
           then s\<lparr>snap_Conditions := Conditions_MarkFalse now cs VirtualMachineSnapshotReadyCondition
             VirtualMachineSnapshotWaitingForDiskRegistrationReason
             ''Snapshot is not ready because disk registration hasn't been completed''\<rparr>
           else if \<not> created
           then s\<lparr>snap_Conditions := Conditions_MarkFalse now cs VirtualMachineSnapshotReadyCondition
             VirtualMachineSnapshotWaitingForCreationReason
             ''Snapshot is not ready because it doesn't have created condition''\<rparr>
           else if \<not> synced
           then s\<lparr>snap_Conditions := Conditions_MarkFalse now cs VirtualMachineSnapshotReadyCondition
             VirtualMachineSnapshotWaitingForCSISyncReason
             ''Snapshot is not ready because CSI volume sync hasn't been completed''\<rparr>
           else s\<lparr>snap_Conditions := Conditions_MarkTrue now cs VirtualMachineSnapshotReadyCondition\<rparr>)"

section \<open>Capacities\<close>

text \<open>The storage classes of \<^verbatim>\<open>status.storage.requested\<close>; ranging over a nil slice does nothing.\<close>

definition requested_classes :: "'q VirtualMachineSnapshotStorageStatus \<Rightarrow> string set" where
  "requested_classes st = (case st_Requested st of None \<Rightarrow> {} | Some rs \<Rightarrow> req_StorageClass ` set rs)"

text \<open>Both operations dereference \<^verbatim>\<open>status.storage\<close>.\<close>

definition calculateRequestedCapacity ::
    "'q::comm_monoid_add snap_api \<Rightarrow> 'q VirtualMachineSnapshotContext \<Rightarrow>
     (goerror option \<times> 'q VirtualMachineSnapshotContext) option" where
  "calculateRequestedCapacity api ctx =
     (let s = sctx_VirtualMachineSnapshot ctx
      in case CalculateReservedForSnapshotPerStorageClass (sa_Order api) (snap_client.truncate api) s of
        None \<Rightarrow> None
      | Some (Inl err) \<Rightarrow> Some (Some (''failed to calculate requested capacity for snapshot: '' @ err), ctx)
      | Some (Inr requested) \<Rightarrow>
          (case snap_Storage s of
             None \<Rightarrow> None
           | Some st \<Rightarrow>
               let st = st\<lparr>st_Requested := Some requested\<rparr>
               in Some (None, sync_insert (requested_classes st) (set_snapshot (s\<lparr>snap_Storage := Some st\<rparr>) ctx))))"

definition calculateUsedCapacity ::
    "'q::comm_monoid_add snap_api \<Rightarrow> gotime \<Rightarrow> 'q snap_VM \<Rightarrow> 'q VirtualMachineSnapshotContext \<Rightarrow>
     (goerror option \<times> 'q VirtualMachineSnapshotContext) option" where
  "calculateUsedCapacity api now vm ctx =
     (let s = sctx_VirtualMachineSnapshot ctx
      in case sa_GetSnapshotSize api (snap_Name s) vm of
        Inl err \<Rightarrow> Some (Some (''failed to get snapshot size: '' @ err), ctx)
      | Inr bytes \<Rightarrow>
          (case snap_Storage s of
             None \<Rightarrow> None
           | Some st \<Rightarrow>
               let used = BytesToResource (sa_NewQuantity api) bytes;
                   st = (if st_Used st = None then st\<lparr>st_Used := Some (sa_NewQuantity api 0 BinarySI)\<rparr> else st);
                   st = st\<lparr>st_Used := Some used\<rparr>;
                   s = s\<lparr>snap_Storage := Some st\<rparr>;
                   ctx = set_snapshot s ctx
               in Some (None,
                    if map_value (snap_Annotations s) CSIVSphereVolumeSyncAnnotationKey =
                         CSIVSphereVolumeSyncAnnotationValueCompleted
                    then if \<not> Conditions_IsTrue (snap_Conditions s) VirtualMachineSnapshotCSIVolumeSyncedCondition
                         then set_snapshot (s\<lparr>snap_Conditions := Conditions_MarkTrue now (snap_Conditions s)
                                  VirtualMachineSnapshotCSIVolumeSyncedCondition\<rparr>)
                                (sync_insert (requested_classes st) ctx)
                         else sync_insert {svm_StorageClass vm} ctx
                    else ctx)))"

section \<open>Reconciliation\<close>

text \<open>The part of \<^verbatim>\<open>ReconcileNormal\<close> after the snapshot is created.\<close>

definition reconcile_created ::
    "'q::comm_monoid_add snap_api \<Rightarrow> gotime \<Rightarrow> 'q snap_VM \<Rightarrow> 'q VirtualMachineSnapshotContext \<Rightarrow>
     (goerror option \<times> 'q VirtualMachineSnapshotContext) option" where
  "reconcile_created api now vm ctx =
     (let s = ensureCSIVolumeSyncAnnotation (sctx_VirtualMachineSnapshot ctx);
          s = s\<lparr>snap_Conditions := Conditions_MarkFalse now (snap_Conditions s)
                 VirtualMachineSnapshotCSIVolumeSyncedCondition VirtualMachineSnapshotCSIVolumeSyncInProgressReason
                 ''Sync CSI volume requested''\<rparr>
      in calculateUsedCapacity api now vm (set_snapshot s ctx))"

text \<open>The part of \<^verbatim>\<open>ReconcileNormal\<close> from the capacities on, for a machine that exists in vSphere.\<close>

definition reconcile_capacity ::
    "'q::comm_monoid_add snap_api \<Rightarrow> gotime \<Rightarrow> 'q snap_VM \<Rightarrow> 'q VirtualMachineSnapshotContext \<Rightarrow>
     (goerror option \<times> 'q VirtualMachineSnapshotContext) option" where
  "reconcile_capacity api now vm ctx =
     (let s = sctx_VirtualMachineSnapshot ctx;
          st = (case snap_Storage s of None \<Rightarrow> \<lparr>st_Used = None, st_Requested = None\<rparr> | Some st \<Rightarrow> st);
          ctx = set_snapshot (s\<lparr>snap_Storage := Some st\<rparr>) ctx
      in case (if st_Requested st = None then calculateRequestedCapacity api ctx else Some (None, ctx)) of
        None \<Rightarrow> None
      | Some (Some err, ctx) \<Rightarrow> Some (Some err, ctx)
      | Some (None, ctx) \<Rightarrow>
          if \<not> Conditions_IsTrue (snap_Conditions (sctx_VirtualMachineSnapshot ctx)) VirtualMachineSnapshotCreatedCondition
          then Some (None, ctx)
          else reconcile_created api now vm ctx)"

definition snap_ReconcileNormal ::
    "'q::comm_monoid_add snap_api \<Rightarrow> gotime \<Rightarrow> 'q VirtualMachineSnapshotContext \<Rightarrow>
     (goerror option \<times> 'q VirtualMachineSnapshotContext) option" where
  "snap_ReconcileNormal api now ctx =
     (let s = sctx_VirtualMachineSnapshot ctx
      in if snap_Finalizer \<notin> set (snap_Finalizers s)
         then Some (None, set_snapshot (s\<lparr>snap_Finalizers := snap_Finalizers s @ [snap_Finalizer]\<rparr>) ctx)
         else if snap_VMName s = [] then Some (Some ''vmName is required'', ctx)
         else
           let s = ensureVMNameLabel s;
               ctx = set_snapshot s ctx
           in case sc_GetVM api (snap_VMName s) of
             Inl err \<Rightarrow> Some (Some (''failed to get VirtualMachine '' @
               go_quote (snap_Namespace s @ ''/'' @ snap_VMName s) @ '': '' @ api_error_text err), ctx)
           | Inr vm \<Rightarrow>
               let ctx = ctx\<lparr>sctx_VM := Some vm\<rparr>
               in case sa_SetOwnerReference api vm (snap_OwnerReferences s) of
                 Inl err \<Rightarrow> Some (Some (''failed to set owner reference to snapshot: '' @ err), ctx)
               | Inr refs \<Rightarrow>
                   let ctx = set_snapshot (s\<lparr>snap_OwnerReferences := refs\<rparr>) ctx
                   in if svm_UniqueID vm = [] then Some (Some ''VM hasn't been created and has no uniqueID'', ctx)
                      else reconcile_capacity api now vm ctx)"

definition snap_deleteSnapshot :: "'q snap_api \<Rightarrow> 'q VirtualMachineSnapshot \<Rightarrow> 'q snap_VM \<Rightarrow> goerror + bool" where
  "snap_deleteSnapshot api s vm =
     (case sa_DeleteSnapshot api s vm of
        Inl err \<Rightarrow> Inl (''failed to delete snapshot: '' @ err)
      | Inr vmNotFound \<Rightarrow> Inr vmNotFound)"

definition syncVMSSnapshotTreeStatus :: "'q snap_api \<Rightarrow> 'q snap_VM \<Rightarrow> goerror option \<times> 'q snap_VM" where
  "syncVMSSnapshotTreeStatus api vm =
     (case sa_SyncVMSnapshotTreeStatus api vm of
        Inl err \<Rightarrow> (Some err, vm)
      | Inr vm \<Rightarrow> (sa_PatchVMStatus api vm, vm))"

definition RemoveFinalizer :: "'q VirtualMachineSnapshot \<Rightarrow> 'q VirtualMachineSnapshot" where
  "RemoveFinalizer s = s\<lparr>snap_Finalizers := filter (\<lambda>f. f \<noteq> snap_Finalizer) (snap_Finalizers s)\<rparr>"

definition snap_ReconcileDelete ::
    "'q snap_api \<Rightarrow> 'q VirtualMachineSnapshotContext \<Rightarrow> goerror option \<times> 'q VirtualMachineSnapshotContext" where
  "snap_ReconcileDelete api ctx =
     (let s = sctx_VirtualMachineSnapshot ctx
      in if snap_Finalizer \<notin> set (snap_Finalizers s) then (None, ctx)
         else if snap_VMName s = [] then (Some ''VirtualMachineSnapshot VMName is empty'', ctx)
         else
           let ctx = (case snap_Storage s of
                        None \<Rightarrow> ctx
                      | Some st \<Rightarrow> sync_insert (requested_classes st) ctx)
           in case sc_GetVM api (snap_VMName s) of
             Inl err \<Rightarrow>
               if IsNotFound err then (None, set_snapshot (RemoveFinalizer s) ctx)
               else (Some (''failed to get VirtualMachine '' @ go_quote (snap_Namespace s @ ''/'' @ snap_VMName s) @
                       '': '' @ api_error_text err), ctx)
           | Inr vm \<Rightarrow>
               let ctx = ctx\<lparr>sctx_VM := Some vm\<rparr>
               in case snap_deleteSnapshot api s vm of
                 Inl err \<Rightarrow> (Some (''failed to delete snapshot: '' @ err), ctx)
               | Inr vmNotFound \<Rightarrow>
                   if vmNotFound then (None, set_snapshot (RemoveFinalizer s) ctx)
                   else case syncVMSSnapshotTreeStatus api vm of
                     (Some err, vm) \<Rightarrow> (Some err, ctx\<lparr>sctx_VM := Some vm\<rparr>)
                   | (None, vm) \<Rightarrow> (None, set_snapshot (RemoveFinalizer s) (ctx\<lparr>sctx_VM := Some vm\<rparr>)))"

text \<open>
  \<^verbatim>\<open>Reconcile\<close>: the error, the storage classes for which an event is sent and the snapshot that is patched (none when
  the snapshot cannot be read). \<^verbatim>\<open>SyncStorageUsageForNamespace\<close> drops an empty class name.
\<close>

definition snap_Reconcile ::
    "'q::comm_monoid_add snap_api \<Rightarrow> gotime \<Rightarrow> string \<Rightarrow>
     (goerror option \<times> string set \<times> 'q VirtualMachineSnapshot option) option" where
  "snap_Reconcile api now name =
     (case sa_Get api name of
        Inl err \<Rightarrow> Some (if IsNotFound err then None else Some (api_error_text err), {}, None)
      | Inr s \<Rightarrow>
          let ctx = \<lparr>sctx_VirtualMachineSnapshot = s, sctx_VM = None, sctx_StorageClassesToSync = {}\<rparr>
          in map_option
               (\<lambda>(reterr, ctx).
                  let s = reconcileSnapshotReadyCondition now (sctx_VirtualMachineSnapshot ctx)
                  in (if reterr = None then sa_Patch api s else reterr,
                      {sc \<in> sctx_StorageClassesToSync ctx. snap_Namespace s \<noteq> [] \<and> sc \<noteq> []}, Some s))
               (if \<not> time_IsZero (snap_DeletionTimestamp s)
                then (case snap_ReconcileDelete api ctx of
                        (Some err, ctx) \<Rightarrow> Some (Some (''failed to delete VirtualMachineSnapshot: '' @ err), ctx)
                      | (None, ctx) \<Rightarrow> Some (None, ctx))
                else snap_ReconcileNormal api now ctx))"

end
