(* ===== verification/Storage_Usage.thy ===== *)
theory Storage_Usage
  imports Snapshot
begin

text \<open>
  The controller that publishes the storage a namespace uses with a storage class,
  \<^verbatim>\<open>controllers/virtualmachine/storagepolicyusage/storagepolicyusage_controller.go\<close>: one \<^verbatim>\<open>StoragePolicyUsage\<close> for the
  machines of the class and one for their snapshots. A request names a storage class.
\<close>

definition VirtualMachineConditionCreated :: string where
  "VirtualMachineConditionCreated = ''VirtualMachineCreated''"

definition StoragePolicyUsageNameForVM :: "string \<Rightarrow> string" where
  "StoragePolicyUsageNameForVM storageClassName = storageClassName @ ''-vm-usage''"

definition StoragePolicyUsageNameForVMSnapshot :: "string \<Rightarrow> string" where
  "StoragePolicyUsageNameForVMSnapshot storageClassName = storageClassName @ ''-vmsnapshot-usage''"

record 'q QuotaUsageDetails =
  qu_Reserved :: "'q option"
  qu_Used :: "'q option"

record 'q StoragePolicyUsage =
  spu_StorageClassName :: string
  spu_Usage :: "'q QuotaUsageDetails option"

text \<open>
  The API server. Each usage object is read twice, and the second read may see a newer version: \<^verbatim>\<open>su_GetSPU\<close> has the
  number of the read as an argument. \<^verbatim>\<open>su_ListVMs\<close> lists the machines with a storage class, and an image is given by
  the limits of its disks.
\<close>

record 'q usage_api =
  su_ListVMs :: "string \<Rightarrow> goerror + 'q snap_VM list"
  su_ListSnapshots :: "goerror + 'q VirtualMachineSnapshot list"
  su_GetSPU :: "nat \<Rightarrow> string \<Rightarrow> goerror + 'q StoragePolicyUsage"
  su_GetImage :: "string \<Rightarrow> api_error + 'q option list"
  su_GetClusterImage :: "string \<Rightarrow> api_error + 'q option list"
  su_Patch :: "string \<Rightarrow> 'q StoragePolicyUsage \<Rightarrow> goerror option"
  su_VMSnapshots :: bool
  su_Aggregate :: "goerror list \<Rightarrow> goerror"

section \<open>Machines\<close>

definition reportUsed :: "'q::comm_monoid_add snap_VM \<Rightarrow> 'q \<Rightarrow> 'q" where
  "reportUsed vm amount = (case svm_Storage vm of Some (Some q) \<Rightarrow> amount + q | _ \<Rightarrow> amount)"

fun add_limits :: "'q::comm_monoid_add option list \<Rightarrow> 'q \<Rightarrow> 'q" where
  "add_limits [] amount = amount"
| "add_limits (l # ls) amount = add_limits ls (case l of None \<Rightarrow> amount | Some q \<Rightarrow> amount + q)"

text \<open>The read of an image: a missing image reports nothing.\<close>

definition report_image ::
    "string \<Rightarrow> string \<Rightarrow> api_error + 'q::comm_monoid_add option list \<Rightarrow> 'q \<Rightarrow> goerror + 'q" where
  "report_image imgKind imgKey img amount =
     (case img of
        Inl err \<Rightarrow>
          if \<not> IsNotFound err then Inl (''failed to get '' @ imgKind @ '' '' @ imgKey @ '': '' @ api_error_text err)
          else Inr amount
      | Inr limits \<Rightarrow> Inr (add_limits limits amount))"

definition reportReserved ::
    "'q::comm_monoid_add usage_api \<Rightarrow> string \<Rightarrow> 'q snap_VM \<Rightarrow> 'q \<Rightarrow> goerror + 'q" where
  "reportReserved api namespace vm amount =
     (let (imgKind, imgName) = (case svm_Image vm of None \<Rightarrow> ([], []) | Some ref \<Rightarrow> ref)
      in if imgKind = [] \<or> imgName = [] then Inr amount
         else if imgKind = ''VirtualMachineImage''
         then report_image imgKind (namespace @ ''/'' @ imgName) (su_GetImage api imgName) amount
         else if imgKind = ''ClusterVirtualMachineImage''
         then report_image imgKind (''/'' @ imgName) (su_GetClusterImage api imgName) amount
         else Inr amount)"

text \<open>The loop over the machines, with the totals used and reserved.\<close>

fun report_vms ::
    "'q::comm_monoid_add usage_api \<Rightarrow> string \<Rightarrow> 'q snap_VM list \<Rightarrow> 'q \<times> 'q \<Rightarrow> goerror + 'q \<times> 'q" where
  "report_vms api namespace [] totals = Inr totals"
| "report_vms api namespace (vm # vms) (totalUsed, totalReserved) =
     (if \<not> time_IsZero (svm_DeletionTimestamp vm) then report_vms api namespace vms (totalUsed, totalReserved)
      else if svm_Storage vm = None \<or> \<not> Conditions_IsTrue (svm_Conditions vm) VirtualMachineConditionCreated then
        (case reportReserved api namespace vm totalReserved of
           Inl err \<Rightarrow> Inl (''failed to report reserved capacity for '' @
             go_quote (namespace @ ''/'' @ svm_Name vm) @ '': '' @ err)
         | Inr totalReserved \<Rightarrow> report_vms api namespace vms (totalUsed, totalReserved))
      else report_vms api namespace vms (reportUsed vm totalUsed, totalReserved))"

text \<open>The second read and the patch of the status: the error and the object written.\<close>

definition publish_usage ::
    "'q usage_api \<Rightarrow> string \<Rightarrow> string \<Rightarrow> 'q \<times> 'q \<Rightarrow> goerror option \<times> 'q StoragePolicyUsage option" where
  "publish_usage api namespace name totals =
     (case su_GetSPU api 1 name of
        Inl err \<Rightarrow> (Some (''failed to get StoragePolicyUsage '' @ namespace @ ''/'' @ name @ '': '' @ err), None)
      | Inr spu \<Rightarrow>
          let details = (case spu_Usage spu of None \<Rightarrow> \<lparr>qu_Reserved = None, qu_Used = None\<rparr> | Some d \<Rightarrow> d);
              details = details\<lparr>qu_Reserved := Some (snd totals)\<rparr>;
              details = details\<lparr>qu_Used := Some (fst totals)\<rparr>;
              spu = spu\<lparr>spu_Usage := Some details\<rparr>
          in (case su_Patch api name spu of
                Some err \<Rightarrow> (Some (''failed to patch StoragePolicyUsage '' @ namespace @ ''/'' @ name @ '': '' @ err), None)
              | None \<Rightarrow> (None, Some spu)))"

definition ReconcileSPUForVM ::
    "'q::comm_monoid_add usage_api \<Rightarrow> string \<Rightarrow> string \<Rightarrow> 'q snap_VM list \<Rightarrow>
     goerror option \<times> 'q StoragePolicyUsage option" where
  "ReconcileSPUForVM api namespace scName vms =
     (let name = StoragePolicyUsageNameForVM scName
      in case su_GetSPU api 0 name of
        Inl err \<Rightarrow> (Some (''failed to get StoragePolicyUsage '' @ namespace @ ''/'' @ name @ '': '' @ err), None)
      | Inr spu \<Rightarrow>
          (case report_vms api namespace vms (0, 0) of
             Inl err \<Rightarrow> (Some err, None)
           | Inr totals \<Rightarrow> publish_usage api namespace name totals))"

section \<open>Snapshots\<close>

definition vmDeletionState :: "'q snap_VM list \<Rightarrow> (string \<rightharpoonup> bool)" where
  "vmDeletionState vms = fold (\<lambda>vm m. m(svm_Name vm \<mapsto> \<not> time_IsZero (svm_DeletionTimestamp vm))) vms Map.empty"

text \<open>The loop with its \<^verbatim>\<open>break\<close>: the first entry of the class is added. A nil total is dereferenced.\<close>

fun add_requested ::
    "string \<Rightarrow> 'q::comm_monoid_add VirtualMachineSnapshotStorageStatusRequested list \<Rightarrow> 'q \<Rightarrow> 'q option" where
  "add_requested storageClass [] amount = Some amount"
| "add_requested storageClass (r # rs) amount =
     (if req_StorageClass r = storageClass then map_option (\<lambda>q. amount + q) (req_Total r)
      else add_requested storageClass rs amount)"

definition reportReservedForSnapshot ::
    "'q::comm_monoid_add VirtualMachineSnapshot \<Rightarrow> string \<Rightarrow> (string \<rightharpoonup> bool) \<Rightarrow> 'q \<Rightarrow> 'q option" where
  "reportReservedForSnapshot s storageClass deletionState amount =
     (if snap_VMName s = [] then Some amount
      else if deletionState (snap_VMName s) = Some True then Some amount
      else case snap_Storage s of
        None \<Rightarrow> Some amount
      | Some st \<Rightarrow>
          (case st_Requested st of
             None \<Rightarrow> Some amount
           | Some requested \<Rightarrow> add_requested storageClass requested amount))"

definition reportUsedForSnapshot ::
    "'q::comm_monoid_add VirtualMachineSnapshot \<Rightarrow> (string \<rightharpoonup> bool) \<Rightarrow> 'q \<Rightarrow> 'q" where
  "reportUsedForSnapshot s deletionState amount =
     (if snap_VMName s = [] then amount
      else case deletionState (snap_VMName s) of
        None \<Rightarrow> amount
      | Some beingDeleted \<Rightarrow>
          if beingDeleted then amount
          else case snap_Storage s of
            None \<Rightarrow> amount
          | Some st \<Rightarrow> (case st_Used st of None \<Rightarrow> amount | Some q \<Rightarrow> amount + q))"

definition sync_completed :: "'q VirtualMachineSnapshot \<Rightarrow> bool" where
  "sync_completed s \<longleftrightarrow>
     map_value (snap_Annotations s) CSIVSphereVolumeSyncAnnotationKey = CSIVSphereVolumeSyncAnnotationValueCompleted"

fun report_snapshots ::
    "string \<Rightarrow> (string \<rightharpoonup> bool) \<Rightarrow> 'q::comm_monoid_add VirtualMachineSnapshot list \<Rightarrow> 'q \<times> 'q \<Rightarrow> ('q \<times> 'q) option" where
  "report_snapshots storageClass deletionState [] totals = Some totals"
| "report_snapshots storageClass deletionState (s # ss) (totalUsed, totalReserved) =
     (if \<not> time_IsZero (snap_DeletionTimestamp s)
      then report_snapshots storageClass deletionState ss (totalUsed, totalReserved)
      else if sync_completed s
      then report_snapshots storageClass deletionState ss (reportUsedForSnapshot s deletionState totalUsed, totalReserved)
      else case reportReservedForSnapshot s storageClass deletionState totalReserved of
        None \<Rightarrow> None
      | Some totalReserved \<Rightarrow> report_snapshots storageClass deletionState ss (totalUsed, totalReserved))"

definition ReconcileSPUForVMSnapshot ::
    "'q::comm_monoid_add usage_api \<Rightarrow> string \<Rightarrow> string \<Rightarrow> 'q snap_VM list \<Rightarrow>
     (goerror option \<times> 'q StoragePolicyUsage option) option" where
  "ReconcileSPUForVMSnapshot api namespace scName vms =
     (let name = StoragePolicyUsageNameForVMSnapshot scName
      in case su_GetSPU api 0 name of
        Inl err \<Rightarrow> Some (Some (''failed to get StoragePolicyUsage '' @ namespace @ ''/'' @ name @ '': '' @ err), None)
      | Inr spu \<Rightarrow>
          (case su_ListSnapshots api of
             Inl err \<Rightarrow> Some (Some (''failed to list VirtualMachineSnapshots in namespace '' @ namespace @ '': '' @ err), None)
           | Inr snapshots \<Rightarrow>
               map_option (publish_usage api namespace name)
                 (report_snapshots (spu_StorageClassName spu) (vmDeletionState vms) snapshots (0, 0))))"

text \<open>\<^verbatim>\<open>Reconcile\<close>: the error and the usage objects written for the machines and for the snapshots.\<close>

definition spu_ReconcileNormal ::
    "'q::comm_monoid_add usage_api \<Rightarrow> string \<Rightarrow> string \<Rightarrow>
     (goerror option \<times> 'q StoragePolicyUsage option \<times> 'q StoragePolicyUsage option) option" where
  "spu_ReconcileNormal api namespace scName =
     (case su_ListVMs api scName of
        Inl err \<Rightarrow> Some (Some (''failed to list VMs in namespace '' @ namespace @ '': '' @ err), None, None)
      | Inr vms \<Rightarrow>
          let (err1, spu1) = ReconcileSPUForVM api namespace scName vms
          in map_option
               (\<lambda>(err2, spu2).
                  (case (err1, err2) of
                     (None, None) \<Rightarrow> None
                   | (Some e, None) \<Rightarrow> Some (su_Aggregate api [e])
                   | (None, Some e) \<Rightarrow> Some (su_Aggregate api [e])
                   | (Some e, Some e') \<Rightarrow> Some (su_Aggregate api [e, e']), spu1, spu2))
               (if su_VMSnapshots api then ReconcileSPUForVMSnapshot api namespace scName vms
                else Some (None, None)))"

end
