(* ===== verification/Snapshot_Capacity.thy ===== *)
theory Snapshot_Capacity
  imports Snapshot
begin

text \<open>
  What a snapshot reserves in each storage class, stated without the accumulation in a map: \<open>reserved_for\<close> adds the
  memory and the share of every volume in the class, and \<^verbatim>\<open>CalculateReservedForSnapshotPerStorageClass\<close> returns exactly
  these amounts, one entry per class. The last section characterises the format \<^verbatim>\<open>BytesToResource\<close> chooses.
\<close>

section \<open>The reserved amounts\<close>

definition claim_size ::
    "'q snap_client \<Rightarrow> 'q PersistentVolumeClaimVolumeSource \<Rightarrow> (string \<times> 'q) option" where
  "claim_size cl p =
     (case pvs_InstanceVolumeClaim p of
        Some ivc \<Rightarrow> Some (ivc_StorageClass ivc, ivc_Size ivc)
      | None \<Rightarrow>
          (case sc_GetPVC cl (pvs_ClaimName p) of
             Inl err \<Rightarrow> None
           | Inr pvc \<Rightarrow>
               (case (pvc_StorageClassName pvc, pvc_Storage pvc) of
                  (Some sc, Some (Some q)) \<Rightarrow> Some (sc, q)
                | _ \<Rightarrow> None)))"

text \<open>The claim of a volume: the last volume of the specification with the name and a claim counts.\<close>

definition claim_named :: "'q snap_VM \<Rightarrow> string \<Rightarrow> 'q PersistentVolumeClaimVolumeSource option" where
  "claim_named vm = map_of (rev [(n, p). (n, Some p) \<leftarrow> svm_Volumes vm])"

text \<open>The class and the size a volume of the status counts for, if it counts for any.\<close>

definition volume_demand ::
    "'q snap_client \<Rightarrow> 'q snap_VM \<Rightarrow> 'q VirtualMachineVolumeStatus \<Rightarrow> (string \<times> 'q) option" where
  "volume_demand cl vm v =
     (if vs_Type v = VolumeTypeClassic then map_option (Pair (svm_StorageClass vm)) (vs_Requested v)
      else Option.bind (claim_named vm (vs_Name v)) (claim_size cl))"

definition share :: "string \<Rightarrow> (string \<times> 'q::comm_monoid_add) option \<Rightarrow> 'q" where
  "share sc d = (case d of Some (c, q) \<Rightarrow> if c = sc then q else 0 | None \<Rightarrow> 0)"

definition memory_demand :: "'q VirtualMachineSnapshot \<Rightarrow> 'q snap_VM \<Rightarrow> (string \<times> 'q) option" where
  "memory_demand s vm =
     (if snap_Memory s then map_option (Pair (svm_StorageClass vm)) (Option.bind (svm_Memory vm) (\<lambda>t. t)) else None)"

definition demands :: "'q snap_client \<Rightarrow> 'q VirtualMachineSnapshot \<Rightarrow> 'q snap_VM \<Rightarrow> (string \<times> 'q) option list" where
  "demands cl s vm = memory_demand s vm # map (volume_demand cl vm) (svm_StatusVolumes vm)"

definition reserved_for ::
    "'q::comm_monoid_add snap_client \<Rightarrow> 'q VirtualMachineSnapshot \<Rightarrow> 'q snap_VM \<Rightarrow> string \<Rightarrow> 'q" where
  "reserved_for cl s vm sc = (\<Sum>d\<leftarrow>demands cl s vm. share sc d)"

text \<open>A volume the computation accepts: a managed volume without a claim is skipped, any other must have a size.\<close>

definition volume_ok :: "'q snap_client \<Rightarrow> 'q snap_VM \<Rightarrow> 'q VirtualMachineVolumeStatus \<Rightarrow> bool" where
  "volume_ok cl vm v \<longleftrightarrow>
     (if vs_Type v = VolumeTypeClassic then vs_Requested v \<noteq> None
      else vs_Type v = VolumeTypeManaged \<and>
        (claim_named vm (vs_Name v) = None \<or> volume_demand cl vm v \<noteq> None))"

text \<open>The amount a list of entries has for a class.\<close>

definition requested_amount ::
    "'q::comm_monoid_add VirtualMachineSnapshotStorageStatusRequested list \<Rightarrow> string \<Rightarrow> 'q" where
  "requested_amount reqs sc =
     (case find_by req_StorageClass reqs sc of None \<Rightarrow> 0 | Some r \<Rightarrow> (case req_Total r of None \<Rightarrow> 0 | Some q \<Rightarrow> q))"

text \<open>Go ranges over a map in some order of its keys.\<close>

definition map_order :: "((string \<rightharpoonup> 'q) \<Rightarrow> string list) \<Rightarrow> bool" where
  "map_order order \<longleftrightarrow> (\<forall>m. finite (dom m) \<longrightarrow> distinct (order m) \<and> set (order m) = dom m)"

section \<open>The accumulation\<close>

definition amount_in :: "(string \<rightharpoonup> 'q::comm_monoid_add) \<Rightarrow> string \<Rightarrow> 'q" where
  "amount_in m sc = (case m sc of None \<Rightarrow> 0 | Some q \<Rightarrow> q)"

lemma amount_in_add_request [simp]:
  "amount_in (add_request c q m) sc = amount_in m sc + share sc (Some (c, q))"
  by (auto simp: amount_in_def add_request_def share_def split: option.split)

lemma amount_in_empty [simp]: "amount_in (\<lambda>x. None) sc = 0"
  by (simp add: amount_in_def)

lemma dom_add_request [simp]: "dom (add_request c q m) = insert c (dom m)"
  by (auto simp: add_request_def split: option.split)

lemma share_None [simp]: "share sc None = 0"
  by (simp add: share_def)

lemma volumePVCMap_eq: "volumePVCMap vols m = m ++ map_of (rev [(n, p). (n, Some p) \<leftarrow> vols])"
  by (induction vols m rule: volumePVCMap.induct) (auto simp: map_add_def fun_eq_iff split: option.split)

lemma volumePVCMap_claim_named: "volumePVCMap (svm_Volumes vm) Map.empty = claim_named vm"
  by (simp add: volumePVCMap_eq claim_named_def)

lemma reserve_claim_eq:
  "reserve_claim cl v p m = Inr m' \<longleftrightarrow> (\<exists>sc q. claim_size cl p = Some (sc, q) \<and> m' = add_request sc q m)"
  by (auto simp: reserve_claim_def claim_size_def split: option.splits sum.splits)

lemma reserve_volumes_run:
  "reserve_volumes cl (svm_StorageClass vm) (claim_named vm) vs m = Inr m' \<Longrightarrow>
   (\<forall>v\<in>set vs. volume_ok cl vm v) \<and> (finite (dom m) \<longrightarrow> finite (dom m')) \<and>
   amount_in m' sc = amount_in m sc + (\<Sum>v\<leftarrow>vs. share sc (volume_demand cl vm v))"
proof (induction vs arbitrary: m)
  case (Cons v vs)
  show ?case
  proof (cases "vs_Type v = VolumeTypeClassic")
    case True
    then show ?thesis using Cons.prems
      by (auto dest!: Cons.IH simp: volume_ok_def volume_demand_def add.assoc split: option.splits)
  next
    case False
    then have managed: "vs_Type v = VolumeTypeManaged" using Cons.prems by (auto split: if_splits)
    show ?thesis
    proof (cases "claim_named vm (vs_Name v)")
      case None
      then show ?thesis using False managed Cons.prems
        by (auto dest!: Cons.IH simp: volume_ok_def volume_demand_def)
    next
      case (Some p)
      then obtain m1 where m1: "reserve_claim cl (vs_Name v) p m = Inr m1"
        and run: "reserve_volumes cl (svm_StorageClass vm) (claim_named vm) vs m1 = Inr m'"
        using False managed Cons.prems by (auto split: sum.splits)
      from m1 obtain c q where size: "claim_size cl p = Some (c, q)" and m1: "m1 = add_request c q m"
        by (auto simp: reserve_claim_eq)
      with Cons.IH [OF run] Some False managed show ?thesis
        by (auto simp: volume_ok_def volume_demand_def add.assoc)
    qed
  qed
qed simp

lemma reserve_volumes_succeeds:
  "(\<forall>v\<in>set vs. volume_ok cl vm v) \<Longrightarrow>
   \<exists>m'. reserve_volumes cl (svm_StorageClass vm) (claim_named vm) vs m = Inr m'"
proof (induction vs arbitrary: m)
  case (Cons v vs)
  show ?case
  proof (cases "vs_Type v = VolumeTypeClassic")
    case True
    then show ?thesis using Cons.prems Cons.IH by (auto simp: volume_ok_def)
  next
    case False
    then have managed: "vs_Type v = VolumeTypeManaged" using Cons.prems by (auto simp: volume_ok_def)
    show ?thesis
    proof (cases "claim_named vm (vs_Name v)")
      case None
      then show ?thesis using False managed Cons.prems Cons.IH by auto
    next
      case (Some p)
      then obtain c q where "claim_size cl p = Some (c, q)"
        using Cons.prems False by (auto simp: volume_ok_def volume_demand_def)
      then have "reserve_claim cl (vs_Name v) p m = Inr (add_request c q m)" by (auto simp: reserve_claim_eq)
      then show ?thesis using Some False managed Cons.prems Cons.IH by auto
    qed
  qed
qed simp

section \<open>The computation\<close>

lemma requested_amount_entries:
  "set scs = dom m \<Longrightarrow>
   requested_amount (map (\<lambda>sc. \<lparr>req_StorageClass = sc, req_Total = m sc\<rparr>) scs) sc = amount_in m sc"
proof -
  have "find_by req_StorageClass (map (\<lambda>sc. \<lparr>req_StorageClass = sc, req_Total = m sc\<rparr>) scs) sc =
    (if sc \<in> set scs then Some \<lparr>req_StorageClass = sc, req_Total = m sc\<rparr> else None)"
    by (induction scs) auto
  then show "set scs = dom m \<Longrightarrow> ?thesis"
    by (auto simp: requested_amount_def amount_in_def)
qed

lemma reserve_memory_run:
  "reserve_memory s vm = Some (Inr m) \<Longrightarrow>
   finite (dom m) \<and> amount_in m sc = share sc (memory_demand s vm) \<and> (snap_Memory s \<longrightarrow> memory_demand s vm \<noteq> None)"
  by (auto simp: reserve_memory_def memory_demand_def split: if_splits option.splits)

lemma reserve_memory_succeeds:
  "(snap_Memory s \<longrightarrow> memory_demand s vm \<noteq> None) \<Longrightarrow> \<exists>m. reserve_memory s vm = Some (Inr m)"
  by (auto simp: reserve_memory_def memory_demand_def bind_eq_Some_conv)

lemma CalculateReserved_run:
  "CalculateReservedForSnapshotPerStorageClass order cl s = Some (Inr reqs) \<longleftrightarrow>
   snap_VMName s \<noteq> [] \<and>
   (\<exists>vm m0 m. sc_GetVM cl (snap_VMName s) = Inr vm \<and> reserve_memory s vm = Some (Inr m0) \<and>
     reserve_volumes cl (svm_StorageClass vm) (claim_named vm) (svm_StatusVolumes vm) m0 = Inr m \<and>
     reqs = map (\<lambda>sc. \<lparr>req_StorageClass = sc, req_Total = m sc\<rparr>) (order m))"
  (is "?run \<longleftrightarrow> ?spec")
proof (cases "sc_GetVM cl (snap_VMName s)")
  case (Inr vm)
  have "?run \<longleftrightarrow> snap_VMName s \<noteq> [] \<and>
    (\<exists>z. reserve_memory s vm = Some z \<and>
      (case z of Inl err \<Rightarrow> Inl err
       | Inr m \<Rightarrow> (case reserve_volumes cl (svm_StorageClass vm) (claim_named vm) (svm_StatusVolumes vm) m of
           Inl err \<Rightarrow> Inl err
         | Inr m \<Rightarrow> Inr (map (\<lambda>sc. \<lparr>req_StorageClass = sc, req_Total = m sc\<rparr>) (order m)))) = Inr reqs)"
    by (simp add: CalculateReservedForSnapshotPerStorageClass_def volumePVCMap_claim_named Inr)
  also have "\<dots> \<longleftrightarrow> ?spec"
    by (fastforce simp: Inr split: sum.splits)
  finally show ?thesis .
qed (auto simp: CalculateReservedForSnapshotPerStorageClass_def)

lemma reserved_amounts:
  assumes "map_order order" "sc_GetVM cl (snap_VMName s) = Inr vm"
    and "CalculateReservedForSnapshotPerStorageClass order cl s = Some (Inr reqs)"
  shows "distinct (map req_StorageClass reqs) \<and> requested_amount reqs sc = reserved_for cl s vm sc"
proof -
  from assms(2,3) obtain m0 m where m0: "reserve_memory s vm = Some (Inr m0)"
    and m: "reserve_volumes cl (svm_StorageClass vm) (claim_named vm) (svm_StatusVolumes vm) m0 = Inr m"
    and reqs: "reqs = map (\<lambda>sc. \<lparr>req_StorageClass = sc, req_Total = m sc\<rparr>) (order m)"
    by (auto simp: CalculateReserved_run)
  from reserve_memory_run [OF m0, of sc] reserve_volumes_run [OF m, of sc]
  have "finite (dom m)" and amount: "amount_in m sc = reserved_for cl s vm sc"
    by (auto simp: reserved_for_def demands_def comp_def)
  with assms(1) have "distinct (order m)" "set (order m) = dom m" by (auto simp: map_order_def)
  then show ?thesis by (simp add: reqs comp_def requested_amount_entries amount)
qed

text \<open>
  C21. A successful computation returns one entry for each storage class, and the entry of a class is the memory of
  the machine, when the snapshot includes it and the class is the machine's, plus the sizes of the volumes in that
  class; classes without an entry get nothing.
\<close>

theorem reserved_per_class:
  assumes "map_order order" "sc_GetVM cl (snap_VMName s) = Inr vm"
    and "CalculateReservedForSnapshotPerStorageClass order cl s = Some (Inr reqs)"
  shows "distinct (map req_StorageClass reqs) \<and> requested_amount reqs sc = reserved_for cl s vm sc"
  using assms by (rule reserved_amounts)

lemma map_order_sorted_keys: "map_order sorted_keys"
  by (simp add: map_order_def sorted_keys_def)

lemma db_requested:
  "CalculateReservedForSnapshotPerStorageClass sorted_keys db_client nightly =
     Some (Inr [\<lparr>req_StorageClass = ''gold'', req_Total = Some 14\<rparr>, \<lparr>req_StorageClass = ''silver'', req_Total = Some 20\<rparr>])"
  by (simp add: CalculateReservedForSnapshotPerStorageClass_def db_client_def nightly_def db_VM_def
      reserve_memory_def reserve_claim_def add_request_def VolumeTypeClassic_def VolumeTypeManaged_def
      sorted_keys_def)

theorem reserved_per_class_witness:
  "reserved_for db_client nightly db_VM ''gold'' = 14 \<and> reserved_for db_client nightly db_VM ''silver'' = 20"
proof -
  have vm: "sc_GetVM db_client (snap_VMName nightly) = Inr db_VM" by (simp add: db_client_def nightly_def)
  from reserved_per_class [OF map_order_sorted_keys vm db_requested, of "''gold''"]
    reserved_per_class [OF map_order_sorted_keys vm db_requested, of "''silver''"]
  show ?thesis by (simp add: requested_amount_def)
qed

text \<open>
  C0. The capacity is computed exactly when the machine can be read, its memory is known if the snapshot includes it,
  and every volume of its status is a classic disk with a size, or a managed disk that has no claim in the
  specification or a claim with a class and a size.
\<close>

theorem CalculateReserved_succeeds_iff:
  "(\<exists>reqs. CalculateReservedForSnapshotPerStorageClass order cl s = Some (Inr reqs)) \<longleftrightarrow>
   snap_VMName s \<noteq> [] \<and>
   (\<exists>vm. sc_GetVM cl (snap_VMName s) = Inr vm \<and> (snap_Memory s \<longrightarrow> memory_demand s vm \<noteq> None) \<and>
     list_all (volume_ok cl vm) (svm_StatusVolumes vm))"
proof
  assume "\<exists>reqs. CalculateReservedForSnapshotPerStorageClass order cl s = Some (Inr reqs)"
  then show "snap_VMName s \<noteq> [] \<and>
   (\<exists>vm. sc_GetVM cl (snap_VMName s) = Inr vm \<and> (snap_Memory s \<longrightarrow> memory_demand s vm \<noteq> None) \<and>
     list_all (volume_ok cl vm) (svm_StatusVolumes vm))"
    by (auto simp: CalculateReserved_run list_all_iff dest!: reserve_memory_run reserve_volumes_run)
next
  assume "snap_VMName s \<noteq> [] \<and>
   (\<exists>vm. sc_GetVM cl (snap_VMName s) = Inr vm \<and> (snap_Memory s \<longrightarrow> memory_demand s vm \<noteq> None) \<and>
     list_all (volume_ok cl vm) (svm_StatusVolumes vm))"
  then show "\<exists>reqs. CalculateReservedForSnapshotPerStorageClass order cl s = Some (Inr reqs)"
    unfolding CalculateReserved_run list_all_iff
    using reserve_memory_succeeds reserve_volumes_succeeds by metis
qed

section \<open>The format of a byte count\<close>

lemma isBinarySI_zero:
  "0 \<le> b \<Longrightarrow> isBinarySI b 0 \<longleftrightarrow> (\<exists>d k. 0 \<le> d \<and> d < 1024 \<and> b = d * 1024 ^ k)"
proof (induction "nat b" arbitrary: b rule: less_induct)
  case less
  consider "b < 1024" | "b = 1024" | "1024 < b" by linarith
  then show ?case
  proof cases
    case 1
    then have "0 \<le> b \<and> b < 1024 \<and> b = b * 1024 ^ 0" using less.prems by simp
    then have "\<exists>d k. 0 \<le> d \<and> d < 1024 \<and> b = d * 1024 ^ k" by blast
    with 1 show ?thesis by (subst isBinarySI.simps) simp
  next
    case 2
    then have "(0::int) \<le> 1 \<and> (1::int) < 1024 \<and> b = 1 * 1024 ^ 1" by simp
    then have "\<exists>d k. 0 \<le> d \<and> d < 1024 \<and> b = d * 1024 ^ k" by blast
    with 2 show ?thesis by (subst isBinarySI.simps) simp
  next
    case 3
    then have unfold: "isBinarySI b 0 \<longleftrightarrow> isBinarySI (b div 1024) (b mod 1024)"
      by (subst isBinarySI.simps) (simp add: go_rem_def)
    have pos: "k > 0" if "b = d * 1024 ^ k" "d < 1024" for d :: int and k
      using that 3 by (cases k) auto
    show ?thesis
    proof (cases "b mod 1024 = 0")
      case True
      then obtain q where q: "b = 1024 * q" by (auto elim: dvdE)
      have "isBinarySI q 0 \<longleftrightarrow> (\<exists>d k. 0 \<le> d \<and> d < 1024 \<and> q = d * 1024 ^ k)"
        using less.hyps [of q] 3 q by simp
      also have "\<dots> \<longleftrightarrow> (\<exists>d k. 0 \<le> d \<and> d < 1024 \<and> b = d * 1024 ^ Suc k)" by (simp add: q)
      also have "\<dots> \<longleftrightarrow> (\<exists>d k. 0 \<le> d \<and> d < 1024 \<and> b = d * 1024 ^ k)"
        using pos by (metis gr0_conv_Suc)
      finally show ?thesis using unfold q by simp
    next
      case False
      then have "\<not> isBinarySI b 0" using unfold by (subst (asm) isBinarySI.simps) (simp add: order_less_le)
      moreover have "b mod 1024 = 0" if "b = d * 1024 ^ k" "d < 1024" for d k
        using pos [OF that] that by (cases k) auto
      ultimately show ?thesis using False by blast
    qed
  qed
qed

text \<open>
  C0. A byte count is written in binary units exactly when it is one digit below 1024 followed by a power of 1024 that
  is at least the first, so 1.5 MiB is written in decimal units.
\<close>

theorem BytesToResource_binary_iff:
  assumes "0 \<le> b"
  shows "BytesToResource (\<lambda>b f. f) b = BinarySI \<longleftrightarrow> (\<exists>d k. 0 \<le> d \<and> d < 1024 \<and> b = d * 1024 ^ Suc k)"
proof (cases "b mod 1024 = 0")
  case True
  then have "go_rem b 1024 = 0" using assms by (simp add: go_rem_def)
  then have "BytesToResource (\<lambda>b f. f) b = BinarySI \<longleftrightarrow> (\<exists>d k. 0 \<le> d \<and> d < 1024 \<and> b = d * 1024 ^ k)"
    using isBinarySI_zero [OF assms] by (simp add: BytesToResource_def)
  also have "\<dots> \<longleftrightarrow> (\<exists>d k. 0 \<le> d \<and> d < 1024 \<and> b = d * 1024 ^ Suc k)"
  proof
    assume "\<exists>d k. 0 \<le> d \<and> d < 1024 \<and> b = d * 1024 ^ k"
    then obtain d k where d: "0 \<le> d" "d < 1024" "b = d * 1024 ^ k" by blast
    show "\<exists>d k. 0 \<le> d \<and> d < 1024 \<and> b = d * 1024 ^ Suc k"
    proof (cases k)
      case 0
      with d True have "b = 0 * 1024 ^ Suc 0" by simp
      then show ?thesis by (intro exI [of _ 0]) auto
    qed (use d in blast)
  qed blast
  finally show ?thesis .
next
  case False
  then have "\<not> isBinarySI b (go_rem b 1024)"
    using assms by (subst isBinarySI.simps) (auto simp: go_rem_def sgn_if order_less_le)
  with False show ?thesis by (auto simp: BytesToResource_def)
qed

theorem BytesToResource_binary_iff_witness:
  "(BytesToResource (\<lambda>b f. f) 5242880 = BinarySI \<longleftrightarrow> (\<exists>d k. 0 \<le> d \<and> d < 1024 \<and> 5242880 = d * (1024 :: int) ^ Suc k)) \<and>
   BytesToResource (\<lambda>b f. f) 1572864 = DecimalSI"
  using BytesToResource_binary_iff [of 5242880] by (simp add: BytesToResource_def go_rem_def isBinarySI.simps [of 1572864] isBinarySI.simps [of 1536] isBinarySI.simps [of 1])

end
