(* ===== verification/Storage_Quota.thy ===== *)
theory Storage_Quota
  imports Snapshot_Webhooks Snapshot_Capacity
begin

text \<open>
  The webhooks the storage quota service asks for the capacity a request needs,
  \<^verbatim>\<open>webhooks/unifiedstoragequota/validation/unifiedstoragequota_validator.go\<close>: for a virtual machine the disks of its
  image and its swap file on creation and the growth of its boot disk on an update, for a snapshot the capacity of
  \<^verbatim>\<open>CalculateReservedForSnapshotPerStorageClass\<close>. The comparison and the subtraction of quantities are those of the
  class \<^verbatim>\<open>linordered_ab_group_add\<close>; the JSON encoding of the answer is left out, an answer is the list of what is
  written to the response.
\<close>

section \<open>Requests and answers\<close>

record 'q RequestedCapacity =
  rc_Capacity :: 'q
  rc_StorageClassName :: string
  rc_StoragePolicyID :: string
  rc_Reason :: string

record admission_Response =
  ar_Allowed :: bool
  ar_Code :: int
  ar_Message :: string

definition admission_Allowed :: "string \<Rightarrow> admission_Response" where
  "admission_Allowed msg = \<lparr>ar_Allowed = True, ar_Code = 200, ar_Message = msg\<rparr>"

definition admission_Errored :: "int \<Rightarrow> goerror \<Rightarrow> admission_Response" where
  "admission_Errored code err = \<lparr>ar_Allowed = False, ar_Code = code, ar_Message = err\<rparr>"

text \<open>The slice of capacities is nil when a handler does not set it.\<close>

record 'q CapacityResponse =
  cap_RequestedCapacities :: "'q RequestedCapacity list option"
  cap_Response :: admission_Response

definition respond :: "admission_Response \<Rightarrow> 'q CapacityResponse" where
  "respond r = \<lparr>cap_RequestedCapacities = None, cap_Response = r\<rparr>"

text \<open>
  An object of a request, as far as the handlers read it: its annotations, its deletion timestamp, and its conversion
  from the unstructured form.
\<close>

record 'a raw_object =
  raw_Annotations :: "labels option"
  raw_DeletionTimestamp :: gotime
  raw_Converted :: "goerror + 'a"

text \<open>The request, with the results of decoding the new and the old object.\<close>

record 'a capacity_request =
  rq_Operation :: operation
  rq_Object :: "goerror + 'a raw_object"
  rq_OldObject :: "goerror + 'a raw_object"

fun operation_name :: "operation \<Rightarrow> string" where
  "operation_name Create = ''CREATE''"
| "operation_name Update = ''UPDATE''"
| "operation_name Delete_op = ''DELETE''"
| "operation_name Connect = ''CONNECT''"

record 'q image_status =
  img_Type :: string
  img_Conditions :: conditions
  img_Limits :: "'q option list"

text \<open>
  What the handlers call: the storage classes are given by their parameters, and \<^verbatim>\<open>qa_GetClassMemory\<close> is the memory
  and the memory reservation of the configuration of a class, in MB.
\<close>

record 'q quota_api = "'q snap_client" +
  qa_GetStorageClass :: "string \<Rightarrow> api_error + labels option"
  qa_GetImage :: "string \<Rightarrow> api_error + 'q image_status"
  qa_GetClusterImage :: "string \<Rightarrow> api_error + 'q image_status"
  qa_GetClassMemory :: "string \<Rightarrow> goerror + int \<times> int option"
  qa_NewQuantity :: "int \<Rightarrow> quantity_format \<Rightarrow> 'q"
  qa_Order :: "(string \<rightharpoonup> 'q) \<Rightarrow> string list"

definition SkipValidationAnnotationKey :: string where
  "SkipValidationAnnotationKey = ''vmoperator.vmware.com.protected/skip-validation''"

definition SkipValidationAllowed :: string where
  "SkipValidationAllowed = ''Allowed due to skipping validation''"

definition AdmitMesgUpdateOnDeleting :: string where
  "AdmitMesgUpdateOnDeleting = ''Update is allowed during deletion in order to remove the finalizers.''"

definition scParamStoragePolicyID :: string where "scParamStoragePolicyID = ''storagePolicyID''"

section \<open>Virtual machines\<close>

text \<open>\<open>int64_of\<close> is the wrap-around of a 64-bit integer.\<close>

definition int64_of :: "int \<Rightarrow> int" where
  "int64_of x = (x + 2 ^ 63) mod 2 ^ 64 - 2 ^ 63"

text \<open>The class, its configuration and its reservation; a failure is logged and counts as no swap file.\<close>

definition getSwapCapacity :: "'q quota_api \<Rightarrow> 'q snap_VM \<Rightarrow> 'q option" where
  "getSwapCapacity api vm =
     (case qa_GetClassMemory api (svm_ClassName vm) of
        Inl err \<Rightarrow> None
      | Inr (memoryMB, reservation) \<Rightarrow>
          map_option (\<lambda>r. qa_NewQuantity api (int64_of (int64_of (memoryMB - r) * (1024 * 1024))) BinarySI) reservation)"

definition get_status :: "string \<Rightarrow> api_error \<Rightarrow> 'q CapacityResponse" where
  "get_status what err =
     (if IsNotFound err then respond (admission_Errored 404 (api_error_text err))
      else respond (admission_Errored 500 (''failed to get '' @ what @ '': '' @ api_error_text err)))"

definition image_of :: "'q quota_api \<Rightarrow> string \<times> string \<Rightarrow> 'q CapacityResponse + 'q image_status" where
  "image_of api imageRef =
     (let (kind, vmiName) = imageRef
      in if kind = ''VirtualMachineImage''
         then (case qa_GetImage api vmiName of
                 Inl err \<Rightarrow> Inl (get_status (''VirtualMachineImage '' @ go_quote vmiName) err)
               | Inr img \<Rightarrow> Inr img)
         else if kind = ''ClusterVirtualMachineImage''
         then (case qa_GetClusterImage api vmiName of
                 Inl err \<Rightarrow> Inl (get_status (''ClusterVirtualMachineImage '' @ go_quote vmiName) err)
               | Inr img \<Rightarrow> Inr img)
         else Inl (respond (admission_Errored 400 (''unsupported image kind '' @ kind))))"

fun image_capacity :: "'q::comm_monoid_add option list \<Rightarrow> 'q \<Rightarrow> 'q" where
  "image_capacity [] capacity = capacity"
| "image_capacity (limit # ls) capacity = image_capacity ls (case limit of None \<Rightarrow> capacity + 0 | Some q \<Rightarrow> capacity + q)"

definition one_capacity :: "'q \<Rightarrow> string \<Rightarrow> labels option \<Rightarrow> 'q CapacityResponse" where
  "one_capacity capacity scName parameters =
     \<lparr>cap_RequestedCapacities = Some [\<lparr>rc_Capacity = capacity, rc_StorageClassName = scName,
        rc_StoragePolicyID = map_value parameters scParamStoragePolicyID, rc_Reason = []\<rparr>],
      cap_Response = admission_Allowed []\<rparr>"

text \<open>The creation, after the image is read. A nil image is dereferenced.\<close>

definition create_capacity ::
    "'q::comm_monoid_add quota_api \<Rightarrow> 'q snap_VM \<Rightarrow> string \<Rightarrow> labels option \<Rightarrow> 'q image_status \<Rightarrow> 'q CapacityResponse" where
  "create_capacity api vm imageName parameters img =
     (if img_Type img = ''ISO'' then respond (admission_Allowed [])
      else if Conditions_IsTrue (img_Conditions img) ReadyConditionType \<and> img_Limits img = []
      then respond (admission_Allowed [])
      else if \<not> Conditions_IsTrue (img_Conditions img) ReadyConditionType \<and> img_Limits img = []
      then respond (admission_Errored 404 (''no disks found in image '' @ go_quote imageName @ '' status.disks''))
      else
        let capacity = image_capacity (img_Limits img) 0;
            capacity = (case getSwapCapacity api vm of None \<Rightarrow> capacity | Some swap \<Rightarrow> capacity + swap)
        in one_capacity capacity (svm_StorageClass vm) parameters)"

definition vmq_HandleCreate ::
    "'q::comm_monoid_add quota_api \<Rightarrow> 'q snap_VM raw_object \<Rightarrow> 'q CapacityResponse option" where
  "vmq_HandleCreate api obj =
     (case raw_Converted obj of
        Inl err \<Rightarrow> Some (respond (admission_Errored 400
          (''failed to convert unstructured Object to VirtualMachine: '' @ err)))
      | Inr vm \<Rightarrow>
          (case qa_GetStorageClass api (svm_StorageClass vm) of
             Inl err \<Rightarrow> Some (get_status (''storage class '' @ go_quote (svm_StorageClass vm)) err)
           | Inr parameters \<Rightarrow>
               (case svm_Image vm of
                  None \<Rightarrow> None
                | Some imageRef \<Rightarrow>
                    (case image_of api imageRef of
                       Inl response \<Rightarrow> Some response
                     | Inr img \<Rightarrow> Some (create_capacity api vm (snd imageRef) parameters img)))))"

text \<open>The first classic disk of the status that has a limit.\<close>

fun classic_limit :: "'q VirtualMachineVolumeStatus list \<Rightarrow> 'q \<Rightarrow> 'q" where
  "classic_limit [] oldCapacity = oldCapacity"
| "classic_limit (v # vs) oldCapacity =
     (if vs_Type v = VolumeTypeClassic
      then (case vs_Limit v of Some q \<Rightarrow> q | None \<Rightarrow> classic_limit vs oldCapacity)
      else classic_limit vs oldCapacity)"

definition vmq_HandleUpdate ::
    "'q::linordered_ab_group_add quota_api \<Rightarrow> 'q snap_VM raw_object \<Rightarrow> 'q snap_VM raw_object \<Rightarrow> 'q CapacityResponse" where
  "vmq_HandleUpdate api obj oldObj =
     (if \<not> time_IsZero (raw_DeletionTimestamp obj) then respond (admission_Allowed AdmitMesgUpdateOnDeleting)
      else case raw_Converted obj of
        Inl err \<Rightarrow> respond (admission_Errored 400 (''failed to convert unstructured Object to VirtualMachine: '' @ err))
      | Inr vm \<Rightarrow>
          (case raw_Converted oldObj of
             Inl err \<Rightarrow> respond (admission_Errored 400
               (''failed to convert unstructured OldObject to VirtualMachine: '' @ err))
           | Inr oldVM \<Rightarrow>
               (case svm_BootDiskCapacity vm of
                  None \<Rightarrow> respond (admission_Allowed [])
                | Some capacity \<Rightarrow>
                    let oldCapacity = (case svm_BootDiskCapacity oldVM of
                                         None \<Rightarrow> classic_limit (svm_StatusVolumes oldVM) 0
                                       | Some q \<Rightarrow> q)
                    in if \<not> oldCapacity < capacity then respond (admission_Allowed [])
                       else case qa_GetStorageClass api (svm_StorageClass vm) of
                         Inl err \<Rightarrow> get_status (''StorageClass '' @ go_quote (svm_StorageClass vm)) err
                       | Inr parameters \<Rightarrow> one_capacity (capacity - oldCapacity) (svm_StorageClass vm) parameters)))"

text \<open>
  \<^verbatim>\<open>Handle\<close>. For another operation no object is decoded, and the read of the annotations of the nil object panics before
  the test that would allow the request.
\<close>

definition vmq_Handle ::
    "'q::linordered_ab_group_add quota_api \<Rightarrow> 'q snap_VM capacity_request \<Rightarrow> 'q CapacityResponse option" where
  "vmq_Handle api req =
     (if rq_Operation req = Create \<or> rq_Operation req = Update then
        (case rq_Object req of
           Inl err \<Rightarrow> Some (respond (admission_Errored 400 (''failed to decode raw Request.Object: '' @ err)))
         | Inr obj \<Rightarrow>
             if labels_of (raw_Annotations obj) SkipValidationAnnotationKey \<noteq> None
             then Some (respond (admission_Allowed SkipValidationAllowed))
             else if rq_Operation req = Create then vmq_HandleCreate api obj
             else case rq_OldObject req of
               Inl err \<Rightarrow> Some (respond (admission_Errored 400 (''failed to decode raw Request.OldObject: '' @ err)))
             | Inr oldObj \<Rightarrow> Some (vmq_HandleUpdate api obj oldObj))
      else None)"

section \<open>Snapshots\<close>

text \<open>The loop over the classes: a class that cannot be read ends it.\<close>

fun snapshot_capacities ::
    "'q quota_api \<Rightarrow> 'q VirtualMachineSnapshotStorageStatusRequested list \<Rightarrow>
     ('q CapacityResponse + 'q RequestedCapacity list) option" where
  "snapshot_capacities api [] = Some (Inr [])"
| "snapshot_capacities api (r # rs) =
     (case req_Total r of
        None \<Rightarrow> None
      | Some q \<Rightarrow>
          (case qa_GetStorageClass api (req_StorageClass r) of
             Inl err \<Rightarrow> Some (Inl (get_status (''storage class '' @ go_quote (req_StorageClass r)) err))
           | Inr parameters \<Rightarrow>
               (case snapshot_capacities api rs of
                  None \<Rightarrow> None
                | Some (Inl response) \<Rightarrow> Some (Inl response)
                | Some (Inr caps) \<Rightarrow>
                    Some (Inr (\<lparr>rc_Capacity = q, rc_StorageClassName = req_StorageClass r,
                      rc_StoragePolicyID = map_value parameters scParamStoragePolicyID, rc_Reason = []\<rparr> # caps)))))"

definition snapq_HandleCreate ::
    "'q::comm_monoid_add quota_api \<Rightarrow> 'q VirtualMachineSnapshot raw_object \<Rightarrow> 'q CapacityResponse option" where
  "snapq_HandleCreate api obj =
     (case raw_Converted obj of
        Inl err \<Rightarrow> Some (respond (admission_Errored 400
          (''unable to convert unstructured to VirtualMachineSnapshot: '' @ err)))
      | Inr s \<Rightarrow>
          (case CalculateReservedForSnapshotPerStorageClass (qa_Order api) (snap_client.truncate api) s of
             None \<Rightarrow> None
           | Some (Inl err) \<Rightarrow> Some (respond (admission_Errored 500
               (''unable to calculate reserved capacity for snapshot '' @ go_quote (snap_Name s) @ '': '' @ err)))
           | Some (Inr requested) \<Rightarrow>
               (case snapshot_capacities api requested of
                  None \<Rightarrow> None
                | Some (Inl response) \<Rightarrow> Some response
                | Some (Inr caps) \<Rightarrow>
                    Some \<lparr>cap_RequestedCapacities = Some caps, cap_Response = admission_Allowed []\<rparr>)))"

definition snapq_Handle ::
    "'q::comm_monoid_add quota_api \<Rightarrow> 'q VirtualMachineSnapshot capacity_request \<Rightarrow> 'q CapacityResponse option" where
  "snapq_Handle api req =
     (if rq_Operation req \<noteq> Create then Some (respond (admission_Allowed (operation_name (rq_Operation req))))
      else case rq_Object req of
        Inl err \<Rightarrow> Some (respond (admission_Errored 400 (''unable to decode object: '' @ err)))
      | Inr obj \<Rightarrow>
          if labels_of (raw_Annotations obj) SkipValidationAnnotationKey \<noteq> None
          then Some (respond (admission_Allowed SkipValidationAllowed))
          else snapq_HandleCreate api obj)"

section \<open>The answer over HTTP\<close>

datatype 'q answer =
  HTTPError string int
| Capacities "'q RequestedCapacity list option"
| Legacy "'q RequestedCapacity" admission_Response
| NilAnswer

definition vmWebhookPath :: string where
  "vmWebhookPath = ''/getrequestedcapacityforvirtualmachine''"

definition vmSnapshotWebhookPath :: string where
  "vmSnapshotWebhookPath = ''/getrequestedcapacityforvirtualmachinesnapshot''"

definition RequestedCapacity_zero :: "'q::zero RequestedCapacity" where
  "RequestedCapacity_zero = \<lparr>rc_Capacity = 0, rc_StorageClassName = [], rc_StoragePolicyID = [], rc_Reason = []\<rparr>"

definition capacities :: "'q CapacityResponse \<Rightarrow> 'q RequestedCapacity list" where
  "capacities r = (case cap_RequestedCapacities r of None \<Rightarrow> [] | Some cs \<Rightarrow> cs)"

definition vmq_WriteResponse :: "bool \<Rightarrow> 'q::zero CapacityResponse \<Rightarrow> 'q answer list" where
  "vmq_WriteResponse vmSnapshots r =
     (if \<not> ar_Allowed (cap_Response r)
      then [HTTPError (vmWebhookPath @ '': '' @ ar_Message (cap_Response r)) (ar_Code (cap_Response r))]
      else if vmSnapshots then [Capacities (cap_RequestedCapacities r)]
      else case capacities r of
        [c] \<Rightarrow> [Legacy c (cap_Response r)]
      | [] \<Rightarrow> [Legacy RequestedCapacity_zero (cap_Response r)]
      | _ \<Rightarrow> [NilAnswer])"

definition snapq_WriteResponse :: "'q CapacityResponse \<Rightarrow> 'q answer list" where
  "snapq_WriteResponse r =
     (if \<not> ar_Allowed (cap_Response r)
      then [HTTPError (vmSnapshotWebhookPath @ '': '' @ ar_Message (cap_Response r)) (ar_Code (cap_Response r))]
      else []) @ [Capacities (cap_RequestedCapacities r)]"

text \<open>
  An HTTP request: no body, or a body whose read may fail. \<open>decode\<close> is the decoding of the admission review. At most
  \<^verbatim>\<open>maxRequestSize\<close> bytes are read, and a reader that has nothing left after them refuses the request.
\<close>

definition maxRequestSize :: nat where "maxRequestSize = 7 * 1024 * 1024"

record http_request =
  http_Body :: "(goerror + string) option"
  http_ContentType :: string

definition read_request ::
    "nat \<Rightarrow> (string \<Rightarrow> goerror + 'r) \<Rightarrow> http_request \<Rightarrow> admission_Response + 'r" where
  "read_request limit decode r =
     (case http_Body r of
        None \<Rightarrow> Inl (admission_Errored 400 ''request body is empty'')
      | Some (Inl err) \<Rightarrow> Inl (admission_Errored 400 err)
      | Some (Inr body) \<Rightarrow>
          if int limit - int (length (take limit body)) \<le> 0
          then Inl (admission_Errored 413 (''request entity is too large; limit is '' @ show_nat limit @ '' bytes''))
          else if http_ContentType r \<noteq> ''application/json''
          then Inl (admission_Errored 400
            (''contentType='' @ http_ContentType r @ '', expected application/json''))
          else case decode (take limit body) of
            Inl err \<Rightarrow> Inl (admission_Errored 400 err)
          | Inr req \<Rightarrow> Inr req)"

definition vmq_ServeHTTP ::
    "bool \<Rightarrow> 'q::linordered_ab_group_add quota_api \<Rightarrow> (string \<Rightarrow> goerror + 'q snap_VM capacity_request) \<Rightarrow> http_request \<Rightarrow>
     'q answer list option" where
  "vmq_ServeHTTP vmSnapshots api decode r =
     (case read_request maxRequestSize decode r of
        Inl response \<Rightarrow> Some (vmq_WriteResponse vmSnapshots (respond response))
      | Inr req \<Rightarrow> map_option (vmq_WriteResponse vmSnapshots) (vmq_Handle api req))"

definition snapq_ServeHTTP ::
    "'q::comm_monoid_add quota_api \<Rightarrow> (string \<Rightarrow> goerror + 'q VirtualMachineSnapshot capacity_request) \<Rightarrow> http_request \<Rightarrow>
     'q answer list option" where
  "snapq_ServeHTTP api decode r =
     (case read_request maxRequestSize decode r of
        Inl response \<Rightarrow> Some (snapq_WriteResponse (respond response))
      | Inr req \<Rightarrow> map_option snapq_WriteResponse (snapq_Handle api req))"

section \<open>What an update of a machine is charged\<close>

text \<open>The capacity an answer asks for in a storage class.\<close>

definition granted :: "'q::comm_monoid_add RequestedCapacity list \<Rightarrow> string \<Rightarrow> 'q" where
  "granted caps sc = (\<Sum>c\<leftarrow>filter (\<lambda>c. rc_StorageClassName c = sc) caps. rc_Capacity c)"

text \<open>The size the boot disk had: the one of the old specification, or else of the first classic disk with a limit.\<close>

definition old_boot_disk :: "'q::zero snap_VM \<Rightarrow> 'q" where
  "old_boot_disk vm =
     (case svm_BootDiskCapacity vm of
        Some q \<Rightarrow> q
      | None \<Rightarrow>
          (case List.map_filter (\<lambda>v. if vs_Type v = VolumeTypeClassic then vs_Limit v else None) (svm_StatusVolumes vm) of
             [] \<Rightarrow> 0
           | q # qs \<Rightarrow> q))"

lemma classic_limit_first:
  "classic_limit vs d =
     (case List.map_filter (\<lambda>v. if vs_Type v = VolumeTypeClassic then vs_Limit v else None) vs of [] \<Rightarrow> d | q # qs \<Rightarrow> q)"
  by (induction vs) (auto simp: List.map_filter_simps split: option.splits)

text \<open>
  C40. An update of a machine with a known storage class is allowed and asks, in that class only, for the amount by which
  the requested boot disk is larger than the old one: nothing when it does not grow or no size is requested.
\<close>

theorem update_charges_growth:
  fixes api :: "'q::linordered_ab_group_add quota_api"
  assumes "time_IsZero (raw_DeletionTimestamp obj)" "raw_Converted obj = Inr vm" "raw_Converted oldObj = Inr oldVM"
    and "qa_GetStorageClass api (svm_StorageClass vm) = Inr parameters"
  shows "ar_Allowed (cap_Response (vmq_HandleUpdate api obj oldObj)) \<and>
    granted (capacities (vmq_HandleUpdate api obj oldObj)) sc =
      (if sc = svm_StorageClass vm
       then (case svm_BootDiskCapacity vm of None \<Rightarrow> 0 | Some q \<Rightarrow> max 0 (q - old_boot_disk oldVM)) else 0)"
proof -
  have old: "(case svm_BootDiskCapacity oldVM of None \<Rightarrow> classic_limit (svm_StatusVolumes oldVM) 0 | Some q \<Rightarrow> q) =
      old_boot_disk oldVM"
    by (simp add: old_boot_disk_def classic_limit_first split: option.split)
  show ?thesis
    using assms
    by (auto simp: vmq_HandleUpdate_def old Let_def respond_def one_capacity_def admission_Allowed_def capacities_def
        granted_def max_def split: option.split)
qed

definition quota_example :: "int quota_api" where
  "quota_example = snap_client.extend db_client \<lparr>qa_GetStorageClass = \<lambda>n. Inr None, qa_GetImage = \<lambda>n. Inl (NotFound n),
     qa_GetClusterImage = \<lambda>n. Inl (NotFound n), qa_GetClassMemory = \<lambda>n. Inl n, qa_NewQuantity = \<lambda>b f. b,
     qa_Order = sorted_keys\<rparr>"

definition vm_object :: "int snap_VM \<Rightarrow> int snap_VM raw_object" where
  "vm_object vm = \<lparr>raw_Annotations = None, raw_DeletionTimestamp = 0, raw_Converted = Inr vm\<rparr>"

theorem update_charges_growth_witness:
  "granted (capacities (vmq_HandleUpdate quota_example (vm_object (db_VM\<lparr>svm_BootDiskCapacity := Some 16\<rparr>)) (vm_object db_VM)))
     ''gold'' = 6"
proof -
  let ?vm = "db_VM\<lparr>svm_BootDiskCapacity := Some 16\<rparr>"
  have "time_IsZero (raw_DeletionTimestamp (vm_object ?vm))" "raw_Converted (vm_object ?vm) = Inr ?vm"
    "raw_Converted (vm_object db_VM) = Inr db_VM" "qa_GetStorageClass quota_example (svm_StorageClass ?vm) = Inr None"
    by (simp_all add: vm_object_def time_IsZero_def quota_example_def snap_client.defs)
  moreover have "old_boot_disk db_VM = 10" "svm_StorageClass ?vm = ''gold''" by code_simp+
  ultimately show ?thesis using update_charges_growth [of "vm_object ?vm" ?vm "vm_object db_VM" db_VM quota_example None "''gold''"]
    by simp
qed

end
