(* ===== verification/Snapshot_Usage.thy ===== *)
theory Snapshot_Usage
  imports Snapshot_Controller Storage_Usage Storage_Quota
begin

text \<open>
  How the snapshot controller, the storage usage controller and the quota webhook fit together: the usage published
  for a storage class is the sum of the shares of the snapshots, a reconcile of a snapshot asks for a new
  publication of the classes whose share it changes (with the one exception the theorem names), and the capacity
  the quota webhook reports for a new snapshot is the share that is published as reserved.
\<close>

section \<open>The share of a snapshot in the usage of a class\<close>

definition used_of :: "'q VirtualMachineSnapshot \<Rightarrow> 'q option" where
  "used_of s = Option.bind (snap_Storage s) st_Used"

definition requests_of :: "'q VirtualMachineSnapshot \<Rightarrow> 'q VirtualMachineSnapshotStorageStatusRequested list" where
  "requests_of s = (case Option.bind (snap_Storage s) st_Requested of None \<Rightarrow> [] | Some rs \<Rightarrow> rs)"

definition live :: "'q VirtualMachineSnapshot \<Rightarrow> bool" where
  "live s \<longleftrightarrow> time_IsZero (snap_DeletionTimestamp s) \<and> snap_VMName s \<noteq> []"

text \<open>
  \<open>vms\<close> are the machines of the class that is published. Used capacity counts for the class of the machine only,
  reserved capacity for every class with a request.
\<close>

definition used_share :: "'q::comm_monoid_add snap_VM list \<Rightarrow> 'q VirtualMachineSnapshot \<Rightarrow> 'q" where
  "used_share vms s =
     (if live s \<and> sync_completed s \<and> vmDeletionState vms (snap_VMName s) = Some False
      then (case used_of s of None \<Rightarrow> 0 | Some q \<Rightarrow> q) else 0)"

definition reserved_share :: "'q::comm_monoid_add snap_VM list \<Rightarrow> string \<Rightarrow> 'q VirtualMachineSnapshot \<Rightarrow> 'q" where
  "reserved_share vms sc s =
     (if live s \<and> \<not> sync_completed s \<and> vmDeletionState vms (snap_VMName s) \<noteq> Some True
      then requested_amount (requests_of s) sc else 0)"

definition totals_set :: "'q VirtualMachineSnapshot \<Rightarrow> bool" where
  "totals_set s \<longleftrightarrow> list_all (\<lambda>r. req_Total r \<noteq> None) (requests_of s)"

section \<open>The published usage\<close>

lemma add_requested_amount:
  "list_all (\<lambda>r. req_Total r \<noteq> None) rs \<Longrightarrow> add_requested sc rs amount = Some (amount + requested_amount rs sc)"
  by (induction rs) (auto simp: requested_amount_def)

lemma reportReserved_share:
  assumes "time_IsZero (snap_DeletionTimestamp s)" "\<not> sync_completed s" "totals_set s"
  shows "reportReservedForSnapshot s sc (vmDeletionState vms) amount = Some (amount + reserved_share vms sc s)"
  using assms
  by (auto simp: reportReservedForSnapshot_def reserved_share_def live_def totals_set_def requests_of_def
      requested_amount_def add_requested_amount split: option.splits)

lemma reportUsed_share:
  assumes "time_IsZero (snap_DeletionTimestamp s)" "sync_completed s"
  shows "reportUsedForSnapshot s (vmDeletionState vms) amount = amount + used_share vms s"
  using assms by (auto simp: reportUsedForSnapshot_def used_share_def live_def used_of_def split: option.splits)

lemma share_deleted: "\<not> time_IsZero (snap_DeletionTimestamp s) \<Longrightarrow> used_share vms s = 0 \<and> reserved_share vms sc s = 0"
  by (simp add: used_share_def reserved_share_def live_def)

lemma share_exclusive: "(sync_completed s \<longrightarrow> reserved_share vms sc s = 0) \<and> (\<not> sync_completed s \<longrightarrow> used_share vms s = 0)"
  by (simp add: used_share_def reserved_share_def)

lemma report_snapshots_totals:
  "list_all totals_set ss \<Longrightarrow>
   report_snapshots sc (vmDeletionState vms) ss (used, reserved) =
     Some (used + (\<Sum>s\<leftarrow>ss. used_share vms s), reserved + (\<Sum>s\<leftarrow>ss. reserved_share vms sc s))"
proof (induction ss arbitrary: used reserved)
  case (Cons s ss)
  then show ?case
    using share_deleted [of s vms sc] share_exclusive [of s vms sc]
    by (auto simp: reportReserved_share reportUsed_share add.assoc)
qed simp

text \<open>
  C20. When every request it makes is answered, the controller publishes for the snapshots of a class the sum of their
  reserved shares and the sum of their used shares, and keeps the rest of the usage object as the second read
  returned it. A snapshot never counts as both, and one that is being deleted does not count.
\<close>

theorem published_snapshot_usage:
  assumes "su_GetSPU api 0 (StoragePolicyUsageNameForVMSnapshot scName) = Inr spu"
    and "su_GetSPU api 1 (StoragePolicyUsageNameForVMSnapshot scName) = Inr spu'"
    and "su_ListSnapshots api = Inr ss" "list_all totals_set ss"
    and "\<And>spu. su_Patch api (StoragePolicyUsageNameForVMSnapshot scName) spu = None"
  shows "ReconcileSPUForVMSnapshot api namespace scName vms = Some (None, Some (spu'\<lparr>spu_Usage :=
      Some \<lparr>qu_Reserved = Some (\<Sum>s\<leftarrow>ss. reserved_share vms (spu_StorageClassName spu) s),
        qu_Used = Some (\<Sum>s\<leftarrow>ss. used_share vms s)\<rparr>\<rparr>)) \<and>
    (\<forall>s. used_share vms s = 0 \<or> reserved_share vms sc s = 0)"
proof -
  have exclusive: "used_share vms s = 0 \<or> reserved_share vms sc s = 0" for s :: "'a VirtualMachineSnapshot"
    using share_exclusive [of s vms sc] by blast
  show ?thesis
    using assms exclusive
    by (auto simp: ReconcileSPUForVMSnapshot_def Let_def report_snapshots_totals publish_usage_def split: option.split)
qed

definition usage_example :: "int VirtualMachineSnapshot list \<Rightarrow> int usage_api" where
  "usage_example ss = \<lparr>su_ListVMs = \<lambda>sc. Inr [db_VM], su_ListSnapshots = Inr ss,
     su_GetSPU = \<lambda>i n. Inr \<lparr>spu_StorageClassName = ''gold'', spu_Usage = None\<rparr>,
     su_GetImage = \<lambda>n. Inl (NotFound n), su_GetClusterImage = \<lambda>n. Inl (NotFound n), su_Patch = \<lambda>n spu. None,
     su_VMSnapshots = True, su_Aggregate = concat\<rparr>"

definition pending :: "int VirtualMachineSnapshot" where
  "pending = nightly\<lparr>snap_Storage := Some \<lparr>st_Used = None,
     st_Requested = Some [\<lparr>req_StorageClass = ''gold'', req_Total = Some 14\<rparr>]\<rparr>\<rparr>"

theorem published_snapshot_usage_witness:
  "ReconcileSPUForVMSnapshot (usage_example [pending, pending]) ''ns'' ''gold'' [db_VM] =
     Some (None, Some \<lparr>spu_StorageClassName = ''gold'',
       spu_Usage = Some \<lparr>qu_Reserved = Some 28, qu_Used = Some 0\<rparr>\<rparr>)"
proof -
  let ?api = "usage_example [pending, pending]" and ?spu = "\<lparr>spu_StorageClassName = ''gold'', spu_Usage = None\<rparr>"
  have "su_GetSPU ?api i n = Inr ?spu" "su_ListSnapshots ?api = Inr [pending, pending]" "su_Patch ?api n spu = None" for i n spu
    by (simp_all add: usage_example_def)
  moreover have "list_all totals_set [pending, pending]" by code_simp
  moreover have "reserved_share [db_VM] ''gold'' pending = 14" "used_share [db_VM] pending = 0" by code_simp+
  ultimately show ?thesis using published_snapshot_usage [of ?api "''gold''" ?spu ?spu "[pending, pending]" "''ns''" "[db_VM]"]
    by simp
qed

section \<open>What a reconcile changes\<close>

abbreviation classes_of :: "'q VirtualMachineSnapshot \<Rightarrow> string set" where
  "classes_of s \<equiv> req_StorageClass ` set (requests_of s)"

text \<open>The fields a share depends on besides the capacities.\<close>

definition same_meta :: "'q VirtualMachineSnapshot \<Rightarrow> 'q VirtualMachineSnapshot \<Rightarrow> bool" where
  "same_meta s s' \<longleftrightarrow> snap_VMName s' = snap_VMName s \<and> snap_DeletionTimestamp s' = snap_DeletionTimestamp s \<and>
     snap_Namespace s' = snap_Namespace s \<and> sync_completed s' = sync_completed s"

lemma same_meta_trans: "same_meta s t \<Longrightarrow> same_meta t u \<Longrightarrow> same_meta s u"
  by (simp add: same_meta_def)

text \<open>
  \<open>effect vm ctx ctx'\<close>: the requests are kept, or there were none and the classes of the new ones are to be published;
  the used capacity is kept, or the CSI synchronisation is completed and either the classes of the requests or the
  class of the machine are to be published.
\<close>

definition effect ::
    "string \<Rightarrow> 'q VirtualMachineSnapshotContext \<Rightarrow> 'q VirtualMachineSnapshotContext \<Rightarrow> bool" where
  "effect vmClass ctx ctx' \<longleftrightarrow>
     (let s = sctx_VirtualMachineSnapshot ctx; s' = sctx_VirtualMachineSnapshot ctx';
          S' = sctx_StorageClassesToSync ctx'
      in same_meta s s' \<and> sctx_StorageClassesToSync ctx \<subseteq> S' \<and>
         (requests_of s' = requests_of s \<or> requests_of s = [] \<and> classes_of s' \<subseteq> S') \<and>
         (used_of s' = used_of s \<or> \<not> sync_completed s \<or> classes_of s' \<subseteq> S' \<or> vmClass \<in> S'))"

lemmas usage_defs = same_meta_def sync_completed_def used_of_def requests_of_def

lemma calculateRequestedCapacity_effect:
  assumes "calculateRequestedCapacity api ctx = Some (err, ctx')" "requests_of (sctx_VirtualMachineSnapshot ctx) = []"
  shows "effect c ctx ctx' \<and> used_of (sctx_VirtualMachineSnapshot ctx') = used_of (sctx_VirtualMachineSnapshot ctx)"
  using assms
  by (auto simp: calculateRequestedCapacity_def effect_def Let_def usage_defs requested_classes_def
      split: option.splits sum.splits)

lemma calculateUsedCapacity_effect:
  assumes "calculateUsedCapacity api now vm ctx = Some (err, ctx')"
  shows "effect (svm_StorageClass vm) ctx ctx' \<and>
    requests_of (sctx_VirtualMachineSnapshot ctx') = requests_of (sctx_VirtualMachineSnapshot ctx)"
  using assms
  by (auto simp: calculateUsedCapacity_def effect_def Let_def usage_defs requested_classes_def
      split: option.splits sum.splits if_splits)

lemma ensureCSIVolumeSyncAnnotation_same:
  "same_meta s (ensureCSIVolumeSyncAnnotation s)" "snap_Storage (ensureCSIVolumeSyncAnnotation s) = snap_Storage s"
  "snap_Conditions (ensureCSIVolumeSyncAnnotation s) = snap_Conditions s"
  by (auto simp: ensureCSIVolumeSyncAnnotation_def usage_defs Let_def map_value_def labels_of_def
      CSIVSphereVolumeSyncAnnotationValueRequested_def CSIVSphereVolumeSyncAnnotationValueCompleted_def)

lemma reconcile_created_effect:
  assumes "reconcile_created api now vm ctx = Some (err, ctx')"
  shows "effect (svm_StorageClass vm) ctx ctx' \<and>
    requests_of (sctx_VirtualMachineSnapshot ctx') = requests_of (sctx_VirtualMachineSnapshot ctx)"
  using calculateUsedCapacity_effect [OF assms [unfolded reconcile_created_def Let_def]]
    ensureCSIVolumeSyncAnnotation_same [of "sctx_VirtualMachineSnapshot ctx"]
  by (simp add: effect_def Let_def usage_defs)

lemma reconcile_capacity_effect:
  assumes "reconcile_capacity api now vm ctx = Some (err, ctx')"
  shows "effect (svm_StorageClass vm) ctx ctx'"
proof -
  let ?s = "sctx_VirtualMachineSnapshot ctx"
  define st where "st = (case snap_Storage ?s of None \<Rightarrow> \<lparr>st_Used = None, st_Requested = None\<rparr> | Some st \<Rightarrow> st)"
  define ctx0 where "ctx0 = set_snapshot (?s\<lparr>snap_Storage := Some st\<rparr>) ctx"
  have start: "effect c ctx ctx0 \<and> used_of (sctx_VirtualMachineSnapshot ctx0) = used_of ?s \<and>
      requests_of (sctx_VirtualMachineSnapshot ctx0) = requests_of ?s" for c
    by (auto simp: effect_def ctx0_def st_def Let_def usage_defs split: option.split)
  have empty: "st_Requested st = None \<Longrightarrow> requests_of (sctx_VirtualMachineSnapshot ctx0) = []"
    by (simp add: ctx0_def requests_of_def)
  obtain err1 ctx1 where run: "(if st_Requested st = None then calculateRequestedCapacity api ctx0 else Some (None, ctx0)) =
      Some (err1, ctx1)"
    and rest: "err1 \<noteq> None \<and> ctx' = ctx1 \<or> err1 = None \<and> (ctx' = ctx1 \<or> reconcile_created api now vm ctx1 = Some (err, ctx'))"
    using assms unfolding reconcile_capacity_def Let_def st_def [symmetric] ctx0_def [symmetric]
    by (auto split: option.splits prod.splits if_splits)
  from run calculateRequestedCapacity_effect [OF _ empty] start
  have step1: "effect c ctx ctx1 \<and> used_of (sctx_VirtualMachineSnapshot ctx1) = used_of ?s" for c
    by (fastforce simp: effect_def Let_def same_meta_def split: if_splits)
  from rest show ?thesis
  proof (elim disjE conjE)
    assume "reconcile_created api now vm ctx1 = Some (err, ctx')"
    from reconcile_created_effect [OF this] step1 [of "svm_StorageClass vm"] show ?thesis
      by (auto simp: effect_def Let_def same_meta_def)
  qed (use step1 in auto)
qed

text \<open>A reconcile that does not reach the capacities changes none.\<close>

lemma ReconcileNormal_effect:
  assumes "snap_ReconcileNormal api now ctx = Some (err, ctx')"
  shows "(\<exists>vm. sc_GetVM api (snap_VMName (sctx_VirtualMachineSnapshot ctx)) = Inr vm \<and> effect (svm_StorageClass vm) ctx ctx') \<or>
    (\<forall>c. effect c ctx ctx') \<and> used_of (sctx_VirtualMachineSnapshot ctx') = used_of (sctx_VirtualMachineSnapshot ctx)"
proof -
  let ?s = "sctx_VirtualMachineSnapshot ctx" and ?s' = "sctx_VirtualMachineSnapshot ctx'"
  let ?labelled = "\<lambda>refs v. set_snapshot (ensureVMNameLabel ?s\<lparr>snap_OwnerReferences := refs\<rparr>) (ctx\<lparr>sctx_VM := v\<rparr>)"
  consider "sctx_StorageClassesToSync ctx' = sctx_StorageClassesToSync ctx" "snap_Storage ?s' = snap_Storage ?s"
      "same_meta ?s ?s'"
    | refs v vm where "sc_GetVM api (snap_VMName ?s) = Inr vm"
      "reconcile_capacity api now vm (?labelled refs v) = Some (err, ctx')"
    using assms
    by (auto simp: snap_ReconcileNormal_def Let_def same_meta_def sync_completed_def ensureVMNameLabel_def
        split: if_splits sum.splits)
  then show ?thesis
  proof cases
    case 1
    then show ?thesis by (simp add: effect_def Let_def used_of_def requests_of_def)
  next
    case 2
    from reconcile_capacity_effect [OF 2(2)] have "effect (svm_StorageClass vm) ctx ctx'"
      by (simp add: effect_def Let_def usage_defs ensureVMNameLabel_def)
    with 2(1) show ?thesis by blast
  qed
qed

section \<open>Publishing what changed\<close>

text \<open>\<open>vms\<close> are the machines of the namespace: names are unique, and a read returns the machine of the name.\<close>

definition namespace_vms :: "('q, 'x) snap_client_scheme \<Rightarrow> 'q snap_VM list \<Rightarrow> bool" where
  "namespace_vms api vms \<longleftrightarrow> distinct (map svm_Name vms) \<and>
     (\<forall>n vm. sc_GetVM api n = Inr vm \<longrightarrow> vm \<in> set vms \<and> svm_Name vm = n)"

definition in_class :: "string \<Rightarrow> 'q snap_VM list \<Rightarrow> 'q snap_VM list" where
  "in_class sc vms = filter (\<lambda>vm. svm_StorageClass vm = sc) vms"

definition usage_of :: "'q::comm_monoid_add snap_VM list \<Rightarrow> string \<Rightarrow> 'q VirtualMachineSnapshot \<Rightarrow> 'q \<times> 'q" where
  "usage_of vms sc s = (used_share (in_class sc vms) s, reserved_share (in_class sc vms) sc s)"

lemma fold_deletion_state:
  "fold (\<lambda>vm m. m(svm_Name vm \<mapsto> f vm)) vms m n = Some b \<Longrightarrow> n \<in> svm_Name ` set vms \<or> m n = Some b"
  by (induction vms arbitrary: m) (fastforce split: if_splits)+

lemma vmDeletionState_name: "vmDeletionState vms n = Some b \<Longrightarrow> n \<in> svm_Name ` set vms"
  using fold_deletion_state by (fastforce simp: vmDeletionState_def)

lemma requested_amount_class: "sc \<notin> req_StorageClass ` set rs \<Longrightarrow> requested_amount rs sc = 0"
  by (simp add: requested_amount_def find_by_None [symmetric])

lemma effect_usage:
  assumes "effect c ctx ctx'" "s = sctx_VirtualMachineSnapshot ctx" "s' = sctx_VirtualMachineSnapshot ctx'"
    and "usage_of vms sc s' \<noteq> usage_of vms sc s"
  shows "sc \<in> sctx_StorageClassesToSync ctx' \<or>
    used_of s' \<noteq> used_of s \<and> sync_completed s \<and> snap_VMName s \<in> svm_Name ` set (in_class sc vms) \<and>
      (classes_of s' \<subseteq> sctx_StorageClassesToSync ctx' \<or> c \<in> sctx_StorageClassesToSync ctx')"
proof -
  from assms(1-3) have meta: "same_meta s s'" by (simp add: effect_def Let_def)
  then have live: "live s' = live s" by (simp add: same_meta_def live_def)
  show ?thesis
  proof (cases "sync_completed s")
    case True
    with meta live assms(4) have "used_of s' \<noteq> used_of s" and "vmDeletionState (in_class sc vms) (snap_VMName s) = Some False"
      by (auto simp: usage_of_def used_share_def reserved_share_def same_meta_def split: if_splits)
    with True assms(1-3) show ?thesis by (auto simp: effect_def Let_def dest: vmDeletionState_name)
  next
    case False
    with meta live assms(4) have "requested_amount (requests_of s') sc \<noteq> requested_amount (requests_of s) sc"
      by (auto simp: usage_of_def used_share_def reserved_share_def same_meta_def split: if_splits)
    with assms(1-3) have "classes_of s' \<subseteq> sctx_StorageClassesToSync ctx'" "requested_amount (requests_of s') sc \<noteq> 0"
      by (auto simp: effect_def Let_def requested_amount_def)
    then show ?thesis using requested_amount_class [of sc "requests_of s'"] by blast
  qed
qed

lemma ready_condition_same [simp]:
  "snap_VMName (reconcileSnapshotReadyCondition now s) = snap_VMName s"
  "snap_Namespace (reconcileSnapshotReadyCondition now s) = snap_Namespace s"
  "snap_DeletionTimestamp (reconcileSnapshotReadyCondition now s) = snap_DeletionTimestamp s"
  "snap_Annotations (reconcileSnapshotReadyCondition now s) = snap_Annotations s"
  "snap_Storage (reconcileSnapshotReadyCondition now s) = snap_Storage s"
  by (simp_all add: reconcileSnapshotReadyCondition_def Let_def)

lemma ready_condition_usage [simp]:
  "usage_of vms sc (reconcileSnapshotReadyCondition now s) = usage_of vms sc s"
  "requests_of (reconcileSnapshotReadyCondition now s) = requests_of s"
  "used_of (reconcileSnapshotReadyCondition now s) = used_of s"
  by (simp_all add: usage_of_def used_share_def reserved_share_def live_def sync_completed_def used_of_def requests_of_def)

lemma Reconcile_normal:
  assumes "sa_Get api name = Inr s" "time_IsZero (snap_DeletionTimestamp s)"
    and "snap_Reconcile api now name = Some (err, S, Some s')"
  obtains reterr ctx' where
    "snap_ReconcileNormal api now \<lparr>sctx_VirtualMachineSnapshot = s, sctx_VM = None, sctx_StorageClassesToSync = {}\<rparr> =
       Some (reterr, ctx')"
    "s' = reconcileSnapshotReadyCondition now (sctx_VirtualMachineSnapshot ctx')"
    "S = {sc \<in> sctx_StorageClassesToSync ctx'. snap_Namespace s' \<noteq> [] \<and> sc \<noteq> []}"
  using assms by (auto simp: snap_Reconcile_def Let_def split: if_splits)

section \<open>Objects for the examples\<close>

text \<open>An API that serves one machine and one snapshot of the given size.\<close>

definition snapshot_api :: "int snap_VM \<Rightarrow> int VirtualMachineSnapshot \<Rightarrow> int \<Rightarrow> int snap_api" where
  "snapshot_api vm s bytes = \<lparr>sc_GetVM = \<lambda>n. if n = svm_Name vm then Inr vm else Inl (NotFound n),
     sc_GetPVC = sc_GetPVC db_client, sa_Get = \<lambda>n. if n = snap_Name s then Inr s else Inl (NotFound n),
     sa_SetOwnerReference = \<lambda>vm refs. Inr refs, sa_GetSnapshotSize = \<lambda>n vm. Inr bytes,
     sa_DeleteSnapshot = \<lambda>s vm. Inr False, sa_SyncVMSnapshotTreeStatus = Inr, sa_PatchVMStatus = \<lambda>vm. None,
     sa_Patch = \<lambda>s. None, sa_NewQuantity = \<lambda>b f. b,
     sa_Order = \<lambda>m. filter (\<lambda>k. m k \<noteq> None) [''gold'', ''silver'']\<rparr>"

definition adopted :: "int VirtualMachineSnapshot" where
  "adopted = nightly\<lparr>snap_Finalizers := [snap_Finalizer]\<rparr>"

text \<open>A snapshot without memory of a machine all of whose disks are claims of another class, after the CSI driver is done.\<close>

definition claims_VM :: "int snap_VM" where
  "claims_VM = db_VM\<lparr>svm_StatusVolumes :=
     [\<lparr>vs_Name = ''data'', vs_Type = VolumeTypeManaged, vs_Limit = Some 20, vs_Requested = Some 20\<rparr>]\<rparr>"

definition synced :: "int VirtualMachineSnapshot" where
  "synced = adopted\<lparr>snap_Memory := False,
     snap_Annotations := Some [CSIVSphereVolumeSyncAnnotationKey \<mapsto> CSIVSphereVolumeSyncAnnotationValueCompleted],
     snap_Conditions := [TrueCondition VirtualMachineSnapshotCreatedCondition],
     snap_Storage := Some \<lparr>st_Used = None, st_Requested = Some [\<lparr>req_StorageClass = ''silver'', req_Total = Some 20\<rparr>]\<rparr>\<rparr>"

lemma namespace_vms_one: "namespace_vms (snapshot_api vm s bytes) [vm]"
  by (simp add: namespace_vms_def snapshot_api_def)

section \<open>Reconciling and deleting\<close>

text \<open>
  C9. When a reconcile changes what a snapshot contributes to the published usage of a storage class, that class is
  published again. The exception is the class of the machine of a snapshot whose CSI synchronisation is completed, when
  no request of the snapshot names that class: its used capacity changes and nothing publishes it.
\<close>

theorem changed_usage_published:
  assumes "sa_Get api name = Inr s" "time_IsZero (snap_DeletionTimestamp s)" "snap_Namespace s \<noteq> []" "sc \<noteq> []"
    and "namespace_vms api vms" "snap_Reconcile api now name = Some (err, S, Some s')"
    and "usage_of vms sc s' \<noteq> usage_of vms sc s"
  shows "sc \<in> S \<or> sync_completed s \<and> sc \<notin> classes_of s' \<and>
    (\<exists>vm. sc_GetVM api (snap_VMName s) = Inr vm \<and> svm_StorageClass vm = sc)"
proof -
  let ?ctx = "\<lparr>sctx_VirtualMachineSnapshot = s, sctx_VM = None, sctx_StorageClassesToSync = {}\<rparr>"
  from assms(1,2,6) obtain reterr ctx' where run: "snap_ReconcileNormal api now ?ctx = Some (reterr, ctx')"
    and s': "s' = reconcileSnapshotReadyCondition now (sctx_VirtualMachineSnapshot ctx')"
    and S: "S = {sc \<in> sctx_StorageClassesToSync ctx'. snap_Namespace s' \<noteq> [] \<and> sc \<noteq> []}"
    by (rule Reconcile_normal)
  from assms(7) s' have changed: "usage_of vms sc (sctx_VirtualMachineSnapshot ctx') \<noteq> usage_of vms sc s" by simp
  from ReconcileNormal_effect [OF run] obtain c where eff: "effect c ?ctx ctx'"
    and c: "used_of (sctx_VirtualMachineSnapshot ctx') = used_of s \<or>
      (\<exists>vm. sc_GetVM api (snap_VMName s) = Inr vm \<and> svm_StorageClass vm = c)"
    by auto
  have ns: "snap_Namespace s' \<noteq> []" using eff assms(3) s' by (simp add: effect_def same_meta_def Let_def)
  from effect_usage [OF eff _ refl changed] consider "sc \<in> sctx_StorageClassesToSync ctx'"
    | "used_of (sctx_VirtualMachineSnapshot ctx') \<noteq> used_of s" "sync_completed s"
      "snap_VMName s \<in> svm_Name ` set (in_class sc vms)"
      "classes_of s' \<subseteq> sctx_StorageClassesToSync ctx' \<or> c \<in> sctx_StorageClassesToSync ctx'"
    by (auto simp: s')
  then show ?thesis
  proof cases
    case 1
    then show ?thesis using S ns assms(4) by simp
  next
    case 2
    with c obtain vm where vm: "sc_GetVM api (snap_VMName s) = Inr vm" "svm_StorageClass vm = c" by auto
    from 2(3) obtain vm' where vm': "vm' \<in> set vms" "svm_StorageClass vm' = sc" "svm_Name vm' = snap_VMName s"
      by (auto simp: in_class_def)
    from assms(5) vm(1) have "vm \<in> set vms" "svm_Name vm = snap_VMName s" "distinct (map svm_Name vms)"
      by (auto simp: namespace_vms_def)
    with vm' have "vm' = vm" by (metis distinct_map inj_onD)
    with vm vm' have "c = sc" by simp
    then show ?thesis using 2 S ns assms(4) vm by auto
  qed
qed

lemma adopted_run:
  "case snap_Reconcile (snapshot_api db_VM adopted 7) 5 ''nightly'' of
     Some (None, S, Some s') \<Rightarrow> usage_of [db_VM] ''gold'' s' = (0, 14) \<and> usage_of [db_VM] ''gold'' adopted = (0, 0)
   | _ \<Rightarrow> False"
  by code_simp

theorem changed_usage_published_witness:
  "\<exists>S s'. snap_Reconcile (snapshot_api db_VM adopted 7) 5 ''nightly'' = Some (None, S, Some s') \<and> ''gold'' \<in> S"
proof -
  let ?api = "snapshot_api db_VM adopted 7"
  from adopted_run obtain S s' where run: "snap_Reconcile ?api 5 ''nightly'' = Some (None, S, Some s')"
    and usage: "usage_of [db_VM] ''gold'' s' = (0, 14)" "usage_of [db_VM] ''gold'' adopted = (0, 0)"
    by (auto split: option.splits)
  have get: "sa_Get ?api ''nightly'' = Inr adopted" by (simp add: snapshot_api_def adopted_def nightly_def)
  have "time_IsZero (snap_DeletionTimestamp adopted)" "snap_Namespace adopted \<noteq> []" "\<not> sync_completed adopted"
    by code_simp+
  with changed_usage_published [OF get _ _ _ namespace_vms_one run, of "''gold''"] usage run show ?thesis by auto
qed

text \<open>
  C24. The deletion of a snapshot ends its contribution to every class, and the first reconcile that finds the finalizer
  publishes each class it contributed to, with the same exception.
\<close>

theorem deleted_usage_published:
  assumes "sa_Get api name = Inr s" "\<not> time_IsZero (snap_DeletionTimestamp s)" "snap_Namespace s \<noteq> []" "sc \<noteq> []"
    and "snap_Finalizer \<in> set (snap_Finalizers s)" "snap_Reconcile api now name = Some (err, S, Some s')"
    and "usage_of vms sc (s\<lparr>snap_DeletionTimestamp := 0\<rparr>) \<noteq> (0, 0)"
  shows "usage_of vms sc s' = (0, 0) \<and> (sc \<in> S \<or> sync_completed s \<and> sc \<notin> classes_of s)"
proof -
  let ?ctx = "\<lparr>sctx_VirtualMachineSnapshot = s, sctx_VM = None, sctx_StorageClassesToSync = {}\<rparr>"
  obtain reterr ctx' where run: "snap_ReconcileDelete api ?ctx = (reterr, ctx')" by fastforce
  have name: "snap_VMName s \<noteq> []" using assms(7) by (auto simp: usage_of_def used_share_def reserved_share_def live_def)
  have "sctx_StorageClassesToSync ctx' = classes_of s \<and> same_meta s (sctx_VirtualMachineSnapshot ctx')"
    using run assms(5) name
    by (auto simp: snap_ReconcileDelete_def RemoveFinalizer_def Let_def requests_of_def requested_classes_def same_meta_def
        sync_completed_def split: sum.splits if_splits option.splits prod.splits)
  moreover have "s' = reconcileSnapshotReadyCondition now (sctx_VirtualMachineSnapshot ctx') \<and>
      S = {sc \<in> sctx_StorageClassesToSync ctx'. snap_Namespace s' \<noteq> [] \<and> sc \<noteq> []}"
    using assms(1,2,6) run by (auto simp: snap_Reconcile_def Let_def split: option.splits)
  moreover have "sc \<in> classes_of s \<or> sync_completed s"
    using assms(7) requested_amount_class [of sc "requests_of s"]
    by (auto simp: usage_of_def used_share_def reserved_share_def sync_completed_def requests_of_def split: if_splits)
  ultimately show ?thesis using assms(2-4) share_deleted [of s' "in_class sc vms" sc]
    by (auto simp: same_meta_def usage_of_def)
qed

theorem deleted_usage_published_witness:
  "\<exists>S s'. snap_Reconcile (snapshot_api db_VM (synced\<lparr>snap_Annotations := None, snap_DeletionTimestamp := 3\<rparr>) 7) 5 ''nightly'' =
     Some (None, S, Some s') \<and> ''silver'' \<in> S"
proof -
  let ?s = "synced\<lparr>snap_Annotations := None, snap_DeletionTimestamp := 3\<rparr>"
  let ?api = "snapshot_api db_VM ?s 7"
  have "case snap_Reconcile ?api 5 ''nightly'' of Some (None, S, Some s') \<Rightarrow> True | _ \<Rightarrow> False" by code_simp
  then obtain S s' where run: "snap_Reconcile ?api 5 ''nightly'' = Some (None, S, Some s')"
    by (auto split: option.splits)
  have get: "sa_Get ?api ''nightly'' = Inr ?s" by (simp add: snapshot_api_def synced_def adopted_def nightly_def)
  have h: "\<not> time_IsZero (snap_DeletionTimestamp ?s)" "snap_Namespace ?s \<noteq> []" "''silver'' \<noteq> ([] :: string)"
    "snap_Finalizer \<in> set (snap_Finalizers ?s)" by code_simp+
  have "usage_of [db_VM] ''silver'' (?s\<lparr>snap_DeletionTimestamp := 0\<rparr>) \<noteq> (0, 0)" "\<not> sync_completed ?s" by code_simp+
  with deleted_usage_published [OF get h run] run show ?thesis by auto
qed

end
