(* ===== verification/Snapshot_Ready.thy ===== *)
theory Snapshot_Ready
  imports Snapshot_Usage
begin

text \<open>
  The conditions of a snapshot (it is ready exactly when it is created and its volumes are synchronised, and a created
  snapshot whose CSI driver is done is ready after one reconcile), and the agreement of the quota webhook with the
  usage that is published.
\<close>

section \<open>Readiness\<close>

lemma condition_types_neq [simp]:
  "VirtualMachineSnapshotReadyCondition \<noteq> VirtualMachineSnapshotCreatedCondition"
  "VirtualMachineSnapshotReadyCondition \<noteq> VirtualMachineSnapshotCSIVolumeSyncedCondition"
  "VirtualMachineSnapshotCreatedCondition \<noteq> VirtualMachineSnapshotReadyCondition"
  "VirtualMachineSnapshotCSIVolumeSyncedCondition \<noteq> VirtualMachineSnapshotReadyCondition"
  "VirtualMachineSnapshotCreatedCondition \<noteq> VirtualMachineSnapshotCSIVolumeSyncedCondition"
  "VirtualMachineSnapshotCSIVolumeSyncedCondition \<noteq> VirtualMachineSnapshotCreatedCondition"
  by (simp_all add: snapshot_conditions)

lemma reconcileSnapshotReadyCondition_iff:
  assumes "wf_conditions (snap_Conditions s)" "time_IsZero (snap_DeletionTimestamp s)"
  shows "wf_conditions (snap_Conditions (reconcileSnapshotReadyCondition now s)) \<and>
    (Conditions_IsTrue (snap_Conditions (reconcileSnapshotReadyCondition now s)) VirtualMachineSnapshotReadyCondition \<longleftrightarrow>
       Conditions_IsTrue (snap_Conditions (reconcileSnapshotReadyCondition now s)) VirtualMachineSnapshotCreatedCondition \<and>
       Conditions_IsTrue (snap_Conditions (reconcileSnapshotReadyCondition now s))
         VirtualMachineSnapshotCSIVolumeSyncedCondition)"
  using assms by (simp add: reconcileSnapshotReadyCondition_def Let_def Mark_status)

lemma calculateUsedCapacity_wf:
  "calculateUsedCapacity api now vm ctx = Some (err, ctx') \<Longrightarrow>
   wf_conditions (snap_Conditions (sctx_VirtualMachineSnapshot ctx)) \<Longrightarrow>
   wf_conditions (snap_Conditions (sctx_VirtualMachineSnapshot ctx'))"
  by (auto simp: calculateUsedCapacity_def Let_def Mark_status split: sum.splits option.splits if_splits)

lemma calculateRequestedCapacity_conditions:
  "calculateRequestedCapacity api ctx = Some (err, ctx') \<Longrightarrow>
   snap_Conditions (sctx_VirtualMachineSnapshot ctx') = snap_Conditions (sctx_VirtualMachineSnapshot ctx)"
  by (auto simp: calculateRequestedCapacity_def Let_def split: sum.splits option.splits)

lemma reconcile_created_wf:
  "reconcile_created api now vm ctx = Some (err, ctx') \<Longrightarrow>
   wf_conditions (snap_Conditions (sctx_VirtualMachineSnapshot ctx)) \<Longrightarrow>
   wf_conditions (snap_Conditions (sctx_VirtualMachineSnapshot ctx'))"
  by (auto simp: reconcile_created_def Let_def Mark_status ensureCSIVolumeSyncAnnotation_same
      dest!: calculateUsedCapacity_wf)

lemma reconcile_capacity_wf:
  "reconcile_capacity api now vm ctx = Some (err, ctx') \<Longrightarrow>
   wf_conditions (snap_Conditions (sctx_VirtualMachineSnapshot ctx)) \<Longrightarrow>
   wf_conditions (snap_Conditions (sctx_VirtualMachineSnapshot ctx'))"
  by (fastforce simp: reconcile_capacity_def Let_def dest: calculateRequestedCapacity_conditions reconcile_created_wf
      split: option.splits if_splits prod.splits)

lemma ReconcileNormal_wf:
  "snap_ReconcileNormal api now ctx = Some (err, ctx') \<Longrightarrow>
   wf_conditions (snap_Conditions (sctx_VirtualMachineSnapshot ctx)) \<Longrightarrow>
   wf_conditions (snap_Conditions (sctx_VirtualMachineSnapshot ctx'))"
  by (auto simp: snap_ReconcileNormal_def ensureVMNameLabel_def Let_def dest!: reconcile_capacity_wf
      split: sum.splits if_splits)

text \<open>
  C0. Whatever happens in a reconcile of a snapshot that is not being deleted, the conditions it stores are well formed
  and the snapshot is ready exactly when it is created and its CSI volumes are synchronised.
\<close>

theorem snapshot_ready_iff:
  assumes "sa_Get api name = Inr s" "time_IsZero (snap_DeletionTimestamp s)" "wf_conditions (snap_Conditions s)"
    and "snap_Reconcile api now name = Some (err, S, Some s')"
  shows "wf_conditions (snap_Conditions s') \<and>
    (Conditions_IsTrue (snap_Conditions s') VirtualMachineSnapshotReadyCondition \<longleftrightarrow>
       Conditions_IsTrue (snap_Conditions s') VirtualMachineSnapshotCreatedCondition \<and>
       Conditions_IsTrue (snap_Conditions s') VirtualMachineSnapshotCSIVolumeSyncedCondition)"
proof -
  let ?ctx = "\<lparr>sctx_VirtualMachineSnapshot = s, sctx_VM = None, sctx_StorageClassesToSync = {}\<rparr>"
  from assms(1,2,4) obtain reterr ctx' where run: "snap_ReconcileNormal api now ?ctx = Some (reterr, ctx')"
    and s': "s' = reconcileSnapshotReadyCondition now (sctx_VirtualMachineSnapshot ctx')"
    by (rule Reconcile_normal)
  have "wf_conditions (snap_Conditions (sctx_VirtualMachineSnapshot ctx'))"
    using ReconcileNormal_wf [OF run] assms(3) by simp
  moreover have "time_IsZero (snap_DeletionTimestamp (sctx_VirtualMachineSnapshot ctx'))"
    using ReconcileNormal_effect [OF run] assms(2) by (auto simp: effect_def same_meta_def Let_def)
  ultimately show ?thesis unfolding s' by (rule reconcileSnapshotReadyCondition_iff)
qed

theorem snapshot_ready_iff_witness:
  "\<exists>S s'. snap_Reconcile (snapshot_api claims_VM synced 7) 5 ''nightly'' = Some (None, S, Some s') \<and>
     Conditions_IsTrue (snap_Conditions s') VirtualMachineSnapshotReadyCondition"
proof -
  let ?api = "snapshot_api claims_VM synced 7"
  have "case snap_Reconcile ?api 5 ''nightly'' of Some (None, S, Some s') \<Rightarrow>
      Conditions_IsTrue (snap_Conditions s') VirtualMachineSnapshotCreatedCondition \<and>
      Conditions_IsTrue (snap_Conditions s') VirtualMachineSnapshotCSIVolumeSyncedCondition | _ \<Rightarrow> False" by code_simp
  then obtain S s' where run: "snap_Reconcile ?api 5 ''nightly'' = Some (None, S, Some s')"
    and both: "Conditions_IsTrue (snap_Conditions s') VirtualMachineSnapshotCreatedCondition"
      "Conditions_IsTrue (snap_Conditions s') VirtualMachineSnapshotCSIVolumeSyncedCondition"
    by (auto split: option.splits)
  have get: "sa_Get ?api ''nightly'' = Inr synced" by (simp add: snapshot_api_def synced_def adopted_def nightly_def)
  have h: "time_IsZero (snap_DeletionTimestamp synced)" "wf_conditions (snap_Conditions synced)" by code_simp+
  from snapshot_ready_iff [OF get h run] run both show ?thesis by blast
qed

text \<open>The conditions after the synchronisation condition is set to false and then to true.\<close>

definition resynced :: "gotime \<Rightarrow> conditions \<Rightarrow> conditions" where
  "resynced now cs =
     Conditions_MarkTrue now (Conditions_MarkFalse now cs VirtualMachineSnapshotCSIVolumeSyncedCondition
       VirtualMachineSnapshotCSIVolumeSyncInProgressReason ''Sync CSI volume requested'')
       VirtualMachineSnapshotCSIVolumeSyncedCondition"

lemma resynced_restamped:
  assumes "wf_conditions cs"
  shows "Conditions_GetLastTransitionTime (resynced now cs) VirtualMachineSnapshotCSIVolumeSyncedCondition =
    Some (time_TruncateSecond now)"
proof -
  let ?csi = VirtualMachineSnapshotCSIVolumeSyncedCondition
  let ?false = "Conditions_MarkFalse now cs ?csi VirtualMachineSnapshotCSIVolumeSyncInProgressReason
    ''Sync CSI volume requested''"
  have "\<exists>c. Conditions_Get ?false ?csi = Some c \<and> cstatus c = ConditionFalse"
    using slice.getc_setc [OF assms] by (simp add: Conditions_MarkFalse_def FalseCondition_def updated_status)
  then have "Conditions_Get (resynced now cs) ?csi = Some ((TrueCondition ?csi)\<lparr>lastTransitionTime := time_TruncateSecond now\<rparr>)"
    using slice.getc_setc [OF Mark_status(6) [OF assms]]
    by (auto simp: resynced_def Conditions_MarkTrue_def TrueCondition_def updated_def hasSameState_def ConditionTrue_def
        ConditionFalse_def)
  then show ?thesis by (simp add: Conditions_GetLastTransitionTime_def)
qed

lemma ensureCSIVolumeSyncAnnotation_completed: "sync_completed s \<Longrightarrow> ensureCSIVolumeSyncAnnotation s = s"
  by (auto simp: ensureCSIVolumeSyncAnnotation_def sync_completed_def Let_def map_value_def labels_of_def
      CSIVSphereVolumeSyncAnnotationValueCompleted_def)

lemma reconcile_created_completed:
  assumes "sync_completed s" "wf_conditions (snap_Conditions s)" "snap_Storage s = Some st"
    and "sa_GetSnapshotSize api (snap_Name s) vm = Inr bytes" "sctx_VirtualMachineSnapshot ctx = s"
  shows "reconcile_created api now vm ctx = Some (None, ctx\<lparr>sctx_VirtualMachineSnapshot := s\<lparr>
      snap_Storage := Some (st\<lparr>st_Used := Some (BytesToResource (sa_NewQuantity api) bytes)\<rparr>),
      snap_Conditions := resynced now (snap_Conditions s)\<rparr>,
      sctx_StorageClassesToSync := sctx_StorageClassesToSync ctx \<union> requested_classes st\<rparr>)"
  using assms
  by (simp add: requested_classes_def reconcile_created_def calculateUsedCapacity_def ensureCSIVolumeSyncAnnotation_completed Let_def
      sync_completed_def Mark_status resynced_def)

lemma resynced_ready:
  assumes "wf_conditions (snap_Conditions s)" "time_IsZero (snap_DeletionTimestamp s)"
    and "snap_Conditions s = resynced now cs" "wf_conditions cs" "Conditions_IsTrue cs VirtualMachineSnapshotCreatedCondition"
  shows "Conditions_IsTrue (snap_Conditions (reconcileSnapshotReadyCondition now s)) VirtualMachineSnapshotReadyCondition \<and>
    Conditions_GetLastTransitionTime (snap_Conditions (reconcileSnapshotReadyCondition now s))
      VirtualMachineSnapshotCSIVolumeSyncedCondition = Some (time_TruncateSecond now)"
proof -
  have both: "Conditions_IsTrue (resynced now cs) VirtualMachineSnapshotCreatedCondition"
    "Conditions_IsTrue (resynced now cs) VirtualMachineSnapshotCSIVolumeSyncedCondition"
    using assms(4,5) by (simp_all add: resynced_def Mark_status)
  have wf: "wf_conditions (resynced now cs)" using assms(1,3) by simp
  have eq: "snap_Conditions (reconcileSnapshotReadyCondition now s) =
      Conditions_MarkTrue now (resynced now cs) VirtualMachineSnapshotReadyCondition"
    using both assms(2,3) by (simp add: reconcileSnapshotReadyCondition_def Let_def)
  have "Conditions_Get (Conditions_MarkTrue now (resynced now cs) VirtualMachineSnapshotReadyCondition)
      VirtualMachineSnapshotCSIVolumeSyncedCondition =
    Conditions_Get (resynced now cs) VirtualMachineSnapshotCSIVolumeSyncedCondition"
    using slice.getc_setc [OF wf] by (simp add: Conditions_MarkTrue_def TrueCondition_def)
  then show ?thesis using resynced_restamped [OF assms(4), of now] wf
    by (simp add: eq Mark_status Conditions_GetLastTransitionTime_def)
qed

text \<open>The snapshot that a reconcile stores, and the classes it publishes, once the CSI driver is done.\<close>

definition synced_result :: "gotime \<Rightarrow> OwnerReference list \<Rightarrow> 'q VirtualMachineSnapshotStorageStatus \<Rightarrow> 'q \<Rightarrow>
    'q VirtualMachineSnapshot \<Rightarrow> 'q VirtualMachineSnapshot" where
  "synced_result now refs st used s = reconcileSnapshotReadyCondition now (s\<lparr>
     snap_Labels := SetMetaDataLabel VMNameForSnapshotLabel (snap_VMName s) (snap_Labels s), snap_OwnerReferences := refs,
     snap_Storage := Some (st\<lparr>st_Used := Some used\<rparr>), snap_Conditions := resynced now (snap_Conditions s)\<rparr>)"

lemma synced_reconcile:
  assumes "sa_Get api name = Inr s" "time_IsZero (snap_DeletionTimestamp s)" "wf_conditions (snap_Conditions s)"
    and "snap_Finalizer \<in> set (snap_Finalizers s)" "snap_VMName s \<noteq> []"
    and "sc_GetVM api (snap_VMName s) = Inr vm" "svm_UniqueID vm \<noteq> []"
    and "sa_SetOwnerReference api vm (snap_OwnerReferences s) = Inr refs"
    and "snap_Storage s = Some st" "st_Requested st \<noteq> None"
    and "Conditions_IsTrue (snap_Conditions s) VirtualMachineSnapshotCreatedCondition" "sync_completed s"
    and "sa_GetSnapshotSize api (snap_Name s) vm = Inr bytes"
  shows "\<exists>err S. snap_Reconcile api now name =
      Some (err, S, Some (synced_result now refs st (BytesToResource (sa_NewQuantity api) bytes) s)) \<and>
    S \<subseteq> requested_classes st"
proof -
  define s0 where "s0 = s\<lparr>snap_Labels := SetMetaDataLabel VMNameForSnapshotLabel (snap_VMName s) (snap_Labels s),
    snap_OwnerReferences := refs, snap_Storage := Some st\<rparr>"
  define s1 where "s1 = s0\<lparr>snap_Storage := Some (st\<lparr>st_Used := Some (BytesToResource (sa_NewQuantity api) bytes)\<rparr>),
    snap_Conditions := resynced now (snap_Conditions s)\<rparr>"
  define ctx0 where "ctx0 = \<lparr>sctx_VirtualMachineSnapshot = s0, sctx_VM = Some vm, sctx_StorageClassesToSync = ({} :: string set)\<rparr>"
  have created: "reconcile_created api now vm ctx0 =
      Some (None, ctx0\<lparr>sctx_VirtualMachineSnapshot := s1, sctx_StorageClassesToSync := requested_classes st\<rparr>)"
    using reconcile_created_completed [of s0 st api vm bytes ctx0 now] assms
    by (simp add: s0_def s1_def ctx0_def sync_completed_def)
  have "snap_ReconcileNormal api now \<lparr>sctx_VirtualMachineSnapshot = s, sctx_VM = None, sctx_StorageClassesToSync = {}\<rparr> =
      reconcile_created api now vm ctx0"
    using assms(4-11) by (simp add: snap_ReconcileNormal_def reconcile_capacity_def ensureVMNameLabel_def Let_def s0_def ctx0_def del: not_None_eq)
  with created have "snap_Reconcile api now name = Some (sa_Patch api (reconcileSnapshotReadyCondition now s1),
      {sc \<in> requested_classes st. snap_Namespace s1 \<noteq> [] \<and> sc \<noteq> []}, Some (reconcileSnapshotReadyCondition now s1))"
    using assms(1,2) by (simp add: snap_Reconcile_def Let_def)
  moreover have "synced_result now refs st (BytesToResource (sa_NewQuantity api) bytes) s = reconcileSnapshotReadyCondition now s1"
    by (simp add: synced_result_def s1_def s0_def)
  ultimately have "snap_Reconcile api now name = Some (sa_Patch api (reconcileSnapshotReadyCondition now s1),
      {sc \<in> requested_classes st. snap_Namespace s1 \<noteq> [] \<and> sc \<noteq> []},
      Some (synced_result now refs st (BytesToResource (sa_NewQuantity api) bytes) s))"
    by (simp only:)
  then show ?thesis by (intro exI conjI) (assumption, blast)
qed

text \<open>
  C22. A created snapshot whose CSI driver has completed the synchronisation is ready after one reconcile, its used
  capacity is the size vSphere reports, and the transition time of the synchronisation condition is the time of this
  reconcile, even when the condition was true before.
\<close>

theorem synced_snapshot_ready:
  assumes "sa_Get api name = Inr s" "time_IsZero (snap_DeletionTimestamp s)" "wf_conditions (snap_Conditions s)"
    and "snap_Finalizer \<in> set (snap_Finalizers s)" "snap_VMName s \<noteq> []"
    and "sc_GetVM api (snap_VMName s) = Inr vm" "svm_UniqueID vm \<noteq> []"
    and "sa_SetOwnerReference api vm (snap_OwnerReferences s) = Inr refs"
    and "snap_Storage s = Some st" "st_Requested st \<noteq> None"
    and "Conditions_IsTrue (snap_Conditions s) VirtualMachineSnapshotCreatedCondition" "sync_completed s"
    and "sa_GetSnapshotSize api (snap_Name s) vm = Inr bytes"
  shows "\<exists>err S s'. snap_Reconcile api now name = Some (err, S, Some s') \<and>
    Conditions_IsTrue (snap_Conditions s') VirtualMachineSnapshotReadyCondition \<and>
    used_of s' = Some (BytesToResource (sa_NewQuantity api) bytes) \<and>
    Conditions_GetLastTransitionTime (snap_Conditions s') VirtualMachineSnapshotCSIVolumeSyncedCondition =
      Some (time_TruncateSecond now)"
proof -
  let ?used = "BytesToResource (sa_NewQuantity api) bytes"
  let ?s = "s\<lparr>snap_Labels := SetMetaDataLabel VMNameForSnapshotLabel (snap_VMName s) (snap_Labels s), snap_OwnerReferences := refs,
     snap_Storage := Some (st\<lparr>st_Used := Some ?used\<rparr>), snap_Conditions := resynced now (snap_Conditions s)\<rparr>"
  have "used_of (synced_result now refs st ?used s) = Some ?used" by (simp add: synced_result_def used_of_def)
  moreover have "wf_conditions (snap_Conditions ?s)" using assms(3) by (simp add: resynced_def Mark_status)
  then have "Conditions_IsTrue (snap_Conditions (synced_result now refs st ?used s)) VirtualMachineSnapshotReadyCondition \<and>
    Conditions_GetLastTransitionTime (snap_Conditions (synced_result now refs st ?used s))
      VirtualMachineSnapshotCSIVolumeSyncedCondition = Some (time_TruncateSecond now)"
    using resynced_ready [of ?s now "snap_Conditions s"] assms(2,3,11) by (simp add: synced_result_def)
  ultimately show ?thesis using synced_reconcile [OF assms, of now] by blast
qed

theorem synced_snapshot_ready_witness:
  "\<exists>err S s'. snap_Reconcile (snapshot_api claims_VM synced 2048) 1500000000 ''nightly'' = Some (err, S, Some s') \<and>
     Conditions_IsTrue (snap_Conditions s') VirtualMachineSnapshotReadyCondition \<and> used_of s' = Some 2048 \<and>
     Conditions_GetLastTransitionTime (snap_Conditions s') VirtualMachineSnapshotCSIVolumeSyncedCondition = Some 1000000000"
proof -
  let ?api = "snapshot_api claims_VM synced 2048"
  have get: "sa_Get ?api ''nightly'' = Inr synced" "sc_GetVM ?api (snap_VMName synced) = Inr claims_VM"
    "sa_SetOwnerReference ?api claims_VM (snap_OwnerReferences synced) = Inr []"
    "sa_GetSnapshotSize ?api (snap_Name synced) claims_VM = Inr 2048"
    by (simp_all add: snapshot_api_def claims_VM_def db_VM_def synced_def adopted_def nightly_def)
  have storage: "snap_Storage synced =
      Some \<lparr>st_Used = None, st_Requested = Some [\<lparr>req_StorageClass = ''silver'', req_Total = Some 20\<rparr>]\<rparr>"
    by (simp add: synced_def)
  have h: "time_IsZero (snap_DeletionTimestamp synced)" "wf_conditions (snap_Conditions synced)"
    "snap_Finalizer \<in> set (snap_Finalizers synced)" "snap_VMName synced \<noteq> []" "svm_UniqueID claims_VM \<noteq> []"
    "Conditions_IsTrue (snap_Conditions synced) VirtualMachineSnapshotCreatedCondition" "sync_completed synced"
    by code_simp+
  have "BytesToResource (sa_NewQuantity ?api) 2048 = 2048" "time_TruncateSecond 1500000000 = 1000000000" by code_simp+
  with synced_snapshot_ready [OF get(1) h(1-4) get(2) h(5) get(3) storage _ h(6,7) get(4), of 1500000000]
  show ?thesis by simp
qed

section \<open>The class of the machine\<close>




section \<open>The quota webhook and the published usage\<close>

lemma snapshot_capacities_granted:
  "snapshot_capacities api reqs = Some (Inr caps) \<Longrightarrow> distinct (map req_StorageClass reqs) \<Longrightarrow>
   map rc_StorageClassName caps = map req_StorageClass reqs \<and> granted caps sc = requested_amount reqs sc"
proof (induction reqs arbitrary: caps)
  case (Cons r reqs)
  then obtain q parameters caps' where r: "req_Total r = Some q" "qa_GetStorageClass api (req_StorageClass r) = Inr parameters"
    and caps': "snapshot_capacities api reqs = Some (Inr caps')"
    and caps: "caps = \<lparr>rc_Capacity = q, rc_StorageClassName = req_StorageClass r,
      rc_StoragePolicyID = map_value parameters scParamStoragePolicyID, rc_Reason = []\<rparr> # caps'"
    by (auto split: option.splits sum.splits)
  from Cons.IH [OF caps'] Cons.prems(2) have "map rc_StorageClassName caps' = map req_StorageClass reqs"
    "granted caps' sc = requested_amount reqs sc" by auto
  moreover have "requested_amount reqs (req_StorageClass r) = 0"
    using Cons.prems(2) by (simp add: requested_amount_class)
  ultimately show ?case using r(1) by (auto simp: caps granted_def requested_amount_def)
qed (simp add: granted_def requested_amount_def)

lemma snapshot_capacities_error:
  "snapshot_capacities api reqs = Some (Inl r) \<Longrightarrow> \<not> ar_Allowed (cap_Response r)"
  by (induction reqs arbitrary: r)
    (auto simp: get_status_def respond_def admission_Errored_def split: option.splits sum.splits if_splits)

lemma CalculateReserved_cong:
  "snap_VMName s = snap_VMName t \<Longrightarrow> snap_Memory s = snap_Memory t \<Longrightarrow>
   CalculateReservedForSnapshotPerStorageClass order cl s = CalculateReservedForSnapshotPerStorageClass order cl t"
  by (simp add: CalculateReservedForSnapshotPerStorageClass_def reserve_memory_def split: sum.split)

lemma reserved_for_cong: "snap_Memory s = snap_Memory t \<Longrightarrow> reserved_for cl s vm sc = reserved_for cl t vm sc"
  by (simp add: reserved_for_def demands_def memory_demand_def)

lemma reconcile_capacity_requests:
  assumes "reconcile_capacity api now vm ctx = Some (None, ctx')" "snap_Storage (sctx_VirtualMachineSnapshot ctx) = None"
  shows "CalculateReservedForSnapshotPerStorageClass (sa_Order api) (snap_client.truncate api)
    (sctx_VirtualMachineSnapshot ctx) = Some (Inr (requests_of (sctx_VirtualMachineSnapshot ctx')))"
proof -
  let ?s = "sctx_VirtualMachineSnapshot ctx"
  define ctx0 where "ctx0 = set_snapshot (?s\<lparr>snap_Storage := Some \<lparr>st_Used = None, st_Requested = None\<rparr>\<rparr>) ctx"
  from assms obtain ctx1 where calc: "calculateRequestedCapacity api ctx0 = Some (None, ctx1)"
    and rest: "ctx' = ctx1 \<or> reconcile_created api now vm ctx1 = Some (None, ctx')"
    by (auto simp: reconcile_capacity_def Let_def ctx0_def split: option.splits prod.splits if_splits)
  from calc have "CalculateReservedForSnapshotPerStorageClass (sa_Order api) (snap_client.truncate api)
      (sctx_VirtualMachineSnapshot ctx0) = Some (Inr (requests_of (sctx_VirtualMachineSnapshot ctx1)))"
    by (auto simp: calculateRequestedCapacity_def Let_def ctx0_def requests_of_def split: option.splits sum.splits)
  moreover have "requests_of (sctx_VirtualMachineSnapshot ctx') = requests_of (sctx_VirtualMachineSnapshot ctx1)"
    using rest reconcile_created_effect by blast
  ultimately show ?thesis using CalculateReserved_cong [of ?s "sctx_VirtualMachineSnapshot ctx0"] by (simp add: ctx0_def)
qed

lemma ReconcileNormal_requests:
  assumes "snap_ReconcileNormal api now ctx = Some (None, ctx')" "sctx_VirtualMachineSnapshot ctx = s"
    and "snap_Finalizer \<in> set (snap_Finalizers s)" "snap_Storage s = None"
  shows "CalculateReservedForSnapshotPerStorageClass (sa_Order api) (snap_client.truncate api) s =
    Some (Inr (requests_of (sctx_VirtualMachineSnapshot ctx')))"
proof -
  from assms obtain refs v vm where "reconcile_capacity api now vm
      (set_snapshot (ensureVMNameLabel s\<lparr>snap_OwnerReferences := refs\<rparr>) (ctx\<lparr>sctx_VM := v\<rparr>)) = Some (None, ctx')"
    by (auto simp: snap_ReconcileNormal_def Let_def split: if_splits sum.splits)
  from reconcile_capacity_requests [OF this] assms(4)
  have "CalculateReservedForSnapshotPerStorageClass (sa_Order api) (snap_client.truncate api)
      (ensureVMNameLabel s\<lparr>snap_OwnerReferences := refs\<rparr>) = Some (Inr (requests_of (sctx_VirtualMachineSnapshot ctx')))"
    by (simp add: ensureVMNameLabel_def)
  then show ?thesis using CalculateReserved_cong [of s "ensureVMNameLabel s\<lparr>snap_OwnerReferences := refs\<rparr>"]
    by (simp add: ensureVMNameLabel_def)
qed

text \<open>
  C10. The capacity the quota webhook reports for a snapshot that is created is, for every storage class, the capacity
  that is published as reserved once the controller has reconciled the snapshot, as long as the CSI driver is not done
  and the machine, whose state is the same for both, is not being deleted.
\<close>

theorem granted_capacity_published:
  assumes "map_order (qa_Order qapi)" "map_order (sa_Order api)"
    and "snap_client.truncate qapi = snap_client.truncate api"
    and "raw_Converted obj = Inr s0" "snapq_HandleCreate qapi obj = Some r" "ar_Allowed (cap_Response r)"
    and "sa_Get api name = Inr s" "snap_VMName s = snap_VMName s0" "snap_Memory s = snap_Memory s0"
    and "time_IsZero (snap_DeletionTimestamp s)" "snap_Finalizer \<in> set (snap_Finalizers s)" "snap_Storage s = None"
    and "\<not> sync_completed s" "vmDeletionState vms (snap_VMName s) \<noteq> Some True"
    and "snap_Reconcile api now name = Some (None, S, Some s')"
  shows "reserved_share vms sc s' = granted (capacities r) sc"
proof -
  let ?ctx = "\<lparr>sctx_VirtualMachineSnapshot = s, sctx_VM = None, sctx_StorageClassesToSync = {}\<rparr>"
  let ?cl = "snap_client.truncate api"
  from assms(7,10,15) obtain ctx' where run: "snap_ReconcileNormal api now ?ctx = Some (None, ctx')"
    and s': "s' = reconcileSnapshotReadyCondition now (sctx_VirtualMachineSnapshot ctx')"
    by (auto simp: snap_Reconcile_def Let_def split: if_splits)
  from ReconcileNormal_requests [OF run _ assms(11,12)]
  have reqs: "CalculateReservedForSnapshotPerStorageClass (sa_Order api) ?cl s = Some (Inr (requests_of s'))" by (simp add: s')
  then obtain vm where vm: "sc_GetVM ?cl (snap_VMName s) = Inr vm" and name: "snap_VMName s \<noteq> []"
    by (auto simp: CalculateReserved_run)
  have amount: "requested_amount (requests_of s') sc = reserved_for ?cl s vm sc"
    using reserved_amounts [OF assms(2) vm reqs] by blast
  from assms(3-6) obtain reqs' caps where
      reqs': "CalculateReservedForSnapshotPerStorageClass (qa_Order qapi) ?cl s0 = Some (Inr reqs')"
    and caps: "snapshot_capacities qapi reqs' = Some (Inr caps)" "capacities r = caps"
    by (auto simp: snapq_HandleCreate_def respond_def admission_Errored_def get_status_def capacities_def
        split: option.splits sum.splits dest!: snapshot_capacities_error)
  from reserved_amounts [OF assms(1) _ reqs'] vm assms(8)
  have "distinct (map req_StorageClass reqs')" "requested_amount reqs' sc = reserved_for ?cl s0 vm sc" by auto
  with snapshot_capacities_granted [OF caps(1)] caps(2) have "granted (capacities r) sc = reserved_for ?cl s vm sc"
    using reserved_for_cong [OF assms(9), of ?cl vm sc] by simp
  moreover have "same_meta s s'"
    using ReconcileNormal_effect [OF run] by (auto simp: effect_def same_meta_def sync_completed_def Let_def s')
  ultimately show ?thesis using amount assms(10,13,14) name
    by (simp add: reserved_share_def live_def same_meta_def)
qed

definition sorted_api :: "int snap_api" where
  "sorted_api = (snapshot_api db_VM adopted 7)\<lparr>sa_Order := sorted_keys\<rparr>"

definition request_object :: "int VirtualMachineSnapshot raw_object" where
  "request_object = \<lparr>raw_Annotations = None, raw_DeletionTimestamp = 0, raw_Converted = Inr nightly\<rparr>"

lemma example_clients:
  "snap_client.truncate sorted_api = db_client" "snap_client.truncate quota_example = db_client"
proof -
  have "svm_Name db_VM = ''db''" by (simp add: db_VM_def)
  then show "snap_client.truncate sorted_api = db_client" "snap_client.truncate quota_example = db_client"
    by (simp_all add: sorted_api_def snapshot_api_def quota_example_def snap_client.defs db_client_def)
qed

lemma example_answer:
  "snapq_HandleCreate quota_example request_object = Some \<lparr>cap_RequestedCapacities = Some
     [\<lparr>rc_Capacity = 14, rc_StorageClassName = ''gold'', rc_StoragePolicyID = [], rc_Reason = []\<rparr>,
      \<lparr>rc_Capacity = 20, rc_StorageClassName = ''silver'', rc_StoragePolicyID = [], rc_Reason = []\<rparr>],
     cap_Response = admission_Allowed []\<rparr>"
proof -
  have "qa_Order quota_example = sorted_keys" "qa_GetStorageClass quota_example = (\<lambda>n. Inr None)"
    by (simp_all add: quota_example_def snap_client.defs)
  then show ?thesis
    by (simp add: snapq_HandleCreate_def request_object_def example_clients db_requested map_value_def labels_of_def)
qed

lemma example_reconcile:
  "\<exists>S s'. snap_Reconcile sorted_api 5 ''nightly'' = Some (None, S, Some s')"
proof -
  have calc: "CalculateReservedForSnapshotPerStorageClass sorted_keys db_client s = Some (Inr
      [\<lparr>req_StorageClass = ''gold'', req_Total = Some 14\<rparr>, \<lparr>req_StorageClass = ''silver'', req_Total = Some 20\<rparr>])"
    if "snap_VMName s = ''db''" "snap_Memory s" for s :: "int VirtualMachineSnapshot"
    using db_requested CalculateReserved_cong [of s nightly] that by (simp add: nightly_def)
  have vm: "svm_Name db_VM = ''db''" "svm_UniqueID db_VM \<noteq> []" by (simp_all add: db_VM_def)
  have s: "snap_Finalizer \<in> set (snap_Finalizers adopted)" "snap_VMName adopted = ''db''" "snap_Memory adopted"
    "snap_Name adopted = ''nightly''" "snap_Storage adopted = None" "snap_Conditions adopted = []" "snap_DeletionTimestamp adopted = 0"
    by (simp_all add: adopted_def nightly_def)
  have api: "sc_GetVM sorted_api ''db'' = Inr db_VM" "sa_SetOwnerReference sorted_api v refs = Inr refs"
    "sa_Order sorted_api = sorted_keys" "sa_Get sorted_api ''nightly'' = Inr adopted" "sa_Patch sorted_api t = None" for v refs t
    using vm s by (simp_all add: sorted_api_def snapshot_api_def)
  have "\<exists>ctx'. snap_ReconcileNormal sorted_api 5
      \<lparr>sctx_VirtualMachineSnapshot = adopted, sctx_VM = None, sctx_StorageClassesToSync = {}\<rparr> = Some (None, ctx')"
    using vm s api
    by (simp add: snap_ReconcileNormal_def ensureVMNameLabel_def reconcile_capacity_def calculateRequestedCapacity_def
        example_clients calc Conditions_IsTrue_def Let_def)
  then show ?thesis using s api by (auto simp: snap_Reconcile_def time_IsZero_def Let_def)
qed

theorem granted_capacity_published_witness:
  "\<exists>S s'. snap_Reconcile sorted_api 5 ''nightly'' = Some (None, S, Some s') \<and> reserved_share [db_VM] ''gold'' s' = 14"
proof -
  from example_reconcile obtain S s' where run: "snap_Reconcile sorted_api 5 ''nightly'' = Some (None, S, Some s')" by blast
  have order: "map_order (qa_Order quota_example)" "map_order (sa_Order sorted_api)"
    using map_order_sorted_keys by (simp_all add: quota_example_def sorted_api_def snap_client.defs)
  have same: "snap_client.truncate quota_example = snap_client.truncate sorted_api" by (simp add: example_clients)
  have get: "raw_Converted request_object = Inr nightly" "sa_Get sorted_api ''nightly'' = Inr adopted"
    "snap_VMName adopted = snap_VMName nightly" "snap_Memory adopted = snap_Memory nightly" "snap_Storage adopted = None"
    by (simp_all add: request_object_def sorted_api_def snapshot_api_def adopted_def nightly_def)
  have h: "time_IsZero (snap_DeletionTimestamp adopted)" "snap_Finalizer \<in> set (snap_Finalizers adopted)"
    "\<not> sync_completed adopted" "vmDeletionState [db_VM] (snap_VMName adopted) \<noteq> Some True" by code_simp+
  from granted_capacity_published [OF order same get(1) example_answer _ get(2-4) h(1,2) get(5) h(3,4) run, of "''gold''"] run
  show ?thesis by (simp add: admission_Allowed_def capacities_def granted_def)
qed

end
