(* ===== verification/Snapshot_Admission.thy ===== *)
theory Snapshot_Admission
  imports Storage_Quota
begin

text \<open>
  The admission of requests for snapshots: the handlers of \<^verbatim>\<open>pkg/builder/mutating_webhook.go\<close> and
  \<^verbatim>\<open>pkg/builder/validating_webhook.go\<close> around the webhooks of snapshots, with the requests they let pass without a
  validation, and the invariant that every sequence of validated requests keeps: the machine of a snapshot never
  changes and its label names it. Whether the client of a webhook is verified is an argument; the objects of a
  request come decoded.
\<close>

section \<open>The handlers\<close>

record 'q snap_request =
  srq_Operation :: operation
  srq_Object :: "goerror + 'q VirtualMachineSnapshot"
  srq_OldObject :: "goerror + 'q VirtualMachineSnapshot"

text \<open>
  An answer allows a request with a message, allows it with a changed object, or rejects it for an error or for the
  errors of the validation.
\<close>

datatype 'q snap_response =
    Allowed string
  | Patched "'q VirtualMachineSnapshot"
  | Denied "field_Error list"
  | Errored goerror

text \<open>\<^verbatim>\<open>None\<close> is the panic on an operation that has neither object, whose name is read.\<close>

definition mutating_Handle :: "goerror option \<Rightarrow> 'q snap_request \<Rightarrow> 'q snap_response option" where
  "mutating_Handle verified req =
     (let mutate = (\<lambda>obj. case snap_Mutate (srq_Operation req) obj of None \<Rightarrow> Allowed [] | Some modified \<Rightarrow> Patched modified)
      in case verified of
        Some err \<Rightarrow> Some (Errored err)
      | None \<Rightarrow>
          (case srq_Operation req of
             Create \<Rightarrow> (case srq_Object req of Inl err \<Rightarrow> Some (Errored err) | Inr obj \<Rightarrow> Some (mutate obj))
           | Update \<Rightarrow>
               (case srq_Object req of
                  Inl err \<Rightarrow> Some (Errored err)
                | Inr obj \<Rightarrow>
                    if \<not> time_IsZero (snap_DeletionTimestamp obj) then Some (Allowed AdmitMesgUpdateOnDeleting)
                    else (case srq_OldObject req of Inl err \<Rightarrow> Some (Errored err) | Inr old \<Rightarrow> Some (mutate obj)))
           | Delete_op \<Rightarrow> (case srq_OldObject req of Inl err \<Rightarrow> Some (Errored err) | Inr old \<Rightarrow> Some (mutate old))
           | Connect \<Rightarrow> None))"

definition validation_response :: "field_Error list \<Rightarrow> 'q snap_response" where
  "validation_response errs = (if errs = [] then Allowed [] else Denied errs)"

definition HandleValidate ::
    "'q snap_client \<Rightarrow> (int option option \<Rightarrow> string) \<Rightarrow> operation \<Rightarrow> 'q VirtualMachineSnapshot \<Rightarrow>
     'q VirtualMachineSnapshot \<Rightarrow> 'q snap_response" where
  "HandleValidate cl showQuiesce op obj old =
     (if labels_of (snap_Annotations obj) SkipValidationAnnotationKey \<noteq> None then Allowed SkipValidationAllowed
      else case op of
        Create \<Rightarrow> validation_response (snap_ValidateCreate cl obj)
      | Update \<Rightarrow>
          if \<not> time_IsZero (snap_DeletionTimestamp obj) then Allowed AdmitMesgUpdateOnDeleting
          else validation_response (snap_ValidateUpdate showQuiesce obj old)
      | Delete_op \<Rightarrow> Allowed []
      | Connect \<Rightarrow> Allowed (operation_name op))"

definition validating_Handle ::
    "'q snap_client \<Rightarrow> (int option option \<Rightarrow> string) \<Rightarrow> goerror option \<Rightarrow> 'q snap_request \<Rightarrow> 'q snap_response" where
  "validating_Handle cl showQuiesce verified req =
     (let op = srq_Operation req
      in case verified of
        Some err \<Rightarrow> Errored err
      | None \<Rightarrow>
          (case op of
             Create \<Rightarrow> (case srq_Object req of Inl err \<Rightarrow> Errored err | Inr obj \<Rightarrow> HandleValidate cl showQuiesce op obj obj)
           | Update \<Rightarrow>
               (case srq_Object req of
                  Inl err \<Rightarrow> Errored err
                | Inr obj \<Rightarrow>
                    (case srq_OldObject req of Inl err \<Rightarrow> Errored err | Inr old \<Rightarrow> HandleValidate cl showQuiesce op obj old))
           | Delete_op \<Rightarrow> (case srq_OldObject req of Inl err \<Rightarrow> Errored err | Inr old \<Rightarrow> HandleValidate cl showQuiesce op old old)
           | Connect \<Rightarrow> Allowed (operation_name op)))"

section \<open>Sequences of admitted requests\<close>

text \<open>
  What the API server stores for a request to create or update: the object of the mutation webhook, when both
  webhooks allow it.
\<close>

definition admit ::
    "'q snap_client \<Rightarrow> (int option option \<Rightarrow> string) \<Rightarrow> 'q snap_request \<Rightarrow> 'q VirtualMachineSnapshot option" where
  "admit cl showQuiesce req =
     (case (mutating_Handle None req, srq_Object req) of
        (Some response, Inr obj) \<Rightarrow>
          (let obj = (case response of Patched modified \<Rightarrow> modified | _ \<Rightarrow> obj)
           in case (response, validating_Handle cl showQuiesce None (req\<lparr>srq_Object := Inr obj\<rparr>)) of
                (Errored err, _) \<Rightarrow> None
              | (_, Allowed msg) \<Rightarrow> Some obj
              | _ \<Rightarrow> None)
      | _ \<Rightarrow> None)"

text \<open>The requests that pass without a validation.\<close>

definition bypasses :: "'q snap_request \<Rightarrow> bool" where
  "bypasses req \<longleftrightarrow>
     (case srq_Object req of
        Inl err \<Rightarrow> False
      | Inr obj \<Rightarrow> labels_of (snap_Annotations obj) SkipValidationAnnotationKey \<noteq> None \<or>
          srq_Operation req = Update \<and> \<not> time_IsZero (snap_DeletionTimestamp obj))"

text \<open>
  The life of a snapshot that was created by a request for \<^verbatim>\<open>s\<close>: any number of admitted updates, and the mark of a
  deletion that is allowed. The flag says whether a request has passed without a validation.
\<close>

inductive snapshot_history ::
    "'q snap_client \<Rightarrow> (int option option \<Rightarrow> string) \<Rightarrow> 'q VirtualMachineSnapshot \<Rightarrow> bool \<Rightarrow> 'q VirtualMachineSnapshot \<Rightarrow> bool"
  for cl showQuiesce where
  created: "srq_Operation req = Create \<Longrightarrow> srq_Object req = Inr s \<Longrightarrow> admit cl showQuiesce req = Some t \<Longrightarrow>
    snapshot_history cl showQuiesce s (bypasses req) t"
| updated: "snapshot_history cl showQuiesce s b old \<Longrightarrow> srq_Operation req = Update \<Longrightarrow> srq_OldObject req = Inr old \<Longrightarrow>
    admit cl showQuiesce req = Some t \<Longrightarrow> snapshot_history cl showQuiesce s (b \<or> bypasses req) t"
| deleted: "snapshot_history cl showQuiesce s b old \<Longrightarrow> srq_Operation req = Delete_op \<Longrightarrow> srq_OldObject req = Inr old \<Longrightarrow>
    validating_Handle cl showQuiesce None req = Allowed msg \<Longrightarrow>
    snapshot_history cl showQuiesce s b (old\<lparr>snap_DeletionTimestamp := now\<rparr>)"

text \<open>The object that the mutation webhook leaves.\<close>

definition mutated :: "operation \<Rightarrow> 'q VirtualMachineSnapshot \<Rightarrow> 'q VirtualMachineSnapshot" where
  "mutated op s = (case snap_Mutate op s of None \<Rightarrow> s | Some modified \<Rightarrow> modified)"

lemma mutated_fields [simp]:
  "snap_VMName (mutated op s) = snap_VMName s" "snap_Memory (mutated op s) = snap_Memory s"
  "snap_Quiesce (mutated op s) = snap_Quiesce s" "snap_Annotations (mutated op s) = snap_Annotations s"
  "snap_DeletionTimestamp (mutated op s) = snap_DeletionTimestamp s"
  by (auto simp: mutated_def snap_Mutate_def SetVMNameLabel_def)

lemma mutated_label:
  assumes "op = Create \<or> op = Update" "snap_VMName s \<noteq> []" "vmNameLabelMismatchErr (mutated op s) = []"
  shows "labels_of (snap_Labels (mutated op s)) VMNameForSnapshotLabel = Some (snap_VMName s)"
  using assms
  by (auto simp: mutated_def snap_Mutate_def SetVMNameLabel_def SetMetaDataLabel_def labels_of_def
      vmNameLabelMismatchErr_def split: option.splits if_splits)

text \<open>A validated request stores the mutated object, which the validation accepts.\<close>

lemma admit_mutated:
  assumes "admit cl showQuiesce req = Some t" "srq_Object req = Inr s"
    and "srq_Operation req = Create \<or> srq_Operation req = Update \<and> time_IsZero (snap_DeletionTimestamp s)"
  shows "t = mutated (srq_Operation req) s \<and>
    (\<exists>msg. validating_Handle cl showQuiesce None (req\<lparr>srq_Object := Inr t\<rparr>) = Allowed msg)"
proof (cases "snap_Mutate (srq_Operation req) s")
  case None
  with assms show ?thesis
    by (auto simp: admit_def mutating_Handle_def mutated_def Let_def split: snap_response.splits sum.splits)
next
  case (Some m)
  with assms show ?thesis
    by (auto simp: admit_def mutating_Handle_def mutated_def Let_def split: snap_response.splits sum.splits)
qed

lemma admit_create:
  assumes "admit cl showQuiesce req = Some t" "srq_Operation req = Create" "srq_Object req = Inr s" "\<not> bypasses req"
  shows "t = mutated Create s \<and> snap_ValidateCreate cl t = []"
  using admit_mutated [OF assms(1,3)] assms(2-4)
  by (auto simp: validating_Handle_def HandleValidate_def bypasses_def validation_response_def split: if_splits)

lemma admit_update:
  assumes "admit cl showQuiesce req = Some t" "srq_Operation req = Update" "srq_OldObject req = Inr old" "\<not> bypasses req"
  obtains new where "srq_Object req = Inr new" "t = mutated Update new" "snap_ValidateUpdate showQuiesce t old = []"
proof -
  obtain new where new: "srq_Object req = Inr new" using assms(1) by (auto simp: admit_def split: option.splits sum.splits)
  with assms have "time_IsZero (snap_DeletionTimestamp new)" by (simp add: bypasses_def)
  with admit_mutated [OF assms(1) new] assms(2-4) new that show thesis
    by (auto simp: validating_Handle_def HandleValidate_def bypasses_def validation_response_def split: if_splits)
qed

text \<open>
  C23. A snapshot keeps the machine, the memory and the quiesce options it was created with, whatever updates and
  whatever deletion are admitted, as long as no request passes without a validation; its label names the machine,
  so that setting the label again changes nothing. A request passes without one when its object has the
  annotation that skips the validation, or when it updates an object that is being deleted.
\<close>

theorem snapshot_identity:
  assumes "snapshot_history cl showQuiesce s bypassed t" and "\<not> bypassed"
  shows "snap_VMName s \<noteq> [] \<and> snap_VMName t = snap_VMName s \<and> snap_Memory t = snap_Memory s \<and>
    snap_Quiesce t = snap_Quiesce s \<and>
    labels_of (snap_Labels t) VMNameForSnapshotLabel = Some (snap_VMName s) \<and>
    SetMetaDataLabel VMNameForSnapshotLabel (snap_VMName t) (snap_Labels t) = snap_Labels t"
proof -
  have "snap_VMName s \<noteq> [] \<and> snap_VMName t = snap_VMName s \<and> snap_Memory t = snap_Memory s \<and>
    snap_Quiesce t = snap_Quiesce s \<and>
    labels_of (snap_Labels t) VMNameForSnapshotLabel = Some (snap_VMName s)"
    using assms
  proof induction
    case (created req s t)
    then have t: "t = mutated Create s" "snap_ValidateCreate cl t = []" using admit_create by blast+
    then have "snap_VMName s \<noteq> []" "vmNameLabelMismatchErr t = []"
      by (auto simp: snap_ValidateCreate_def Let_def split: if_splits)
    then show ?case using mutated_label [of Create s] t(1) by simp
  next
    case (updated s b old req t)
    then have "\<not> bypasses req" by simp
    then obtain new where "t = mutated Update new" "snap_ValidateUpdate showQuiesce t old = []"
      using admit_update [OF updated.hyps(4,2,3)] by blast
    then show ?case using updated mutated_label [of Update new] by (simp add: snap_ValidateUpdate_def)
  qed simp
  then show ?thesis
    by (cases "snap_Labels t") (auto simp: SetMetaDataLabel_def labels_of_def)
qed

definition no_objects :: "int snap_client" where
  "no_objects = \<lparr>sc_GetVM = \<lambda>n. Inl (NotFound n), sc_GetPVC = \<lambda>n. Inl (NotFound n)\<rparr>"

definition snap_update :: "int VirtualMachineSnapshot \<Rightarrow> int VirtualMachineSnapshot \<Rightarrow> int snap_request" where
  "snap_update new old = \<lparr>srq_Operation = Update, srq_Object = Inr new, srq_OldObject = Inr old\<rparr>"

definition snap_create :: "int VirtualMachineSnapshot \<Rightarrow> int snap_request" where
  "snap_create s = \<lparr>srq_Operation = Create, srq_Object = Inr s, srq_OldObject = Inl ''no object''\<rparr>"

lemma nightly_created: "snapshot_history no_objects (\<lambda>_. []) nightly False (mutated Create nightly)"
proof -
  have run: "\<not> Option.is_none (admit no_objects (\<lambda>_. []) (snap_create nightly))" "bypasses (snap_create nightly) = False"
    by code_simp+
  then obtain t where t: "admit no_objects (\<lambda>_. []) (snap_create nightly) = Some t" by (auto simp: Option.is_none_def)
  with admit_mutated [OF t] have "t = mutated Create nightly" by (simp add: snap_create_def)
  with snapshot_history.created [OF _ _ t] run(2) show ?thesis by (simp add: snap_create_def)
qed

lemma nightly_updated:
  assumes "\<not> Option.is_none (admit no_objects (\<lambda>_. []) (snap_update new (mutated Create nightly)))"
    and "snap_DeletionTimestamp new = 0"
  shows "snapshot_history no_objects (\<lambda>_. []) nightly (bypasses (snap_update new (mutated Create nightly))) (mutated Update new)"
proof -
  obtain t where t: "admit no_objects (\<lambda>_. []) (snap_update new (mutated Create nightly)) = Some t"
    using assms(1) by (auto simp: Option.is_none_def)
  with admit_mutated [OF t] assms(2) have "t = mutated Update new" by (simp add: snap_update_def time_IsZero_def)
  with snapshot_history.updated [OF nightly_created _ _ t] show ?thesis by (simp add: snap_update_def)
qed

theorem snapshot_identity_witness:
  "labels_of (snap_Labels (mutated Update (nightly\<lparr>snap_Description := ''weekly''\<rparr>))) VMNameForSnapshotLabel =
     Some ''db''"
proof -
  let ?new = "nightly\<lparr>snap_Description := ''weekly''\<rparr>" and ?old = "mutated Create nightly"
  have "\<not> Option.is_none (admit no_objects (\<lambda>_. []) (snap_update ?new ?old))" "snap_DeletionTimestamp ?new = 0"
    and valid: "\<not> bypasses (snap_update ?new ?old)"
    by code_simp+
  from snapshot_identity [OF nightly_updated [OF this(1,2)] valid] show ?thesis by (simp add: nightly_def)
qed

text \<open>An update that carries the annotation may give the snapshot another machine.\<close>

lemma bypass_changes_machine:
  "\<exists>t. snapshot_history no_objects (\<lambda>_. []) nightly True t \<and> snap_VMName t = ''web''"
proof -
  let ?new = "nightly\<lparr>snap_Annotations := Some [SkipValidationAnnotationKey \<mapsto> []], snap_VMName := ''web''\<rparr>"
    and ?old = "mutated Create nightly"
  have "\<not> Option.is_none (admit no_objects (\<lambda>_. []) (snap_update ?new ?old))" "snap_DeletionTimestamp ?new = 0"
    and "bypasses (snap_update ?new ?old)"
    by code_simp+
  with nightly_updated [OF this(1,2)] show ?thesis by (intro exI [of _ "mutated Update ?new"]) simp
qed

end
