(* ===== verification/Spec2Isabelle.thy ===== *)
theory Spec2Isabelle
  imports Condition_Patch Webhook_Slots Nic_Mutation Cdrom_Validation Replica_Sync Power_Laws Disk_Placement Controller_Reconcile
    Group_Members Group_Webhooks Group_Sync Snapshot_Ready Snapshot_Admission
begin

text \<open>
  Verification of the VM Operator, a Kubernetes operator that manages virtual machines on vSphere.

  \<^bold>\<open>The program.\<close> Users write Kubernetes objects: virtual machines, replica sets, groups and snapshots of them. An
  admission webhook first mutates an object (it fills in defaults, for example the controller and the unit number of a
  disk) and then validates it. Controllers reconcile the stored objects: they read an object, call the API server and
  a provider that talks to vSphere, and write the status with its conditions back. The parts below interact at three
  places that the development covers: a mutation webhook and the validation webhook that checks its result, the two
  ends of a link between objects (group and member, replica set and VM), and the amounts that one controller stores
  and another one publishes.

  \<^bold>\<open>How code is modelled.\<close> A Go struct is a record, an interface with known implementations a datatype, a string
  enumeration keeps its strings, a pointer or an optional field is an option, a map with string keys a partial
  function. A method is a function with the name of the method, prefixed where two methods share a name (\<open>vmg_\<close>
  VM groups, \<open>vc_\<close> virtual controllers, \<open>snap_\<close> snapshots, \<open>vmq_\<close> and \<open>snapq_\<close> the quota webhook, \<open>spu_\<close> the
  storage usage, \<open>Conditions_\<close> the slice type of the conditions). A loop is a function of its own on the rest of
  the slice. Code that mutates objects through pointers returns the changed objects, and a pointer into a slice is an
  index. Errors are values with the text the code produces. A panic (a nil pointer is dereferenced, a nil map
  written, an index out of range) is \<^verbatim>\<open>None\<close>. The clock, the configuration and the order in which Go ranges over a map
  are arguments. The API server, the provider, vSphere and the Kubernetes and vSphere libraries are not part of the
  sources: each component has a record of the calls it makes (\<open>rs_api\<close>, \<open>group_api\<close>, \<open>placement_api\<close>,
  \<open>snap_api\<close>, \<open>usage_api\<close>, \<open>quota_api\<close>, \<open>vsphere\<close>), and what a theorem needs of them is a named hypothesis
  (\<open>client_names\<close>, \<open>map_order\<close>, \<open>namespace_vms\<close>, \<open>power_laws\<close> and their like) that the witness discharges on a
  concrete instance.

  \<^bold>\<open>The theories.\<close>
  \<^item> \<^theory_text>\<open>VMOp_Prelude\<close>, \<^theory_text>\<open>Kube_Objects\<close>, \<^theory_text>\<open>Field_Errors\<close>, \<^theory_text>\<open>Go_Time\<close>: Go values, sorting (the locale
    \<open>strict_weak_order\<close>), lookups, object metadata, the errors of the webhooks, and times as text. \<open>Go_Time\<close>
    models \<^verbatim>\<open>time.RFC3339Nano\<close> and proves that parsing inverts printing.
  \<^item> \<^theory_text>\<open>Conditions\<close>, \<^theory_text>\<open>Condition_Merge\<close>, \<^theory_text>\<open>Condition_Patch\<close>: \<^verbatim>\<open>pkg/conditions\<close>. The locale
    \<open>condition_store\<close> is the contract of a store of conditions, which every controller below uses through its
    interpretation \<open>slice\<close>; the three-way patch is characterised with its conflicts.
  \<^item> \<^theory_text>\<open>VM_Types\<close>, \<^theory_text>\<open>Features\<close>, \<^theory_text>\<open>Hardware\<close>, \<^theory_text>\<open>Slots\<close>: \<^verbatim>\<open>api/v1alpha6\<close>,
    \<^verbatim>\<open>pkg/util/vmopv1/features.go\<close> and \<^verbatim>\<open>hardware.go\<close>. The locale \<open>unit_allocator\<close> is what the webhooks rely on
    when they ask for a unit number, \<open>counted_map\<close> what they rely on when they count controllers.
  \<^item> \<^theory_text>\<open>Controller_Mutation\<close>, \<^theory_text>\<open>Controller_Validation\<close>, \<^theory_text>\<open>Webhook_Slots\<close>, \<^theory_text>\<open>Nic_Mutation\<close>,
    \<^theory_text>\<open>Cdrom\<close>, \<^theory_text>\<open>Cdrom_Validation\<close>: \<^verbatim>\<open>webhooks/virtualmachine\<close>. A placement is fresh and valid, the mutation
    changes nothing else, it serves every device as long as a slot is left, and its result passes the validation.
  \<^item> \<^theory_text>\<open>Devices\<close>, \<^theory_text>\<open>Disk_Controllers\<close>, \<^theory_text>\<open>Disk_Placement\<close>: \<^verbatim>\<open>pkg/util/ensure_disk_controller.go\<close>. Every disk gets
    a slot of its own.
  \<^item> \<^theory_text>\<open>Virtual_Controllers\<close>, \<^theory_text>\<open>Controller_Convergence\<close>, \<^theory_text>\<open>Controller_Reconcile\<close>:
    \<^verbatim>\<open>pkg/vmconfig/virtualcontroller\<close>. The locale \<open>controller_family\<close>, interpreted for the four families of
    controllers, carries the proof that the device changes make the VM match its specification.
  \<^item> \<^theory_text>\<open>Power_State\<close>, \<^theory_text>\<open>Power_Laws\<close>: \<^verbatim>\<open>pkg/util/vsphere/vm/power_state.go\<close>. Setting a power state refines an
    abstract operation, and a restart happens at most once.
  \<^item> \<^theory_text>\<open>Label_Value\<close>, \<^theory_text>\<open>Replica_Set\<close>, \<^theory_text>\<open>Replica_Sync\<close>: \<^verbatim>\<open>controllers/virtualmachinereplicaset\<close>. Two scalings
    converge to the desired number of VMs, only VMs of the replica set are deleted, and the panics of a reconcile are
    characterised.
  \<^item> \<^theory_text>\<open>VM_Group\<close>, \<^theory_text>\<open>Group_Members\<close>, \<^theory_text>\<open>Group_Webhooks\<close>, \<^theory_text>\<open>Group_Placement\<close>, \<^theory_text>\<open>Group_Reconcile\<close>,
    \<^theory_text>\<open>Group_Sync\<close>: \<^verbatim>\<open>pkg/util/vmopv1/vmgroup.go\<close>, \<^verbatim>\<open>webhooks/virtualmachinegroup\<close> and
    \<^verbatim>\<open>controllers/virtualmachinegroup\<close>. The hierarchies whose members can be retrieved, the times of a boot order, the
    links between groups and members, the readiness of a group, and the termination of the placement.
  \<^item> \<^theory_text>\<open>Snapshot\<close>, \<^theory_text>\<open>Snapshot_Webhooks\<close>, \<^theory_text>\<open>Snapshot_Capacity\<close>, \<^theory_text>\<open>Snapshot_Controller\<close>: the types of
    snapshots, \<^verbatim>\<open>pkg/util/kube/vmsnapshot.go\<close>, \<^verbatim>\<open>webhooks/virtualmachinesnapshot\<close> and
    \<^verbatim>\<open>controllers/virtualmachinesnapshot\<close>. \<^theory_text>\<open>Storage_Usage\<close> is
    \<^verbatim>\<open>controllers/virtualmachine/storagepolicyusage\<close> and \<^theory_text>\<open>Storage_Quota\<close> is
    \<^verbatim>\<open>webhooks/unifiedstoragequota\<close>. \<^theory_text>\<open>Snapshot_Usage\<close> and \<^theory_text>\<open>Snapshot_Ready\<close> put the three together: the capacity
    the webhook grants, the controller stores and the usage publishes are the same, and a change is published, but for
    the exception the theorems name. \<^theory_text>\<open>Snapshot_Admission\<close> adds the handlers of \<^verbatim>\<open>pkg/builder\<close> around the webhooks
    of snapshots: a snapshot keeps its machine as long as no request passes without a validation.
  \<^item> \<^theory_text>\<open>Bitmask\<close>: \<^verbatim>\<open>pkg/bitmask\<close>, with what its printing loop returns and when it panics.

  \<^bold>\<open>Bounds and fuel.\<close> Recursion is structural or has a termination proof, with one exception. The
  placement of nested groups takes fuel: the depth of the hierarchy is enough, and no fuel is enough when the first
  members of the groups lead round a cycle of linked groups. The counter of the printing loop of a bit mask is a Go
  \<^verbatim>\<open>int\<close> of 32 or 64 bits that wraps around, and a shift by a negative count is the panic \<^verbatim>\<open>None\<close>.
  Words are used for the feature mask, bit masks and hashes. The other integers are unbounded, with the wrap-around
  written out for unit numbers and for the 64-bit size of a swap file.

  \<^bold>\<open>Correspondence.\<close> The string constants of the API types are definitions with the names of the source; they are read
  at their use and not listed one by one in the correspondence between definitions and source lines.

  \<^bold>\<open>Not modelled.\<close> The vSphere provider and the controllers that mainly call it (virtual machines, volumes, images,
  content libraries, publishing, services, web consoles), since what they do is decided by vSphere and its library;
  the conversions between API versions, which are generated copies; the rendering of bootstrap data, the encoding and
  decoding of JSON and the HTTP transport; the registration of controllers and webhooks, watches and concurrency: a
  reconcile is one sequential step between two states of the API server. Of the validation of a virtual machine only
  the placement of devices is modelled, and of the other reconcilers of its configuration only virtual controllers.
\<close>

end
